(* ===== verification/QtPrelude.thy ===== *)
theory QtPrelude
  imports Main "HOL-Library.Word"
begin

section \<open>Shared types, outcomes and lemmas\<close>

text \<open>
  What every component of the model shares:
  \<^item> byte arrays (\<open>QByteArray\<close>) as lists of 8-bit words and the 32-bit signed \<open>int\<close> of the
    platform as \<open>int\<close> with its range written out;
  \<^item> the outcome of a C++ call: a value, a C++ exception, behaviour the language leaves
    undefined, or no result because the fuel of a loop was used up (the loop goes on);
  \<^item> generic list and word lemmas used by the codecs.
\<close>

unbundle bit_operations_syntax

named_theorems codec_simps \<open>rewrite rules that run the byte level codecs on a positioned iterator\<close>
named_theorems wire_defs \<open>definitions of the wire level operations\<close>

type_synonym byte = "8 word"
type_synonym bytes = "byte list"

text \<open>A \<open>QString\<close> is a sequence of 16-bit code units.\<close>

type_synonym qstring = "16 word list"

text \<open>A literal of Latin-1 characters.\<close>

definition qs :: "string \<Rightarrow> qstring" where
  "qs s = map of_char s"

text \<open>A byte array literal.\<close>

definition ascii :: "string \<Rightarrow> bytes" where
  "ascii s = map of_char s"

subsection \<open>Outcomes of C++ calls\<close>

text \<open>The standard exceptions the sources throw, directly or through a library call.\<close>

datatype exn = Out_of_range | Invalid_argument | Bad_function_call | Runtime_error | Length_error

text \<open>Undefined behaviour the sources can run into.\<close>

datatype undefined_behaviour = Overread | Shift_too_far | Int_overflow | Null_dereference | Bad_cast
  | Invalid_iterator | Use_after_free | Broken_contract

datatype failure = Exn exn | UB undefined_behaviour

datatype 'a outcome = Ret 'a | Fail failure | No_fuel

fun and_then :: "'a outcome \<Rightarrow> ('a \<Rightarrow> 'b outcome) \<Rightarrow> 'b outcome" where
  "and_then (Ret x) f = f x"
| "and_then (Fail e) f = Fail e"
| "and_then No_fuel f = No_fuel"

abbreviation throw :: "exn \<Rightarrow> 'a outcome" where
  "throw e \<equiv> Fail (Exn e)"

abbreviation undefined_by :: "undefined_behaviour \<Rightarrow> 'a outcome" where
  "undefined_by u \<equiv> Fail (UB u)"

lemma and_then_Ret_iff:
  "and_then m f = Ret y \<longleftrightarrow> (\<exists>x. m = Ret x \<and> f x = Ret y)"
  by (cases m) auto

lemma and_then_assoc: "and_then (and_then m f) g = and_then m (\<lambda>x. and_then (f x) g)"
  by (cases m) auto

lemma and_then_cong [fundef_cong]:
  "m = m' \<Longrightarrow> (\<And>x. m' = Ret x \<Longrightarrow> f x = g x) \<Longrightarrow> and_then m f = and_then m' g"
  by (cases m') auto

lemma and_then_No_fuel_iff:
  "and_then m f = No_fuel \<longleftrightarrow> m = No_fuel \<or> (\<exists>x. m = Ret x \<and> f x = No_fuel)"
  by (cases m) auto

subsection \<open>The platform's 32-bit int\<close>

definition INT_MAX :: int where "INT_MAX = 2147483647"
definition INT_MIN :: int where "INT_MIN = -2147483648"

definition in_int :: "int \<Rightarrow> bool" where
  "in_int i \<longleftrightarrow> INT_MIN \<le> i \<and> i \<le> INT_MAX"

text \<open>Conversion of an integer to \<open>int\<close> keeps the low 32 bits, in two's complement.\<close>

definition to_int :: "int \<Rightarrow> int" where
  "to_int i = sint (word_of_int i :: 32 word)"

lemmas int_limits = INT_MAX_def INT_MIN_def in_int_def

lemma to_int_id [simp]: "in_int i \<Longrightarrow> to_int i = i"
  by (simp add: to_int_def int_limits signed_of_int signed_take_bit_int_eq_self_iff)

lemma to_int_nat [simp]: "n < 2147483648 \<Longrightarrow> to_int (int n) = int n"
  by (simp add: int_limits)

lemma in_int_to_int: "in_int (to_int i)"
  using sint_greater_eq [of "word_of_int i :: 32 word"] sint_less [of "word_of_int i :: 32 word"]
  by (simp add: to_int_def int_limits)

subsection \<open>Words\<close>

lemma unat_drop_bit_7: "unat (drop_bit 7 v) = unat v div 128"
  unfolding unat_drop_bit_eq by (simp add: drop_bit_eq_div)

lemma unat_and_127: "unat (v AND 0x7F) = unat v mod 128" for v :: "'a::len word"
proof -
  have "v AND 0x7F = take_bit 7 v"
    by (simp add: take_bit_eq_mask mask_eq_exp_minus_1)
  then show ?thesis
    by (simp add: unsigned_take_bit_eq) (simp add: take_bit_eq_mod)
qed

lemma unat_of_nat_32: "n < 2 ^ 32 \<Longrightarrow> unat (word_of_nat n :: 32 word) = n"
  by (simp add: unat_of_nat)

lemma uint_of_nat_32: "n < 2 ^ 32 \<Longrightarrow> uint (word_of_nat n :: 32 word) = int n"
  unfolding uint_nat by (simp add: unat_of_nat_32)

lemma uint_word_of_int_32: "0 \<le> k \<Longrightarrow> k < 2 ^ 32 \<Longrightarrow> uint (word_of_int k :: 32 word) = k"
  by (simp add: uint_word_of_int)

text \<open>Narrowing a word is a homomorphism of addition.\<close>

lemma ucast_narrow_add:
  "LENGTH('a::len) \<le> LENGTH('b::len) \<Longrightarrow>
     (ucast (x + y :: 'b word) :: 'a word) = ucast x + ucast y"
proof -
  assume le: "LENGTH('a) \<le> LENGTH('b)"
  have narrow: "(word_of_int (take_bit LENGTH('b) z) :: 'a word) = word_of_int z" for z
    using le by (simp add: word_of_int_eq_iff min_absorb1)
  have "(ucast (x + y) :: 'a word) = word_of_int (uint (x + y))"
    by (simp only: of_int_uint)
  also have "\<dots> = word_of_int (take_bit LENGTH('b) (uint x + uint y))"
    by (simp only: uint_word_ariths take_bit_eq_mod)
  also have "\<dots> = word_of_int (uint x) + word_of_int (uint y)"
    by (simp only: narrow of_int_add)
  finally show ?thesis by (simp only: of_int_uint)
qed

lemma ucast_narrow_widen:
  "LENGTH('a::len) \<le> LENGTH('b::len) \<Longrightarrow> (ucast (ucast w :: 'b word) :: 'a word) = (w :: 'a word)"
  by transfer (simp add: min_def)

lemma split_low7: "w = (w AND 0x7F) + push_bit 7 (drop_bit 7 w)" for w :: "'a::len word"
proof -
  have "w AND 0x7F = take_bit 7 w"
    by (simp add: take_bit_eq_mask mask_eq_exp_minus_1)
  moreover have "push_bit 7 (drop_bit 7 w) + take_bit 7 w = w"
    by (rule bits_ident)
  ultimately show ?thesis by (simp add: add.commute)
qed

subsection \<open>Lists\<close>

lemma concat_map_snoc: "concat (map f (xs @ [x])) = concat (map f xs) @ f x"
  by simp

lemma butlast_snoc_last: "xs \<noteq> [] \<Longrightarrow> butlast xs @ [last xs] = xs"
  by simp

lemma length_concat_map_ge:
  "(\<And>x. x \<in> set xs \<Longrightarrow> f x \<noteq> []) \<Longrightarrow> length xs \<le> length (concat (map f xs))"
proof (induction xs)
  case Nil
  then show ?case by simp
next
  case (Cons x xs)
  then have "length xs \<le> length (concat (map f xs))" and "0 < length (f x)"
    by auto
  then show ?case unfolding list.map concat.simps length_append list.size by linarith
qed

end
