(* ===== verification/SelfcheckIterator.thy ===== *)
theory SelfcheckIterator
  imports QtPrelude
begin

section \<open>QProtobufSelfcheckIterator\<close>

text \<open>
  The iterator every deserializer reads through (\<open>qprotobufselfcheckiterator.h\<close>). It counts the
  bytes left (\<open>m_sizeLeft\<close>) and throws \<open>std::out_of_range\<close> when a move forward would pass the end
  of the container. \<open>it_container\<close> is the memory the pointer \<open>m_it\<close> points into; \<open>m_it\<close> is the offset
  in it, an \<open>int\<close> because nothing in the class keeps it from moving in front of the container.
\<close>

record selfcheck_iterator =
  it_container :: bytes
  m_sizeLeft :: int
  m_containerSize :: int
  m_it :: int

definition it_begin :: "bytes \<Rightarrow> selfcheck_iterator" where
  "it_begin data = \<lparr>it_container = data, m_sizeLeft = to_int (int (length data)),
     m_containerSize = to_int (int (length data)), m_it = 0\<rparr>"

text \<open>The copy constructor refuses an iterator whose counter left its range.\<close>

definition it_copy :: "selfcheck_iterator \<Rightarrow> selfcheck_iterator outcome" where
  "it_copy other =
     (if m_sizeLeft other > m_containerSize other \<or> m_sizeLeft other < 0 then throw Out_of_range
      else Ret other)"

text \<open>
  \<open>operator *\<close>. A \<open>QByteArray\<close> keeps a terminating zero byte behind its data, so reading at the end
  of the container is defined; reading anywhere else outside is not.
\<close>

definition it_deref :: "selfcheck_iterator \<Rightarrow> byte outcome" where
  "it_deref it =
     (if 0 \<le> m_it it \<and> m_it it < int (length (it_container it))
      then Ret (it_container it ! nat (m_it it))
      else if m_it it = int (length (it_container it)) then Ret 0
      else undefined_by Overread)"

definition it_incr :: "selfcheck_iterator \<Rightarrow> selfcheck_iterator outcome" where
  "it_incr it =
     (let left = m_sizeLeft it - 1 in
      if \<not> in_int left then undefined_by Int_overflow
      else if left < 0 then throw Out_of_range
      else Ret (it\<lparr>m_sizeLeft := left, m_it := m_it it + 1\<rparr>))"

definition it_decr :: "selfcheck_iterator \<Rightarrow> selfcheck_iterator outcome" where
  "it_decr it =
     (let left = m_sizeLeft it + 1 in
      if \<not> in_int left then undefined_by Int_overflow
      else if left > m_containerSize it then throw Out_of_range
      else Ret (it\<lparr>m_sizeLeft := left, m_it := m_it it - 1\<rparr>))"

text \<open>\<open>operator +=\<close>: its argument is an \<open>int\<close>; a negative one passes the check.\<close>

definition it_advance :: "selfcheck_iterator \<Rightarrow> int \<Rightarrow> selfcheck_iterator outcome" where
  "it_advance it count =
     (let left = m_sizeLeft it - count in
      if \<not> in_int left then undefined_by Int_overflow
      else if left < 0 then throw Out_of_range
      else Ret (it\<lparr>m_sizeLeft := left, m_it := m_it it + count\<rparr>))"

definition it_retreat :: "selfcheck_iterator \<Rightarrow> int \<Rightarrow> selfcheck_iterator outcome" where
  "it_retreat it count =
     (let left = m_sizeLeft it + count in
      if \<not> in_int left then undefined_by Int_overflow
      else if left > m_containerSize it then throw Out_of_range
      else Ret (it\<lparr>m_sizeLeft := left, m_it := m_it it - count\<rparr>))"

text \<open>\<open>operator =\<close> from another iterator; \<open>same\<close> says that both are the same object.\<close>

definition it_assign :: "bool \<Rightarrow> selfcheck_iterator \<Rightarrow> selfcheck_iterator \<Rightarrow>
    selfcheck_iterator outcome" where
  "it_assign same it other =
     (if same then Ret it
      else if m_sizeLeft other > m_containerSize other \<or> m_sizeLeft other < 0
      then throw Out_of_range
      else Ret other)"

text \<open>\<open>operator ==\<close> and \<open>!=\<close> compare the pointers only.\<close>

definition it_eq :: "selfcheck_iterator \<Rightarrow> selfcheck_iterator \<Rightarrow> bool" where
  "it_eq it other \<longleftrightarrow> m_it other = m_it it"

text \<open>Comparison with \<open>data.end()\<close> of the container the iterator was built from.\<close>

definition it_at_end :: "selfcheck_iterator \<Rightarrow> bool" where
  "it_at_end it \<longleftrightarrow> m_it it = int (length (it_container it))"

definition it_size :: "selfcheck_iterator \<Rightarrow> int" where
  "it_size it = m_sizeLeft it"

text \<open>\<open>data()\<close>: the memory from the current position on.\<close>

definition it_data :: "selfcheck_iterator \<Rightarrow> bytes" where
  "it_data it = drop (nat (m_it it)) (it_container it)"

text \<open>
  The free \<open>operator +\<close>: a copy, moved forward, and copied again into the result, so that the copy
  constructor sees the moved counter.
\<close>

definition it_plus :: "selfcheck_iterator \<Rightarrow> int \<Rightarrow> selfcheck_iterator outcome" where
  "it_plus it lenght =
     and_then (it_copy it) (\<lambda>itNew. and_then (it_advance itNew lenght) it_copy)"

lemmas it_defs [wire_defs] = it_copy_def it_deref_def it_incr_def it_decr_def it_advance_def
  it_retreat_def it_assign_def it_eq_def it_at_end_def it_size_def it_data_def it_plus_def

subsection \<open>Positions\<close>

text \<open>
  A well formed iterator splits its container into what was read and what is left; \<open>it_at pre rest\<close>
  is that iterator. All codec lemmas are rewrite rules on it.
\<close>

definition it_at :: "bytes \<Rightarrow> bytes \<Rightarrow> selfcheck_iterator" where
  "it_at pre rest = \<lparr>it_container = pre @ rest, m_sizeLeft = int (length rest),
     m_containerSize = int (length pre + length rest), m_it = int (length pre)\<rparr>"

definition it_ok :: "selfcheck_iterator \<Rightarrow> bool" where
  "it_ok it \<longleftrightarrow> 0 \<le> m_it it \<and> 0 \<le> m_sizeLeft it
     \<and> m_it it + m_sizeLeft it = int (length (it_container it))
     \<and> m_containerSize it = int (length (it_container it))
     \<and> m_containerSize it \<le> INT_MAX"

lemma it_at_begin: "length data \<le> nat INT_MAX \<Longrightarrow> it_begin data = it_at [] data"
  by (simp add: it_begin_def it_at_def int_limits)

lemma it_ok_at: "length pre + length rest \<le> nat INT_MAX \<Longrightarrow> it_ok (it_at pre rest)"
  by (simp add: it_ok_def it_at_def int_limits)

lemma it_ok_iff_at:
  "it_ok it \<longleftrightarrow>
     (\<exists>pre rest. it = it_at pre rest \<and> length pre + length rest \<le> nat INT_MAX)"
proof
  assume ok: "it_ok it"
  let ?n = "nat (m_it it)"
  have len: "nat (m_it it) \<le> length (it_container it)"
    using ok by (auto simp: it_ok_def)
  have "it = it_at (take ?n (it_container it)) (drop ?n (it_container it))"
    using ok len by (cases it) (auto simp: it_ok_def it_at_def)
  moreover have "length (take ?n (it_container it)) + length (drop ?n (it_container it))
      \<le> nat INT_MAX"
    using ok by (auto simp: it_ok_def)
  ultimately show "\<exists>pre rest. it = it_at pre rest \<and> length pre + length rest \<le> nat INT_MAX"
    by blast
qed (auto simp: it_ok_at)

lemma it_deref_Cons [simp, codec_simps]: "it_deref (it_at pre (b # rest)) = Ret b"
  by (simp add: it_deref_def it_at_def nth_append)

lemma it_deref_Nil [simp, codec_simps]: "it_deref (it_at pre []) = Ret 0"
  by (simp add: it_deref_def it_at_def)

lemma it_incr_Cons [simp, codec_simps]:
  "length rest < 2147483648 \<Longrightarrow> it_incr (it_at pre (b # rest)) = Ret (it_at (pre @ [b]) rest)"
  by (simp add: it_incr_def it_at_def int_limits Let_def)

lemma it_incr_Nil [simp, codec_simps]: "it_incr (it_at pre []) = throw Out_of_range"
  by (simp add: it_incr_def it_at_def int_limits Let_def)

lemma it_advance_append [simp, codec_simps]:
  assumes "n = int (length xs)" and "length rest < 2147483648"
  shows "it_advance (it_at pre (xs @ rest)) n = Ret (it_at (pre @ xs) rest)"
  using assms by (simp add: it_advance_def it_at_def int_limits Let_def)

lemma it_advance_short:
  assumes "int (length rest) < n" and "n \<le> INT_MAX"
  shows "it_advance (it_at pre rest) n = throw Out_of_range"
  using assms by (simp add: it_advance_def it_at_def int_limits Let_def)

lemma it_copy_at [simp, codec_simps]: "it_copy (it_at pre rest) = Ret (it_at pre rest)"
  by (simp add: it_copy_def it_at_def)

lemma it_plus_append [simp, codec_simps]:
  assumes "n = int (length xs)" and "length rest < 2147483648"
  shows "it_plus (it_at pre (xs @ rest)) n = Ret (it_at (pre @ xs) rest)"
  unfolding it_plus_def it_copy_at and_then.simps it_advance_append [OF assms] by simp

lemma it_at_end_at [simp, codec_simps]: "it_at_end (it_at pre rest) \<longleftrightarrow> rest = []"
  by (simp add: it_at_end_def it_at_def)

lemma it_eq_at [simp, codec_simps]:
  "it_eq (it_at pre rest) (it_at pre' rest') \<longleftrightarrow> length pre' = length pre"
  by (simp add: it_eq_def it_at_def)

lemma it_size_at [simp, codec_simps]: "it_size (it_at pre rest) = int (length rest)"
  by (simp add: it_size_def it_at_def)

lemma it_data_at [simp, codec_simps]: "it_data (it_at pre rest) = rest"
  by (simp add: it_data_def it_at_def)

lemma it_container_at [simp]: "it_container (it_at pre rest) = pre @ rest"
  by (simp add: it_at_def)

lemma it_plus_fuel: "it_plus it n \<noteq> No_fuel"
  by (auto simp: it_plus_def it_copy_def it_advance_def Let_def)

subsection \<open>Memory safety of the moves\<close>

text \<open>Reading through a well formed iterator is always defined.\<close>

lemma it_ok_deref: "it_ok it \<Longrightarrow> \<exists>b. it_deref it = Ret b"
  by (auto simp: it_ok_iff_at) (metis it_deref_Cons it_deref_Nil neq_Nil_conv)

lemma it_ok_incr: "it_ok it \<Longrightarrow> it_incr it = Ret it' \<Longrightarrow> it_ok it'"
  by (auto simp: it_incr_def it_ok_def Let_def split: if_splits)

lemma it_ok_decr: "it_ok it \<Longrightarrow> it_decr it = Ret it' \<Longrightarrow> it_ok it'"
  by (auto simp: it_decr_def it_ok_def Let_def split: if_splits)

lemma it_ok_advance: "it_ok it \<Longrightarrow> 0 \<le> n \<Longrightarrow> it_advance it n = Ret it' \<Longrightarrow> it_ok it'"
  by (auto simp: it_advance_def it_ok_def Let_def split: if_splits)

lemma it_ok_retreat: "it_ok it \<Longrightarrow> 0 \<le> n \<Longrightarrow> it_retreat it n = Ret it' \<Longrightarrow> it_ok it'"
  by (auto simp: it_retreat_def it_ok_def Let_def split: if_splits)

lemma it_ok_incr_cases:
  "it_ok it \<Longrightarrow> it_incr it = throw Out_of_range \<or> (\<exists>it'. it_incr it = Ret it' \<and> it_ok it'
     \<and> m_sizeLeft it' = m_sizeLeft it - 1)"
  by (auto simp: it_incr_def it_ok_def Let_def int_limits)

lemma it_ok_advance_cases:
  assumes "it_ok it" and "0 \<le> n" and "n \<le> INT_MAX"
  shows "it_advance it n =
    (if n \<le> m_sizeLeft it then Ret (it\<lparr>m_sizeLeft := m_sizeLeft it - n, m_it := m_it it + n\<rparr>)
     else throw Out_of_range)"
  using assms by (auto simp: it_advance_def it_ok_def Let_def int_limits)

text \<open>
  The check of \<open>operator +=\<close> looks at one side only: every negative count of a well formed iterator
  is accepted and moves the pointer back.
\<close>

lemma it_advance_negative:
  assumes "it_ok it" and "n < 0" and "m_sizeLeft it - n \<le> INT_MAX"
  shows "it_advance it n = Ret (it\<lparr>m_sizeLeft := m_sizeLeft it - n, m_it := m_it it + n\<rparr>)"
  using assms by (auto simp: it_advance_def it_ok_def Let_def int_limits)

end
