(* ===== verification/Varint.thy ===== *)
theory Varint
  imports SelfcheckIterator
begin

section \<open>Varints, field headers and length prefixes\<close>

text \<open>
  The wire primitives of \<open>QProtobufSerializerPrivate\<close> (\<open>qprotobufserializer_p.h\<close>): base 128 varints
  of an unsigned type \<open>'v\<close> (\<open>uint32_t\<close> or \<open>uint64_t\<close>), field headers, length prefixed byte runs, and
  the three functions that skip an unknown field (\<open>qprotobufserializer.cpp\<close>).
\<close>

subsection \<open>Wire types\<close>

text \<open>
  \<open>enum WireTypes\<close>. A three bit value that names no enumerator is representable by a
  \<open>static_cast\<close>; it is \<open>UnnamedWireType\<close>.
\<close>

datatype WireTypes = UnknownWireType | Varint | Fixed64 | LengthDelimited | StartGroup | EndGroup
  | Fixed32 | UnnamedWireType int

fun wire_value :: "WireTypes \<Rightarrow> int" where
  "wire_value UnknownWireType = -1"
| "wire_value Varint = 0"
| "wire_value Fixed64 = 1"
| "wire_value LengthDelimited = 2"
| "wire_value StartGroup = 3"
| "wire_value EndGroup = 4"
| "wire_value Fixed32 = 5"
| "wire_value (UnnamedWireType i) = i"

definition wire_cast :: "int \<Rightarrow> WireTypes" where
  "wire_cast i =
     (if i = -1 then UnknownWireType else if i = 0 then Varint else if i = 1 then Fixed64
      else if i = 2 then LengthDelimited else if i = 3 then StartGroup else if i = 4 then EndGroup
      else if i = 5 then Fixed32 else UnnamedWireType i)"

definition NotUsedFieldIndex :: int where "NotUsedFieldIndex = -1"

subsection \<open>Encoding\<close>

text \<open>The loop of \<open>serializeVarintCommon\<close>: seven bits at a time, each marked "not last".\<close>

function varint_chunks :: "'v::len word \<Rightarrow> bytes" where
  "varint_chunks varint =
     (if varint = 0 then []
      else ucast ((varint AND 0x7F) OR 0x80) # varint_chunks (drop_bit 7 varint))"
  by pat_completeness auto
termination
proof (relation "measure unat")
  fix v :: "'v::len word" assume "v \<noteq> 0"
  then have "0 < unat v" by (simp add: unat_gt_0)
  then show "(drop_bit 7 v, v) \<in> measure unat"
    by (simp add: unat_drop_bit_7)
qed simp

declare varint_chunks.simps [simp del]

text \<open>\<open>result.data()[result.size() - 1] &= ~0b10000000\<close>\<close>

definition mark_last :: "bytes \<Rightarrow> bytes" where
  "mark_last result =
     result[length result - 1 := (result ! (length result - 1)) AND NOT 0x80]"

definition serializeVarintCommon :: "'v::len word \<Rightarrow> bytes" where
  "serializeVarintCommon value =
     (let result = varint_chunks value;
          result = (if result = [] then result @ [0] else result)
      in mark_last result)"

subsection \<open>Decoding\<close>

text \<open>
  The loop of \<open>deserializeVarintCommon\<close>: \<open>k\<close> grows by seven for every byte with the high bit set, and
  a 64-bit shift by 64 or more is undefined.
\<close>

function deserializeVarint_loop ::
    "selfcheck_iterator \<Rightarrow> 'v::len word \<Rightarrow> nat \<Rightarrow> ('v word \<times> selfcheck_iterator) outcome" where
  "deserializeVarint_loop it value k =
     and_then (it_deref it) (\<lambda>b.
       if 64 \<le> k then undefined_by Shift_too_far
       else let value' = value + ucast (push_bit k (ucast (b AND 0x7F) :: 64 word)) in
         if b AND 0x80 = 0 then Ret (value', it)
         else and_then (it_incr it) (\<lambda>it'. deserializeVarint_loop it' value' (k + 7)))"
  by pat_completeness auto
termination
  by (relation "measure (\<lambda>(it, value, k). 70 - k)") auto

declare deserializeVarint_loop.simps [simp del]

definition deserializeVarintCommon ::
    "selfcheck_iterator \<Rightarrow> ('v::len word \<times> selfcheck_iterator) outcome" where
  "deserializeVarintCommon it =
     and_then (deserializeVarint_loop it 0 0) (\<lambda>(value, it').
       and_then (it_incr it') (\<lambda>it''. Ret (value, it'')))"

subsection \<open>Headers, length prefixes, skipping\<close>

definition encodeHeader :: "int \<Rightarrow> WireTypes \<Rightarrow> bytes" where
  "encodeHeader fieldIndex wireType =
     (let header = push_bit 3 (word_of_int fieldIndex) OR word_of_int (wire_value wireType) :: 32 word
      in serializeVarintCommon header)"

text \<open>
  \<open>decodeHeader\<close> returns whether the header is valid and writes the field index and the wire type
  through its reference parameters whatever it returns.
\<close>

definition decodeHeader ::
    "selfcheck_iterator \<Rightarrow> (bool \<times> int \<times> WireTypes \<times> selfcheck_iterator) outcome" where
  "decodeHeader it =
     and_then (deserializeVarintCommon it) (\<lambda>(header :: 32 word, it').
       let wireType = wire_cast (uint (header AND 0b00000111));
           fieldIndex = to_int (uint (drop_bit 3 header));
           maxFieldIndex = 2 ^ 29 - 1
       in Ret (fieldIndex \<le> maxFieldIndex \<and> fieldIndex > 0
                 \<and> (wireType = Varint \<or> wireType = Fixed64 \<or> wireType = Fixed32
                    \<or> wireType = LengthDelimited),
               fieldIndex, wireType, it'))"

definition prependLengthDelimitedSize :: "bytes \<Rightarrow> bytes" where
  "prependLengthDelimitedSize data =
     serializeVarintCommon (word_of_nat (length data) :: 32 word) @ data"

definition serializeLengthDelimited :: "bytes \<Rightarrow> bytes" where
  "serializeLengthDelimited data = prependLengthDelimitedSize data"

text \<open>
  \<open>QByteArray(ptr, length)\<close> copies \<open>length\<close> bytes from the pointer; the terminating zero is the last
  byte that may be read.
\<close>

definition copy_bytes :: "selfcheck_iterator \<Rightarrow> nat \<Rightarrow> bytes outcome" where
  "copy_bytes it n =
     (if 0 \<le> m_it it \<and> nat (m_it it) + n \<le> length (it_container it) + 1
      then Ret (take n (drop (nat (m_it it)) (it_container it @ [0])))
      else undefined_by Overread)"

text \<open>
  \<open>deserializeLengthDelimited\<close> copies first and moves, which checks the length, afterwards. The
  unsigned length becomes the \<open>int\<close> argument of \<open>operator +=\<close>.
\<close>

definition deserializeLengthDelimited ::
    "selfcheck_iterator \<Rightarrow> (bytes \<times> selfcheck_iterator) outcome" where
  "deserializeLengthDelimited it =
     and_then (deserializeVarintCommon it) (\<lambda>(len :: 32 word, it').
       and_then (copy_bytes it' (unat len)) (\<lambda>result.
         and_then (it_advance it' (to_int (uint len))) (\<lambda>it''. Ret (result, it''))))"

function skipVarint :: "selfcheck_iterator \<Rightarrow> selfcheck_iterator outcome" where
  "skipVarint it =
     and_then (it_deref it) (\<lambda>b.
       if b AND 0x80 \<noteq> 0 then and_then (it_incr it) (\<lambda>it'. skipVarint it')
       else it_incr it)"
  by pat_completeness auto
termination
  by (relation "measure (\<lambda>it. nat (m_sizeLeft it))")
    (auto simp: it_incr_def Let_def split: if_splits)

declare skipVarint.simps [simp del]

definition skipLengthDelimited :: "selfcheck_iterator \<Rightarrow> selfcheck_iterator outcome" where
  "skipLengthDelimited it =
     and_then (deserializeVarintCommon it) (\<lambda>(len :: 32 word, it').
       it_advance it' (to_int (uint len)))"

text \<open>\<open>skipSerializedFieldBytes\<close> returns the distance moved, which only a log message uses.\<close>

definition skipSerializedFieldBytes ::
    "selfcheck_iterator \<Rightarrow> WireTypes \<Rightarrow> (int \<times> selfcheck_iterator) outcome" where
  "skipSerializedFieldBytes it type =
     and_then
       (case type of
          Varint \<Rightarrow> skipVarint it
        | Fixed32 \<Rightarrow> it_advance it 4
        | Fixed64 \<Rightarrow> it_advance it 8
        | LengthDelimited \<Rightarrow> skipLengthDelimited it
        | _ \<Rightarrow> throw Invalid_argument)
       (\<lambda>it'. Ret (m_it it' - m_it it, it'))"


subsection \<open>Bytes of a varint\<close>

lemma mask7: "(0x7F :: 'a::len word) = mask 7"
  by (simp add: mask_eq_exp_minus_1)

lemma exp7: "(0x80 :: 'a::len word) = 2 ^ 7"
  by simp

lemma bit_0x7F: "bit (0x7F :: 'a::len word) n \<longleftrightarrow> n < 7 \<and> n < LENGTH('a)"
  unfolding mask7 by (auto simp only: bit_mask_iff possible_bit_word)

lemma bit_0x80: "bit (0x80 :: 'a::len word) n \<longleftrightarrow> n = 7 \<and> n < LENGTH('a)"
  unfolding exp7 by (auto simp only: bit_exp_iff possible_bit_word)

lemmas byte_bits = bit_0x7F bit_0x80 bit_and_iff bit_or_iff bit_not_iff bit_unsigned_iff

lemma chunk_low:
  "8 \<le> LENGTH('v::len) \<Longrightarrow>
     (ucast ((v AND 0x7F) OR 0x80 :: 'v word) :: byte) AND 0x7F = ucast (v AND 0x7F)"
  by (rule bit_word_eqI) (simp only: byte_bits bit_0_eq bot_apply possible_bit_word, auto)

lemma chunk_flag:
  "8 \<le> LENGTH('v::len) \<Longrightarrow>
     (ucast ((v AND 0x7F) OR 0x80 :: 'v word) :: byte) AND 0x80 = 0x80"
  by (rule bit_word_eqI) (simp only: byte_bits bit_0_eq bot_apply possible_bit_word, auto)

lemma last_flag: "(b AND NOT 0x80) AND 0x80 = (0 :: byte)"
  by (rule bit_word_eqI) (simp only: byte_bits bit_0_eq bot_apply possible_bit_word, auto)

lemma last_low: "(b AND NOT 0x80) AND 0x7F = (b AND 0x7F :: byte)"
  by (rule bit_word_eqI) (simp only: byte_bits bit_0_eq bot_apply possible_bit_word, auto)

text \<open>The simplifier evaluates \<open>NOT 0x80\<close>; the facts in its normal form.\<close>

lemma last_byte: "(b AND - 129) AND 128 = (0 :: byte)" "(b AND - 129) AND 127 = (b AND 127 :: byte)"
  using last_flag [of b] last_low [of b] by simp_all

lemma mark_last_single [simp]: "mark_last [b] = [b AND NOT 0x80]"
  by (simp add: mark_last_def)

lemma mark_last_Cons [simp]: "bs \<noteq> [] \<Longrightarrow> mark_last (b # bs) = b # mark_last bs"
  by (cases bs) (simp_all add: mark_last_def)

lemma length_mark_last [simp]: "length (mark_last bs) = length bs"
  by (simp add: mark_last_def)

lemma mark_last_Nil_iff [simp]: "mark_last bs = [] \<longleftrightarrow> bs = []"
  by (simp add: mark_last_def)

lemma varint_chunks_0 [simp]: "varint_chunks 0 = []"
  by (simp add: varint_chunks.simps)

lemma varint_chunks_Nil_iff [simp]: "varint_chunks v = [] \<longleftrightarrow> v = 0"
  by (simp add: varint_chunks.simps [of v])

lemma serializeVarint_0: "serializeVarintCommon (0 :: 'v::len word) = [0]"
  by (simp add: serializeVarintCommon_def)

lemma serializeVarint_pos: "v \<noteq> 0 \<Longrightarrow> serializeVarintCommon v = mark_last (varint_chunks v)"
  by (simp add: serializeVarintCommon_def)

lemma serializeVarint_nonempty [simp]: "serializeVarintCommon v \<noteq> []"
  by (simp add: serializeVarintCommon_def Let_def)

text \<open>Recursion on the seven bit digits: one byte, or a flagged byte and the rest.\<close>

lemma serializeVarint_rec:
  "serializeVarintCommon v =
     (if drop_bit 7 v = 0 then [ucast ((v AND 0x7F) OR 0x80) AND NOT 0x80]
      else ucast ((v AND 0x7F) OR 0x80) # serializeVarintCommon (drop_bit 7 v))"
proof (cases "v = 0")
  case True
  have "(ucast (0x80 :: 'a word) :: byte) AND NOT 0x80 = 0"
    by (rule bit_word_eqI) (simp only: byte_bits bit_0_eq bot_apply possible_bit_word, auto)
  with True show ?thesis by (simp add: serializeVarint_0)
next
  case False
  then show ?thesis
    by (simp add: serializeVarint_pos varint_chunks.simps [of v])
qed


subsection \<open>Decoding what was encoded\<close>

lemma widen_low_byte:
  "8 \<le> LENGTH('v::len) \<Longrightarrow>
     (ucast (ucast (v AND 0x7F :: 'v word) :: byte) :: 64 word) = ucast (v AND 0x7F)"
  by (rule bit_word_eqI) (simp only: byte_bits bit_0_eq bot_apply possible_bit_word, auto)

lemma widen_split:
  assumes "LENGTH('v::len) \<le> 64"
  shows "(ucast (v :: 'v word) :: 64 word)
    = ucast (v AND 0x7F) + push_bit 7 (ucast (drop_bit 7 v))"
proof -
  let ?u = "ucast v :: 64 word"
  have "?u AND 0x7F = ucast (v AND 0x7F)"
    using assms
    by (intro bit_word_eqI) (simp only: byte_bits possible_bit_word, auto dest: bit_imp_le_length)
  moreover have "drop_bit 7 ?u = ucast (drop_bit 7 v)"
    using assms by (intro bit_word_eqI) (auto simp: bit_simps dest: bit_imp_le_length)
  ultimately show ?thesis using split_low7 [of ?u] by simp
qed

lemma push_split:
  assumes "LENGTH('v::len) \<le> 64"
  shows "(ucast (push_bit k (ucast (v AND 0x7F) :: 64 word)) :: 'v word)
      + ucast (push_bit (k + 7) (ucast (drop_bit 7 v) :: 64 word))
    = ucast (push_bit k (ucast (v :: 'v word) :: 64 word))"
proof -
  have "push_bit k (ucast v :: 64 word)
      = push_bit k (ucast (v AND 0x7F)) + push_bit (k + 7) (ucast (drop_bit 7 v))"
    by (subst widen_split [OF assms]) (simp add: push_bit_add)
  then show ?thesis using assms by (simp add: ucast_narrow_add)
qed

lemma loop_serialized:
  fixes v acc :: "'v::len word"
  assumes V: "8 \<le> LENGTH('v)" "LENGTH('v) \<le> 64"
    and "unat v * 2 ^ k < 2 ^ 64" and "k < 64"
    and "length (serializeVarintCommon v) + length rest < 2147483648"
  shows "deserializeVarint_loop (it_at pre (serializeVarintCommon v @ rest)) acc k
    = Ret (acc + ucast (push_bit k (ucast v :: 64 word)),
           it_at (pre @ butlast (serializeVarintCommon v)) (last (serializeVarintCommon v) # rest))"
  using assms(3-)
proof (induction v arbitrary: pre acc k rule: varint_chunks.induct)
  case (1 v)
  let ?b = "ucast ((v AND 0x7F) OR 0x80) :: byte"
  show ?case
  proof (cases "drop_bit 7 v = 0")
    case True
    then have "v AND 0x7F = v" using split_low7 [of v] by simp
    moreover have "(ucast (?b AND 0x7F) :: 64 word) = ucast (v AND 0x7F)"
      using widen_low_byte [of v] by (simp add: V chunk_low)
    ultimately have "(ucast (?b AND 0x7F) :: 64 word) = ucast v" by (simp only:)
    then show ?thesis
      using True \<open>k < 64\<close>
      by (simp add: serializeVarint_rec [of v] deserializeVarint_loop.simps last_byte)
  next
    case False
    then have "v \<noteq> 0" by auto
    have u: "unat (drop_bit 7 v) * 2 ^ (k + 7) \<le> unat v * 2 ^ k"
      by (simp add: unat_drop_bit_7 power_add)
    then have lt: "unat (drop_bit 7 v) * 2 ^ (k + 7) < 2 ^ 64"
      using "1.prems"(1) by linarith
    have "0 < unat (drop_bit 7 v)" using False by (simp add: unat_gt_0)
    then have "(2::nat) ^ (k + 7) \<le> unat (drop_bit 7 v) * 2 ^ (k + 7)"
      by simp
    with lt have "(2::nat) ^ (k + 7) < 2 ^ 64" by linarith
    then have k: "k + 7 < 64" by (simp only: power_strict_increasing_iff)
    have len: "length (serializeVarintCommon (drop_bit 7 v)) + length rest < 2147483648"
      using "1.prems"(3) False by (simp add: serializeVarint_rec [of v])
    let ?acc = "acc + ucast (push_bit k (ucast (v AND 0x7F) :: 64 word))"
    have low: "(ucast (?b AND 0x7F) :: 64 word) = ucast (v AND 0x7F)"
      using widen_low_byte [of v] by (simp add: V chunk_low)
    have "deserializeVarint_loop (it_at pre (serializeVarintCommon v @ rest)) acc k
        = deserializeVarint_loop (it_at (pre @ [?b]) (serializeVarintCommon (drop_bit 7 v) @ rest)) ?acc (k + 7)"
      using False \<open>k < 64\<close> len
      by (subst deserializeVarint_loop.simps)
        (simp add: serializeVarint_rec [of v] chunk_flag V low)
    also have "\<dots> = Ret (?acc + ucast (push_bit (k + 7) (ucast (drop_bit 7 v) :: 64 word)),
         it_at ((pre @ [?b]) @ butlast (serializeVarintCommon (drop_bit 7 v)))
           (last (serializeVarintCommon (drop_bit 7 v)) # rest))"
      by (rule "1.IH" [OF \<open>v \<noteq> 0\<close> lt k len])
    also have "?acc + ucast (push_bit (k + 7) (ucast (drop_bit 7 v) :: 64 word))
        = acc + ucast (push_bit k (ucast v :: 64 word))"
      using push_split [OF V(2), of k v] by (simp add: add.assoc)
    finally show ?thesis
      using False by (simp add: serializeVarint_rec [of v])
  qed
qed

text \<open>The round trip of a varint, at any position of a stream.\<close>

lemma deserializeVarint_serialize [codec_simps]:
  fixes v :: "'v::len word"
  assumes "8 \<le> LENGTH('v)" "LENGTH('v) \<le> 64"
    and "length (serializeVarintCommon v) + length rest < 2147483648"
  shows "deserializeVarintCommon (it_at pre (serializeVarintCommon v @ rest))
    = Ret (v, it_at (pre @ serializeVarintCommon v) rest)"
proof -
  have "unat v < 2 ^ LENGTH('v)" by simp
  also have "(2::nat) ^ LENGTH('v) \<le> 2 ^ 64" using assms(2) by (rule power_increasing) simp
  finally have "unat v * 2 ^ 0 < 2 ^ 64" by simp
  from loop_serialized [OF assms(1,2) this _ assms(3), of pre 0]
  have "deserializeVarint_loop (it_at pre (serializeVarintCommon v @ rest)) 0 0
    = Ret (v, it_at (pre @ butlast (serializeVarintCommon v)) (last (serializeVarintCommon v) # rest))"
    using assms(2) by (simp add: ucast_narrow_widen)
  then show ?thesis
    using assms(3) by (simp add: deserializeVarintCommon_def)
qed


subsection \<open>Size of a varint\<close>

lemma length_serializeVarint_le:
  "unat v < 128 ^ n \<Longrightarrow> 0 < n \<Longrightarrow> length (serializeVarintCommon v) \<le> n"
proof (induction n arbitrary: v)
  case 0
  then show ?case by simp
next
  case (Suc n)
  show ?case
  proof (cases "drop_bit 7 v = 0")
    case True
    then show ?thesis by (simp add: serializeVarint_rec [of v])
  next
    case False
    have "unat (drop_bit 7 v) < 128 ^ n"
      using Suc.prems(1) by (simp add: unat_drop_bit_7 less_mult_imp_div_less mult.commute)
    moreover from this False have "0 < n"
      by (cases n) (simp_all add: unat_eq_0)
    ultimately show ?thesis
      using Suc.IH [of "drop_bit 7 v"] False by (simp add: serializeVarint_rec [of v])
  qed
qed

lemma serializeVarint_bound: "unat v < 128 ^ length (serializeVarintCommon v)"
proof (induction v rule: varint_chunks.induct)
  case (1 v)
  show ?case
  proof (cases "drop_bit 7 v = 0")
    case True
    then have "unat v div 128 = 0" using unat_drop_bit_7 [of v] by simp
    then have "unat v < 128" by (simp add: div_eq_0_iff)
    then show ?thesis using True by (simp add: serializeVarint_rec [of v])
  next
    case False
    then have "v \<noteq> 0" by auto
    from 1 [OF this] have "unat v div 128 < 128 ^ length (serializeVarintCommon (drop_bit 7 v))"
      by (simp only: unat_drop_bit_7)
    then have "unat v < 128 ^ length (serializeVarintCommon (drop_bit 7 v)) * 128"
      by (simp only: div_less_iff_less_mult zero_less_numeral)
    then show ?thesis using False by (simp add: serializeVarint_rec [of v] mult.commute)
  qed
qed

lemma length_serializeVarint_iff:
  "0 < n \<Longrightarrow> length (serializeVarintCommon v) \<le> n \<longleftrightarrow> unat v < 128 ^ n"
proof
  assume "length (serializeVarintCommon v) \<le> n"
  then have "(128::nat) ^ length (serializeVarintCommon v) \<le> 128 ^ n" by (rule power_increasing) simp
  with serializeVarint_bound [of v] show "unat v < 128 ^ n" by linarith
qed (simp add: length_serializeVarint_le)

lemma length_serializeVarint_32: "length (serializeVarintCommon (v :: 32 word)) \<le> 5"
proof (rule length_serializeVarint_le)
  have "unat v < 2 ^ 32" using unsigned_less [of v] by simp
  then show "unat v < 128 ^ 5" by simp
qed simp

lemma length_serializeVarint_64: "length (serializeVarintCommon (v :: 64 word)) \<le> 10"
proof (rule length_serializeVarint_le)
  have "unat v < 2 ^ 64" using unsigned_less [of v] by simp
  then show "unat v < 128 ^ 10" by simp
qed simp

lemma length_encodeHeader: "length (encodeHeader i t) \<le> 5"
  by (simp add: encodeHeader_def Let_def length_serializeVarint_32)

lemma encodeHeader_nonempty [simp]: "encodeHeader i t \<noteq> []"
  by (simp add: encodeHeader_def Let_def)

lemma length_prepend: "length (prependLengthDelimitedSize data) \<le> length data + 5"
  by (simp add: prependLengthDelimitedSize_def length_serializeVarint_32)

lemma prepend_nonempty [simp]: "prependLengthDelimitedSize data \<noteq> []"
  by (simp add: prependLengthDelimitedSize_def)

subsection \<open>Safety of decoding\<close>

text \<open>From a well formed iterator a varint is decoded, or the end is met, or ten bytes in a row
  carry the continuation flag; nothing outside the container is read.\<close>

lemma it_ok_varint_loop:
  "it_ok it \<Longrightarrow>
     deserializeVarint_loop it acc k = throw Out_of_range
     \<or> deserializeVarint_loop it acc k = undefined_by Shift_too_far
     \<or> (\<exists>v it'. deserializeVarint_loop it acc k = Ret (v, it') \<and> it_ok it'
          \<and> m_sizeLeft it' \<le> m_sizeLeft it)"
proof (induction it acc k rule: deserializeVarint_loop.induct)
  case (1 it acc k)
  from "1.prems" obtain b where b: "it_deref it = Ret b" using it_ok_deref by blast
  consider "64 \<le> k" | "k < 64" "b AND 0x80 = 0" | "k < 64" "b AND 0x80 \<noteq> 0" by linarith
  then show ?case
  proof cases
    case 1
    then show ?thesis using b by (simp add: deserializeVarint_loop.simps [of it])
  next
    case 2
    then show ?thesis using b "1.prems" by (simp add: deserializeVarint_loop.simps [of it] Let_def)
  next
    case 3
    let ?v = "acc + ucast (push_bit k (ucast (b AND 0x7F) :: 64 word))"
    have unf: "deserializeVarint_loop it acc k
        = and_then (it_incr it) (\<lambda>it'. deserializeVarint_loop it' ?v (k + 7))"
      using 3 b by (simp add: deserializeVarint_loop.simps [of it] Let_def)
    from it_ok_incr_cases [OF "1.prems"] show ?thesis
    proof
      assume "it_incr it = throw Out_of_range"
      then show ?thesis by (simp add: unf)
    next
      assume "\<exists>it'. it_incr it = Ret it' \<and> it_ok it' \<and> m_sizeLeft it' = m_sizeLeft it - 1"
      then obtain it' where it': "it_incr it = Ret it'" "it_ok it'" "m_sizeLeft it' = m_sizeLeft it - 1"
        by blast
      from "1.IH" [OF b _ refl _ it'(1,2)] 3 it' show ?thesis
        by (fastforce simp: unf)
    qed
  qed
qed

lemma it_ok_varint:
  fixes r :: "('v::len word \<times> selfcheck_iterator) outcome"
  assumes "it_ok it" and r: "r = deserializeVarintCommon it"
  shows "r = throw Out_of_range \<or> r = undefined_by Shift_too_far
     \<or> (\<exists>v it'. r = Ret (v, it') \<and> it_ok it' \<and> m_sizeLeft it' < m_sizeLeft it)"
  using it_ok_varint_loop [OF assms(1), of "0 :: 'v word" 0]
proof (elim disjE exE conjE)
  fix v :: "'v word" and it1
  assume *: "deserializeVarint_loop it 0 0 = Ret (v, it1)" "it_ok it1"
    "m_sizeLeft it1 \<le> m_sizeLeft it"
  from it_ok_incr_cases [OF *(2)] show ?thesis
    using * by (auto simp: r deserializeVarintCommon_def)
qed (simp_all add: r deserializeVarintCommon_def)


text \<open>Ten continuation bytes shift by 70: undefined, whatever follows.\<close>

lemma varint_too_long:
  fixes acc :: "'v::len word"
  assumes "m + n = 10" and "length rest + n < 2147483648" and "rest \<noteq> []"
  shows "deserializeVarint_loop (it_at pre (replicate n 0x80 @ rest)) acc (7 * m)
    = undefined_by Shift_too_far"
  using assms
proof (induction n arbitrary: m pre acc)
  case 0
  then obtain b bs where "rest = b # bs" by (auto simp: neq_Nil_conv)
  with 0 show ?case by (simp add: deserializeVarint_loop.simps)
next
  case (Suc n)
  then have "7 * m < 64" by simp
  have IH: "deserializeVarint_loop (it_at (pre @ [0x80]) (replicate n 0x80 @ rest)) a (7 * m + 7)
      = undefined_by Shift_too_far" for a :: "'v word"
    using Suc.prems Suc.IH [of "Suc m" "pre @ [0x80]" a] by (simp add: add.commute)
  have "(0x80 :: byte) AND 0x80 \<noteq> 0" by simp
  with \<open>7 * m < 64\<close> Suc.prems show ?case
    by (subst deserializeVarint_loop.simps) (simp add: Let_def IH)
qed

subsection \<open>Headers\<close>

lemma header_fields:
  assumes "0 < i" and "i < 2 ^ 29" and "0 \<le> w" and "w < 8"
  defines "h \<equiv> push_bit 3 (word_of_int i) OR word_of_int w :: 32 word"
  shows "uint (h AND 0b111) = w" and "uint (drop_bit 3 h) = i"
proof -
  have w: "take_bit 3 w = w" using assms by (simp add: take_bit_int_eq_self_iff)
  have w_bit: "n < 3" if "bit w n" for n
    using that w by (metis bit_take_bit_iff)
  have i: "take_bit 29 i = i" using assms by (simp add: take_bit_int_eq_self_iff)
  have i_bit: "n < 29" if "bit i n" for n
    using that i by (metis bit_take_bit_iff)
  have three: "(0b111 :: 32 word) = mask 3" by (simp add: mask_eq_exp_minus_1)
  have "h AND 0b111 = word_of_int w"
    unfolding h_def three
    by (rule bit_word_eqI) (auto simp: bit_simps dest: w_bit)
  moreover have "drop_bit 3 h = word_of_int i"
    unfolding h_def
    by (rule bit_word_eqI) (auto simp: bit_simps dest: w_bit i_bit)
  ultimately show "uint (h AND 0b111) = w" "uint (drop_bit 3 h) = i"
    using assms by (simp_all add: uint_word_of_int)
qed

definition sendable :: "WireTypes \<Rightarrow> bool" where
  "sendable t \<longleftrightarrow> t = Varint \<or> t = Fixed64 \<or> t = Fixed32 \<or> t = LengthDelimited"

lemma wire_cast_value: "sendable t \<Longrightarrow> wire_cast (wire_value t) = t"
  by (auto simp: sendable_def wire_cast_def)

lemma decodeHeader_encode [codec_simps]:
  assumes "0 < i" and "i < 2 ^ 29" and "sendable t" and "length rest < 2147483600"
  shows "decodeHeader (it_at pre (encodeHeader i t @ rest))
    = Ret (True, i, t, it_at (pre @ encodeHeader i t) rest)"
proof -
  let ?h = "push_bit 3 (word_of_int i) OR word_of_int (wire_value t) :: 32 word"
  have w: "0 \<le> wire_value t" "wire_value t < 8" using assms(3) by (auto simp: sendable_def)
  have "length (serializeVarintCommon ?h) + length rest < 2147483648"
    using length_serializeVarint_32 [of ?h] assms(4) by linarith
  then have "deserializeVarintCommon (it_at pre (encodeHeader i t @ rest))
      = Ret (?h, it_at (pre @ encodeHeader i t) rest)"
    by (simp add: encodeHeader_def Let_def deserializeVarint_serialize)
  moreover have "in_int i" using assms(1,2) by (simp add: int_limits)
  ultimately show ?thesis
    using assms header_fields [OF assms(1,2) w] wire_cast_value [OF assms(3)]
    by (simp add: decodeHeader_def Let_def sendable_def)
qed

subsection \<open>Length delimited fields\<close>

lemma copy_bytes_at [simp, codec_simps]:
  "n = length xs \<Longrightarrow> copy_bytes (it_at pre (xs @ rest)) n = Ret xs"
  by (simp add: copy_bytes_def it_at_def)

lemma copy_bytes_overread:
  "length rest + 1 < n \<Longrightarrow> copy_bytes (it_at pre rest) n = undefined_by Overread"
  by (simp add: copy_bytes_def it_at_def)

lemma deserializeLengthDelimited_serialize [codec_simps]:
  assumes "length data + length rest < 2147483600"
  shows "deserializeLengthDelimited (it_at pre (prependLengthDelimitedSize data @ rest))
    = Ret (data, it_at (pre @ prependLengthDelimitedSize data) rest)"
proof -
  let ?n = "word_of_nat (length data) :: 32 word"
  have n: "unat ?n = length data" "uint ?n = int (length data)"
    using assms by (simp_all add: unat_of_nat_32 uint_of_nat_32)
  have "length (serializeVarintCommon ?n) + length (data @ rest) < 2147483648"
    using length_serializeVarint_32 [of ?n] assms by simp
  with assms show ?thesis
    by (simp add: deserializeLengthDelimited_def prependLengthDelimitedSize_def
        deserializeVarint_serialize n del: of_nat_0_eq_iff)
qed

text \<open>The declared length is used before it is checked: a longer one is read past the container.\<close>

lemma deserializeLengthDelimited_overread:
  fixes len :: "32 word"
  assumes "length rest + 1 < unat len" and "length rest < 2147483600"
  shows "deserializeLengthDelimited (it_at pre (serializeVarintCommon len @ rest))
    = undefined_by Overread"
proof -
  have "length (serializeVarintCommon len) + length rest < 2147483648"
    using length_serializeVarint_32 [of len] assms by linarith
  with assms(1) show ?thesis
    by (simp add: deserializeLengthDelimited_def deserializeVarint_serialize copy_bytes_overread)
qed

subsection \<open>Skipping\<close>

lemma skipVarint_serialize [codec_simps]:
  fixes v :: "'v::len word"
  assumes "8 \<le> LENGTH('v)" and "length (serializeVarintCommon v) + length rest < 2147483648"
  shows "skipVarint (it_at pre (serializeVarintCommon v @ rest))
    = Ret (it_at (pre @ serializeVarintCommon v) rest)"
  using assms(2)
proof (induction v arbitrary: pre rule: varint_chunks.induct)
  case (1 v)
  show ?case
  proof (cases "drop_bit 7 v = 0")
    case True
    with 1 show ?thesis
      by (simp add: serializeVarint_rec [of v] skipVarint.simps last_byte)
  next
    case False
    then have "v \<noteq> 0" by auto
    with False 1 show ?thesis
      by (simp add: serializeVarint_rec [of v] skipVarint.simps [of "it_at pre _"]
          chunk_flag assms(1))
  qed
qed

lemma skipLengthDelimited_serialize [codec_simps]:
  assumes "length data + length rest < 2147483600"
  shows "skipLengthDelimited (it_at pre (prependLengthDelimitedSize data @ rest))
    = Ret (it_at (pre @ prependLengthDelimitedSize data) rest)"
proof -
  let ?n = "word_of_nat (length data) :: 32 word"
  have n: "uint ?n = int (length data)"
    using assms by (simp add: uint_of_nat_32)
  have "length (serializeVarintCommon ?n) + length (data @ rest) < 2147483648"
    using length_serializeVarint_32 [of ?n] assms by simp
  with assms show ?thesis
    by (simp add: skipLengthDelimited_def prependLengthDelimitedSize_def
        deserializeVarint_serialize n del: of_nat_0_eq_iff)
qed

text \<open>A length above \<open>INT_MAX\<close> turns negative and moves the iterator back.\<close>

lemma skipLengthDelimited_back:
  fixes len :: "32 word"
  assumes "2 ^ 31 \<le> unat len" and "length rest < 2147483600"
    and "int (length rest) + 2 ^ 32 - uint len \<le> INT_MAX"
  shows "skipLengthDelimited (it_at pre (serializeVarintCommon len @ rest)) = Ret
    (let it = it_at (pre @ serializeVarintCommon len) rest; n = 2 ^ 32 - uint len in
     it\<lparr>m_sizeLeft := m_sizeLeft it + n, m_it := m_it it - n\<rparr>)"
proof -
  have "(2::int) ^ 31 \<le> int (unat len)" using assms(1) by (simp only: numeral_power_le_of_nat_cancel_iff)
  then have u: "2 ^ 31 \<le> uint len" by (simp only: uint_nat)
  have lt: "uint len < 2 ^ 32" using uint_lt2p [of len] by simp
  have "(word_of_int (uint len - 2 ^ 32) :: 32 word) = word_of_int (uint len)"
    unfolding of_int_diff by simp
  then have "to_int (uint len) = to_int (uint len - 2 ^ 32)" unfolding to_int_def by (simp only:)
  also have "\<dots> = uint len - 2 ^ 32" using u lt by (intro to_int_id) (simp add: int_limits)
  finally have i: "to_int (uint len) = uint len - 2 ^ 32" .
  have "length (serializeVarintCommon len) + length rest < 2147483648"
    using length_serializeVarint_32 [of len] assms(2) by linarith
  then have "skipLengthDelimited (it_at pre (serializeVarintCommon len @ rest))
      = it_advance (it_at (pre @ serializeVarintCommon len) rest) (uint len - 2 ^ 32)"
    by (simp add: skipLengthDelimited_def deserializeVarint_serialize i)
  with assms(3) u lt show ?thesis
    by (simp add: it_advance_def it_at_def int_limits Let_def)
qed

end
