(* ===== verification/BasicCodec.thy ===== *)
theory BasicCodec
  imports Varint
begin

section \<open>Scalars and repeated scalars\<close>

text \<open>
  The overloads of \<open>serializeBasic\<close> and \<open>deserializeBasic\<close> and the list serializers of
  \<open>QProtobufSerializerPrivate\<close>. \<open>basic\<close> is a value of one of the fifteen types a handler is
  registered for; floating point values are their bit patterns. The host is little endian, as every
  platform the project builds for.

  \<open>QString::toUtf8\<close> and \<open>QString::fromUtf8\<close> are Qt code and parameters of the model (\<open>qt_api\<close>).
\<close>

record qt_api =
  toUtf8 :: "qstring \<Rightarrow> bytes"
  fromUtf8 :: "bytes \<Rightarrow> qstring"

datatype btype = TFloat | TDouble | TInt32 | TInt64 | TUInt32 | TUInt64 | TSInt32 | TSInt64
  | TFixed32 | TFixed64 | TSFixed32 | TSFixed64 | TString | TBytes | TBool

datatype basic = BFloat "32 word" | BDouble "64 word" | BInt32 "32 word" | BInt64 "64 word"
  | BUInt32 "32 word" | BUInt64 "64 word" | BSInt32 "32 word" | BSInt64 "64 word"
  | BFixed32 "32 word" | BFixed64 "64 word" | BSFixed32 "32 word" | BSFixed64 "64 word"
  | BString qstring | BBytes bytes | BBool bool

fun btype_of :: "basic \<Rightarrow> btype" where
  "btype_of (BFloat _) = TFloat"
| "btype_of (BDouble _) = TDouble"
| "btype_of (BInt32 _) = TInt32"
| "btype_of (BInt64 _) = TInt64"
| "btype_of (BUInt32 _) = TUInt32"
| "btype_of (BUInt64 _) = TUInt64"
| "btype_of (BSInt32 _) = TSInt32"
| "btype_of (BSInt64 _) = TSInt64"
| "btype_of (BFixed32 _) = TFixed32"
| "btype_of (BFixed64 _) = TFixed64"
| "btype_of (BSFixed32 _) = TSFixed32"
| "btype_of (BSFixed64 _) = TSFixed64"
| "btype_of (BString _) = TString"
| "btype_of (BBytes _) = TBytes"
| "btype_of (BBool _) = TBool"

text \<open>The value of a default constructed field of the type.\<close>

fun bdefault :: "btype \<Rightarrow> basic" where
  "bdefault TFloat = BFloat 0"
| "bdefault TDouble = BDouble 0"
| "bdefault TInt32 = BInt32 0"
| "bdefault TInt64 = BInt64 0"
| "bdefault TUInt32 = BUInt32 0"
| "bdefault TUInt64 = BUInt64 0"
| "bdefault TSInt32 = BSInt32 0"
| "bdefault TSInt64 = BSInt64 0"
| "bdefault TFixed32 = BFixed32 0"
| "bdefault TFixed64 = BFixed64 0"
| "bdefault TSFixed32 = BSFixed32 0"
| "bdefault TSFixed64 = BSFixed64 0"
| "bdefault TString = BString []"
| "bdefault TBytes = BBytes []"
| "bdefault TBool = BBool False"

subsection \<open>Scalar serializers\<close>

text \<open>
  Every overload takes the field index by reference; the result carries the bytes and the index
  after the call.
\<close>

definition le_bytes :: "'v::len word \<Rightarrow> bytes" where
  "le_bytes w = map (\<lambda>i. ucast (drop_bit (8 * i) w)) [0..<LENGTH('v) div 8]"

definition serializeBasic_fixed :: "'v::len word \<Rightarrow> int \<Rightarrow> bytes \<times> int" where
  "serializeBasic_fixed value outFieldIndex = (le_bytes value, outFieldIndex)"

definition serializeBasic_unsigned :: "'v::len word \<Rightarrow> int \<Rightarrow> bytes \<times> int" where
  "serializeBasic_unsigned value outFieldIndex =
     (let result = varint_chunks value in
      if length result = 0 then (result, NotUsedFieldIndex)
      else (mark_last result, outFieldIndex))"

definition zigzag :: "'v::len word \<Rightarrow> 'v word" where
  "zigzag value = push_bit 1 value XOR signed_drop_bit (LENGTH('v) - 1) value"

definition serializeBasic_signed :: "'v::len word \<Rightarrow> int \<Rightarrow> bytes \<times> int" where
  "serializeBasic_signed value outFieldIndex = serializeBasic_unsigned (zigzag value) outFieldIndex"

definition serializeBasic_int :: "'v::len word \<Rightarrow> int \<Rightarrow> bytes \<times> int" where
  "serializeBasic_int value outFieldIndex = serializeBasic_unsigned value outFieldIndex"

definition serializeBasic_string :: "qt_api \<Rightarrow> qstring \<Rightarrow> int \<Rightarrow> bytes \<times> int" where
  "serializeBasic_string Q value outFieldIndex =
     (serializeLengthDelimited (toUtf8 Q value), outFieldIndex)"

definition serializeBasic_bytes :: "bytes \<Rightarrow> int \<Rightarrow> bytes \<times> int" where
  "serializeBasic_bytes value outFieldIndex = (serializeLengthDelimited value, outFieldIndex)"

text \<open>
  The handler of \<open>bool\<close> is the one of \<open>uint32\<close>: it reads the storage of the variant as a \<open>uint32\<close>, and
  what it decodes is converted to \<open>bool\<close> when the property is written.
\<close>

fun serializeBasic :: "qt_api \<Rightarrow> basic \<Rightarrow> int \<Rightarrow> bytes \<times> int" where
  "serializeBasic Q (BFloat w) idx = serializeBasic_fixed w idx"
| "serializeBasic Q (BDouble w) idx = serializeBasic_fixed w idx"
| "serializeBasic Q (BInt32 w) idx = serializeBasic_int w idx"
| "serializeBasic Q (BInt64 w) idx = serializeBasic_int w idx"
| "serializeBasic Q (BUInt32 w) idx = serializeBasic_unsigned w idx"
| "serializeBasic Q (BUInt64 w) idx = serializeBasic_unsigned w idx"
| "serializeBasic Q (BSInt32 w) idx = serializeBasic_signed w idx"
| "serializeBasic Q (BSInt64 w) idx = serializeBasic_signed w idx"
| "serializeBasic Q (BFixed32 w) idx = serializeBasic_fixed w idx"
| "serializeBasic Q (BFixed64 w) idx = serializeBasic_fixed w idx"
| "serializeBasic Q (BSFixed32 w) idx = serializeBasic_fixed w idx"
| "serializeBasic Q (BSFixed64 w) idx = serializeBasic_fixed w idx"
| "serializeBasic Q (BString s) idx = serializeBasic_string Q s idx"
| "serializeBasic Q (BBytes b) idx = serializeBasic_bytes b idx"
| "serializeBasic Q (BBool b) idx = serializeBasic_unsigned (if b then 1 else 0 :: 32 word) idx"

subsection \<open>List serializers\<close>

definition packed_element :: "qt_api \<Rightarrow> basic \<Rightarrow> bytes" where
  "packed_element Q v =
     (let element = fst (serializeBasic Q v NotUsedFieldIndex)
      in if element = [] then element @ [0] else element)"

definition serializeListType :: "qt_api \<Rightarrow> basic list \<Rightarrow> int \<Rightarrow> bytes \<times> int" where
  "serializeListType Q listValue outFieldIndex =
     (if length listValue \<le> 0 then ([], NotUsedFieldIndex)
      else (prependLengthDelimitedSize (concat (map (packed_element Q) listValue)), outFieldIndex))"

text \<open>\<open>QStringList\<close> and \<open>QByteArrayList\<close>: one complete field per element.\<close>

definition serializeListType_string :: "qt_api \<Rightarrow> qstring list \<Rightarrow> int \<Rightarrow> bytes \<times> int" where
  "serializeListType_string Q listValue outFieldIndex =
     (if length listValue \<le> 0 then ([], NotUsedFieldIndex)
      else (concat (map (\<lambda>v. encodeHeader outFieldIndex LengthDelimited
              @ serializeLengthDelimited (toUtf8 Q v)) listValue), NotUsedFieldIndex))"

definition serializeListType_bytes :: "bytes list \<Rightarrow> int \<Rightarrow> bytes \<times> int" where
  "serializeListType_bytes listValue outFieldIndex =
     (if length listValue \<le> 0 then ([], NotUsedFieldIndex)
      else (concat (map (\<lambda>v. encodeHeader outFieldIndex LengthDelimited
              @ serializeLengthDelimited v) listValue), NotUsedFieldIndex))"

subsection \<open>Scalar deserializers\<close>

fun from_le :: "bytes \<Rightarrow> 'v::len word" where
  "from_le [] = 0"
| "from_le (b # bs) = ucast b OR push_bit 8 (from_le bs)"

text \<open>The value is read through a cast of the pointer, then the iterator moves on.\<close>

definition deserializeBasic_fixed ::
    "selfcheck_iterator \<Rightarrow> ('v::len word \<times> selfcheck_iterator) outcome" where
  "deserializeBasic_fixed it =
     and_then (copy_bytes it (LENGTH('v) div 8)) (\<lambda>bs.
       and_then (it_advance it (int (LENGTH('v) div 8))) (\<lambda>it'. Ret (from_le bs, it')))"

definition deserializeBasic_unsigned ::
    "selfcheck_iterator \<Rightarrow> ('v::len word \<times> selfcheck_iterator) outcome" where
  "deserializeBasic_unsigned it = deserializeVarintCommon it"

definition unzigzag :: "'v::len word \<Rightarrow> 'v word" where
  "unzigzag u = drop_bit 1 u XOR ((-1) * (u AND 1))"

definition deserializeBasic_signed ::
    "selfcheck_iterator \<Rightarrow> ('v::len word \<times> selfcheck_iterator) outcome" where
  "deserializeBasic_signed it =
     and_then (deserializeVarintCommon it) (\<lambda>(unsignedValue, it'). Ret (unzigzag unsignedValue, it'))"

definition deserializeBasic_int ::
    "selfcheck_iterator \<Rightarrow> ('v::len word \<times> selfcheck_iterator) outcome" where
  "deserializeBasic_int it = deserializeVarintCommon it"

definition wrap_basic :: "('a \<Rightarrow> basic) \<Rightarrow> ('a \<times> selfcheck_iterator) outcome
    \<Rightarrow> (basic \<times> selfcheck_iterator) outcome" where
  "wrap_basic C r = and_then r (\<lambda>(v, it). Ret (C v, it))"

fun deserializeBasic :: "qt_api \<Rightarrow> btype \<Rightarrow> selfcheck_iterator
    \<Rightarrow> (basic \<times> selfcheck_iterator) outcome" where
  "deserializeBasic Q TFloat it = wrap_basic BFloat (deserializeBasic_fixed it)"
| "deserializeBasic Q TDouble it = wrap_basic BDouble (deserializeBasic_fixed it)"
| "deserializeBasic Q TInt32 it = wrap_basic BInt32 (deserializeBasic_int it)"
| "deserializeBasic Q TInt64 it = wrap_basic BInt64 (deserializeBasic_int it)"
| "deserializeBasic Q TUInt32 it = wrap_basic BUInt32 (deserializeBasic_unsigned it)"
| "deserializeBasic Q TUInt64 it = wrap_basic BUInt64 (deserializeBasic_unsigned it)"
| "deserializeBasic Q TSInt32 it = wrap_basic BSInt32 (deserializeBasic_signed it)"
| "deserializeBasic Q TSInt64 it = wrap_basic BSInt64 (deserializeBasic_signed it)"
| "deserializeBasic Q TFixed32 it = wrap_basic BFixed32 (deserializeBasic_fixed it)"
| "deserializeBasic Q TFixed64 it = wrap_basic BFixed64 (deserializeBasic_fixed it)"
| "deserializeBasic Q TSFixed32 it = wrap_basic BSFixed32 (deserializeBasic_fixed it)"
| "deserializeBasic Q TSFixed64 it = wrap_basic BSFixed64 (deserializeBasic_fixed it)"
| "deserializeBasic Q TString it =
     wrap_basic (\<lambda>bs. BString (fromUtf8 Q bs)) (deserializeLengthDelimited it)"
| "deserializeBasic Q TBytes it = wrap_basic BBytes (deserializeLengthDelimited it)"
| "deserializeBasic Q TBool it =
     wrap_basic (\<lambda>w. BBool (w \<noteq> 0)) (deserializeBasic_unsigned it :: (32 word \<times> _) outcome)"

subsection \<open>List deserializers\<close>

text \<open>
  The loop of \<open>deserializeList\<close> ends when the iterators meet. Its fuel is one more than the bytes of
  the container; every element takes at least one byte, so it never runs out on a well formed
  iterator.
\<close>

fun deserializeList_loop :: "nat \<Rightarrow> (selfcheck_iterator \<Rightarrow> ('a \<times> selfcheck_iterator) outcome) \<Rightarrow>
    selfcheck_iterator \<Rightarrow> selfcheck_iterator \<Rightarrow> 'a list \<Rightarrow> ('a list \<times> selfcheck_iterator) outcome" where
  "deserializeList_loop 0 dec lastVarint it out = No_fuel"
| "deserializeList_loop (Suc fuel) dec lastVarint it out =
     (if it_eq it lastVarint then Ret (out, it)
      else and_then (dec it) (\<lambda>(v, it'). deserializeList_loop fuel dec lastVarint it' (out @ [v])))"

definition deserializeList :: "(selfcheck_iterator \<Rightarrow> ('a \<times> selfcheck_iterator) outcome) \<Rightarrow>
    selfcheck_iterator \<Rightarrow> ('a list \<times> selfcheck_iterator) outcome" where
  "deserializeList dec it =
     and_then (deserializeVarintCommon it) (\<lambda>(count :: 32 word, it').
       and_then (it_plus it' (to_int (uint count))) (\<lambda>lastVarint.
         deserializeList_loop (Suc (length (it_container it'))) dec lastVarint it' []))"

text \<open>\<open>deserializeList<QByteArray>\<close> and \<open>deserializeList<QString>\<close> append one element.\<close>

definition deserializeList_bytes :: "bytes list \<Rightarrow> selfcheck_iterator \<Rightarrow>
    (bytes list \<times> selfcheck_iterator) outcome" where
  "deserializeList_bytes previousValue it =
     and_then (deserializeLengthDelimited it) (\<lambda>(v, it'). Ret (previousValue @ [v], it'))"

definition deserializeList_string :: "qt_api \<Rightarrow> qstring list \<Rightarrow> selfcheck_iterator \<Rightarrow>
    (qstring list \<times> selfcheck_iterator) outcome" where
  "deserializeList_string Q previousValue it =
     and_then (deserializeLengthDelimited it) (\<lambda>(v, it'). Ret (previousValue @ [fromUtf8 Q v], it'))"


subsection \<open>ZigZag and byte order\<close>

lemma signed_drop_all:
  "signed_drop_bit (LENGTH('v) - 1) v = (if bit v (LENGTH('v) - 1) then -1 else (0 :: 'v::len word))"
  by (rule bit_word_eqI) (auto simp: bit_signed_drop_bit_iff not_le)

lemma and_one_cases: "v AND 1 = (if bit v 0 then 1 else (0 :: 'v::len word))"
  by (simp add: and_one_eq mod_2_eq_odd bit_0)

lemma bit_minus_one: "bit (-1 :: 'v::len word) n \<longleftrightarrow> n < LENGTH('v)"
  by (simp add: bit_minus_1_iff)

lemma bit_zigzag:
  "bit (zigzag (v :: 'v::len word)) n \<longleftrightarrow>
     n < LENGTH('v) \<and> (0 < n \<and> bit v (n - 1)) \<noteq> bit v (LENGTH('v) - 1)"
proof (cases "bit v (LENGTH('v) - 1)")
  case True
  show ?thesis
    unfolding zigzag_def signed_drop_all if_P [OF True] bit_xor_iff bit_push_bit_iff bit_minus_one
      possible_bit_word
    using True by (auto dest: bit_imp_le_length)
next
  case False
  show ?thesis
    unfolding zigzag_def signed_drop_all if_not_P [OF False] bit_xor_iff bit_push_bit_iff bit_0_eq
      possible_bit_word bot_apply
    using False by (auto dest: bit_imp_le_length)
qed

lemma bit_unzigzag:
  "bit (unzigzag (u :: 'v::len word)) n \<longleftrightarrow> n < LENGTH('v) \<and> bit u (Suc n) \<noteq> bit u 0"
proof (cases "bit u 0")
  case True
  then have "unzigzag u = drop_bit 1 u XOR -1" by (simp add: unzigzag_def and_one_cases)
  then show ?thesis
    using True by (auto simp only: bit_xor_iff bit_drop_bit_eq o_apply bit_minus_one plus_1_eq_Suc
        dest: bit_imp_le_length)
next
  case False
  then have "unzigzag u = drop_bit 1 u" by (simp add: unzigzag_def and_one_cases)
  then show ?thesis
    using False by (auto simp only: bit_drop_bit_eq o_apply plus_1_eq_Suc dest: bit_imp_le_length)
qed

lemma unzigzag_zigzag: "unzigzag (zigzag v) = v"
proof (rule bit_word_eqI)
  fix n assume n: "n < LENGTH('a)"
  show "bit (unzigzag (zigzag v)) n = bit v n"
  proof (cases "Suc n < LENGTH('a)")
    case True
    with n show ?thesis by (auto simp: bit_unzigzag bit_zigzag)
  next
    case False
    with n have "n = LENGTH('a) - 1" by simp
    with n show ?thesis by (auto simp: bit_unzigzag bit_zigzag)
  qed
qed

lemma bit_from_le:
  "bit (from_le bs :: 'v::len word) n \<longleftrightarrow>
     n < LENGTH('v) \<and> n div 8 < length bs \<and> bit (bs ! (n div 8)) (n mod 8)"
proof (induction bs arbitrary: n)
  case Nil
  then show ?case by simp
next
  case (Cons b bs)
  show ?case
  proof (cases "n < 8")
    case True
    then show ?thesis by (auto simp: bit_simps dest: bit_imp_le_length)
  next
    case False
    then obtain m where m: "n = 8 + m" by (metis le_add_diff_inverse not_less)
    have "\<not> bit b n" using False by (auto dest: bit_imp_le_length)
    moreover have "n div 8 = Suc (m div 8)" "n mod 8 = m mod 8" unfolding m by presburger+
    ultimately show ?thesis by (auto simp: m bit_simps Cons.IH)
  qed
qed

lemma length_le_bytes [simp]: "length (le_bytes (w :: 'v::len word)) = LENGTH('v) div 8"
  by (simp add: le_bytes_def)

lemma from_le_bytes: "8 dvd LENGTH('v::len) \<Longrightarrow> from_le (le_bytes w) = (w :: 'v word)"
proof (rule bit_word_eqI)
  fix n assume d: "8 dvd LENGTH('v)" and n: "n < LENGTH('v)"
  then have "n div 8 < LENGTH('v) div 8" by (auto elim!: dvdE simp: less_mult_imp_div_less mult.commute)
  moreover have "8 * (n div 8) + n mod 8 = n" by simp
  moreover have "n mod 8 < 8" by simp
  ultimately show "bit (from_le (le_bytes w) :: 'v word) n = bit w n"
    using n by (simp add: bit_from_le le_bytes_def bit_simps add.commute del: mod_less_divisor)
qed

subsection \<open>Scalar round trips\<close>

lemma unsigned_pos: "v \<noteq> 0 \<Longrightarrow> serializeBasic_unsigned v i = (serializeVarintCommon v, i)"
  by (simp add: serializeBasic_unsigned_def serializeVarint_pos)

lemma unsigned_zero [simp]: "serializeBasic_unsigned 0 i = ([], NotUsedFieldIndex)"
  by (simp add: serializeBasic_unsigned_def)

lemma zigzag_zero_iff [simp]: "zigzag v = 0 \<longleftrightarrow> v = 0"
proof
  assume "zigzag v = 0"
  then have "unzigzag (zigzag v) = unzigzag 0" by simp
  then show "v = 0" by (simp add: unzigzag_zigzag) (simp add: unzigzag_def)
qed (simp add: zigzag_def)

lemma deserialize_fixed_at [codec_simps]:
  assumes "8 dvd LENGTH('v::len)" and "length rest < 2147483600"
  shows "deserializeBasic_fixed (it_at pre (le_bytes (w :: 'v word) @ rest))
    = Ret (w, it_at (pre @ le_bytes w) rest)"
  using assms by (simp add: deserializeBasic_fixed_def from_le_bytes)

text \<open>The bytes of a scalar are non empty unless it is an integer zero, which is not sent.\<close>

definition omitted :: "basic \<Rightarrow> bool" where
  "omitted v \<longleftrightarrow> v \<in> {BInt32 0, BInt64 0, BUInt32 0, BUInt64 0, BSInt32 0, BSInt64 0,
     BBool False}"

lemma omitted_default: "omitted v \<Longrightarrow> v = bdefault (btype_of v)"
  by (auto simp: omitted_def)

lemma serializeBasic_omitted:
  "omitted v \<Longrightarrow> serializeBasic Q v i = ([], NotUsedFieldIndex)"
  by (auto simp: omitted_def serializeBasic_int_def serializeBasic_signed_def zigzag_def)

lemma serializeBasic_sent:
  "\<not> omitted v \<Longrightarrow> serializeBasic Q v i = (packed_element Q v, i) \<and> packed_element Q v \<noteq> []"
  by (cases v) (auto simp: omitted_def packed_element_def Let_def serializeBasic_int_def
      serializeBasic_signed_def unsigned_pos serializeBasic_fixed_def serializeBasic_string_def
      serializeBasic_bytes_def serializeLengthDelimited_def le_bytes_def)

lemma packed_element_simps:
  "packed_element Q (BFloat w) = le_bytes w"
  "packed_element Q (BDouble d) = le_bytes d"
  "packed_element Q (BInt32 w) = serializeVarintCommon w"
  "packed_element Q (BInt64 d) = serializeVarintCommon d"
  "packed_element Q (BUInt32 w) = serializeVarintCommon w"
  "packed_element Q (BUInt64 d) = serializeVarintCommon d"
  "packed_element Q (BSInt32 w) = serializeVarintCommon (zigzag w)"
  "packed_element Q (BSInt64 d) = serializeVarintCommon (zigzag d)"
  "packed_element Q (BFixed32 w) = le_bytes w"
  "packed_element Q (BFixed64 d) = le_bytes d"
  "packed_element Q (BSFixed32 w) = le_bytes w"
  "packed_element Q (BSFixed64 d) = le_bytes d"
  "packed_element Q (BString s) = prependLengthDelimitedSize (toUtf8 Q s)"
  "packed_element Q (BBytes b) = prependLengthDelimitedSize b"
  "packed_element Q (BBool c) = serializeVarintCommon (if c then 1 else 0 :: 32 word)"
  by (auto simp: packed_element_def Let_def serializeBasic_fixed_def serializeBasic_int_def
      serializeBasic_signed_def serializeBasic_string_def serializeBasic_bytes_def
      serializeLengthDelimited_def serializeBasic_unsigned_def serializeVarintCommon_def le_bytes_def
      mark_last_def)

lemma packed_element_nonempty [simp]: "packed_element Q v \<noteq> []"
  by (cases v) (simp_all add: packed_element_simps le_bytes_def)

definition packable :: "btype \<Rightarrow> bool" where
  "packable t \<longleftrightarrow> t \<noteq> TString \<and> t \<noteq> TBytes"

lemma varint_at:
  fixes v :: "'v::len word"
  assumes "8 \<le> LENGTH('v)" "LENGTH('v) \<le> 64" and "length rest < 2147483600"
    and "length (serializeVarintCommon v) \<le> 10"
  shows "deserializeVarintCommon (it_at pre (serializeVarintCommon v @ rest))
    = Ret (v, it_at (pre @ serializeVarintCommon v) rest)"
  using assms by (intro deserializeVarint_serialize) auto

lemma varint_at_32 [codec_simps]:
  "length rest < 2147483600 \<Longrightarrow> deserializeVarintCommon (it_at pre (serializeVarintCommon v @ rest))
    = Ret (v :: 32 word, it_at (pre @ serializeVarintCommon v) rest)"
  using length_serializeVarint_32 [of v] by (intro varint_at) auto

lemma varint_at_64 [codec_simps]:
  "length rest < 2147483600 \<Longrightarrow> deserializeVarintCommon (it_at pre (serializeVarintCommon v @ rest))
    = Ret (v :: 64 word, it_at (pre @ serializeVarintCommon v) rest)"
  using length_serializeVarint_64 [of v] by (intro varint_at) auto

lemma deserialize_fixed_32 [codec_simps]:
  "length rest < 2147483600 \<Longrightarrow> deserializeBasic_fixed (it_at pre (le_bytes w @ rest))
    = Ret (w :: 32 word, it_at (pre @ le_bytes w) rest)"
  by (rule deserialize_fixed_at) simp_all

lemma deserialize_fixed_64 [codec_simps]:
  "length rest < 2147483600 \<Longrightarrow> deserializeBasic_fixed (it_at pre (le_bytes w @ rest))
    = Ret (w :: 64 word, it_at (pre @ le_bytes w) rest)"
  by (rule deserialize_fixed_at) simp_all

lemmas basic_decoders = deserializeBasic_int_def deserializeBasic_unsigned_def
  deserializeBasic_signed_def wrap_basic_def

text \<open>The round trip of a scalar; a string needs the codec of Qt to be lossless on it.\<close>

definition utf8_ok :: "qt_api \<Rightarrow> basic \<Rightarrow> bool" where
  "utf8_ok Q v \<longleftrightarrow> (case v of BString s \<Rightarrow> fromUtf8 Q (toUtf8 Q s) = s | _ \<Rightarrow> True)"

lemma deserializeBasic_packed:
  assumes "utf8_ok Q v" and "length (packed_element Q v) + length rest < 2147483600"
  shows "deserializeBasic Q (btype_of v) (it_at pre (packed_element Q v @ rest))
    = Ret (v, it_at (pre @ packed_element Q v) rest)"
proof (cases v)
  case (BString s)
  with assms have "length (toUtf8 Q s) + length rest < 2147483600"
    by (simp add: packed_element_simps prependLengthDelimitedSize_def)
  with BString assms show ?thesis
    by (simp add: packed_element_simps basic_decoders deserializeLengthDelimited_serialize utf8_ok_def)
next
  case (BBytes b)
  with assms have "length b + length rest < 2147483600"
    by (simp add: packed_element_simps prependLengthDelimitedSize_def)
  with BBytes show ?thesis
    by (simp add: packed_element_simps basic_decoders deserializeLengthDelimited_serialize)
qed (use assms in \<open>simp_all add: packed_element_simps basic_decoders codec_simps unzigzag_zigzag
    del: deserializeVarint_serialize\<close>)

subsection \<open>Progress and safety of the scalar decoders\<close>

text \<open>What a decoder called on a well formed iterator may do: move forward and return, throw, or
  run into undefined behaviour.\<close>

definition advances :: "selfcheck_iterator \<Rightarrow> ('a \<times> selfcheck_iterator) outcome \<Rightarrow> bool" where
  "advances it r \<longleftrightarrow> (case r of
     Ret (v, it') \<Rightarrow> it_ok it' \<and> m_sizeLeft it' < m_sizeLeft it
   | Fail e \<Rightarrow> True
   | No_fuel \<Rightarrow> False)"

lemma advances_wrap: "advances it r \<Longrightarrow> advances it (and_then r (\<lambda>(v, it'). Ret (f v, it')))"
  by (cases r) (auto simp: advances_def split: prod.splits)

lemma advances_varint:
  "it_ok it \<Longrightarrow> advances it (deserializeVarintCommon it :: ('v::len word \<times> selfcheck_iterator) outcome)"
  using it_ok_varint [OF _ refl, of it, where 'v = 'v] by (auto simp: advances_def)

lemma advances_move:
  assumes "it_ok it" and "0 < n" and "n \<le> INT_MAX"
  shows "advances it (and_then (it_advance it n) (\<lambda>it'. Ret (v, it')))"
  using assms it_ok_advance [OF assms(1), of n]
  by (auto simp: advances_def it_ok_advance_cases int_limits)

lemma advances_fixed:
  assumes "it_ok it" and "8 \<le> LENGTH('v::len)" and "LENGTH('v) \<le> 64"
  shows "advances it (deserializeBasic_fixed it :: ('v word \<times> selfcheck_iterator) outcome)"
proof (cases "copy_bytes it (LENGTH('v) div 8)")
  case (Ret bs)
  have "0 < LENGTH('v) div 8" and "LENGTH('v) div 8 \<le> 8" using assms(2,3) by presburger+
  then show ?thesis
    using advances_move [OF assms(1), of "int (LENGTH('v) div 8)"] Ret
    by (simp add: deserializeBasic_fixed_def int_limits)
qed (auto simp: advances_def deserializeBasic_fixed_def copy_bytes_def split: if_splits)

lemma advances_delimited: "it_ok it \<Longrightarrow> advances it (deserializeLengthDelimited it)"
proof -
  assume ok: "it_ok it"
  from it_ok_varint [OF ok refl, where 'v = 32]
  show ?thesis
  proof (elim disjE exE conjE)
    fix len :: "32 word" and it'
    assume v: "deserializeVarintCommon it = Ret (len, it')" and it': "it_ok it'"
      and less: "m_sizeLeft it' < m_sizeLeft it"
    show ?thesis
    proof (cases "nat (m_it it') + unat len \<le> length (it_container it') + 1")
      case False
      then show ?thesis using v
        by (simp add: advances_def deserializeLengthDelimited_def copy_bytes_def)
    next
      case True
      then obtain bs where bs: "copy_bytes it' (unat len) = Ret bs"
        using it' by (auto simp: copy_bytes_def it_ok_def)
      from True it' have "unat len \<le> 2 ^ 31" by (auto simp: it_ok_def int_limits)
      then consider "unat len = 2 ^ 31" | "unat len < 2 ^ 31" by linarith
      then show ?thesis
      proof cases
        case 1
        then have "to_int (uint len) = - (2 ^ 31)" by (simp add: uint_nat to_int_def)
        then show ?thesis using v bs it'
          by (auto simp: advances_def deserializeLengthDelimited_def it_advance_def it_ok_def int_limits)
      next
        case 2
        have "to_int (int (unat len)) = int (unat len)" by (rule to_int_nat) (use 2 in simp)
        moreover have "int (unat len) < int (2 ^ 31)" using 2 by (simp only: of_nat_less_iff)
        ultimately have n: "to_int (uint len) = int (unat len)" "int (unat len) \<le> INT_MAX"
          by (simp_all only: uint_nat) (simp add: int_limits)
        then show ?thesis using v bs less it_ok_advance [OF it', of "int (unat len)"]
          by (auto simp: advances_def deserializeLengthDelimited_def it_ok_advance_cases [OF it']
              intro: le_less_trans [of _ "m_sizeLeft it'"])
      qed
    qed
  qed (simp_all add: advances_def deserializeLengthDelimited_def)
qed

lemma advances_basic: "it_ok it \<Longrightarrow> advances it (deserializeBasic Q t it)"
  by (cases t) (simp_all add: basic_decoders case_prod_beta advances_wrap advances_varint advances_fixed
      advances_delimited advances_wrap [unfolded case_prod_beta])

lemma deserializeBasic_type:
  "deserializeBasic Q t it = Ret (v, it') \<Longrightarrow> btype_of v = t"
  by (cases t) (auto simp: wrap_basic_def and_then_Ret_iff)

subsection \<open>Packed lists\<close>

text \<open>
  \<open>deserializeList\<close> is a template over the element reader. What it needs of one: its bytes are not
  empty, it reads back what was written at any place of the stream, and it moves forward. From this
  follow the round trip of the list and that the loop ends on every input.
\<close>

locale element_codec =
  fixes enc :: "'a \<Rightarrow> bytes"
    and dec :: "selfcheck_iterator \<Rightarrow> ('a \<times> selfcheck_iterator) outcome"
    and valid :: "'a \<Rightarrow> bool"
  assumes enc_nonempty: "valid v \<Longrightarrow> enc v \<noteq> []"
    and dec_enc: "valid v \<Longrightarrow> length (enc v) + length rest < 2147483600 \<Longrightarrow>
      dec (it_at pre (enc v @ rest)) = Ret (v, it_at (pre @ enc v) rest)"
    and dec_advances: "it_ok it \<Longrightarrow> advances it (dec it)"
begin

lemma loop_reads_back:
  assumes "\<forall>v \<in> set vs. valid v" and "length (concat (map enc vs)) + length rest < 2147483600"
    and "length vs < fuel"
  shows "deserializeList_loop fuel dec (it_at (pre @ concat (map enc vs)) rest)
      (it_at pre (concat (map enc vs) @ rest)) out
    = Ret (out @ vs, it_at (pre @ concat (map enc vs)) rest)"
  using assms
proof (induction vs arbitrary: fuel pre out)
  case Nil
  then show ?case by (cases fuel) auto
next
  case (Cons v vs)
  from Cons.prems(3) obtain f where f: "fuel = Suc f" "length vs < f" by (cases fuel) auto
  have "valid v" using Cons.prems(1) by simp
  from enc_nonempty [OF this] have "0 < length (enc v)" by simp
  moreover have "dec (it_at pre (enc v @ (concat (map enc vs) @ rest)))
      = Ret (v, it_at (pre @ enc v) (concat (map enc vs) @ rest))"
    using \<open>valid v\<close> Cons.prems(2) by (intro dec_enc) auto
  ultimately show ?case
    using Cons.IH [OF _ _ f(2), of "pre @ enc v" "out @ [v]"] Cons.prems(1,2) by (simp add: f)
qed

lemma list_round_trip:
  assumes "\<forall>v \<in> set vs. valid v" and "length (concat (map enc vs)) + length rest < 2147483600"
  shows "deserializeList dec (it_at pre (prependLengthDelimitedSize (concat (map enc vs)) @ rest))
    = Ret (vs, it_at (pre @ prependLengthDelimitedSize (concat (map enc vs))) rest)"
proof -
  let ?body = "concat (map enc vs)" and ?n = "word_of_nat (length (concat (map enc vs))) :: 32 word"
  have n: "uint ?n = int (length ?body)" using assms(2) by (intro uint_of_nat_32) simp
  have "length vs \<le> length ?body" using assms(1) enc_nonempty by (intro length_concat_map_ge) auto
  then have "length vs < Suc (length (pre @ serializeVarintCommon ?n) + length (?body @ rest))" by simp
  from loop_reads_back [OF assms this, of "pre @ serializeVarintCommon ?n" "[]"]
  have "deserializeList_loop (Suc (length (pre @ serializeVarintCommon ?n) + length (?body @ rest))) dec
      (it_at ((pre @ serializeVarintCommon ?n) @ ?body) rest)
      (it_at (pre @ serializeVarintCommon ?n) (?body @ rest)) []
    = Ret (vs, it_at ((pre @ serializeVarintCommon ?n) @ ?body) rest)" by simp
  then show ?thesis
    using assms(2)
    by (simp add: deserializeList_def prependLengthDelimitedSize_def varint_at_32 n add.assoc
        del: deserializeList_loop.simps of_nat_0_eq_iff)
qed

lemma loop_ends:
  "it_ok it \<Longrightarrow> m_sizeLeft it < int fuel \<Longrightarrow> deserializeList_loop fuel dec lst it out \<noteq> No_fuel"
proof (induction fuel arbitrary: it out)
  case 0
  then show ?case by (simp add: it_ok_def)
next
  case (Suc fuel)
  from dec_advances [OF Suc.prems(1)] Suc show ?case
    by (cases "dec it") (auto simp: advances_def)
qed

lemma list_ends: "it_ok it \<Longrightarrow> deserializeList dec it \<noteq> No_fuel"
proof -
  assume ok: "it_ok it"
  from it_ok_varint [OF ok refl, where 'v = 32] show ?thesis
  proof (elim disjE exE conjE)
    fix n :: "32 word" and it'
    assume v: "deserializeVarintCommon it = Ret (n, it')" and it': "it_ok it'"
    have "m_sizeLeft it' < int (Suc (length (it_container it')))" using it' by (simp add: it_ok_def)
    from loop_ends [OF it' this] show ?thesis
      using v it_plus_fuel [of it' "to_int (uint n)"]
      by (simp add: deserializeList_def and_then_No_fuel_iff del: deserializeList_loop.simps)
  qed (simp_all add: deserializeList_def)
qed

end

interpretation scalar: element_codec "packed_element Q" "deserializeBasic Q t"
    "\<lambda>v. btype_of v = t \<and> utf8_ok Q v" for Q t
  by unfold_locales (auto simp: deserializeBasic_packed advances_basic)

end
