(* ===== verification/ProtobufSerializer.thy ===== *)
theory ProtobufSerializer
  imports BasicCodec
begin

section \<open>Messages and QProtobufSerializer\<close>

text \<open>
  The property level of the binary serializer: \<open>serializeMessage\<close>, \<open>serializeProperty\<close>,
  \<open>deserializeProperty\<close>, \<open>deserializeMapPair\<close> and the handlers of \<open>qabstractprotobufserializer_p.h\<close> for
  messages, lists of messages, maps and enumerations.

  A \<open>metatype\<close> is the identifier \<open>qMetaTypeId\<close> gives to a property type; classes and enumerations are
  numbered. A \<open>variant\<close> is the content of a \<open>QVariant\<close>; its type travels beside it. A singular message
  field is a \<open>QProtobufLazyMessagePointer\<close>: \<open>VMessage None\<close> is one whose object has not been created. In
  lists and maps of messages \<open>None\<close> is a null \<open>QSharedPointer\<close>. A \<open>QMap\<close> is the list of its pairs in the
  order of iteration, which is the order of the keys.
\<close>

datatype metatype = MBasic btype | MList btype | MStringList | MBytesList | MEnum nat | MEnumList nat
  | MMessage nat | MMessageList nat | MMap btype metatype

datatype variant = VBasic basic | VList "basic list" | VStringList "qstring list"
  | VBytesList "bytes list" | VEnum int | VEnumList "int list" | VMessage "message option"
  | VMessageList "message option list" | VMap "(basic \<times> variant) list"
and message = Message "variant list"

fun properties :: "message \<Rightarrow> variant list" where
  "properties (Message ps) = ps"

text \<open>
  \<open>QProtobufMetaObject\<close>: the types of the properties of the class and the map from field numbers to
  property indices and JSON names, as a list in the order of iteration of the \<open>unordered_map\<close>.
\<close>

record protobuf_metaobject =
  staticMetaObject :: "metatype list"
  propertyOrdering :: "(int \<times> nat \<times> qstring) list"

datatype HandlerType = ObjectHandler | ListHandler | MapHandler

text \<open>
  What a serializer works in: Qt, the meta objects of the classes, and the registry of
  \<open>QtProtobufPrivate::registerHandler\<close>.
\<close>

record serializer_env =
  qt :: qt_api
  protobufMetaObject :: "nat \<Rightarrow> protobuf_metaobject"
  registry :: "metatype \<Rightarrow> HandlerType option"

text \<open>The value of a property of a default constructed object.\<close>

fun default_value :: "metatype \<Rightarrow> variant" where
  "default_value (MBasic t) = VBasic (bdefault t)"
| "default_value (MList t) = VList []"
| "default_value MStringList = VStringList []"
| "default_value MBytesList = VBytesList []"
| "default_value (MEnum e) = VEnum 0"
| "default_value (MEnumList e) = VEnumList []"
| "default_value (MMessage c) = VMessage None"
| "default_value (MMessageList c) = VMessageList []"
| "default_value (MMap k v) = VMap []"

definition new_message :: "serializer_env \<Rightarrow> nat \<Rightarrow> message" where
  "new_message X c = Message (map default_value (staticMetaObject (protobufMetaObject X c)))"

text \<open>The handler table of \<open>QProtobufSerializerPrivate\<close>, with the wire type of each entry.\<close>

fun basic_wire :: "btype \<Rightarrow> WireTypes" where
  "basic_wire TFloat = Fixed32"
| "basic_wire TDouble = Fixed64"
| "basic_wire TInt32 = Varint"
| "basic_wire TInt64 = Varint"
| "basic_wire TUInt32 = Varint"
| "basic_wire TUInt64 = Varint"
| "basic_wire TSInt32 = Varint"
| "basic_wire TSInt64 = Varint"
| "basic_wire TFixed32 = Fixed32"
| "basic_wire TFixed64 = Fixed64"
| "basic_wire TSFixed32 = Fixed32"
| "basic_wire TSFixed64 = Fixed64"
| "basic_wire TBool = Varint"
| "basic_wire TString = LengthDelimited"
| "basic_wire TBytes = LengthDelimited"

fun handlers :: "metatype \<Rightarrow> WireTypes option" where
  "handlers (MBasic t) = Some (basic_wire t)"
| "handlers (MList t) = (if packable t \<and> t \<noteq> TBool then Some LengthDelimited else None)"
| "handlers MStringList = Some LengthDelimited"
| "handlers MBytesList = Some LengthDelimited"
| "handlers _ = None"

subsection \<open>Serialization\<close>

text \<open>Calls for the elements of a container, their results appended.\<close>

fun collect :: "('a \<Rightarrow> bytes outcome) \<Rightarrow> 'a list \<Rightarrow> bytes outcome" where
  "collect f [] = Ret []"
| "collect f (x # xs) = and_then (f x) (\<lambda>b. and_then (collect f xs) (\<lambda>bs. Ret (b @ bs)))"

text \<open>
  \<open>serializeWrapper\<close> around the serializer of a table entry: a null \<open>QVariant\<close> is not sent; a value of
  another type than the entry's is a bad cast.
\<close>

fun serializeWrapper :: "qt_api \<Rightarrow> variant option \<Rightarrow> int \<Rightarrow> (bytes \<times> int) outcome" where
  "serializeWrapper Q None i = Ret ([], NotUsedFieldIndex)"
| "serializeWrapper Q (Some (VBasic v)) i = Ret (serializeBasic Q v i)"
| "serializeWrapper Q (Some (VList vs)) i = Ret (serializeListType Q vs i)"
| "serializeWrapper Q (Some (VStringList vs)) i = Ret (serializeListType_string Q vs i)"
| "serializeWrapper Q (Some (VBytesList vs)) i = Ret (serializeListType_bytes vs i)"
| "serializeWrapper Q _ i = undefined_by Bad_cast"

definition serializeProperty_basic :: "qt_api \<Rightarrow> WireTypes \<Rightarrow> variant \<Rightarrow> int \<Rightarrow> bytes outcome" where
  "serializeProperty_basic Q type value protoFieldIndex =
     and_then (serializeWrapper Q (Some value) protoFieldIndex) (\<lambda>(result, fieldIndex).
       Ret (if fieldIndex \<noteq> NotUsedFieldIndex \<and> type \<noteq> UnknownWireType
            then encodeHeader protoFieldIndex type @ result else result))"

definition serializeEnum :: "64 word \<Rightarrow> int \<Rightarrow> bytes" where
  "serializeEnum value protoFieldIndex =
     (let (result, fieldIndex) = serializeBasic_int value protoFieldIndex
      in if fieldIndex \<noteq> NotUsedFieldIndex then encodeHeader protoFieldIndex Varint @ result
         else result)"

definition serializeEnumList :: "qt_api \<Rightarrow> 64 word list \<Rightarrow> int \<Rightarrow> bytes" where
  "serializeEnumList Q values protoFieldIndex =
     (let (result, fieldIndex) = serializeListType Q (map BInt64 values) protoFieldIndex
      in if fieldIndex \<noteq> NotUsedFieldIndex
         then encodeHeader protoFieldIndex LengthDelimited @ result else result)"

text \<open>The handlers of an enumeration type convert its values to \<open>int64\<close>.\<close>

definition enum_serializer :: "int \<Rightarrow> int \<Rightarrow> bytes" where
  "enum_serializer value protoFieldIndex = serializeEnum (word_of_int value) protoFieldIndex"

definition enum_list_serializer :: "qt_api \<Rightarrow> int list \<Rightarrow> int \<Rightarrow> bytes" where
  "enum_list_serializer Q values protoFieldIndex =
     serializeEnumList Q (map word_of_int values) protoFieldIndex"

text \<open>
  \<open>serializeObject\<close> of the serializer; \<open>serializeMessage\<close> is virtual and comes in as \<open>rec\<close>. A null
  pointer is dereferenced by the call.
\<close>

definition serializeObject :: "(nat \<Rightarrow> message \<Rightarrow> bytes outcome) \<Rightarrow> nat \<Rightarrow> message option \<Rightarrow> int \<Rightarrow>
    bytes outcome" where
  "serializeObject rec c object protoFieldIndex =
     (case object of
        None \<Rightarrow> undefined_by Null_dereference
      | Some m \<Rightarrow> and_then (rec c m) (\<lambda>body.
          Ret (encodeHeader protoFieldIndex LengthDelimited @ prependLengthDelimitedSize body)))"

definition serializeListObject :: "(nat \<Rightarrow> message \<Rightarrow> bytes outcome) \<Rightarrow> nat \<Rightarrow> message option \<Rightarrow> int \<Rightarrow>
    bytes outcome" where
  "serializeListObject rec c object protoFieldIndex = serializeObject rec c object protoFieldIndex"

text \<open>Null pointers in a list are skipped, with a warning.\<close>

definition serializeList :: "(nat \<Rightarrow> message \<Rightarrow> bytes outcome) \<Rightarrow> nat \<Rightarrow> message option list \<Rightarrow> int \<Rightarrow>
    bytes outcome" where
  "serializeList rec c values protoFieldIndex =
     collect (\<lambda>v. if v = None then Ret [] else serializeListObject rec c v protoFieldIndex) values"

definition serializeMapPair :: "qt_api \<Rightarrow> (variant \<Rightarrow> int \<Rightarrow> bytes outcome) \<Rightarrow> btype \<Rightarrow>
    basic \<times> variant \<Rightarrow> int \<Rightarrow> bytes outcome" where
  "serializeMapPair Q serialize_value k pair protoFieldIndex =
     and_then (serializeProperty_basic Q (basic_wire k) (VBasic (fst pair)) 1) (\<lambda>key.
       and_then (serialize_value (snd pair) 2) (\<lambda>value.
         Ret (encodeHeader protoFieldIndex LengthDelimited
              @ prependLengthDelimitedSize (key @ value))))"

definition serializeMap :: "qt_api \<Rightarrow> (variant \<Rightarrow> int \<Rightarrow> bytes outcome) \<Rightarrow> btype \<Rightarrow>
    (basic \<times> variant) list \<Rightarrow> int \<Rightarrow> bytes outcome" where
  "serializeMap Q serialize_value k pairs protoFieldIndex =
     collect (\<lambda>pair. if snd pair = VMessage None then Ret []
              else serializeMapPair Q serialize_value k pair protoFieldIndex) pairs"

text \<open>
  \<open>serializeProperty\<close>: the table first, then the registry; an empty \<open>std::function\<close> found there throws
  when it is called.
\<close>

fun serializeProperty :: "serializer_env \<Rightarrow> (nat \<Rightarrow> message \<Rightarrow> bytes outcome) \<Rightarrow> metatype \<Rightarrow> variant \<Rightarrow>
    int \<Rightarrow> bytes outcome" where
  "serializeProperty X rec t value i =
     (case handlers t of
        Some type \<Rightarrow> serializeProperty_basic (qt X) type value i
      | None \<Rightarrow>
          if registry X t = None then throw Bad_function_call
          else (case (t, value) of
              (MEnum e, VEnum v) \<Rightarrow> Ret (enum_serializer v i)
            | (MEnumList e, VEnumList vs) \<Rightarrow> Ret (enum_list_serializer (qt X) vs i)
            | (MMessage c, VMessage m) \<Rightarrow> serializeObject rec c m i
            | (MMessageList c, VMessageList ms) \<Rightarrow> serializeList rec c ms i
            | (MMap k v, VMap ps) \<Rightarrow> serializeMap (qt X) (serializeProperty X rec v) k ps i
            | _ \<Rightarrow> undefined_by Bad_cast))"

text \<open>Reading a message property creates the object of an empty lazy pointer.\<close>

fun read_property :: "serializer_env \<Rightarrow> metatype \<Rightarrow> variant \<Rightarrow> variant" where
  "read_property X (MMessage c) (VMessage None) = VMessage (Some (new_message X c))"
| "read_property X t v = v"

definition serializeField :: "serializer_env \<Rightarrow> (nat \<Rightarrow> message \<Rightarrow> bytes outcome) \<Rightarrow> nat \<Rightarrow> message \<Rightarrow>
    int \<times> nat \<times> qstring \<Rightarrow> bytes outcome" where
  "serializeField X rec c object field =
     (case field of (fieldIndex, propertyIndex, jsonName) \<Rightarrow>
       let t = staticMetaObject (protobufMetaObject X c) ! propertyIndex
       in serializeProperty X rec t (read_property X t (properties object ! propertyIndex)) fieldIndex)"

text \<open>The fuel bounds the depth of nested messages.\<close>

fun serializeMessage :: "serializer_env \<Rightarrow> nat \<Rightarrow> nat \<Rightarrow> message \<Rightarrow> bytes outcome" where
  "serializeMessage X 0 c object = No_fuel"
| "serializeMessage X (Suc fuel) c object =
     collect (serializeField X (serializeMessage X fuel) c object)
       (propertyOrdering (protobufMetaObject X c))"

subsection \<open>Deserialization\<close>

text \<open>The deserializer of a table entry; a packed list replaces the value, the other lists grow.\<close>

definition handler_deserializer :: "qt_api \<Rightarrow> metatype \<Rightarrow> selfcheck_iterator \<Rightarrow> variant \<Rightarrow>
    (variant \<times> selfcheck_iterator) outcome" where
  "handler_deserializer Q type it prev =
     (case type of
        MBasic t \<Rightarrow> and_then (deserializeBasic Q t it) (\<lambda>(v, it'). Ret (VBasic v, it'))
      | MList t \<Rightarrow>
          and_then (deserializeList (deserializeBasic Q t) it) (\<lambda>(vs, it'). Ret (VList vs, it'))
      | MStringList \<Rightarrow>
          (case prev of
             VStringList vs \<Rightarrow>
               and_then (deserializeList_string Q vs it) (\<lambda>(vs', it'). Ret (VStringList vs', it'))
           | _ \<Rightarrow> undefined_by Bad_cast)
      | MBytesList \<Rightarrow>
          (case prev of
             VBytesList vs \<Rightarrow>
               and_then (deserializeList_bytes vs it) (\<lambda>(vs', it'). Ret (VBytesList vs', it'))
           | _ \<Rightarrow> undefined_by Bad_cast)
      | _ \<Rightarrow> undefined_by Bad_cast)"

definition deserializeEnum :: "selfcheck_iterator \<Rightarrow> (64 word \<times> selfcheck_iterator) outcome" where
  "deserializeEnum it = deserializeBasic_int it"

definition deserializeEnumList :: "selfcheck_iterator \<Rightarrow> (64 word list \<times> selfcheck_iterator) outcome" where
  "deserializeEnumList it = deserializeList deserializeBasic_int it"

definition enum_deserializer :: "selfcheck_iterator \<Rightarrow> (int \<times> selfcheck_iterator) outcome" where
  "enum_deserializer it =
     and_then (deserializeEnum it) (\<lambda>(intValue, it'). Ret (to_int (sint intValue), it'))"

definition enum_list_deserializer :: "int list \<Rightarrow> selfcheck_iterator \<Rightarrow>
    (int list \<times> selfcheck_iterator) outcome" where
  "enum_list_deserializer previous it =
     and_then (deserializeEnumList it)
       (\<lambda>(intList, it'). Ret (previous @ map (\<lambda>w. to_int (sint w)) intList, it'))"

text \<open>
  \<open>deserializeMessage\<close> works on the object in place, so that what was read before an exception stays in
  it; \<open>rec\<close> gives the object and how the call ended.
\<close>

definition deserializeObject :: "(nat \<Rightarrow> message \<Rightarrow> bytes \<Rightarrow> message \<times> unit outcome) \<Rightarrow> nat \<Rightarrow>
    message \<Rightarrow> selfcheck_iterator \<Rightarrow> (message \<times> selfcheck_iterator) outcome" where
  "deserializeObject rec c object it =
     and_then (deserializeLengthDelimited it) (\<lambda>(array, it').
       case rec c object array of (m, ended) \<Rightarrow> and_then ended (\<lambda>_. Ret (m, it')))"

definition deserializeListObject :: "(nat \<Rightarrow> message \<Rightarrow> bytes \<Rightarrow> message \<times> unit outcome) \<Rightarrow> nat \<Rightarrow>
    message \<Rightarrow> selfcheck_iterator \<Rightarrow> (bool \<times> message \<times> selfcheck_iterator) outcome" where
  "deserializeListObject rec c object it =
     and_then (deserializeObject rec c object it) (\<lambda>(m, it'). Ret (True, m, it'))"

text \<open>The handlers make a new object for every message they read.\<close>

definition object_deserializer :: "serializer_env \<Rightarrow> (nat \<Rightarrow> message \<Rightarrow> bytes \<Rightarrow> message \<times> unit outcome) \<Rightarrow>
    nat \<Rightarrow> selfcheck_iterator \<Rightarrow> (message option \<times> selfcheck_iterator) outcome" where
  "object_deserializer X rec c it =
     and_then (deserializeObject rec c (new_message X c) it) (\<lambda>(m, it'). Ret (Some m, it'))"

definition object_list_deserializer :: "serializer_env \<Rightarrow> (nat \<Rightarrow> message \<Rightarrow> bytes \<Rightarrow> message \<times> unit outcome) \<Rightarrow>
    nat \<Rightarrow> message option list \<Rightarrow> selfcheck_iterator \<Rightarrow> (message option list \<times> selfcheck_iterator) outcome" where
  "object_list_deserializer X rec c previous it =
     and_then (deserializeListObject rec c (new_message X c) it) (\<lambda>(ok, newValue, it').
       Ret (if ok then previous @ [Some newValue] else previous, it'))"

text \<open>The order of the keys of a \<open>QMap\<close> and its \<open>operator []\<close> assignment.\<close>

fun key_number :: "basic \<Rightarrow> int" where
  "key_number (BInt32 a) = sint a"
| "key_number (BInt64 a) = sint a"
| "key_number (BSInt32 a) = sint a"
| "key_number (BSInt64 a) = sint a"
| "key_number (BSFixed32 a) = sint a"
| "key_number (BSFixed64 a) = sint a"
| "key_number (BUInt32 a) = uint a"
| "key_number (BUInt64 a) = uint a"
| "key_number (BFixed32 a) = uint a"
| "key_number (BFixed64 a) = uint a"
| "key_number (BBool b) = of_bool b"
| "key_number _ = 0"

definition key_less :: "basic \<Rightarrow> basic \<Rightarrow> bool" where
  "key_less a b \<longleftrightarrow>
     (case a of
        BString s \<Rightarrow> (case b of BString s' \<Rightarrow> ord_class.lexordp s s' | _ \<Rightarrow> False)
      | _ \<Rightarrow> key_number a < key_number b)"

fun qmap_insert :: "basic \<Rightarrow> 'v \<Rightarrow> (basic \<times> 'v) list \<Rightarrow> (basic \<times> 'v) list" where
  "qmap_insert k v [] = [(k, v)]"
| "qmap_insert k v ((k', v') # ps) =
     (if key_less k' k then (k', v') # qmap_insert k v ps
      else if key_less k k' then (k, v) # (k', v') # ps
      else (k', v) # ps)"

text \<open>
  The loop of \<open>deserializeMapPair\<close>. The result of \<open>decodeHeader\<close> is not looked at: field 1 is the key,
  every other number the value. Each turn reads a header, so the bytes of the container bound the turns.
\<close>

fun deserializeMapPair_loop :: "nat \<Rightarrow> qt_api \<Rightarrow> btype \<Rightarrow>
    (selfcheck_iterator \<Rightarrow> variant \<Rightarrow> (variant \<times> selfcheck_iterator) outcome) \<Rightarrow>
    selfcheck_iterator \<Rightarrow> selfcheck_iterator \<Rightarrow> basic \<Rightarrow> variant \<Rightarrow>
    (basic \<times> variant \<times> selfcheck_iterator) outcome" where
  "deserializeMapPair_loop 0 Q k dec lst it key value = No_fuel"
| "deserializeMapPair_loop (Suc fuel) Q k dec lst it key value =
     (if it_eq it lst then Ret (key, value, it)
      else and_then (decodeHeader it) (\<lambda>(valid, mapIndex, type, it').
        if mapIndex = 1
        then and_then (deserializeBasic Q k it') (\<lambda>(key', it'').
               deserializeMapPair_loop fuel Q k dec lst it'' key' value)
        else and_then (dec it' value) (\<lambda>(value', it'').
               deserializeMapPair_loop fuel Q k dec lst it'' key value')))"

definition deserializeMapPair :: "qt_api \<Rightarrow> btype \<Rightarrow>
    (selfcheck_iterator \<Rightarrow> variant \<Rightarrow> (variant \<times> selfcheck_iterator) outcome) \<Rightarrow>
    basic \<Rightarrow> variant \<Rightarrow> selfcheck_iterator \<Rightarrow> (basic \<times> variant \<times> selfcheck_iterator) outcome" where
  "deserializeMapPair Q k dec key value it =
     and_then (deserializeVarintCommon it) (\<lambda>(count :: 32 word, it').
       and_then (it_plus it' (to_int (uint count))) (\<lambda>lst.
         deserializeMapPair_loop (Suc (length (it_container it'))) Q k dec lst it' key value))"

text \<open>
  Key and value of the pair start as default values, a message as a null pointer (which is also what
  \<open>default_value\<close> gives).
\<close>

definition deserializeMap :: "qt_api \<Rightarrow> btype \<Rightarrow> metatype \<Rightarrow>
    (selfcheck_iterator \<Rightarrow> variant \<Rightarrow> (variant \<times> selfcheck_iterator) outcome) \<Rightarrow>
    (basic \<times> variant) list \<Rightarrow> selfcheck_iterator \<Rightarrow> ((basic \<times> variant) list \<times> selfcheck_iterator) outcome" where
  "deserializeMap Q k v dec previous it =
     and_then (deserializeMapPair Q k dec (bdefault k) (default_value v) it) (\<lambda>(key, value, it').
       Ret (qmap_insert key value previous, it'))"

fun deserializeValue :: "serializer_env \<Rightarrow> (nat \<Rightarrow> message \<Rightarrow> bytes \<Rightarrow> message \<times> unit outcome) \<Rightarrow> metatype \<Rightarrow>
    selfcheck_iterator \<Rightarrow> variant \<Rightarrow> (variant \<times> selfcheck_iterator) outcome" where
  "deserializeValue X rec t it prev =
     (case handlers t of
        Some type \<Rightarrow> handler_deserializer (qt X) t it prev
      | None \<Rightarrow>
          if registry X t = None then throw Bad_function_call
          else (case (t, prev) of
              (MEnum e, _) \<Rightarrow> and_then (enum_deserializer it) (\<lambda>(v, it'). Ret (VEnum v, it'))
            | (MEnumList e, VEnumList vs) \<Rightarrow>
                and_then (enum_list_deserializer vs it) (\<lambda>(vs', it'). Ret (VEnumList vs', it'))
            | (MMessage c, _) \<Rightarrow>
                and_then (object_deserializer X rec c it) (\<lambda>(m, it'). Ret (VMessage m, it'))
            | (MMessageList c, VMessageList ms) \<Rightarrow>
                and_then (object_list_deserializer X rec c ms it) (\<lambda>(ms', it'). Ret (VMessageList ms', it'))
            | (MMap k v, VMap ps) \<Rightarrow>
                and_then (deserializeMap (qt X) k v (deserializeValue X rec v) ps it)
                  (\<lambda>(ps', it'). Ret (VMap ps', it'))
            | _ \<Rightarrow> undefined_by Bad_cast))"

definition deserializeProperty :: "serializer_env \<Rightarrow> (nat \<Rightarrow> message \<Rightarrow> bytes \<Rightarrow> message \<times> unit outcome) \<Rightarrow> nat \<Rightarrow>
    message \<Rightarrow> selfcheck_iterator \<Rightarrow> (message \<times> selfcheck_iterator) outcome" where
  "deserializeProperty X rec c object it =
     and_then (decodeHeader it) (\<lambda>(valid, fieldNumber, wireType, it').
       if \<not> valid then throw Invalid_argument
       else (case map_of (propertyOrdering (protobufMetaObject X c)) fieldNumber of
          None \<Rightarrow> and_then (skipSerializedFieldBytes it' wireType) (\<lambda>(bytesCount, it''). Ret (object, it''))
        | Some (propertyIndex, jsonName) \<Rightarrow>
            let t = staticMetaObject (protobufMetaObject X c) ! propertyIndex in
            and_then (deserializeValue X rec t it' (read_property X t (properties object ! propertyIndex)))
              (\<lambda>(newPropertyValue, it'').
                 Ret (Message ((properties object)[propertyIndex := newPropertyValue]), it''))))"

text \<open>One unit of fuel for every property read and every level of nesting.\<close>

fun deserializeMessage_loop :: "serializer_env \<Rightarrow> nat \<Rightarrow> nat \<Rightarrow> message \<Rightarrow> selfcheck_iterator \<Rightarrow>
    message \<times> unit outcome" where
  "deserializeMessage_loop X 0 c object it = (object, No_fuel)"
| "deserializeMessage_loop X (Suc fuel) c object it =
     (if it_at_end it then (object, Ret ())
      else (case deserializeProperty X
              (\<lambda>c' m data. deserializeMessage_loop X fuel c' m (it_begin data)) c object it of
          Ret (object', it') \<Rightarrow> deserializeMessage_loop X fuel c object' it'
        | Fail e \<Rightarrow> (object, Fail e)
        | No_fuel \<Rightarrow> (object, No_fuel)))"

definition deserializeMessage :: "serializer_env \<Rightarrow> nat \<Rightarrow> nat \<Rightarrow> message \<Rightarrow> bytes \<Rightarrow> message \<times> unit outcome" where
  "deserializeMessage X fuel c object data = deserializeMessage_loop X fuel c object (it_begin data)"

text \<open>
  \<open>serialize<T>\<close> and \<open>deserialize<T>\<close>. The latter fills a fresh object and assigns it to the given one in
  any case, before it throws again.
\<close>

definition serialize :: "serializer_env \<Rightarrow> nat \<Rightarrow> nat \<Rightarrow> message \<Rightarrow> bytes outcome" where
  "serialize X fuel c object = serializeMessage X fuel c object"

definition deserialize :: "serializer_env \<Rightarrow> nat \<Rightarrow> nat \<Rightarrow> message \<Rightarrow> bytes \<Rightarrow> message \<times> unit outcome" where
  "deserialize X fuel c object data =
     (let (newValue, ended) = deserializeMessage X fuel c (new_message X c) data
      in (newValue, ended))"

declare serializeProperty.simps [simp del] deserializeValue.simps [simp del]

subsection \<open>Well typed messages and what is sent of them\<close>

text \<open>
  A class is well formed when its field numbers are valid and distinct and every property has exactly
  one of them.
\<close>

definition wf_class :: "protobuf_metaobject \<Rightarrow> bool" where
  "wf_class M \<longleftrightarrow>
     distinct (map fst (propertyOrdering M))
     \<and> (\<forall>i \<in> set (map fst (propertyOrdering M)). 0 < i \<and> i < 2 ^ 29)
     \<and> distinct (map (\<lambda>(i, p, j). p) (propertyOrdering M))
     \<and> set (map (\<lambda>(i, p, j). p) (propertyOrdering M)) = set [0..<length (staticMetaObject M)]"

definition map_value_type :: "metatype \<Rightarrow> bool" where
  "map_value_type t \<longleftrightarrow> (case t of MBasic _ \<Rightarrow> True | MEnum _ \<Rightarrow> True | MMessage _ \<Rightarrow> True | _ \<Rightarrow> False)"

text \<open>
  Well typed to the depth of the fuel: the values have the types of the properties, handlers of the
  message, map and enumeration types are registered, strings survive UTF-8, maps are sorted by key.
\<close>

fun wt_value :: "serializer_env \<Rightarrow> (nat \<Rightarrow> message \<Rightarrow> bool) \<Rightarrow> metatype \<Rightarrow> variant \<Rightarrow> bool" where
  "wt_value X rec (MBasic t) x \<longleftrightarrow>
     (case x of VBasic v \<Rightarrow> btype_of v = t \<and> utf8_ok (qt X) v | _ \<Rightarrow> False)"
| "wt_value X rec (MList t) x \<longleftrightarrow>
     (case x of VList vs \<Rightarrow> packable t \<and> t \<noteq> TBool \<and> (\<forall>v \<in> set vs. btype_of v = t) | _ \<Rightarrow> False)"
| "wt_value X rec MStringList x \<longleftrightarrow>
     (case x of VStringList vs \<Rightarrow> \<forall>v \<in> set vs. fromUtf8 (qt X) (toUtf8 (qt X) v) = v | _ \<Rightarrow> False)"
| "wt_value X rec MBytesList x \<longleftrightarrow> (case x of VBytesList vs \<Rightarrow> True | _ \<Rightarrow> False)"
| "wt_value X rec (MEnum e) x \<longleftrightarrow>
     (case x of VEnum v \<Rightarrow> registry X (MEnum e) \<noteq> None \<and> in_int v | _ \<Rightarrow> False)"
| "wt_value X rec (MEnumList e) x \<longleftrightarrow>
     (case x of VEnumList vs \<Rightarrow> registry X (MEnumList e) \<noteq> None \<and> (\<forall>v \<in> set vs. in_int v) | _ \<Rightarrow> False)"
| "wt_value X rec (MMessage c) x \<longleftrightarrow>
     (case x of
        VMessage m \<Rightarrow> registry X (MMessage c) \<noteq> None \<and> (case m of None \<Rightarrow> True | Some m' \<Rightarrow> rec c m')
      | _ \<Rightarrow> False)"
| "wt_value X rec (MMessageList c) x \<longleftrightarrow>
     (case x of
        VMessageList ms \<Rightarrow> registry X (MMessageList c) \<noteq> None
          \<and> (\<forall>m \<in> set ms. case m of None \<Rightarrow> True | Some m' \<Rightarrow> rec c m')
      | _ \<Rightarrow> False)"
| "wt_value X rec (MMap k t) x \<longleftrightarrow>
     (case x of
        VMap ps \<Rightarrow> registry X (MMap k t) \<noteq> None \<and> map_value_type t \<and> sorted_wrt key_less (map fst ps)
          \<and> (\<forall>p \<in> set ps. btype_of (fst p) = k \<and> utf8_ok (qt X) (fst p) \<and> wt_value X rec t (snd p))
      | _ \<Rightarrow> False)"

fun wt_message :: "serializer_env \<Rightarrow> nat \<Rightarrow> nat \<Rightarrow> message \<Rightarrow> bool" where
  "wt_message X 0 c object \<longleftrightarrow> True"
| "wt_message X (Suc fuel) c object \<longleftrightarrow>
     (let M = protobufMetaObject X c in
      wf_class M \<and> length (properties object) = length (staticMetaObject M)
      \<and> (\<forall>p \<in> set [0..<length (staticMetaObject M)].
           wt_value X (wt_message X fuel) (staticMetaObject M ! p)
             (read_property X (staticMetaObject M ! p) (properties object ! p))))"

text \<open>
  The message the bytes stand for: lazy objects are created, null pointers of lists and maps are gone.
\<close>

fun sent_value :: "(nat \<Rightarrow> message \<Rightarrow> message) \<Rightarrow> metatype \<Rightarrow> variant \<Rightarrow> variant" where
  "sent_value rec (MMap k t) x =
     (case x of
        VMap ps \<Rightarrow> VMap (map (\<lambda>(key, v). (key, sent_value rec t v))
          (filter (\<lambda>p. snd p \<noteq> VMessage None) ps))
      | _ \<Rightarrow> x)"
| "sent_value rec (MMessage c) x = (case x of VMessage m \<Rightarrow> VMessage (map_option (rec c) m) | _ \<Rightarrow> x)"
| "sent_value rec (MMessageList c) x =
     (case x of
        VMessageList ms \<Rightarrow> VMessageList (map (map_option (rec c)) (filter (\<lambda>m. m \<noteq> None) ms))
      | _ \<Rightarrow> x)"
| "sent_value rec t x = x"

fun sent_message :: "serializer_env \<Rightarrow> nat \<Rightarrow> nat \<Rightarrow> message \<Rightarrow> message" where
  "sent_message X 0 c object = object"
| "sent_message X (Suc fuel) c object =
     (let M = protobufMetaObject X c in
      Message (map (\<lambda>p. sent_value (sent_message X fuel) (staticMetaObject M ! p)
          (read_property X (staticMetaObject M ! p) (properties object ! p)))
        [0..<length (staticMetaObject M)]))"

end
