(* ===== verification/MessageRoundTrip.thy ===== *)
theory MessageRoundTrip
  imports ProtobufSerializer
begin

section \<open>The round trip of messages\<close>

text \<open>
  Serializing a well typed message and deserializing the bytes gives the message back, lazily created
  objects and dropped null pointers apart (\<open>sent_message\<close>). The proof follows the bytes: \<open>reads\<close> says
  that a value decodes from its payload anywhere in a stream, \<open>consumes\<close> that the property loop passes
  over a run of complete fields with a given effect on the object.
\<close>

abbreviation nested :: "serializer_env \<Rightarrow> nat \<Rightarrow> nat \<Rightarrow> message \<Rightarrow> bytes \<Rightarrow> message \<times> unit outcome" where
  "nested X fuel \<equiv> (\<lambda>c m data. deserializeMessage_loop X fuel c m (it_begin data))"

definition reads :: "serializer_env \<Rightarrow> metatype \<Rightarrow> bytes \<Rightarrow> variant \<Rightarrow> variant \<Rightarrow> bool" where
  "reads X t payload prev v \<longleftrightarrow>
     (\<forall>pre rest fuel. length payload + length rest < 2147483600 \<longrightarrow> length payload < fuel \<longrightarrow>
        deserializeValue X (nested X fuel) t (it_at pre (payload @ rest)) prev
          = Ret (v, it_at (pre @ payload) rest))"

definition consumes :: "serializer_env \<Rightarrow> nat \<Rightarrow> bytes \<Rightarrow> message \<Rightarrow> message \<Rightarrow> bool" where
  "consumes X c bs object object' \<longleftrightarrow>
     (\<forall>pre rest fuel. length bs + length rest < 2147483600 \<longrightarrow> length bs + length rest < fuel \<longrightarrow>
        (\<exists>fuel'. length rest < fuel' \<and>
           deserializeMessage_loop X fuel c object (it_at pre (bs @ rest))
             = deserializeMessage_loop X fuel' c object' (it_at (pre @ bs) rest)))"

lemma consumes_Nil [simp]: "consumes X c [] object object"
  by (auto simp: consumes_def)

lemma consumesD:
  assumes "consumes X c bs object object'" and "length bs + length rest < 2147483600"
    and "length bs + length rest < fuel"
  obtains fuel' where "length rest < fuel'"
    and "deserializeMessage_loop X fuel c object (it_at pre (bs @ rest))
      = deserializeMessage_loop X fuel' c object' (it_at (pre @ bs) rest)"
  using assms unfolding consumes_def by blast

lemma consumes_append:
  assumes "consumes X c as o1 o2" and "consumes X c bs o2 o3"
  shows "consumes X c (as @ bs) o1 o3"
  unfolding consumes_def
proof (intro allI impI)
  fix pre rest :: bytes and fuel
  assume len: "length (as @ bs) + length rest < 2147483600" "length (as @ bs) + length rest < fuel"
  from consumesD [OF assms(1), of "bs @ rest" fuel pre] len obtain f where f: "length (bs @ rest) < f"
    and 1: "deserializeMessage_loop X fuel c o1 (it_at pre (as @ (bs @ rest)))
      = deserializeMessage_loop X f c o2 (it_at (pre @ as) (bs @ rest))"
    by auto
  from consumesD [OF assms(2), of rest f "pre @ as"] len f obtain f' where "length rest < f'"
    and "deserializeMessage_loop X f c o2 (it_at (pre @ as) (bs @ rest))
      = deserializeMessage_loop X f' c o3 (it_at ((pre @ as) @ bs) rest)"
    by auto
  with 1 show "\<exists>fuel'. length rest < fuel' \<and>
      deserializeMessage_loop X fuel c o1 (it_at pre ((as @ bs) @ rest))
        = deserializeMessage_loop X fuel' c o3 (it_at (pre @ as @ bs) rest)"
    by auto
qed

lemma consumes_all:
  assumes "consumes X c bs o1 o2" and "length bs < 2147483600" and "length bs < fuel"
  shows "deserializeMessage_loop X fuel c o1 (it_begin bs) = (o2, Ret ())"
proof -
  have "it_begin bs = it_at [] bs" using assms(2) by (simp add: it_at_begin int_limits)
  moreover from consumesD [OF assms(1), of "[]" fuel "[]"] assms(2,3) obtain f where "0 < f"
    "deserializeMessage_loop X fuel c o1 (it_at [] bs) = deserializeMessage_loop X f c o2 (it_at bs [])"
    by auto
  ultimately show ?thesis by (cases f) auto
qed

text \<open>One complete field.\<close>

lemma consumes_field:
  assumes "map_of (propertyOrdering (protobufMetaObject X c)) i = Some (p, j)"
    and "t = staticMetaObject (protobufMetaObject X c) ! p"
    and "0 < i" "i < 2 ^ 29" "sendable w"
    and "reads X t payload (read_property X t (properties object ! p)) v"
  shows "consumes X c (encodeHeader i w @ payload) object (Message ((properties object)[p := v]))"
  unfolding consumes_def
proof (intro allI impI)
  fix pre rest :: bytes and fuel
  let ?h = "encodeHeader i w"
  assume len: "length (?h @ payload) + length rest < 2147483600" "length (?h @ payload) + length rest < fuel"
  then obtain f where f: "fuel = Suc f" by (cases fuel) auto
  have "0 < length ?h" by simp
  with len f have "length payload < f" "length rest < f" unfolding length_append by linarith+
  then have "deserializeValue X (nested X f) t (it_at (pre @ ?h) (payload @ rest))
      (read_property X t (properties object ! p)) = Ret (v, it_at ((pre @ ?h) @ payload) rest)"
    using assms(6) len unfolding reads_def by simp
  moreover have "decodeHeader (it_at pre (?h @ (payload @ rest)))
      = Ret (True, i, w, it_at (pre @ ?h) (payload @ rest))"
    using assms(3-5) len by (intro decodeHeader_encode) auto
  ultimately have "deserializeProperty X (nested X f) c object (it_at pre (?h @ (payload @ rest)))
      = Ret (Message ((properties object)[p := v]), it_at ((pre @ ?h) @ payload) rest)"
    using assms(1,2) by (simp add: deserializeProperty_def Let_def)
  then have "deserializeMessage_loop X fuel c object (it_at pre ((?h @ payload) @ rest))
      = deserializeMessage_loop X f c (Message ((properties object)[p := v]))
          (it_at (pre @ ?h @ payload) rest)"
    by (simp add: f)
  with \<open>length rest < f\<close> show "\<exists>fuel'. length rest < fuel' \<and>
      deserializeMessage_loop X fuel c object (it_at pre ((?h @ payload) @ rest))
        = deserializeMessage_loop X fuel' c (Message ((properties object)[p := v]))
            (it_at (pre @ ?h @ payload) rest)"
    by blast
qed

subsection \<open>Payloads\<close>

lemmas value_defs = deserializeValue.simps handler_deserializer_def

lemma reads_basic:
  "utf8_ok (qt X) v \<Longrightarrow> reads X (MBasic (btype_of v)) (packed_element (qt X) v) prev (VBasic v)"
  by (simp add: reads_def value_defs deserializeBasic_packed)

lemma utf8_ok_packable: "packable (btype_of v) \<Longrightarrow> utf8_ok Q v"
  by (cases v) (auto simp: packable_def utf8_ok_def)

lemma prepend_length_bound:
  "length (prependLengthDelimitedSize body) + n < m \<Longrightarrow> length body + n < m"
  by (simp add: prependLengthDelimitedSize_def)

lemma reads_list:
  assumes "packable t" "t \<noteq> TBool" "\<forall>v \<in> set vs. btype_of v = t"
  shows "reads X (MList t) (prependLengthDelimitedSize (concat (map (packed_element (qt X)) vs))) prev (VList vs)"
proof -
  have "\<forall>v \<in> set vs. btype_of v = t \<and> utf8_ok (qt X) v"
    using assms by (auto intro: utf8_ok_packable)
  from scalar.list_round_trip [OF this] show ?thesis
    using assms(1,2) by (auto simp: reads_def value_defs dest: prepend_length_bound)
qed

lemma enum_word: "in_int i \<Longrightarrow> to_int (sint (word_of_int i :: 64 word)) = i"
proof -
  assume "in_int i"
  then have "sint (word_of_int i :: 64 word) = i"
    by (simp add: int_limits signed_of_int signed_take_bit_int_eq_self_iff)
  with \<open>in_int i\<close> show ?thesis by simp
qed

lemma reads_enum:
  assumes "registry X (MEnum e) \<noteq> None" "in_int i"
  shows "reads X (MEnum e) (serializeVarintCommon (word_of_int i :: 64 word)) prev (VEnum i)"
  using assms by (auto simp: reads_def value_defs enum_deserializer_def deserializeEnum_def deserializeBasic_int_def
      varint_at_64 enum_word)

interpretation int64_codec: element_codec "serializeVarintCommon :: 64 word \<Rightarrow> bytes"
    deserializeBasic_int "\<lambda>v. True"
  by unfold_locales (auto simp: deserializeBasic_int_def varint_at_64 advances_varint)

lemma reads_enum_list:
  assumes "registry X (MEnumList e) \<noteq> None" "\<forall>v \<in> set vs. in_int v"
  shows "reads X (MEnumList e) (prependLengthDelimitedSize
      (concat (map (\<lambda>v. serializeVarintCommon (word_of_int v :: 64 word)) vs)))
    (VEnumList us) (VEnumList (us @ vs))"
proof -
  let ?ws = "map word_of_int vs :: 64 word list"
  have "map (\<lambda>w. to_int (sint w)) ?ws = vs" using assms(2) by (simp add: enum_word map_idI)
  moreover have "concat (map serializeVarintCommon ?ws)
      = concat (map (\<lambda>v. serializeVarintCommon (word_of_int v :: 64 word)) vs)"
    by (simp add: comp_def)
  ultimately show ?thesis
    using int64_codec.list_round_trip [of ?ws] assms(1)
    by (auto simp: reads_def value_defs enum_list_deserializer_def deserializeEnumList_def dest: prepend_length_bound)
qed

lemma reads_string:
  "fromUtf8 (qt X) (toUtf8 (qt X) s) = s \<Longrightarrow>
     reads X MStringList (serializeLengthDelimited (toUtf8 (qt X) s)) (VStringList vs) (VStringList (vs @ [s]))"
  by (auto simp: reads_def value_defs deserializeList_string_def serializeLengthDelimited_def
      deserializeLengthDelimited_serialize dest: prepend_length_bound)

lemma reads_bytes:
  "reads X MBytesList (serializeLengthDelimited b) (VBytesList vs) (VBytesList (vs @ [b]))"
  by (auto simp: reads_def value_defs deserializeList_bytes_def serializeLengthDelimited_def
      deserializeLengthDelimited_serialize dest: prepend_length_bound)

text \<open>A nested message, given that its bytes decode.\<close>

definition decodes :: "serializer_env \<Rightarrow> nat \<Rightarrow> bytes \<Rightarrow> message \<Rightarrow> bool" where
  "decodes X c body m \<longleftrightarrow>
     (\<forall>fuel. length body < 2147483600 \<longrightarrow> length body < fuel \<longrightarrow>
        deserializeMessage_loop X fuel c (new_message X c) (it_begin body) = (m, Ret ()))"

lemma deserializeObject_reads:
  assumes "decodes X c body m" and "length (prependLengthDelimitedSize body) + length rest < 2147483600"
    and "length (prependLengthDelimitedSize body) < fuel"
  shows "deserializeObject (nested X fuel) c (new_message X c) (it_at pre (prependLengthDelimitedSize body @ rest))
    = Ret (m, it_at (pre @ prependLengthDelimitedSize body) rest)"
  using assms prepend_length_bound [OF assms(2)] prepend_length_bound [of body 0 fuel]
  by (simp add: deserializeObject_def deserializeLengthDelimited_serialize decodes_def)

lemma reads_message:
  "registry X (MMessage c) \<noteq> None \<Longrightarrow> decodes X c body m \<Longrightarrow>
     reads X (MMessage c) (prependLengthDelimitedSize body) prev (VMessage (Some m))"
  by (auto simp: reads_def value_defs object_deserializer_def deserializeObject_reads)

lemma reads_message_list:
  "registry X (MMessageList c) \<noteq> None \<Longrightarrow> decodes X c body m \<Longrightarrow>
     reads X (MMessageList c) (prependLengthDelimitedSize body) (VMessageList ms)
       (VMessageList (ms @ [Some m]))"
  by (auto simp: reads_def value_defs object_list_deserializer_def deserializeListObject_def
      deserializeObject_reads)

subsection \<open>Properties\<close>

text \<open>
  A property that takes at most one field: it is left out, when it has the default value, or sent as a
  header and a payload that reads back.
\<close>

definition one_field :: "serializer_env \<Rightarrow> metatype \<Rightarrow> int \<Rightarrow> bytes \<Rightarrow> variant \<Rightarrow> bool" where
  "one_field X t i bs v \<longleftrightarrow>
     bs = [] \<and> v = default_value t
     \<or> (\<exists>w payload. bs = encodeHeader i w @ payload \<and> sendable w
          \<and> (\<forall>prev. prev = default_value t \<or> (\<exists>c. t = MMessage c) \<longrightarrow> reads X t payload prev v))"

lemma one_field_sent:
  "bs = encodeHeader i w @ payload \<Longrightarrow> sendable w \<Longrightarrow>
     (\<And>prev. prev = default_value t \<or> (\<exists>c. t = MMessage c) \<Longrightarrow> reads X t payload prev v) \<Longrightarrow>
     one_field X t i bs v"
  unfolding one_field_def by blast

lemma sendable_basic: "sendable (basic_wire t)"
  by (cases t) (auto simp: sendable_def)

lemma not_unknown: "sendable w \<Longrightarrow> w \<noteq> UnknownWireType"
  by (auto simp: sendable_def)

lemma one_field_basic:
  assumes "btype_of v = t" "utf8_ok (qt X) v" "0 < i"
    and "serializeProperty X ser (MBasic t) (VBasic v) i = Ret bs"
  shows "one_field X (MBasic t) i bs (VBasic v)"
proof (cases "omitted v")
  case True
  with assms omitted_default [OF True] show ?thesis
    by (auto simp: one_field_def serializeProperty.simps serializeProperty_basic_def
        serializeBasic_omitted NotUsedFieldIndex_def)
next
  case False
  with assms have "bs = encodeHeader i (basic_wire t) @ packed_element (qt X) v"
    by (simp add: serializeProperty.simps serializeProperty_basic_def serializeBasic_sent
        NotUsedFieldIndex_def not_unknown [OF sendable_basic])
  then show ?thesis
    using reads_basic [OF assms(2)] assms(1) by (intro one_field_sent) (auto simp: sendable_basic)
qed

lemma one_field_list:
  assumes "packable t" "t \<noteq> TBool" "\<forall>v \<in> set vs. btype_of v = t" "0 < i"
    and "serializeProperty X ser (MList t) (VList vs) i = Ret bs"
  shows "one_field X (MList t) i bs (VList vs)"
proof (cases "vs = []")
  case True
  with assms show ?thesis
    by (simp add: one_field_def serializeProperty.simps serializeProperty_basic_def
        serializeListType_def NotUsedFieldIndex_def)
next
  case False
  with assms have "bs = encodeHeader i LengthDelimited
      @ prependLengthDelimitedSize (concat (map (packed_element (qt X)) vs))"
    by (simp add: serializeProperty.simps serializeProperty_basic_def serializeListType_def
        NotUsedFieldIndex_def)
  then show ?thesis
    using reads_list [OF assms(1-3)] by (intro one_field_sent) (auto simp: sendable_def)
qed

lemma word_64_zero: "in_int i \<Longrightarrow> (word_of_int i :: 64 word) = 0 \<longleftrightarrow> i = 0"
  using enum_word [of i] by (auto simp: to_int_def)

lemma one_field_enum:
  assumes "registry X (MEnum e) \<noteq> None" "in_int v" "0 < i"
    and "serializeProperty X ser (MEnum e) (VEnum v) i = Ret bs"
  shows "one_field X (MEnum e) i bs (VEnum v)"
proof (cases "v = 0")
  case True
  with assms show ?thesis
    by (auto simp: one_field_def serializeProperty.simps enum_serializer_def serializeEnum_def serializeBasic_int_def
        NotUsedFieldIndex_def)
next
  case False
  with assms have "bs = encodeHeader i Varint @ serializeVarintCommon (word_of_int v :: 64 word)"
    by (auto simp: serializeProperty.simps enum_serializer_def serializeEnum_def serializeBasic_int_def unsigned_pos
        NotUsedFieldIndex_def word_64_zero)
  then show ?thesis
    using reads_enum [OF assms(1,2)] by (intro one_field_sent) (auto simp: sendable_def)
qed

lemma one_field_enum_list:
  assumes "registry X (MEnumList e) \<noteq> None" "\<forall>v \<in> set vs. in_int v" "0 < i"
    and "serializeProperty X ser (MEnumList e) (VEnumList vs) i = Ret bs"
  shows "one_field X (MEnumList e) i bs (VEnumList vs)"
proof (cases "vs = []")
  case True
  with assms show ?thesis
    by (auto simp: one_field_def serializeProperty.simps enum_list_serializer_def serializeEnumList_def
        serializeListType_def NotUsedFieldIndex_def)
next
  case False
  with assms have "bs = encodeHeader i LengthDelimited @ prependLengthDelimitedSize
      (concat (map (\<lambda>v. serializeVarintCommon (word_of_int v :: 64 word)) vs))"
    by (auto simp: serializeProperty.simps enum_list_serializer_def serializeEnumList_def serializeListType_def
        NotUsedFieldIndex_def packed_element_simps comp_def)
  then show ?thesis
    using reads_enum_list [OF assms(1,2), of "[]"] by (intro one_field_sent) (auto simp: sendable_def)
qed

lemma one_field_message:
  assumes "registry X (MMessage c) \<noteq> None" and "\<And>body. ser c m = Ret body \<Longrightarrow> decodes X c body m'"
    and "serializeProperty X ser (MMessage c) (VMessage (Some m)) i = Ret bs"
  shows "one_field X (MMessage c) i bs (VMessage (Some m'))"
proof -
  from assms(1,3) obtain body where "ser c m = Ret body"
    and "bs = encodeHeader i LengthDelimited @ prependLengthDelimitedSize body"
    by (auto simp: serializeProperty.simps serializeObject_def and_then_Ret_iff)
  then show ?thesis
    using reads_message [OF assms(1) assms(2)] by (intro one_field_sent) (auto simp: sendable_def)
qed

text \<open>All types a map may have as values.\<close>

lemma one_field_map_value:
  assumes "\<And>c m body. ser c m = Ret body \<Longrightarrow> wtm c m \<Longrightarrow> decodes X c body (snt c m)"
    and "map_value_type t" "wt_value X wtm t v" "v \<noteq> VMessage None" "0 < i"
    and "serializeProperty X ser t v i = Ret bs"
  shows "one_field X t i bs (sent_value snt t v)"
proof (cases t)
  case (MBasic b)
  with assms show ?thesis by (auto split: variant.splits intro: one_field_basic)
next
  case (MEnum e)
  with assms show ?thesis by (auto split: variant.splits intro: one_field_enum)
next
  case (MMessage c)
  with assms obtain m where m: "v = VMessage (Some m)" "wtm c m" "registry X (MMessage c) \<noteq> None"
    by (auto split: variant.splits option.splits)
  then have "one_field X (MMessage c) i bs (VMessage (Some (snt c m)))"
    using assms MMessage by (intro one_field_message) auto
  with MMessage m show ?thesis by simp
qed (use assms in \<open>auto simp: map_value_type_def\<close>)

subsection \<open>Maps\<close>

lemma it_at_differs: "bs \<noteq> [] \<Longrightarrow> \<not> it_eq (it_at pre rest) (it_at ((pre @ bs) @ tail) rest')"
  by simp

lemma reads_basicD:
  assumes "reads X (MBasic k) payload prev (VBasic key)" "length payload + length rest < 2147483600"
  shows "deserializeBasic (qt X) k (it_at pre (payload @ rest)) = Ret (key, it_at (pre @ payload) rest)"
  using assms(1) [unfolded reads_def, rule_format, OF assms(2), of "Suc (length payload)" pre]
  by (auto simp: value_defs and_then_Ret_iff)

lemma pair_reads_key:
  assumes "one_field X (MBasic k) 1 bs (VBasic key)" "length bs + length rest < 2147483600" "length bs < n"
  obtains n' where "n \<le> n' + length bs"
    and "deserializeMapPair_loop n (qt X) k dec (it_at ((pre @ bs) @ tail) rest') (it_at pre (bs @ rest)) (bdefault k) v
      = deserializeMapPair_loop n' (qt X) k dec (it_at ((pre @ bs) @ tail) rest') (it_at (pre @ bs) rest) key v"
proof (cases "bs = []")
  case True
  with assms(1) have "key = bdefault k" by (auto simp: one_field_def)
  with True show ?thesis by (intro that [of n]) auto
next
  case False
  with assms(1) obtain w payload where bs: "bs = encodeHeader 1 w @ payload" and w: "sendable w"
    and r: "reads X (MBasic k) payload (default_value (MBasic k)) (VBasic key)"
    by (auto simp: one_field_def)
  from assms(3) obtain m where m: "n = Suc m" by (cases n) auto
  have "decodeHeader (it_at pre (encodeHeader 1 w @ (payload @ rest)))
      = Ret (True, 1, w, it_at (pre @ encodeHeader 1 w) (payload @ rest))"
    using w assms(2) bs by (intro decodeHeader_encode) auto
  moreover have "deserializeBasic (qt X) k (it_at (pre @ encodeHeader 1 w) (payload @ rest))
      = Ret (key, it_at ((pre @ encodeHeader 1 w) @ payload) rest)"
    using assms(2) bs by (intro reads_basicD [OF r]) auto
  ultimately have "deserializeMapPair_loop n (qt X) k dec (it_at ((pre @ bs) @ tail) rest')
        (it_at pre (bs @ rest)) (bdefault k) v
      = deserializeMapPair_loop m (qt X) k dec (it_at ((pre @ bs) @ tail) rest')
        (it_at (pre @ bs) rest) key v"
    using it_at_differs [OF False, of pre "bs @ rest" tail rest'] by (simp add: m bs)
  moreover have "n \<le> m + length bs" using False m by (cases bs) auto
  ultimately show ?thesis by (rule that [rotated])
qed

lemma pair_reads_value:
  assumes "one_field X t 2 bs val" "length bs + length rest < 2147483600" "length bs < n" "length bs < fuel"
  obtains n' where "n \<le> n' + length bs"
    and "deserializeMapPair_loop n Q k (deserializeValue X (nested X fuel) t) (it_at (pre @ bs) rest)
        (it_at pre (bs @ rest)) key (default_value t)
      = deserializeMapPair_loop n' Q k (deserializeValue X (nested X fuel) t) (it_at (pre @ bs) rest)
        (it_at (pre @ bs) rest) key val"
proof (cases "bs = []")
  case True
  with assms(1) have "val = default_value t" by (auto simp: one_field_def)
  with True show ?thesis by (intro that [of n]) auto
next
  case False
  with assms(1) obtain w payload where bs: "bs = encodeHeader 2 w @ payload" and w: "sendable w"
    and r: "reads X t payload (default_value t) val"
    by (auto simp: one_field_def)
  from assms(3) obtain m where m: "n = Suc m" by (cases n) auto
  have "decodeHeader (it_at pre (encodeHeader 2 w @ (payload @ rest)))
      = Ret (True, 2, w, it_at (pre @ encodeHeader 2 w) (payload @ rest))"
    using w assms(2) bs by (intro decodeHeader_encode) auto
  moreover have "deserializeValue X (nested X fuel) t (it_at (pre @ encodeHeader 2 w) (payload @ rest))
      (default_value t) = Ret (val, it_at ((pre @ encodeHeader 2 w) @ payload) rest)"
    using r assms(2,4) bs unfolding reads_def by simp
  ultimately have "deserializeMapPair_loop n Q k (deserializeValue X (nested X fuel) t)
        (it_at (pre @ bs) rest) (it_at pre (bs @ rest)) key (default_value t)
      = deserializeMapPair_loop m Q k (deserializeValue X (nested X fuel) t) (it_at (pre @ bs) rest)
        (it_at (pre @ bs) rest) key val"
    using it_at_differs [OF False, of pre "bs @ rest" "[]" rest] by (simp add: m bs)
  moreover have "n \<le> m + length bs" using False m by (cases bs) auto
  ultimately show ?thesis by (rule that [rotated])
qed

lemma deserializeMapPair_reads:
  assumes "one_field X (MBasic k) 1 kb (VBasic key)" "one_field X t 2 vb val"
    and len: "length (prependLengthDelimitedSize (kb @ vb)) + length rest < 2147483600"
    and fuel: "length (prependLengthDelimitedSize (kb @ vb)) < fuel"
  shows "deserializeMapPair (qt X) k (deserializeValue X (nested X fuel) t) (bdefault k) (default_value t)
      (it_at pre (prependLengthDelimitedSize (kb @ vb) @ rest))
    = Ret (key, val, it_at (pre @ prependLengthDelimitedSize (kb @ vb)) rest)"
proof -
  let ?n = "word_of_nat (length (kb @ vb)) :: 32 word"
  let ?p = "pre @ serializeVarintCommon ?n"
  let ?N = "Suc (length (?p @ (kb @ vb @ rest)))"
  let ?dec = "deserializeValue X (nested X fuel) t"
  have body: "length (kb @ vb) + length rest < 2147483600" using prepend_length_bound [OF len] .
  have n: "uint ?n = int (length (kb @ vb))" using body by (intro uint_of_nat_32) simp
  have vf: "length vb < fuel" using prepend_length_bound [of _ 0] fuel by fastforce
  obtain n1 where n1: "?N \<le> n1 + length kb"
    "deserializeMapPair_loop ?N (qt X) k ?dec (it_at ((?p @ kb) @ vb) rest) (it_at ?p (kb @ (vb @ rest)))
       (bdefault k) (default_value t)
     = deserializeMapPair_loop n1 (qt X) k ?dec (it_at ((?p @ kb) @ vb) rest) (it_at (?p @ kb) (vb @ rest))
       key (default_value t)"
    by (rule pair_reads_key [OF assms(1), of "vb @ rest" ?N ?dec ?p vb rest "default_value t"])
      (use body in auto)
  obtain n2 where n2: "n1 \<le> n2 + length vb"
    "deserializeMapPair_loop n1 (qt X) k ?dec (it_at ((?p @ kb) @ vb) rest) (it_at (?p @ kb) (vb @ rest))
       key (default_value t)
     = deserializeMapPair_loop n2 (qt X) k ?dec (it_at ((?p @ kb) @ vb) rest) (it_at ((?p @ kb) @ vb) rest)
       key val"
    by (rule pair_reads_value [OF assms(2), of rest n1 fuel "qt X" k "?p @ kb" key])
      (use body n1(1) vf in auto)
  from n1(1) n2(1) obtain m where "n2 = Suc m" by (cases n2) auto
  then have "deserializeMapPair_loop n2 (qt X) k ?dec (it_at ((?p @ kb) @ vb) rest)
      (it_at ((?p @ kb) @ vb) rest) key val = Ret (key, val, it_at ((?p @ kb) @ vb) rest)" by simp
  with n1(2) n2(2) have loop: "deserializeMapPair_loop ?N (qt X) k ?dec
      (it_at (?p @ (kb @ vb)) rest) (it_at ?p (kb @ vb @ rest)) (bdefault k) (default_value t)
    = Ret (key, val, it_at (?p @ (kb @ vb)) rest)" by (simp only: append_assoc)
  have "to_int (uint ?n) = int (length (kb @ vb))" unfolding n using body by (intro to_int_nat) simp
  then have plus: "it_plus (it_at ?p (kb @ vb @ rest)) (to_int (uint ?n)) = Ret (it_at (?p @ (kb @ vb)) rest)"
    using it_plus_append [of "to_int (uint ?n)" "kb @ vb" rest ?p] body by (simp only: append_assoc)
  have varint: "deserializeVarintCommon (it_at pre (serializeVarintCommon ?n @ (kb @ vb @ rest)))
      = Ret (?n, it_at ?p (kb @ vb @ rest))"
    using body by (intro varint_at_32) simp
  show ?thesis
    unfolding deserializeMapPair_def prependLengthDelimitedSize_def append_assoc varint
      and_then.simps prod.case plus [unfolded append_assoc] it_container_at loop [unfolded append_assoc] ..
qed

lemma reads_map_pair:
  assumes "registry X (MMap k t) \<noteq> None" "one_field X (MBasic k) 1 kb (VBasic key)" "one_field X t 2 vb val"
  shows "reads X (MMap k t) (prependLengthDelimitedSize (kb @ vb)) (VMap ps) (VMap (qmap_insert key val ps))"
  using assms by (auto simp: reads_def deserializeValue.simps [of _ _ "MMap k t"] deserializeMap_def
      deserializeMapPair_reads)

lemma qmap_insert_last: "\<forall>p \<in> set ps. key_less (fst p) k \<Longrightarrow> qmap_insert k v ps = ps @ [(k, v)]"
  by (induction ps) auto

subsection \<open>The fields of a message\<close>

text \<open>Field \<open>i\<close> of the class is property \<open>p\<close> of type \<open>t\<close>.\<close>

definition field_of :: "serializer_env \<Rightarrow> nat \<Rightarrow> int \<Rightarrow> nat \<Rightarrow> metatype \<Rightarrow> bool" where
  "field_of X c i p t \<longleftrightarrow>
     (\<exists>j. map_of (propertyOrdering (protobufMetaObject X c)) i = Some (p, j))
     \<and> t = staticMetaObject (protobufMetaObject X c) ! p \<and> 0 < i \<and> i < 2 ^ 29"

lemma consumes_element:
  assumes "field_of X c i p t" "p < length ps" "\<forall>d. t \<noteq> MMessage d" "sendable w" "reads X t payload u v"
  shows "consumes X c (encodeHeader i w @ payload) (Message (ps[p := u])) (Message (ps[p := v]))"
proof -
  have "read_property X t u = u" using assms(3) by (cases t) auto
  with assms consumes_field [of X c i p _ t w payload "Message (ps[p := u])" v] show ?thesis
    by (auto simp: field_of_def)
qed

lemma consumes_one_field:
  assumes "field_of X c i p t" "p < length ps" "ps ! p = default_value t" "one_field X t i bs v"
  shows "consumes X c bs (Message ps) (Message (ps[p := v]))"
proof (cases "bs = [] \<and> v = default_value t")
  case True
  with assms(3) show ?thesis by (metis consumes_Nil list_update_id)
next
  case False
  with assms(4) obtain w payload where bs: "bs = encodeHeader i w @ payload" "sendable w"
    and r: "\<And>prev. prev = default_value t \<or> (\<exists>c. t = MMessage c) \<Longrightarrow> reads X t payload prev v"
    unfolding one_field_def by blast
  have "reads X t payload (read_property X t (ps ! p)) v"
    by (rule r) (use assms(3) in \<open>cases t; simp\<close>)
  with assms(1) bs consumes_field [of X c i p _ t w payload "Message ps" v] show ?thesis
    by (auto simp: field_of_def)
qed

lemma collect_Ret: "collect (\<lambda>x. Ret (f x)) xs = Ret (concat (map f xs))"
  by (induction xs) auto

lemma and_then_id: "and_then m Ret = m"
  by (cases m) auto

lemma consumes_collect:
  assumes "\<And>ys x zs b. xs = ys @ x # zs \<Longrightarrow> f x = Ret b \<Longrightarrow> consumes X c b (acc ys) (acc (ys @ [x]))"
    and "collect f xs = Ret bs"
  shows "consumes X c bs (acc []) (acc xs)"
proof -
  have "xs = ys @ zs \<Longrightarrow> collect f zs = Ret bs \<Longrightarrow> consumes X c bs (acc ys) (acc xs)" for ys zs bs
  proof (induction zs arbitrary: ys bs)
    case Nil
    then show ?case by simp
  next
    case (Cons z zs)
    from Cons.prems(2) obtain b bs' where b: "f z = Ret b" "collect f zs = Ret bs'" "bs = b @ bs'"
      by (auto simp: and_then_Ret_iff)
    have "consumes X c b (acc ys) (acc (ys @ [z]))" using assms(1) Cons.prems(1) b(1) by blast
    moreover have "consumes X c bs' (acc (ys @ [z])) (acc xs)"
      using Cons.IH [of "ys @ [z]"] Cons.prems(1) b(2) by simp
    ultimately show ?case unfolding b(3) by (rule consumes_append)
  qed
  from this [of "[]" xs] assms(2) show ?thesis by simp
qed

lemma consumes_string_list:
  assumes "field_of X c i p MStringList" "p < length ps" "ps ! p = VStringList []"
    and "\<forall>v \<in> set vs. fromUtf8 (qt X) (toUtf8 (qt X) v) = v"
    and "serializeProperty X ser MStringList (VStringList vs) i = Ret bs"
  shows "consumes X c bs (Message ps) (Message (ps[p := VStringList vs]))"
proof -
  let ?f = "\<lambda>v. Ret (encodeHeader i LengthDelimited @ serializeLengthDelimited (toUtf8 (qt X) v))"
  have "collect ?f vs = Ret bs"
    unfolding collect_Ret using assms(5)
    by (auto simp: serializeProperty.simps serializeProperty_basic_def serializeListType_string_def
        split: if_splits)
  moreover have "consumes X c b (Message (ps[p := VStringList ys])) (Message (ps[p := VStringList (ys @ [x])]))"
    if "vs = ys @ x # zs" "?f x = Ret b" for ys x zs b
    using that assms(1,2,4) reads_string [of X x ys]
    by (auto intro!: consumes_element simp: sendable_def)
  ultimately have "consumes X c bs (Message (ps[p := VStringList []])) (Message (ps[p := VStringList vs]))"
    by (rule consumes_collect [where acc = "\<lambda>ys. Message (ps[p := VStringList ys])", rotated])
  with assms(3) show ?thesis by (metis list_update_id)
qed

lemma consumes_bytes_list:
  assumes "field_of X c i p MBytesList" "p < length ps" "ps ! p = VBytesList []"
    and "serializeProperty X ser MBytesList (VBytesList vs) i = Ret bs"
  shows "consumes X c bs (Message ps) (Message (ps[p := VBytesList vs]))"
proof -
  let ?f = "\<lambda>v. Ret (encodeHeader i LengthDelimited @ serializeLengthDelimited v)"
  have "collect ?f vs = Ret bs"
    unfolding collect_Ret using assms(4)
    by (auto simp: serializeProperty.simps serializeProperty_basic_def serializeListType_bytes_def
        split: if_splits)
  moreover have "consumes X c b (Message (ps[p := VBytesList ys])) (Message (ps[p := VBytesList (ys @ [x])]))"
    if "vs = ys @ x # zs" "?f x = Ret b" for ys x zs b
    using that assms(1,2) reads_bytes [of X x ys]
    by (auto intro!: consumes_element simp: sendable_def)
  ultimately have "consumes X c bs (Message (ps[p := VBytesList []])) (Message (ps[p := VBytesList vs]))"
    by (rule consumes_collect [where acc = "\<lambda>ys. Message (ps[p := VBytesList ys])", rotated])
  with assms(3) show ?thesis by (metis list_update_id)
qed

lemma consumes_message_list:
  assumes nested: "\<And>c m body. ser c m = Ret body \<Longrightarrow> wtm c m \<Longrightarrow> decodes X c body (snt c m)"
    and "field_of X c i p (MMessageList d)" "p < length ps" "ps ! p = VMessageList []"
    and "wt_value X wtm (MMessageList d) (VMessageList ms)"
    and "serializeProperty X ser (MMessageList d) (VMessageList ms) i = Ret bs"
  shows "consumes X c bs (Message ps) (Message (ps[p := sent_value snt (MMessageList d) (VMessageList ms)]))"
proof -
  let ?f = "\<lambda>v. if v = None then Ret [] else serializeListObject ser d v i"
  let ?acc = "\<lambda>ys. Message (ps[p := sent_value snt (MMessageList d) (VMessageList ys)])"
  have reg: "registry X (MMessageList d) \<noteq> None" using assms(5) by simp
  have "collect ?f ms = Ret bs"
    using assms(6) reg by (auto simp: serializeProperty.simps serializeList_def)
  moreover have "consumes X c b (?acc ys) (?acc (ys @ [x]))" if "ms = ys @ x # zs" "?f x = Ret b" for ys x zs b
  proof (cases x)
    case (Some m)
    with that(2) obtain body where body: "ser d m = Ret body"
      and b: "b = encodeHeader i LengthDelimited @ prependLengthDelimitedSize body"
      by (auto simp: serializeListObject_def serializeObject_def and_then_Ret_iff)
    have "wtm d m" using assms(5) that(1) Some by auto
    from reads_message_list [OF reg nested [OF body this]] show ?thesis
      unfolding b using assms(2,3) Some by (intro consumes_element) (auto simp: sendable_def)
  qed (use that in auto)
  ultimately have "consumes X c bs (?acc []) (?acc ms)" by (rule consumes_collect [where acc = ?acc, rotated])
  moreover have "?acc [] = Message ps" using assms(4) by simp (metis list_update_id)
  ultimately show ?thesis by (simp only:)
qed

lemma consumes_map:
  assumes nested: "\<And>c m body. ser c m = Ret body \<Longrightarrow> wtm c m \<Longrightarrow> decodes X c body (snt c m)"
    and "field_of X c i p (MMap k t)" "p < length ps" "ps ! p = VMap []"
    and wt: "wt_value X wtm (MMap k t) (VMap kvs)"
    and "serializeProperty X ser (MMap k t) (VMap kvs) i = Ret bs"
  shows "consumes X c bs (Message ps) (Message (ps[p := sent_value snt (MMap k t) (VMap kvs)]))"
proof -
  let ?f = "\<lambda>pair. if snd pair = VMessage None then Ret []
    else serializeMapPair (qt X) (serializeProperty X ser t) k pair i"
  let ?sent = "\<lambda>ys. map (\<lambda>(key, v). (key, sent_value snt t v)) (filter (\<lambda>q. snd q \<noteq> VMessage None) ys)"
  let ?acc = "\<lambda>ys. Message (ps[p := VMap (?sent ys)])"
  have reg: "registry X (MMap k t) \<noteq> None" using wt by simp
  have "collect ?f kvs = Ret bs"
    using assms(6) reg by (auto simp: serializeProperty.simps [of _ _ "MMap k t"] serializeMap_def)
  moreover have "consumes X c b (?acc ys) (?acc (ys @ [x]))" if "kvs = ys @ x # zs" "?f x = Ret b" for ys x zs b
  proof (cases "snd x = VMessage None")
    case False
    obtain key v where x: "x = (key, v)" by fastforce
    with that(2) False obtain kb vb where kb: "serializeProperty X ser (MBasic k) (VBasic key) 1 = Ret kb"
      and vb: "serializeProperty X ser t v 2 = Ret vb"
      and b: "b = encodeHeader i LengthDelimited @ prependLengthDelimitedSize (kb @ vb)"
      by (auto simp: serializeMapPair_def and_then_Ret_iff serializeProperty.simps [of _ _ "MBasic k"])
    have w: "btype_of key = k" "utf8_ok (qt X) key" "wt_value X wtm t v" "map_value_type t"
      using wt that(1) x by auto
    have "one_field X (MBasic k) 1 kb (VBasic key)" using kb w by (intro one_field_basic) auto
    moreover have "one_field X t 2 vb (sent_value snt t v)"
      using nested w(4,3) False x vb by (intro one_field_map_value) auto
    ultimately have "reads X (MMap k t) (prependLengthDelimitedSize (kb @ vb)) (VMap (?sent ys))
        (VMap (qmap_insert key (sent_value snt t v) (?sent ys)))"
      by (rule reads_map_pair [OF reg])
    moreover have "qmap_insert key (sent_value snt t v) (?sent ys) = ?sent (ys @ [x])"
      using wt that(1) False x
      by (subst qmap_insert_last) (auto simp: sorted_wrt_append split: prod.splits)
    ultimately show ?thesis
      unfolding b using assms(2,3) by (intro consumes_element) (auto simp: sendable_def)
  qed (use that in auto)
  ultimately have "consumes X c bs (?acc []) (?acc kvs)" by (rule consumes_collect [where acc = ?acc, rotated])
  moreover have "?acc [] = Message ps" using assms(4) by simp (metis list_update_id)
  ultimately show ?thesis by (simp only: sent_value.simps variant.case)
qed

lemma consumes_property:
  assumes nested: "\<And>c m body. ser c m = Ret body \<Longrightarrow> wtm c m \<Longrightarrow> decodes X c body (snt c m)"
    and field: "field_of X c i p t" "p < length ps" "ps ! p = default_value t"
    and wt: "wt_value X wtm t v" and nonnull: "v \<noteq> VMessage None"
    and ser: "serializeProperty X ser t v i = Ret bs"
  shows "consumes X c bs (Message ps) (Message (ps[p := sent_value snt t v]))"
proof (cases "map_value_type t")
  case True
  have "0 < i" using field(1) by (simp add: field_of_def)
  with True show ?thesis
    using nested wt nonnull ser by (intro consumes_one_field [OF field] one_field_map_value) auto
next
  case False
  have i: "0 < i" using field(1) by (simp add: field_of_def)
  show ?thesis
  proof (cases t)
    case (MList b)
    with wt obtain vs where "v = VList vs" by (auto split: variant.splits)
    with MList wt ser i show ?thesis by (auto intro!: consumes_one_field [OF field] one_field_list)
  next
    case MStringList
    with wt obtain vs where "v = VStringList vs" by (auto split: variant.splits)
    with MStringList wt ser field show ?thesis by (auto intro!: consumes_string_list)
  next
    case MBytesList
    with wt obtain vs where "v = VBytesList vs" by (auto split: variant.splits)
    with MBytesList wt ser field show ?thesis by (auto intro!: consumes_bytes_list)
  next
    case (MEnumList e)
    with wt obtain vs where "v = VEnumList vs" by (auto split: variant.splits)
    with MEnumList wt ser i show ?thesis by (auto intro!: consumes_one_field [OF field] one_field_enum_list)
  next
    case (MMessageList d)
    with wt obtain ms where "v = VMessageList ms" by (auto split: variant.splits)
    with MMessageList consumes_message_list [of ser wtm X snt c i p d ps ms bs] nested wt ser field
    show ?thesis by auto
  next
    case (MMap k u)
    with wt obtain kvs where "v = VMap kvs" by (auto split: variant.splits)
    with MMap consumes_map [of ser wtm X snt c i p k u ps kvs bs] nested wt ser field
    show ?thesis by auto
  qed (use False in \<open>auto simp: map_value_type_def\<close>)
qed

lemma map_upt_update:
  "p < n \<Longrightarrow> (map f [0..<n])[p := v] = map (\<lambda>q. if q = p then v else f q) [0..<n]"
  by (rule nth_equalityI) (auto simp: nth_list_update)

lemma map_of_middle: "distinct (map fst (ys @ (i, x) # zs)) \<Longrightarrow> map_of (ys @ (i, x) # zs) i = Some x"
  by (simp add: map_add_Some_iff map_of_eq_None_iff)

text \<open>\<open>pad x\<close> are bytes in front of the field \<open>x\<close> that leave the object as it is.\<close>

lemma consumes_message:
  assumes nested: "\<And>c m body. ser c m = Ret body \<Longrightarrow> wtm c m \<Longrightarrow> decodes X c body (snt c m)"
    and M: "M = protobufMetaObject X c" and wf: "wf_class M"
    and wt: "\<And>p. p < length (staticMetaObject M) \<Longrightarrow> wt_value X wtm (staticMetaObject M ! p)
      (read_property X (staticMetaObject M ! p) (properties object ! p))"
    and pad: "\<And>x o'. consumes X c (pad x) o' o'"
    and ser: "collect (\<lambda>x. and_then (serializeField X ser c object x) (\<lambda>b. Ret (pad x @ b))) (propertyOrdering M) = Ret bs"
  shows "consumes X c bs (new_message X c)
    (Message (map (\<lambda>p. sent_value snt (staticMetaObject M ! p)
        (read_property X (staticMetaObject M ! p) (properties object ! p)))
      [0..<length (staticMetaObject M)]))"
proof -
  let ?T = "staticMetaObject M" and ?N = "length (staticMetaObject M)"
  let ?ix = "\<lambda>ys :: (int \<times> nat \<times> qstring) list. set (map (\<lambda>(i, p, j). p) ys)"
  let ?v = "\<lambda>p. read_property X (?T ! p) (properties object ! p)"
  let ?row = "\<lambda>ys. map (\<lambda>p. if p \<in> ?ix ys then sent_value snt (?T ! p) (?v p)
    else default_value (?T ! p)) [0..<?N]"
  have step: "consumes X c b (Message (?row ys)) (Message (?row (ys @ [x])))"
    if xs: "propertyOrdering M = ys @ x # zs" and padded: "and_then (serializeField X ser c object x) (\<lambda>b. Ret (pad x @ b)) = Ret b"
    for ys x zs b
  proof -
    obtain b' where b: "serializeField X ser c object x = Ret b'" and b': "b = pad x @ b'"
      using padded by (auto simp: and_then_Ret_iff)
    obtain i p j where x: "x = (i, p, j)" by (cases x)
    have p: "p < ?N" "p \<notin> ?ix ys" and i: "0 < i" "i < 2 ^ 29"
      using wf xs x by (auto simp: wf_class_def)
    have "map_of (propertyOrdering M) i = Some (p, j)"
      using wf xs x map_of_middle [of ys i "(p, j)" zs] by (simp add: wf_class_def)
    with i have "field_of X c i p (?T ! p)" by (simp add: field_of_def M)
    moreover have "?v p \<noteq> VMessage None" using wt [OF p(1)]
      by (cases "(X, ?T ! p, properties object ! p)" rule: read_property.cases) auto
    moreover have "serializeProperty X ser (?T ! p) (?v p) i = Ret b'"
      using b x M by (simp add: serializeField_def Let_def)
    ultimately have "consumes X c b' (Message (?row ys)) (Message ((?row ys)[p := sent_value snt (?T ! p) (?v p)]))"
      using p wt [OF p(1)] nested by (intro consumes_property [where wtm = wtm and ser = ser]) auto
    moreover have "(?row ys)[p := sent_value snt (?T ! p) (?v p)] = ?row (ys @ [x])"
      unfolding map_upt_update [OF p(1)] by (rule map_cong) (auto simp: x)
    ultimately have "consumes X c b' (Message (?row ys)) (Message (?row (ys @ [x])))" by (simp only:)
    then show ?thesis unfolding b' by (rule consumes_append [OF pad])
  qed
  have "consumes X c bs (Message (?row [])) (Message (?row (propertyOrdering M)))"
    using step ser
    by (rule consumes_collect [where acc = "\<lambda>ys. Message (?row ys)"])
  moreover have "Message (?row []) = new_message X c"
    unfolding new_message_def M [symmetric] by (auto intro: nth_equalityI)
  moreover have "?row (propertyOrdering M) = map (\<lambda>p. sent_value snt (?T ! p) (?v p)) [0..<?N]"
    using wf by (auto simp: wf_class_def)
  ultimately show ?thesis by (simp only:)
qed

lemma message_consumes:
  "serializeMessage X n c m = Ret bs \<Longrightarrow> wt_message X n c m \<Longrightarrow>
     consumes X c bs (new_message X c) (sent_message X n c m)"
proof (induction n arbitrary: c m bs)
  case 0
  then show ?case by simp
next
  case (Suc n)
  have decodes: "decodes X c' b (sent_message X n c' m')"
    if "serializeMessage X n c' m' = Ret b" "wt_message X n c' m'" for c' m' b
    using Suc.IH [OF that] unfolding decodes_def by (auto intro: consumes_all)
  show ?case
    unfolding sent_message.simps Let_def
    by (rule consumes_message [where ser = "serializeMessage X n" and wtm = "wt_message X n" and pad = "\<lambda>x. []"])
      (use Suc.prems decodes in \<open>auto simp: Let_def and_then_id\<close>)
qed

lemma message_decodes:
  "serializeMessage X n c m = Ret bs \<Longrightarrow> wt_message X n c m \<Longrightarrow> decodes X c bs (sent_message X n c m)"
  unfolding decodes_def by (auto intro: consumes_all message_consumes)

lemma deserialize_serialized:
  assumes "serialize X n c m = Ret bs" and "wt_message X n c m"
    and "length bs < 2147483600" and "length bs < fuel"
  shows "deserialize X fuel c object bs = (sent_message X n c m, Ret ())"
  using consumes_all [OF message_consumes [of X n c m bs]] assms
  by (simp add: deserialize_def deserializeMessage_def serialize_def)

subsection \<open>Serialization succeeds\<close>

text \<open>
  A message that is well typed down to its innermost messages, which are less than \<open>n\<close> levels deep.
\<close>

fun fits_message :: "serializer_env \<Rightarrow> nat \<Rightarrow> nat \<Rightarrow> message \<Rightarrow> bool" where
  "fits_message X 0 c object \<longleftrightarrow> False"
| "fits_message X (Suc n) c object \<longleftrightarrow>
     (let M = protobufMetaObject X c in
      wf_class M \<and> length (properties object) = length (staticMetaObject M)
      \<and> (\<forall>p \<in> set [0..<length (staticMetaObject M)].
           wt_value X (fits_message X n) (staticMetaObject M ! p)
             (read_property X (staticMetaObject M ! p) (properties object ! p))))"

lemma wt_value_mono:
  assumes "\<And>c m. f c m \<Longrightarrow> g c m"
  shows "wt_value X f t v \<Longrightarrow> wt_value X g t v"
proof (induction t arbitrary: v)
  case (MMessage c)
  then show ?case using assms by (auto split: variant.splits option.splits)
next
  case (MMessageList c)
  then show ?case using assms by (fastforce split: variant.splits option.splits)
next
  case (MMap k t)
  then show ?case by (auto split: variant.splits)
qed (auto split: variant.splits)

lemma fits_wt: "fits_message X n c m \<Longrightarrow> wt_message X n c m"
proof (induction n arbitrary: c m)
  case (Suc n)
  then show ?case using wt_value_mono [of "fits_message X n" "wt_message X n" X] by (auto simp: Let_def)
qed simp

lemma collect_succeeds: "(\<And>x. x \<in> set xs \<Longrightarrow> \<exists>b. f x = Ret b) \<Longrightarrow> \<exists>b. collect f xs = Ret b"
  by (induction xs) fastforce+

lemma serializeObject_succeeds: "\<exists>b. rec c m = Ret b \<Longrightarrow> \<exists>b. serializeObject rec c (Some m) i = Ret b"
  by (auto simp: serializeObject_def)

lemma serializeProperty_basic_succeeds:
  "handlers t = Some w \<Longrightarrow> wt_value X rec t v \<Longrightarrow> \<exists>b. serializeProperty_basic (qt X) w v i = Ret b"
  by (cases t) (auto simp: serializeProperty_basic_def split: variant.splits prod.splits)

lemma serializeProperty_table:
  "handlers t = Some w \<Longrightarrow> wt_value X rec t v \<Longrightarrow> \<exists>b. serializeProperty X ser t v i = Ret b"
  using serializeProperty_basic_succeeds by (simp add: serializeProperty.simps)

lemma serializeProperty_succeeds:
  assumes "\<And>c m. wtm c m \<Longrightarrow> \<exists>b. ser c m = Ret b"
  shows "wt_value X wtm t v \<Longrightarrow> v \<noteq> VMessage None \<Longrightarrow> \<exists>b. serializeProperty X ser t v i = Ret b"
proof (induction t arbitrary: v i)
  case (MMessage c)
  then show ?case
    using assms serializeObject_succeeds [of ser c]
    by (fastforce simp: serializeProperty.simps split: variant.splits option.splits)
next
  case (MMessageList c)
  then obtain ms where ms: "v = VMessageList ms" "registry X (MMessageList c) \<noteq> None"
      "\<forall>m \<in> set ms. case m of None \<Rightarrow> True | Some m' \<Rightarrow> wtm c m'"
    by (auto split: variant.splits)
  have "\<exists>b. serializeList ser c ms i = Ret b"
    unfolding serializeList_def serializeListObject_def
    using ms(3) assms serializeObject_succeeds [of ser c]
    by (intro collect_succeeds) (fastforce split: option.splits)
  then show ?case using ms by (simp add: serializeProperty.simps)
next
  case (MMap k t)
  then obtain ps where ps: "v = VMap ps" "registry X (MMap k t) \<noteq> None"
      "\<forall>p \<in> set ps. btype_of (fst p) = k \<and> utf8_ok (qt X) (fst p) \<and> wt_value X wtm t (snd p)"
    by (auto split: variant.splits)
  have "\<exists>b. serializeMapPair (qt X) (serializeProperty X ser t) k p i = Ret b"
    if "p \<in> set ps" "snd p \<noteq> VMessage None" for p
    using serializeProperty_basic_succeeds [of "MBasic k" "basic_wire k" X wtm "VBasic (fst p)" 1] ps(3) that
      MMap.IH [of "snd p" 2] by (fastforce simp: serializeMapPair_def)
  then have "\<exists>b. serializeMap (qt X) (serializeProperty X ser t) k ps i = Ret b"
    unfolding serializeMap_def by (intro collect_succeeds) auto
  then show ?case using ps by (simp add: serializeProperty.simps)
next
  case (MBasic b)
  then show ?case by (intro serializeProperty_table) auto
next
  case (MList b)
  then show ?case by (intro serializeProperty_table) (auto split: variant.splits)
next
  case MStringList
  then show ?case by (intro serializeProperty_table) auto
next
  case MBytesList
  then show ?case by (intro serializeProperty_table) auto
qed (auto simp: serializeProperty.simps split: variant.splits)

lemma fits_serialized: "fits_message X n c m \<Longrightarrow> \<exists>bs. serialize X n c m = Ret bs"
proof (induction n arbitrary: c m)
  case (Suc n)
  let ?M = "protobufMetaObject X c"
  have "\<exists>b. serializeField X (serializeMessage X n) c m x = Ret b" if "x \<in> set (propertyOrdering ?M)" for x
  proof -
    obtain i p j where x: "x = (i, p, j)" by (cases x)
    then have p: "p < length (staticMetaObject ?M)"
      using Suc.prems that by (force simp: Let_def wf_class_def)
    then have wt: "wt_value X (fits_message X n) (staticMetaObject ?M ! p)
        (read_property X (staticMetaObject ?M ! p) (properties m ! p))"
      using Suc.prems by (simp add: Let_def)
    moreover have "read_property X (staticMetaObject ?M ! p) (properties m ! p) \<noteq> VMessage None"
      using wt by (cases "(X, staticMetaObject ?M ! p, properties m ! p)" rule: read_property.cases) auto
    ultimately show ?thesis
      using serializeProperty_succeeds [of "fits_message X n" "serializeMessage X n" X] Suc.IH x
      by (simp add: serializeField_def serialize_def Let_def)
  qed
  then show ?case by (simp add: serialize_def collect_succeeds)
qed simp

end
