(* ===== verification/WireProperties.thy ===== *)
theory WireProperties
  imports MessageRoundTrip
begin

section \<open>Properties of the binary format\<close>

text \<open>
  What the serializer promises of its byte format: round trips at every level, what happens to unknown
  fields and broken input, and the inputs on which the code misbehaves. \<open>sample_env\<close> is a schema of two
  classes, with an ASCII codec for \<open>QString\<close>, on which the statements are evaluated.
\<close>

definition ascii_qt :: qt_api where
  "ascii_qt = \<lparr>toUtf8 = map ucast, fromUtf8 = map ucast\<rparr>"

definition sample_classes :: "nat \<Rightarrow> protobuf_metaobject" where
  "sample_classes c =
     (if c = 0 then \<lparr>staticMetaObject = [MBasic TInt32, MBasic TString, MMessageList 1, MMap TInt32 (MMessage 1),
          MMessage 1, MList TSInt32, MEnum 0],
        propertyOrdering = [(5, 4, []), (1, 0, []), (2, 1, []), (3, 2, []), (4, 3, []), (6, 5, []), (7, 6, [])]\<rparr>
      else \<lparr>staticMetaObject = [MBasic TUInt64, MBasic TBool],
        propertyOrdering = [(1, 0, []), (2, 1, [])]\<rparr>)"

definition sample_env :: serializer_env where
  "sample_env = \<lparr>qt = ascii_qt, protobufMetaObject = sample_classes, registry = (\<lambda>t. Some ObjectHandler)\<rparr>"

definition sample_message :: message where
  "sample_message = Message [VBasic (BInt32 (-1)), VBasic (BString [104, 105]),
     VMessageList [Some (Message [VBasic (BUInt64 300), VBasic (BBool True)]), None],
     VMap [(BInt32 2, VMessage (Some (Message [VBasic (BUInt64 0), VBasic (BBool True)])))],
     VMessage None, VList [BSInt32 (-3), BSInt32 0], VEnum 2]"

definition sample_bytes :: bytes where
  "sample_bytes = [42,0, 8,255,255,255,255,15, 18,2,104,105, 26,5,8,172,2,16,1, 34,6,8,2,18,2,16,1, 50,2,5,0, 56,2]"

lemma sample_serialized: "serialize sample_env 2 0 sample_message = Ret sample_bytes"
  by code_simp

lemma sample_wt: "wt_message sample_env 2 0 sample_message"
  by code_simp

lemma sample_fits: "fits_message sample_env 2 0 sample_message"
  by code_simp

lemma sample_sent: "sent_message sample_env 2 0 sample_message = Message [VBasic (BInt32 (-1)),
     VBasic (BString [104, 105]), VMessageList [Some (Message [VBasic (BUInt64 300), VBasic (BBool True)])],
     VMap [(BInt32 2, VMessage (Some (Message [VBasic (BUInt64 0), VBasic (BBool True)])))],
     VMessage (Some (Message [VBasic (BUInt64 0), VBasic (BBool False)])),
     VList [BSInt32 (-3), BSInt32 0], VEnum 2]"
  by code_simp

lemma length_sample: "length sample_bytes = 33"
  by (simp add: sample_bytes_def)

subsection \<open>Round trips\<close>

text \<open>
  C1. A well typed message is serialized, and its bytes are read back: whatever the object held before, after
  \<open>deserialize\<close> it is the message that was sent, every nested message, list, map and enumeration
  included, and no exception is thrown.
\<close>

theorem message_round_trip:
  assumes "fits_message X n c m"
  shows "\<exists>bs. serialize X n c m = Ret bs \<and>
    (length bs < 2147483600 \<and> length bs < fuel \<longrightarrow>
       deserialize X fuel c object bs = (sent_message X n c m, Ret ()))"
  using fits_serialized [OF assms] deserialize_serialized [OF _ fits_wt [OF assms]] by blast

theorem message_round_trip_witness:
  "deserialize sample_env 34 0 (Message []) sample_bytes = (sent_message sample_env 2 0 sample_message, Ret ())"
  using message_round_trip [OF sample_fits, of 34 "Message []"] sample_serialized by (simp add: length_sample)

text \<open>
  An unsigned 32 or 64 bit number is read back from its varint at any place of a stream, and the
  iterator stands behind it.
\<close>

theorem varint_round_trip:
  fixes v :: "'v::len word"
  assumes "8 \<le> LENGTH('v)" "LENGTH('v) \<le> 64"
    and "length (serializeVarintCommon v) + length rest < 2147483648"
  shows "deserializeVarintCommon (it_at pre (serializeVarintCommon v @ rest))
    = Ret (v, it_at (pre @ serializeVarintCommon v) rest)"
  using assms by (rule deserializeVarint_serialize)

lemma serialize_300: "serializeVarintCommon (300 :: 32 word) = [172, 2]"
  by code_simp

theorem varint_round_trip_witness:
  "deserializeVarintCommon (it_at [7] (serializeVarintCommon (300 :: 32 word) @ [9]))
    = Ret (300 :: 32 word, it_at ([7] @ serializeVarintCommon (300 :: 32 word)) [9])"
  by (rule varint_round_trip) (simp_all add: serialize_300)

text \<open>
  A scalar of any of the fifteen types is either left out, which happens to the integer default
  only and marks the field as not used, or its bytes decode to it at any place of a stream.
\<close>

theorem scalar_round_trip:
  assumes "utf8_ok Q v" and "length (packed_element Q v) + length rest < 2147483600"
  shows "serializeBasic Q v i = ([], NotUsedFieldIndex) \<and> v = bdefault (btype_of v)
    \<or> (\<exists>bs. serializeBasic Q v i = (bs, i) \<and> bs \<noteq> [] \<and>
         deserializeBasic Q (btype_of v) (it_at pre (bs @ rest)) = Ret (v, it_at (pre @ bs) rest))"
proof (cases "omitted v")
  case True
  then show ?thesis by (simp add: serializeBasic_omitted omitted_default [symmetric])
next
  case False
  then show ?thesis
    using serializeBasic_sent [OF False, of Q i] deserializeBasic_packed [OF assms] by simp
qed

theorem scalar_round_trip_witness:
  "serializeBasic ascii_qt (BSInt32 (-3)) 4 = ([], NotUsedFieldIndex) \<and> BSInt32 (-3) = bdefault TSInt32
    \<or> (\<exists>bs. serializeBasic ascii_qt (BSInt32 (-3)) 4 = (bs, 4) \<and> bs \<noteq> [] \<and>
         deserializeBasic ascii_qt TSInt32 (it_at [] (bs @ [1])) = Ret (BSInt32 (-3), it_at ([] @ bs) [1]))"
proof -
  have "packed_element ascii_qt (BSInt32 (-3)) = [5]" by code_simp
  then show ?thesis
    using scalar_round_trip [of ascii_qt "BSInt32 (-3)" "[1]" 4 "[]"] by (simp add: utf8_ok_def)
qed

text \<open>
  A packed list of scalars is read back: an empty list is not sent, any other one is sent under its
  field and decodes to itself.
\<close>

theorem packed_list_round_trip:
  assumes "\<forall>v \<in> set vs. btype_of v = t" "packable t" "vs \<noteq> []"
    and "length (fst (serializeListType Q vs i)) + length rest < 2147483600"
  shows "snd (serializeListType Q vs i) = i \<and>
    deserializeList (deserializeBasic Q t) (it_at pre (fst (serializeListType Q vs i) @ rest))
      = Ret (vs, it_at (pre @ fst (serializeListType Q vs i)) rest)"
proof -
  have "\<forall>v \<in> set vs. btype_of v = t \<and> utf8_ok Q v" using assms by (auto intro: utf8_ok_packable)
  from scalar.list_round_trip [OF this, of rest pre] show ?thesis
    using assms(3,4) by (auto simp: serializeListType_def dest: prepend_length_bound)
qed

lemma sample_list: "serializeListType ascii_qt [BUInt32 300, BUInt32 0] 4 = ([3, 172, 2, 0], 4)"
  by code_simp

theorem packed_list_round_trip_witness:
  "snd (serializeListType ascii_qt [BUInt32 300, BUInt32 0] 4) = 4 \<and>
    deserializeList (deserializeBasic ascii_qt TUInt32)
        (it_at [] (fst (serializeListType ascii_qt [BUInt32 300, BUInt32 0] 4) @ []))
      = Ret ([BUInt32 300, BUInt32 0],
          it_at ([] @ fst (serializeListType ascii_qt [BUInt32 300, BUInt32 0] 4)) [])"
  by (rule packed_list_round_trip) (simp_all add: sample_list packable_def)

text \<open>
  A field header of every valid field number and every wire type in use is decoded as valid, with
  the same number and wire type.
\<close>

theorem header_round_trip:
  assumes "0 < i" and "i < 2 ^ 29" and "sendable w" and "length rest < 2147483600"
  shows "decodeHeader (it_at pre (encodeHeader i w @ rest)) = Ret (True, i, w, it_at (pre @ encodeHeader i w) rest)"
  using assms by (rule decodeHeader_encode)

theorem header_round_trip_witness:
  "decodeHeader (it_at [] (encodeHeader 536870911 Fixed32 @ [1]))
    = Ret (True, 536870911, Fixed32, it_at ([] @ encodeHeader 536870911 Fixed32) [1])"
  by (rule header_round_trip) (simp_all add: sendable_def)

subsection \<open>Unknown fields and broken input\<close>

text \<open>A field as any implementation of the format may send it.\<close>

datatype raw = RVarint "64 word" | RFixed32 "32 word" | RFixed64 "64 word" | RBytes bytes

fun raw_wire :: "raw \<Rightarrow> WireTypes" where
  "raw_wire (RVarint _) = Varint"
| "raw_wire (RFixed32 _) = Fixed32"
| "raw_wire (RFixed64 _) = Fixed64"
| "raw_wire (RBytes _) = LengthDelimited"

fun raw_payload :: "raw \<Rightarrow> bytes" where
  "raw_payload (RVarint w) = serializeVarintCommon w"
| "raw_payload (RFixed32 w) = le_bytes w"
| "raw_payload (RFixed64 w) = le_bytes w"
| "raw_payload (RBytes b) = prependLengthDelimitedSize b"

definition raw_field :: "int \<times> raw \<Rightarrow> bytes" where
  "raw_field f = encodeHeader (fst f) (raw_wire (snd f)) @ raw_payload (snd f)"

lemma skip_raw:
  assumes "length (raw_payload r) + length rest < 2147483600"
  shows "\<exists>n. skipSerializedFieldBytes (it_at pre (raw_payload r @ rest)) (raw_wire r)
    = Ret (n, it_at (pre @ raw_payload r) rest)"
proof (cases r)
  case (RBytes b)
  then have "length b + length rest < 2147483600" using assms by (auto dest: prepend_length_bound)
  with RBytes show ?thesis by (simp add: skipSerializedFieldBytes_def skipLengthDelimited_serialize)
qed (use assms in \<open>simp_all add: skipSerializedFieldBytes_def skipVarint_serialize\<close>)

lemma consumes_unknown:
  assumes "i \<notin> set (map fst (propertyOrdering (protobufMetaObject X c)))" "0 < i" "i < 2 ^ 29"
  shows "consumes X c (raw_field (i, r)) object object"
  unfolding consumes_def
proof (intro allI impI)
  fix pre rest :: bytes and fuel
  assume len: "length (raw_field (i, r)) + length rest < 2147483600" "length (raw_field (i, r)) + length rest < fuel"
  let ?h = "encodeHeader i (raw_wire r)"
  obtain f where f: "fuel = Suc f" using len(2) by (cases fuel) auto
  have "0 < length ?h" by simp
  with len(2) f have "length rest < f" unfolding raw_field_def length_append fst_conv snd_conv
    by linarith
  have "sendable (raw_wire r)" by (cases r) (auto simp: sendable_def)
  then have "decodeHeader (it_at pre (?h @ (raw_payload r @ rest)))
      = Ret (True, i, raw_wire r, it_at (pre @ ?h) (raw_payload r @ rest))"
    using assms(2,3) len(1) by (intro decodeHeader_encode) (auto simp: raw_field_def)
  moreover obtain n where "skipSerializedFieldBytes (it_at (pre @ ?h) (raw_payload r @ rest)) (raw_wire r)
      = Ret (n, it_at ((pre @ ?h) @ raw_payload r) rest)"
    using skip_raw [of r rest "pre @ ?h"] len(1) by (auto simp: raw_field_def)
  moreover have "map_of (propertyOrdering (protobufMetaObject X c)) i = None"
    using assms(1) by (simp add: map_of_eq_None_iff)
  ultimately have "deserializeProperty X (nested X f) c object (it_at pre (?h @ (raw_payload r @ rest)))
      = Ret (object, it_at ((pre @ ?h) @ raw_payload r) rest)"
    by (simp add: deserializeProperty_def)
  then have "deserializeMessage_loop X fuel c object (it_at pre (raw_field (i, r) @ rest))
      = deserializeMessage_loop X f c object (it_at (pre @ raw_field (i, r)) rest)"
    by (simp add: f raw_field_def)
  with \<open>length rest < f\<close> show "\<exists>fuel'. length rest < fuel' \<and>
      deserializeMessage_loop X fuel c object (it_at pre (raw_field (i, r) @ rest))
        = deserializeMessage_loop X fuel' c object (it_at (pre @ raw_field (i, r)) rest)"
    by blast
qed

lemma consumes_unknowns:
  assumes "\<forall>u \<in> set us. fst u \<notin> set (map fst (propertyOrdering (protobufMetaObject X c)))
    \<and> 0 < fst u \<and> fst u < 2 ^ 29"
  shows "consumes X c (concat (map raw_field us)) object object"
  using assms
proof (induction us)
  case (Cons u us)
  then have "consumes X c (raw_field u) object object"
    using consumes_unknown [of "fst u" X c "snd u" object] by simp
  with Cons show ?case by (auto intro: consumes_append)
qed simp

text \<open>
  The bytes a newer version of a class sends: the fields of the message as \<open>serializeMessage\<close> writes them, with the
  unknown fields \<open>us i\<close> in front of those of field number \<open>i\<close>.
\<close>

definition serialize_among :: "serializer_env \<Rightarrow> nat \<Rightarrow> nat \<Rightarrow> (int \<Rightarrow> (int \<times> raw) list) \<Rightarrow> message \<Rightarrow> bytes outcome" where
  "serialize_among X n c us m =
     collect (\<lambda>f. and_then (serializeField X (serializeMessage X n) c m f)
         (\<lambda>b. Ret (concat (map raw_field (us (fst f))) @ b)))
       (propertyOrdering (protobufMetaObject X c))"

definition unknown_to :: "serializer_env \<Rightarrow> nat \<Rightarrow> (int \<times> raw) list \<Rightarrow> bool" where
  "unknown_to X c us \<longleftrightarrow>
     list_all (\<lambda>u. fst u \<notin> set (map fst (propertyOrdering (protobufMetaObject X c))) \<and> 0 < fst u \<and> fst u < 2 ^ 29) us"

text \<open>
  C5. Complete fields of the wire types varint, fixed and length delimited (in the shortest encoding) that the class does
  not declare are passed over, before, between and behind the fields of the properties of a message: the object is the one that was sent.
\<close>

theorem unknown_fields_ignored:
  assumes "serialize_among X n c us m = Ret bs" and "wt_message X (Suc n) c m"
    and "\<forall>i. unknown_to X c (us i)" "unknown_to X c behind"
    and "length (bs @ concat (map raw_field behind)) < 2147483600"
    and "length (bs @ concat (map raw_field behind)) < fuel"
  shows "deserialize X fuel c object (bs @ concat (map raw_field behind)) = (sent_message X (Suc n) c m, Ret ())"
proof -
  have skip: "consumes X c (concat (map raw_field vs)) o' o'" if "unknown_to X c vs" for vs o'
    using that by (intro consumes_unknowns) (simp add: unknown_to_def list_all_iff)
  have "consumes X c bs (new_message X c) (sent_message X (Suc n) c m)"
    unfolding sent_message.simps Let_def
    by (rule consumes_message [where ser = "serializeMessage X n" and wtm = "wt_message X n"
          and pad = "\<lambda>f. concat (map raw_field (us (fst f)))"])
      (use assms(1-3) skip message_decodes [of X n] in \<open>auto simp: Let_def serialize_among_def\<close>)
  from consumes_all [OF consumes_append [OF this skip [OF assms(4)]] assms(5,6)] show ?thesis
    by (simp add: deserialize_def deserializeMessage_def)
qed

definition sample_unknown :: "int \<Rightarrow> (int \<times> raw) list" where
  "sample_unknown i = (if i = 5 then [(100, RVarint 5), (9, RBytes [1, 2, 3])] else if i = 2 then [(8, RFixed32 7)] else [])"

definition sample_among :: bytes where
  "sample_among = [160,6,5, 74,3,1,2,3, 42,0, 8,255,255,255,255,15, 69,7,0,0,0, 18,2,104,105, 26,5,8,172,2,16,1,
     34,6,8,2,18,2,16,1, 50,2,5,0, 56,2]"

lemma sample_among_bytes: "serialize_among sample_env 1 0 sample_unknown sample_message = Ret sample_among"
  by code_simp

lemma sample_behind: "raw_field (10, RFixed64 1) = [81, 1, 0, 0, 0, 0, 0, 0, 0]"
  by code_simp

theorem unknown_fields_ignored_witness:
  "deserialize sample_env 100 0 (Message []) (sample_among @ concat (map raw_field [(10, RFixed64 1)]))
    = (sent_message sample_env (Suc 1) 0 sample_message, Ret ())"
proof -
  have wt: "wt_message sample_env (Suc 1) 0 sample_message" by code_simp
  show ?thesis
    by (rule unknown_fields_ignored [OF sample_among_bytes wt])
      (auto simp: sample_behind sample_among_def,
       auto simp: unknown_to_def sample_unknown_def sample_env_def sample_classes_def)
qed

text \<open>
  C18. A header that is not valid (field number zero, or the wire type of a group) ends the call with
  \<open>std::invalid_argument\<close>; the object keeps the fields that were read before.
\<close>

theorem invalid_header_throws:
  assumes "serialize X n c m = Ret bs" and "wt_message X n c m"
    and "header AND 0b111 \<notin> {0, 1, 2, 5} \<or> drop_bit 3 header = (0 :: 32 word)"
    and "length (bs @ serializeVarintCommon header @ rest) < 2147483600"
    and "length (bs @ serializeVarintCommon header @ rest) < fuel"
  shows "deserialize X fuel c object (bs @ serializeVarintCommon header @ rest)
    = (sent_message X n c m, throw Invalid_argument)"
proof -
  let ?bad = "serializeVarintCommon header @ rest"
  have "consumes X c bs (new_message X c) (sent_message X n c m)"
    using assms(1,2) by (intro message_consumes) (simp_all add: serialize_def)
  from consumesD [OF this, of ?bad fuel "[]"] assms(4,5) obtain f where f: "length ?bad < f"
    and loop: "deserializeMessage_loop X fuel c (new_message X c) (it_at [] (bs @ ?bad))
      = deserializeMessage_loop X f c (sent_message X n c m) (it_at bs ?bad)" by auto
  have "wire_cast (uint (header AND 0b111)) \<notin> {Varint, Fixed64, Fixed32, LengthDelimited}
      \<or> to_int (uint (drop_bit 3 header)) = 0"
    using assms(3)
  proof
    assume *: "header AND 0b111 \<notin> {0, 1, 2, 5}"
    have "uint (header AND 0b111) \<noteq> k" if "k \<in> {0, 1, 2, 5}" for k
    proof
      assume "uint (header AND 0b111) = k"
      then have "header AND 0b111 = word_of_int k" by (metis word_of_int_uint)
      with that * show False by auto
    qed
    then show ?thesis by (auto simp: wire_cast_def)
  qed (simp add: to_int_def)
  then have "deserializeProperty X rec c m' (it_at bs ?bad) = throw Invalid_argument" for rec m'
    using assms(4) by (auto simp: deserializeProperty_def decodeHeader_def varint_at_32 Let_def)
  then have "deserializeMessage_loop X f c (sent_message X n c m) (it_at bs ?bad)
      = (sent_message X n c m, throw Invalid_argument)"
    using f by (cases f) auto
  with loop show ?thesis
    using assms(4) by (simp add: deserialize_def deserializeMessage_def it_at_begin int_limits)
qed

lemma serialize_7: "serializeVarintCommon (7 :: 32 word) = [7]"
  by code_simp

theorem invalid_header_throws_witness:
  "deserialize sample_env 100 0 (Message []) (sample_bytes @ serializeVarintCommon (7 :: 32 word) @ [1])
    = (sent_message sample_env 2 0 sample_message, throw Invalid_argument)"
  by (rule invalid_header_throws [OF sample_serialized sample_wt]) (simp_all add: length_sample serialize_7)

subsection \<open>Input on which the code misbehaves\<close>

text \<open>The length that takes the iterator back to the header in front of it.\<close>

definition back_length :: "int \<Rightarrow> 32 word" where
  "back_length i = word_of_int (2 ^ 32 - int (length (encodeHeader i LengthDelimited)) - 5)"

lemma uint_back_length:
  "uint (back_length i) = 2 ^ 32 - int (length (encodeHeader i LengthDelimited)) - 5"
  unfolding back_length_def
  by (rule uint_word_of_int_32) (use length_encodeHeader [of i LengthDelimited] in simp_all)

lemma length_back_length: "length (serializeVarintCommon (back_length i)) = 5"
proof -
  have "int (length (encodeHeader i LengthDelimited)) \<le> 5"
    using length_encodeHeader [of i LengthDelimited] by simp
  then have "int (128 ^ 4) \<le> int (unat (back_length i))" unfolding uint_nat [symmetric] uint_back_length by simp
  then have "\<not> unat (back_length i) < 128 ^ 4" by (simp only: of_nat_le_iff not_less)
  then have "\<not> length (serializeVarintCommon (back_length i)) \<le> 4"
    using length_serializeVarint_iff [OF zero_less_numeral, of "back_length i"] by blast
  with length_serializeVarint_32 [of "back_length i"] show ?thesis by simp
qed

lemma skip_back_to_start:
  fixes i :: int
  defines "h \<equiv> encodeHeader i LengthDelimited"
  assumes "length pre + length rest < 2147483600"
  shows "skipLengthDelimited (it_at (pre @ h) (serializeVarintCommon (back_length i) @ rest))
    = Ret (it_at pre (h @ serializeVarintCommon (back_length i) @ rest))"
proof -
  have h: "length h \<le> 5" unfolding h_def by (rule length_encodeHeader)
  have u: "uint (back_length i) = 2 ^ 32 - int (length h) - 5" unfolding h_def by (rule uint_back_length)
  have "int (2 ^ 31) \<le> int (unat (back_length i))"
    unfolding uint_nat [symmetric] u using h by simp
  then have "2 ^ 31 \<le> unat (back_length i)" by (simp only: of_nat_le_iff)
  moreover have "length rest < 2147483600" "int (length rest) + 2 ^ 32 - uint (back_length i) \<le> INT_MAX"
    using assms(2) h by (simp_all add: u int_limits)
  ultimately show ?thesis
    using skipLengthDelimited_back [of "back_length i" rest "pre @ h"] h
    by (simp add: u Let_def int_limits length_back_length) (simp add: it_at_def length_back_length)
qed

text \<open>The start of an input that has been read so far: nothing yet, or all fields of a message.\<close>

definition read_so_far :: "serializer_env \<Rightarrow> nat \<Rightarrow> bytes \<Rightarrow> message \<Rightarrow> bool" where
  "read_so_far X c bs object \<longleftrightarrow> bs = [] \<and> object = new_message X c
     \<or> (\<exists>n m. serialize X n c m = Ret bs \<and> wt_message X n c m \<and> object = sent_message X n c m)"

text \<open>
  C19. An unknown length delimited field whose length is \<open>2 ^ 32\<close> less the bytes of its own header and length (more than
  \<open>INT_MAX\<close>, so that it is negative as an \<open>int\<close>) moves the iterator back to that header: \<open>deserialize\<close> never ends on
  it. No fuel is enough, for any class and any field number the class does not have, whatever follows the field and
  with no fields or those of a message in front of it.
\<close>

theorem oversized_unknown_field_never_ends:
  assumes "i \<notin> set (map fst (propertyOrdering (protobufMetaObject X c)))" "0 < i" "i < 2 ^ 29"
    and "read_so_far X c bs object'" "length bs + length rest < 2147483500" "length bs + length rest + 10 < fuel"
  shows "deserialize X fuel c object
      (bs @ encodeHeader i LengthDelimited @ serializeVarintCommon (back_length i) @ rest) = (object', No_fuel)"
proof -
  let ?h = "encodeHeader i LengthDelimited" and ?v = "serializeVarintCommon (back_length i)"
  let ?bad = "?h @ ?v @ rest"
  have len: "length ?bad \<le> length rest + 10" using length_encodeHeader [of i] by (simp add: length_back_length)
  have "decodeHeader (it_at bs ?bad) = Ret (True, i, LengthDelimited, it_at (bs @ ?h) (?v @ rest))"
    using assms(2,3,5) len by (intro decodeHeader_encode) (auto simp: sendable_def length_back_length)
  moreover have "skipLengthDelimited (it_at (bs @ ?h) (?v @ rest)) = Ret (it_at bs ?bad)"
    using assms(5) by (intro skip_back_to_start) simp
  moreover have "map_of (propertyOrdering (protobufMetaObject X c)) i = None"
    using assms(1) by (simp only: map_of_eq_None_iff set_map not_False_eq_True)
  ultimately have step: "deserializeProperty X rec c m (it_at bs ?bad) = Ret (m, it_at bs ?bad)" for rec m
    by (simp add: deserializeProperty_def skipSerializedFieldBytes_def)
  have stuck: "deserializeMessage_loop X f c m (it_at bs ?bad) = (m, No_fuel)" for f m
    by (induction f) (simp_all add: step)
  have bound: "length bs + length ?bad < 2147483600" "length bs + length ?bad < fuel" using len assms(5,6) by linarith+
  have "consumes X c bs (new_message X c) object'"
    using assms(4) by (auto simp: read_so_far_def serialize_def intro: message_consumes)
  from consumesD [OF this bound] obtain f where
    "deserializeMessage_loop X fuel c (new_message X c) (it_at [] (bs @ ?bad)) = deserializeMessage_loop X f c object' (it_at bs ?bad)"
    by (metis append_Nil)
  moreover have "it_begin (bs @ ?bad) = it_at [] (bs @ ?bad)"
    using bound(1) by (intro it_at_begin) (simp add: int_limits)
  ultimately show ?thesis
    by (simp only: deserialize_def deserializeMessage_def stuck Let_def prod.case)
qed

theorem oversized_unknown_field_never_ends_witness:
  "deserialize sample_env 1000 0 (Message [])
      (sample_bytes @ encodeHeader 9 LengthDelimited @ serializeVarintCommon (back_length 9) @ [1, 2])
    = (sent_message sample_env 2 0 sample_message, No_fuel)"
  by (rule oversized_unknown_field_never_ends)
    (use sample_serialized sample_wt in \<open>auto simp: sample_env_def sample_classes_def length_sample read_so_far_def\<close>)

text \<open>What the properties of generated classes are: each type has a handler in the table or the registry.\<close>

definition has_handler :: "serializer_env \<Rightarrow> metatype \<Rightarrow> bool" where
  "has_handler X t \<longleftrightarrow> handlers t \<noteq> None \<or> registry X t \<noteq> None \<and> (\<forall>b. t \<noteq> MList b)"

lemma collect_no_fuel:
  assumes "\<And>x. x \<in> set xs \<Longrightarrow> \<exists>b. f x = Ret b \<or> f x = No_fuel" and "y \<in> set xs" "f y = No_fuel"
  shows "collect f xs = No_fuel"
  using assms
proof (induction xs)
  case (Cons x xs)
  have "\<exists>b. f x = Ret b \<or> f x = No_fuel" using Cons.prems(1) by simp
  then show ?case
  proof (elim exE disjE)
    fix b assume "f x = Ret b"
    moreover from this have "collect f xs = No_fuel" using Cons by (intro Cons.IH) auto
    ultimately show ?thesis by simp
  qed simp_all
qed simp

lemma collect_ends:
  "(\<And>x. x \<in> set xs \<Longrightarrow> \<exists>b. f x = Ret b \<or> f x = No_fuel) \<Longrightarrow> \<exists>b. collect f xs = Ret b \<or> collect f xs = No_fuel"
  by (cases "\<exists>y \<in> set xs. f y = No_fuel") (use collect_no_fuel [of xs f] collect_succeeds [of xs f] in blast)+

text \<open>\<open>rec\<close> returns, or it uses its fuel up.\<close>

definition ends :: "serializer_env \<Rightarrow> (nat \<Rightarrow> message \<Rightarrow> bytes outcome) \<Rightarrow> bool" where
  "ends X rec \<longleftrightarrow> (\<forall>d. \<exists>b. rec d (new_message X d) = Ret b \<or> rec d (new_message X d) = No_fuel)"

lemma default_value_ends:
  assumes "has_handler X t" and rec: "ends X rec"
  shows "\<exists>b. serializeProperty X rec t (read_property X t (default_value t)) i = Ret b
    \<or> serializeProperty X rec t (read_property X t (default_value t)) i = No_fuel"
proof (cases t)
  case (MMessage d)
  obtain b where "rec d (new_message X d) = Ret b \<or> rec d (new_message X d) = No_fuel"
    using rec by (auto simp: ends_def)
  with MMessage assms(1) show ?thesis by (auto simp: serializeProperty.simps serializeObject_def has_handler_def)
qed (use assms(1) in \<open>auto simp: serializeProperty.simps serializeProperty_basic_def has_handler_def serializeList_def
    serializeMap_def split: prod.splits if_splits\<close>)

definition wf_classes :: "serializer_env \<Rightarrow> bool" where
  "wf_classes X \<longleftrightarrow>
     (\<forall>d. wf_class (protobufMetaObject X d) \<and> list_all (has_handler X) (staticMetaObject (protobufMetaObject X d)))"

lemma default_field:
  assumes "wf_classes X" "(i, p, j) \<in> set (propertyOrdering (protobufMetaObject X c))"
  shows "has_handler X (staticMetaObject (protobufMetaObject X c) ! p)"
    and "properties (new_message X c) ! p = default_value (staticMetaObject (protobufMetaObject X c) ! p)"
proof -
  have "wf_class (protobufMetaObject X c)" using assms(1) by (simp add: wf_classes_def)
  with assms(2) have p: "p < length (staticMetaObject (protobufMetaObject X c))" by (force simp: wf_class_def)
  with assms(1) show "has_handler X (staticMetaObject (protobufMetaObject X c) ! p)"
    by (simp add: wf_classes_def list_all_length)
  from p show "properties (new_message X c) ! p = default_value (staticMetaObject (protobufMetaObject X c) ! p)"
    by (simp add: new_message_def)
qed

lemma default_field_ends:
  assumes "wf_classes X" "x \<in> set (propertyOrdering (protobufMetaObject X c))" "ends X rec"
  shows "\<exists>b. serializeField X rec c (new_message X c) x = Ret b \<or> serializeField X rec c (new_message X c) x = No_fuel"
proof -
  obtain i p j where x: "x = (i, p, j)" by (cases x)
  note f = default_field [OF assms(1) assms(2) [unfolded x]]
  from default_value_ends [OF f(1) assms(3)] show ?thesis by (simp add: serializeField_def x f(2) Let_def)
qed

lemma default_message_ends: "wf_classes X \<Longrightarrow> ends X (serializeMessage X fuel)"
proof (induction fuel)
  case (Suc fuel)
  show ?case unfolding ends_def serializeMessage.simps
    by (intro allI collect_ends default_field_ends Suc)
qed (simp add: ends_def)

text \<open>
  C20. A class with a singular field of its own type cannot be serialized: reading the field creates an
  object, whose field is read in turn. No fuel is enough for a default constructed object, wherever the field is among
  those of the class; the classes are well formed and the types of their properties have handlers.
\<close>

theorem recursive_message_never_ends:
  assumes "wf_classes X" and "(i, p, j) \<in> set (propertyOrdering (protobufMetaObject X c))"
    and "staticMetaObject (protobufMetaObject X c) ! p = MMessage c"
  shows "serialize X fuel c (new_message X c) = No_fuel"
proof (induction fuel)
  case (Suc fuel)
  note own = default_field [OF assms(1,2)]
  have "registry X (MMessage c) \<noteq> None" using own(1) assms(3) by (simp add: has_handler_def)
  then have "serializeField X (serializeMessage X fuel) c (new_message X c) (i, p, j) = No_fuel"
    using Suc assms(3) own(2) by (auto simp: serializeField_def serialize_def serializeProperty.simps serializeObject_def)
  then show ?case
    using collect_no_fuel [OF default_field_ends [OF assms(1) _ default_message_ends [OF assms(1)]] assms(2)]
    by (simp add: serialize_def)
qed (simp add: serialize_def)

text \<open>A node of a linked list: a number, and the next node.\<close>

definition recursive_env :: serializer_env where
  "recursive_env = \<lparr>qt = ascii_qt,
     protobufMetaObject = (\<lambda>c. \<lparr>staticMetaObject = [MBasic TInt32, MMessage 0], propertyOrdering = [(1, 0, []), (2, 1, [])]\<rparr>),
     registry = (\<lambda>t. Some ObjectHandler)\<rparr>"

theorem recursive_message_never_ends_witness:
  "serialize recursive_env 1000 0 (new_message recursive_env 0) = No_fuel"
  by (rule recursive_message_never_ends [where i = 2 and p = 1 and j = "[]"])
    (auto simp: recursive_env_def wf_classes_def wf_class_def has_handler_def)

text \<open>
  When a packed field comes in two chunks, which the format allows, the second one replaces the
  first; a list of enumeration values keeps both.
\<close>

theorem packed_chunks_replace:
  fixes X c
  defines "ps \<equiv> properties (new_message X c)"
  assumes "field_of X c i p (MList t)" "field_of X c k q (MEnumList e)" "p \<noteq> q"
    and "p < length ps" "q < length ps"
    and "packable t" "t \<noteq> TBool" "\<forall>v \<in> set (as @ bs). btype_of v = t"
    and "registry X (MEnumList e) \<noteq> None" "\<forall>v \<in> set (es @ ds). in_int v"
  defines "chunk \<equiv> \<lambda>vs. encodeHeader i LengthDelimited
      @ prependLengthDelimitedSize (concat (map (packed_element (qt X)) vs))"
    and "enums \<equiv> \<lambda>vs. encodeHeader k LengthDelimited @ prependLengthDelimitedSize
      (concat (map (\<lambda>v. serializeVarintCommon (word_of_int v :: 64 word)) vs))"
  assumes "length (chunk as @ chunk bs @ enums es @ enums ds) < 2147483600"
    and "length (chunk as @ chunk bs @ enums es @ enums ds) < fuel"
  shows "deserialize X fuel c object (chunk as @ chunk bs @ enums es @ enums ds)
    = (Message (ps[p := VList bs, q := VEnumList (es @ ds)]), Ret ())"
proof -
  have list: "consumes X c (chunk vs) (Message (ps[p := u])) (Message (ps[p := VList vs]))"
    if "\<forall>v \<in> set vs. btype_of v = t" for vs u
    unfolding chunk_def using assms(2,5) reads_list [OF assms(7,8) that]
    by (intro consumes_element) (auto simp: sendable_def)
  have enum: "consumes X c (enums vs) (Message (ps[p := u, q := VEnumList us]))
      (Message (ps[p := u, q := VEnumList (us @ vs)]))" if "\<forall>v \<in> set vs. in_int v" for vs u us
    unfolding enums_def using assms(3,6) reads_enum_list [OF assms(10) that]
    by (intro consumes_element) (auto simp: sendable_def)
  have "ps ! q = VEnumList []"
    using assms(3,6) default_value.simps(6) unfolding ps_def field_of_def
    by (auto simp: new_message_def simp del: default_value.simps) metis
  then have "ps[p := VList bs] = ps[p := VList bs, q := VEnumList []]"
    using assms(4) by (metis list_update_id nth_list_update_neq)
  moreover have "consumes X c (chunk as) (Message ps) (Message (ps[p := VList as]))"
    using list [of as "ps ! p"] assms(9) by simp
  ultimately have "consumes X c (chunk as @ chunk bs @ enums es @ enums ds) (Message ps)
      (Message (ps[p := VList bs, q := VEnumList (es @ ds)]))"
    using list [of bs "VList as"] enum [of es "VList bs" "[]"] enum [of ds "VList bs" es] assms(9,11)
    by (auto intro!: consumes_append)
  from consumes_all [OF this assms(14,15)] show ?thesis
    by (simp add: deserialize_def deserializeMessage_def ps_def new_message_def)
qed

definition lists_env :: serializer_env where
  "lists_env = \<lparr>qt = ascii_qt,
     protobufMetaObject = (\<lambda>c. \<lparr>staticMetaObject = [MList TUInt32, MEnumList 0],
       propertyOrdering = [(1, 0, []), (2, 1, [])]\<rparr>),
     registry = (\<lambda>t. Some ObjectHandler)\<rparr>"

lemma lists_env_simps:
  "new_message lists_env c = Message [VList [], VEnumList []]" "qt lists_env = ascii_qt"
  "field_of lists_env c 1 0 (MList TUInt32)" "field_of lists_env c 2 1 (MEnumList 0)"
  "registry lists_env t = Some ObjectHandler"
  by (simp_all add: lists_env_def new_message_def field_of_def)

lemma lists_bytes:
  "encodeHeader 1 LengthDelimited @ prependLengthDelimitedSize
     (concat (map (packed_element ascii_qt) [BUInt32 1])) = [10, 1, 1]"
  "encodeHeader 2 LengthDelimited @ prependLengthDelimitedSize
     (concat (map (\<lambda>v. serializeVarintCommon (word_of_int v :: 64 word)) [1])) = [18, 1, 1]"
  by code_simp+

theorem packed_chunks_replace_witness:
  "deserialize lists_env 30 0 (Message []) [10, 1, 1, 10, 1, 1, 18, 1, 1, 18, 1, 1]
    = (Message [VList [BUInt32 1], VEnumList [1, 1]], Ret ())"
proof -
  have "in_int 1" by (simp add: int_limits)
  then show ?thesis
    using packed_chunks_replace [of lists_env 0 1 0 TUInt32 2 1 0 "[BUInt32 1]" "[BUInt32 1]" "[1]" "[1]" 30 "Message []"]
    unfolding lists_env_simps lists_bytes by (simp add: packable_def lists_env_simps lists_env_simps(4) [simplified])
qed

text \<open>
  C11. A length that says more bytes than there are is used before it is checked: \<open>deserializeLengthDelimited\<close>
  copies from behind the buffer, which is undefined behaviour and not an exception.
\<close>

theorem declared_length_overreads:
  fixes len :: "32 word"
  assumes "length rest + 1 < unat len" and "length rest < 2147483600"
  shows "deserializeLengthDelimited (it_at pre (serializeVarintCommon len @ rest)) = undefined_by Overread"
  using assms by (rule deserializeLengthDelimited_overread)

theorem declared_length_overreads_witness:
  "deserializeLengthDelimited (it_at [10] (serializeVarintCommon (300 :: 32 word) @ [1, 2, 3])) = undefined_by Overread"
  by (rule declared_length_overreads) simp_all

text \<open>
  Ten bytes with the continuation flag are shifted too far: the length of a varint is not limited.
\<close>

theorem long_varint_shifts_too_far:
  assumes "rest \<noteq> []" and "length rest < 2147483600"
  shows "(deserializeVarintCommon (it_at pre (replicate 10 0x80 @ rest)) :: (32 word \<times> selfcheck_iterator) outcome)
    = undefined_by Shift_too_far"
proof -
  have "deserializeVarint_loop (it_at pre (replicate 10 0x80 @ rest)) (0 :: 32 word) (7 * 0)
      = undefined_by Shift_too_far"
    by (rule varint_too_long) (use assms in simp_all)
  then show ?thesis unfolding deserializeVarintCommon_def mult_0_right by (simp only: and_then.simps)
qed

theorem long_varint_shifts_too_far_witness:
  "(deserializeVarintCommon (it_at [] (replicate 10 0x80 @ [1])) :: (32 word \<times> selfcheck_iterator) outcome)
    = undefined_by Shift_too_far"
  by (rule long_varint_shifts_too_far) simp_all

subsection \<open>Bounds, safety and termination\<close>

text \<open>
  A varint is as short as it can be: it fits \<open>n\<close> bytes exactly when the number fits \<open>7 n\<close> bits.
\<close>

theorem varint_is_shortest:
  assumes "0 < n"
  shows "length (serializeVarintCommon v) \<le> n \<longleftrightarrow> unat v < 128 ^ n"
  using assms by (rule length_serializeVarint_iff)

theorem varint_is_shortest_witness:
  "length (serializeVarintCommon (300 :: 32 word)) \<le> 1 \<longleftrightarrow> unat (300 :: 32 word) < 128 ^ 1"
  by (rule varint_is_shortest) simp

text \<open>
  From a well formed iterator every scalar decoder ends; when it returns, the value has the type
  asked for and the iterator is well formed again, strictly further on.
\<close>

theorem scalar_decoder_advances:
  assumes "it_ok it"
  shows "case deserializeBasic Q t it of
      Ret (v, it') \<Rightarrow> btype_of v = t \<and> it_ok it' \<and> m_sizeLeft it' < m_sizeLeft it
    | Fail e \<Rightarrow> True
    | No_fuel \<Rightarrow> False"
  using advances_basic [OF assms, of Q t] deserializeBasic_type [of Q t it]
  by (auto simp: advances_def split: outcome.splits prod.splits)

theorem scalar_decoder_advances_witness:
  "case deserializeBasic ascii_qt TUInt32 (it_at [] [172, 2]) of
      Ret (v, it') \<Rightarrow> btype_of v = TUInt32 \<and> it_ok it' \<and> m_sizeLeft it' < m_sizeLeft (it_at [] [172, 2])
    | Fail e \<Rightarrow> True
    | No_fuel \<Rightarrow> False"
  by (rule scalar_decoder_advances) (simp add: it_ok_at int_limits)

text \<open>
  C21. The loop over a packed list ends on every input, whatever count the bytes declare.
\<close>

theorem packed_list_ends:
  assumes "it_ok it"
  shows "deserializeList (deserializeBasic Q t) it \<noteq> No_fuel"
  using assms by (rule scalar.list_ends)

theorem packed_list_ends_witness:
  "deserializeList (deserializeBasic ascii_qt TUInt32) (it_at [] [200, 1]) \<noteq> No_fuel"
  by (rule packed_list_ends) (simp add: it_ok_at int_limits)

end
