(* ===== verification/HandlersRegistry.thy ===== *)
theory HandlersRegistry
  imports Main
begin

section \<open>HandlersRegistry\<close>

text \<open>
  The registry of serialization handlers (\<open>qabstractprotobufserializer.cpp\<close>), shared by all threads. A
  semaphore of 64 units and a mutex make a reader/writer lock: a reader takes one unit, a writer all of
  them, both while they hold the mutex; a reader gives the mutex back before it looks the handler up.

  Each thread runs one call; its program counter stands between the statements of \<open>registerHandler\<close> or
  \<open>findHandler\<close>. The destructors of the locker and the releaser are steps of their own, in the order C++
  runs them. The types of keys and handlers are parameters.
\<close>

definition MaximumSimultaniousThreads :: nat where "MaximumSimultaniousThreads = 64"

datatype ('k, 'h) call = RegisterHandler 'k 'h | FindHandler 'k

datatype ('k, 'h) pc =
    Start "('k, 'h) call"
  | W_locked 'k 'h
  | W_acquired 'k 'h
  | W_written
  | W_released
  | F_locked 'k
  | F_acquired 'k
  | F_unlocked 'k
  | F_found "'h option"
  | Finished "'h option"

record ('k, 'h) registry_state =
  m_readLock :: nat
  m_writeLock :: "nat option"
  m_registry :: "'k \<Rightarrow> 'h option"
  threads :: "('k, 'h) pc list"

definition goto :: "nat \<Rightarrow> ('k, 'h) pc \<Rightarrow> ('k, 'h) registry_state \<Rightarrow> ('k, 'h) registry_state" where
  "goto i pc s = s\<lparr>threads := (threads s)[i := pc]\<rparr>"

text \<open>The next statement of thread \<open>i\<close>; \<open>None\<close> when it has to wait or is done.\<close>

fun advance :: "nat \<Rightarrow> ('k, 'h) pc \<Rightarrow> ('k, 'h) registry_state \<Rightarrow> ('k, 'h) registry_state option" where
  "advance i (Start (RegisterHandler k h)) s =
     (if m_writeLock s = None then Some (goto i (W_locked k h) (s\<lparr>m_writeLock := Some i\<rparr>)) else None)"
| "advance i (W_locked k h) s =
     (if MaximumSimultaniousThreads \<le> m_readLock s
      then Some (goto i (W_acquired k h) (s\<lparr>m_readLock := m_readLock s - MaximumSimultaniousThreads\<rparr>))
      else None)"
| "advance i (W_acquired k h) s = Some (goto i W_written (s\<lparr>m_registry := (m_registry s)(k := Some h)\<rparr>))"
| "advance i W_written s =
     Some (goto i W_released (s\<lparr>m_readLock := m_readLock s + MaximumSimultaniousThreads\<rparr>))"
| "advance i W_released s = Some (goto i (Finished None) (s\<lparr>m_writeLock := None\<rparr>))"
| "advance i (Start (FindHandler k)) s =
     (if m_writeLock s = None then Some (goto i (F_locked k) (s\<lparr>m_writeLock := Some i\<rparr>)) else None)"
| "advance i (F_locked k) s =
     (if 1 \<le> m_readLock s then Some (goto i (F_acquired k) (s\<lparr>m_readLock := m_readLock s - 1\<rparr>)) else None)"
| "advance i (F_acquired k) s = Some (goto i (F_unlocked k) (s\<lparr>m_writeLock := None\<rparr>))"
| "advance i (F_unlocked k) s = Some (goto i (F_found (m_registry s k)) s)"
| "advance i (F_found r) s = Some (goto i (Finished r) (s\<lparr>m_readLock := m_readLock s + 1\<rparr>))"
| "advance i (Finished r) s = None"

definition init :: "('k, 'h) call list \<Rightarrow> ('k, 'h) registry_state" where
  "init calls = \<lparr>m_readLock = MaximumSimultaniousThreads, m_writeLock = None,
     m_registry = (\<lambda>k. None), threads = map Start calls\<rparr>"

inductive reachable :: "('k, 'h) call list \<Rightarrow> ('k, 'h) registry_state \<Rightarrow> bool" for calls where
  initial: "reachable calls (init calls)"
| step: "reachable calls s \<Longrightarrow> i < length (threads s) \<Longrightarrow> advance i (threads s ! i) s = Some s' \<Longrightarrow>
    reachable calls s'"

subsection \<open>Invariant\<close>

fun reading :: "('k, 'h) pc \<Rightarrow> bool" where
  "reading (F_acquired _) = True"
| "reading (F_unlocked _) = True"
| "reading (F_found _) = True"
| "reading _ = False"

fun writing :: "('k, 'h) pc \<Rightarrow> bool" where
  "writing (W_acquired _ _) = True"
| "writing W_written = True"
| "writing _ = False"

fun locking :: "('k, 'h) pc \<Rightarrow> bool" where
  "locking (W_locked _ _) = True"
| "locking (W_acquired _ _) = True"
| "locking W_written = True"
| "locking W_released = True"
| "locking (F_locked _) = True"
| "locking (F_acquired _) = True"
| "locking _ = False"

text \<open>Units of the semaphore a thread holds.\<close>

definition units :: "('k, 'h) pc \<Rightarrow> nat" where
  "units pc = (if writing pc then MaximumSimultaniousThreads else if reading pc then 1 else 0)"

definition lock_inv :: "('k, 'h) registry_state \<Rightarrow> bool" where
  "lock_inv s \<longleftrightarrow>
     m_readLock s + sum_list (map units (threads s)) = MaximumSimultaniousThreads
     \<and> (\<forall>i < length (threads s). locking (threads s ! i) \<longleftrightarrow> m_writeLock s = Some i)
     \<and> (\<forall>i. m_writeLock s = Some i \<longrightarrow> i < length (threads s))"

lemma sum_units_update:
  "i < length xs \<Longrightarrow> sum_list (map f (xs[i := x])) + f (xs ! i) = sum_list (map f xs) + (f x :: nat)"
proof (induction xs arbitrary: i)
  case (Cons y ys)
  then show ?case by (cases i) (auto simp: add.assoc add.left_commute)
qed simp

lemma units_le_sum: "i < length xs \<Longrightarrow> (f (xs ! i) :: nat) \<le> sum_list (map f xs)"
  by (induction xs arbitrary: i) (auto simp: nth_Cons split: nat.splits intro: trans_le_add2)

text \<open>A step changes the counter by the units its thread takes or gives, and no lock of another thread.\<close>

lemma advance_local:
  assumes "advance i (threads s ! i) s = Some s'" and "locking (threads s ! i) \<longleftrightarrow> m_writeLock s = Some i"
  obtains pc where "threads s' = (threads s)[i := pc]"
    and "m_readLock s' + units pc = m_readLock s + units (threads s ! i)"
    and "locking pc \<longleftrightarrow> m_writeLock s' = Some i"
    and "\<And>j. j \<noteq> i \<Longrightarrow> m_writeLock s' = Some j \<longleftrightarrow> m_writeLock s = Some j"
  using assms
  by (cases "(i, threads s ! i, s)" rule: advance.cases)
    (auto simp: goto_def units_def split: if_splits)

lemma advance_inv:
  assumes inv: "lock_inv s" and i: "i < length (threads s)" and step: "advance i (threads s ! i) s = Some s'"
  shows "lock_inv s'"
proof -
  have "locking (threads s ! i) \<longleftrightarrow> m_writeLock s = Some i" using inv i by (simp add: lock_inv_def)
  from advance_local [OF step this] obtain pc where pc: "threads s' = (threads s)[i := pc]"
    "m_readLock s' + units pc = m_readLock s + units (threads s ! i)"
    "locking pc \<longleftrightarrow> m_writeLock s' = Some i"
    "\<And>j. j \<noteq> i \<Longrightarrow> m_writeLock s' = Some j \<longleftrightarrow> m_writeLock s = Some j" by blast
  have "m_readLock s' + sum_list (map units (threads s')) = MaximumSimultaniousThreads"
    using inv pc(1,2) sum_units_update [OF i, of units pc] by (simp add: lock_inv_def)
  moreover have "locking (threads s' ! j) \<longleftrightarrow> m_writeLock s' = Some j" if "j < length (threads s')" for j
    using inv pc i that by (cases "j = i") (auto simp: lock_inv_def)
  moreover have "j < length (threads s')" if "m_writeLock s' = Some j" for j
    using inv pc i that by (cases "j = i") (auto simp: lock_inv_def)
  ultimately show ?thesis unfolding lock_inv_def by blast
qed

lemma init_inv: "lock_inv (init calls)"
proof -
  have "sum_list (map units (map Start calls)) = 0" by (induction calls) (auto simp: units_def)
  then show ?thesis by (simp add: lock_inv_def init_def)
qed

lemma reachable_inv: "reachable calls s \<Longrightarrow> lock_inv s"
  by (induction rule: reachable.induct) (auto intro: init_inv advance_inv)

lemma sum_units_two:
  assumes "i < length xs" "j < length xs" "i \<noteq> j"
  shows "(f (xs ! i) :: nat) + f (xs ! j) \<le> sum_list (map f xs)"
  using assms
proof (induction xs arbitrary: i j)
  case (Cons x xs)
  consider "i = 0" "j \<noteq> 0" | "i \<noteq> 0" "j = 0" | "i \<noteq> 0" "j \<noteq> 0" using Cons.prems(3) by auto
  then show ?case
  proof cases
    case 1
    then show ?thesis using Cons.prems units_le_sum [of "j - 1" xs f] by simp
  next
    case 2
    then show ?thesis using Cons.prems units_le_sum [of "i - 1" xs f] by simp
  next
    case 3
    then have "f (xs ! (i - 1)) + f (xs ! (j - 1)) \<le> sum_list (map f xs)"
      using Cons.prems by (intro Cons.IH) auto
    then show ?thesis using 3 by simp
  qed
qed simp

lemma zero_units: "sum_list (map units xs) \<noteq> 0 \<Longrightarrow> \<exists>i < length xs. units (xs ! i) \<noteq> (0 :: nat)"
  by (auto simp: in_set_conv_nth)

text \<open>A thread that holds units without the mutex can go on.\<close>

lemma holder_advances:
  "units pc \<noteq> 0 \<Longrightarrow> \<not> locking pc \<Longrightarrow> \<exists>s'. advance i pc s = Some s'"
  by (cases pc) (auto simp: units_def)

lemma waiter_unblocked:
  assumes inv: "lock_inv s" and i: "m_writeLock s = Some i" "units (threads s ! i) = 0"
    and short: "m_readLock s < MaximumSimultaniousThreads"
  shows "\<exists>j s'. j < length (threads s) \<and> advance j (threads s ! j) s = Some s'"
proof -
  have "0 < sum_list (map units (threads s))" using inv short unfolding lock_inv_def by linarith
  from zero_units [OF gr_implies_not0 [OF this]] obtain j where j: "j < length (threads s)" "units (threads s ! j) \<noteq> 0" by blast
  then have "\<not> locking (threads s ! j)" using inv i by (auto simp: lock_inv_def)
  with j holder_advances show ?thesis by blast
qed

subsection \<open>Properties\<close>

text \<open>
  C28. While one thread is between taking all units and giving them back, that is while it writes the
  registry, no other thread reads or writes it; and at most 64 threads read at once.
\<close>

theorem registry_mutual_exclusion:
  assumes "reachable calls s" "i < length (threads s)" "j < length (threads s)" "i \<noteq> j" "writing (threads s ! i)"
  shows "\<not> writing (threads s ! j) \<and> \<not> reading (threads s ! j)"
proof -
  have "units (threads s ! i) + units (threads s ! j) \<le> MaximumSimultaniousThreads"
    using reachable_inv [OF assms(1)] sum_units_two [OF assms(2-4), of units] by (simp add: lock_inv_def)
  moreover have "0 < MaximumSimultaniousThreads" by (simp add: MaximumSimultaniousThreads_def)
  ultimately show ?thesis
    using assms(5) by (auto simp: units_def split: if_splits)
qed

definition three_calls :: "(nat, nat) call list" where
  "three_calls = [RegisterHandler 7 1, FindHandler 7, RegisterHandler 7 2]"

definition writer_state :: "(nat, nat) registry_state" where
  "writer_state = goto 0 (W_acquired 7 1) ((goto 0 (W_locked 7 1) ((init three_calls)\<lparr>m_writeLock := Some 0\<rparr>))\<lparr>m_readLock := 0\<rparr>)"

lemma writer_reachable: "reachable three_calls writer_state"
proof -
  let ?s1 = "goto 0 (W_locked 7 1) ((init three_calls)\<lparr>m_writeLock := Some 0\<rparr>)"
  have "reachable three_calls ?s1"
    by (rule reachable.step [OF reachable.initial, of 0]) (simp_all add: init_def three_calls_def)
  then show ?thesis
    by (rule reachable.step [of _ _ 0])
      (simp_all add: writer_state_def goto_def init_def three_calls_def MaximumSimultaniousThreads_def)
qed

theorem registry_mutual_exclusion_witness:
  "\<not> writing (threads writer_state ! 1) \<and> \<not> reading (threads writer_state ! 1)"
  by (rule registry_mutual_exclusion [OF writer_reachable, of 0])
    (simp_all add: writer_state_def goto_def init_def three_calls_def)

text \<open>
  C29. The lock has no deadlock: as long as one call is not finished, some thread can take its next step.
\<close>

theorem registry_no_deadlock:
  assumes "reachable calls s" "j < length (threads s)" "\<forall>r. threads s ! j \<noteq> Finished r"
  shows "\<exists>i s'. i < length (threads s) \<and> advance i (threads s ! i) s = Some s'"
proof (cases "m_writeLock s")
  case None
  have "\<not> locking (threads s ! j)"
    using reachable_inv [OF assms(1)] assms(2) None by (auto simp: lock_inv_def)
  then have "\<exists>s'. advance j (threads s ! j) s = Some s'"
    using assms(3) None by (cases "(j, threads s ! j, s)" rule: advance.cases) auto
  with assms(2) show ?thesis by blast
next
  case (Some i)
  have inv: "lock_inv s" by (rule reachable_inv [OF assms(1)])
  with Some have i: "i < length (threads s)" "locking (threads s ! i)" by (auto simp: lock_inv_def)
  show ?thesis
  proof (cases "\<exists>s'. advance i (threads s ! i) s = Some s'")
    case True
    with i(1) show ?thesis by blast
  next
    case False
    then have "units (threads s ! i) = 0 \<and> m_readLock s < MaximumSimultaniousThreads"
      using i(2) by (cases "(i, threads s ! i, s)" rule: advance.cases)
        (auto simp: units_def MaximumSimultaniousThreads_def split: if_splits)
    then show ?thesis by (intro waiter_unblocked [OF inv Some]) auto
  qed
qed

theorem registry_no_deadlock_witness:
  "\<exists>i s'. i < length (threads writer_state) \<and> advance i (threads writer_state ! i) writer_state = Some s'"
  by (rule registry_no_deadlock [OF writer_reachable, of 1])
    (simp_all add: writer_state_def goto_def init_def three_calls_def)

text \<open>Runs from a given state, and what stays true along them.\<close>

inductive runs :: "('k, 'h) registry_state \<Rightarrow> ('k, 'h) registry_state \<Rightarrow> bool" where
  runs_refl: "runs s s"
| runs_step: "runs s s1 \<Longrightarrow> i < length (threads s1) \<Longrightarrow> advance i (threads s1 ! i) s1 = Some s2 \<Longrightarrow> runs s s2"

fun will_find :: "'k \<Rightarrow> ('k, 'h) pc \<Rightarrow> bool" where
  "will_find k (Start c) \<longleftrightarrow> c = FindHandler k"
| "will_find k (F_locked k') \<longleftrightarrow> k' = k"
| "will_find k (F_acquired k') \<longleftrightarrow> k' = k"
| "will_find k (F_unlocked k') \<longleftrightarrow> k' = k"
| "will_find k (F_found r) \<longleftrightarrow> r \<noteq> None"
| "will_find k (Finished r) \<longleftrightarrow> r \<noteq> None"
| "will_find k _ \<longleftrightarrow> False"

lemma advance_keeps:
  assumes "advance i (threads s ! i) s = Some s'" "m_registry s k \<noteq> None" "will_find k (threads s ! j)"
    "i < length (threads s)"
  shows "m_registry s' k \<noteq> None \<and> will_find k (threads s' ! j)"
proof (cases "j = i")
  case True
  with assms show ?thesis
    by (cases "(i, threads s ! i, s)" rule: advance.cases) (auto simp: goto_def split: if_splits)
next
  case False
  with assms show ?thesis
    by (cases "(i, threads s ! i, s)" rule: advance.cases) (auto simp: goto_def split: if_splits)
qed

text \<open>
  A handler once registered is found: a \<open>findHandler\<close> that starts when a handler of the type is in the
  registry does not return the empty handler, whatever the other threads do meanwhile.
\<close>

theorem registered_handler_is_found:
  assumes "runs s s'" "m_registry s k \<noteq> None" "threads s ! j = Start (FindHandler k)" "threads s' ! j = Finished r"
  shows "\<exists>h. threads s' ! j = Finished (Some h)"
proof -
  have "m_registry s' k \<noteq> None \<and> will_find k (threads s' ! j)"
    using assms(1-3)
  proof (induction rule: runs.induct)
    case (runs_refl s)
    then show ?case by simp
  next
    case (runs_step s s1 i s2)
    then have "m_registry s1 k \<noteq> None" "will_find k (threads s1 ! j)" by auto
    from advance_keeps [OF runs_step.hyps(3) this runs_step.hyps(2)] show ?case .
  qed
  with assms(4) show ?thesis by auto
qed

text \<open>The steps of a given schedule, as far as they are enabled.\<close>

fun run_schedule :: "nat list \<Rightarrow> ('k, 'h) registry_state \<Rightarrow> ('k, 'h) registry_state" where
  "run_schedule [] s = s"
| "run_schedule (i # is) s =
     (case advance i (threads s ! i) s of None \<Rightarrow> run_schedule is s | Some s' \<Rightarrow> run_schedule is s')"

lemma advance_length: "advance i pc s = Some s' \<Longrightarrow> length (threads s') = length (threads s)"
  by (cases "(i, pc, s)" rule: advance.cases) (auto simp: goto_def split: if_splits)

lemma runs_schedule:
  "runs s0 s \<Longrightarrow> \<forall>i \<in> set is. i < length (threads s) \<Longrightarrow> runs s0 (run_schedule is s)"
proof (induction "is" arbitrary: s)
  case (Cons i "is")
  show ?case
  proof (cases "advance i (threads s ! i) s")
    case (Some s')
    have "i < length (threads s)" using Cons.prems(2) by simp
    have "runs s0 s'" by (rule runs_step [OF Cons.prems(1) \<open>i < length (threads s)\<close> Some])
    then show ?thesis using Cons.IH Cons.prems(2) advance_length [OF Some] Some by simp
  qed (use Cons in simp)
qed simp

definition registered_state :: "(nat, nat) registry_state" where
  "registered_state = run_schedule [0, 0, 0, 0, 0] (init three_calls)"

lemmas eval_run = registered_state_def init_def three_calls_def goto_def MaximumSimultaniousThreads_def

theorem registered_handler_is_found_witness:
  "\<exists>h. threads (run_schedule [1, 2, 1, 1, 2, 1, 1] registered_state) ! 1 = Finished (Some h)"
proof (rule registered_handler_is_found)
  show "runs registered_state (run_schedule [1, 2, 1, 1, 2, 1, 1] registered_state)"
    by (rule runs_schedule [OF runs_refl]) (simp add: eval_run)
  show "m_registry registered_state 7 \<noteq> None" by (simp add: eval_run)
  show "threads registered_state ! 1 = Start (FindHandler 7)" by (simp add: eval_run)
  show "threads (run_schedule [1, 2, 1, 1, 2, 1, 1] registered_state) ! 1 = Finished (Some 1)"
    by (simp add: eval_run)
qed

end
