(* ===== verification/JsonSerializer.thy ===== *)
theory JsonSerializer
  imports ProtobufSerializer
begin

section \<open>QProtobufJsonSerializer\<close>

text \<open>
  The JSON serializer (\<open>qprotobufjsonserializer.cpp\<close>). It shares the objects, the meta objects and the registry of
  handlers with the binary one. Number formatting, Base64 and the names of enumerators are Qt, the parser is
  the \<open>microjson\<close> submodule, whose sources are not part of the repository: both come in as \<open>json_api\<close>. A conversion
  of Qt that fails gives \<open>None\<close>; the caller then has \<open>ok\<close> false and the value zero. \<open>extractValue\<close> and
  \<open>extractProperty\<close> give how far they read, and where the value is or what it is.
\<close>

datatype JsonType = JsonObjectType | JsonArrayType | JsonStringType | JsonNumberType | JsonBoolType
  | JsonOtherType

text \<open>A value cut out by the parser: strings come without their quotes.\<close>

record json_value =
  jv_value :: bytes
  jv_type :: JsonType

record json_api =
  variant_text :: "basic \<Rightarrow> bytes"
  list_number :: "basic \<Rightarrow> bytes"
  float_text :: "32 word \<Rightarrow> bytes"
  toBase64 :: "bytes \<Rightarrow> bytes"
  fromBase64 :: "bytes \<Rightarrow> bytes"
  enum_key :: "nat \<Rightarrow> int \<Rightarrow> bytes"
  keyToValue :: "nat \<Rightarrow> bytes \<Rightarrow> int"
  toInt :: "bytes \<Rightarrow> 32 word option"
  toUInt :: "bytes \<Rightarrow> 32 word option"
  toLongLong :: "bytes \<Rightarrow> 64 word option"
  toULongLong :: "bytes \<Rightarrow> 64 word option"
  toFloat :: "bytes \<Rightarrow> 32 word option"
  toDouble :: "bytes \<Rightarrow> 64 word option"
  parseJsonObject :: "bytes \<Rightarrow> (bytes \<times> json_value) list"
  parseJsonArray :: "bytes \<Rightarrow> json_value list"
  extractValue :: "bytes \<Rightarrow> (nat \<times> nat \<times> nat) option"
  extractProperty :: "bytes \<Rightarrow> (nat \<times> bytes \<times> json_value) option"

subsection \<open>Serialization\<close>

definition quote :: "bytes \<Rightarrow> bytes" where
  "quote s = ascii [CHR 0x22] @ s @ ascii [CHR 0x22]"

definition json_float :: "json_api \<Rightarrow> 32 word \<Rightarrow> bytes" where
  "json_float J value = float_text J value"

definition json_string :: "qt_api \<Rightarrow> qstring \<Rightarrow> bytes" where
  "json_string Q value = quote (toUtf8 Q value)"

definition json_bytes :: "json_api \<Rightarrow> bytes \<Rightarrow> bytes" where
  "json_bytes J value = quote (toBase64 J value)"

text \<open>The loop of the list serializers: a comma behind every element, the last one cut off again.\<close>

fun comma_items :: "('a \<Rightarrow> bytes) \<Rightarrow> bytes \<Rightarrow> 'a list \<Rightarrow> bytes" where
  "comma_items f result [] = result"
| "comma_items f result (v # vs) = comma_items f (result @ f v @ ascii '','') vs"

definition comma_list :: "('a \<Rightarrow> bytes) \<Rightarrow> 'a list \<Rightarrow> bytes" where
  "comma_list f vs =
     (let result = comma_items f (ascii ''['') vs;
          result = (if length vs > 0 then butlast result else result)
      in result @ ascii '']'')"

definition json_list :: "json_api \<Rightarrow> basic list \<Rightarrow> bytes" where
  "json_list J vs = comma_list (list_number J) vs"

definition json_stringList :: "qt_api \<Rightarrow> qstring list \<Rightarrow> bytes" where
  "json_stringList Q vs = comma_list (\<lambda>v. quote (toUtf8 Q v)) vs"

definition json_bytesList :: "json_api \<Rightarrow> bytes list \<Rightarrow> bytes" where
  "json_bytesList J vs = comma_list (\<lambda>v. quote (toBase64 J v)) vs"

definition json_enum :: "json_api \<Rightarrow> nat \<Rightarrow> int \<Rightarrow> bytes" where
  "json_enum J e v = quote (enum_key J e v)"

definition json_enumList :: "json_api \<Rightarrow> nat \<Rightarrow> int list \<Rightarrow> bytes" where
  "json_enumList J e vs = comma_list (\<lambda>v. quote (enum_key J e v)) vs"

text \<open>The entries of the table that have a serializer, and \<open>toString\<close> for the others.\<close>

fun json_scalar :: "qt_api \<Rightarrow> json_api \<Rightarrow> basic \<Rightarrow> bytes" where
  "json_scalar Q J (BFloat w) = json_float J w"
| "json_scalar Q J (BString s) = json_string Q s"
| "json_scalar Q J (BBytes b) = json_bytes J b"
| "json_scalar Q J v = variant_text J v"

definition json_key :: "qt_api \<Rightarrow> json_api \<Rightarrow> basic \<Rightarrow> bytes" where
  "json_key Q J k = (case k of BString s \<Rightarrow> toUtf8 Q s | _ \<Rightarrow> variant_text J k)"

text \<open>\<open>serializeListEnd\<close> and \<open>serializeMapEnd\<close> look at the last byte of the buffer.\<close>

definition strip_comma :: "bytes \<Rightarrow> bytes" where
  "strip_comma buffer = (if buffer \<noteq> [] \<and> [last buffer] = ascii '','' then butlast buffer else buffer)"

definition json_serializeListEnd :: "bytes \<Rightarrow> bytes" where
  "json_serializeListEnd buffer = strip_comma buffer @ ascii '']''"

definition json_serializeMapEnd :: "bytes \<Rightarrow> bytes" where
  "json_serializeMapEnd buffer = strip_comma buffer @ ascii ''}''"

definition json_serializeListObject :: "(nat \<Rightarrow> message \<Rightarrow> bytes outcome) \<Rightarrow> nat \<Rightarrow> message option \<Rightarrow> bytes outcome" where
  "json_serializeListObject rec c object =
     (case object of
        None \<Rightarrow> undefined_by Null_dereference
      | Some m \<Rightarrow> and_then (rec c m) (\<lambda>text. Ret (text @ ascii '','')))"

definition json_serializeMapPair :: "qt_api \<Rightarrow> json_api \<Rightarrow> (variant \<Rightarrow> bytes outcome) \<Rightarrow> basic \<times> variant \<Rightarrow> bytes outcome" where
  "json_serializeMapPair Q J serialize_value pair =
     and_then (serialize_value (snd pair)) (\<lambda>text.
       Ret (quote (json_key Q J (fst pair)) @ ascii '':'' @ text @ ascii '',''))"

text \<open>
  \<open>serializeValue\<close>: the registry first, then the table, then \<open>QVariant::toString\<close>, which is empty for a type
  without a conversion.
\<close>

fun json_serializeValue :: "serializer_env \<Rightarrow> json_api \<Rightarrow> (nat \<Rightarrow> message \<Rightarrow> bytes outcome) \<Rightarrow> metatype \<Rightarrow> variant \<Rightarrow>
    bytes outcome" where
  "json_serializeValue X J rec (MBasic t) value =
     (case value of VBasic v \<Rightarrow> Ret (json_scalar (qt X) J v) | _ \<Rightarrow> undefined_by Bad_cast)"
| "json_serializeValue X J rec (MList t) value =
     (case value of VList vs \<Rightarrow> Ret (if packable t \<and> t \<noteq> TBool then json_list J vs else []) | _ \<Rightarrow> undefined_by Bad_cast)"
| "json_serializeValue X J rec MStringList value =
     (case value of VStringList vs \<Rightarrow> Ret (json_stringList (qt X) vs) | _ \<Rightarrow> undefined_by Bad_cast)"
| "json_serializeValue X J rec MBytesList value =
     (case value of VBytesList vs \<Rightarrow> Ret (json_bytesList J vs) | _ \<Rightarrow> undefined_by Bad_cast)"
| "json_serializeValue X J rec (MEnum e) value =
     (if registry X (MEnum e) = None then Ret []
      else case value of VEnum v \<Rightarrow> Ret (json_enum J e v) | _ \<Rightarrow> undefined_by Bad_cast)"
| "json_serializeValue X J rec (MEnumList e) value =
     (if registry X (MEnumList e) = None then Ret []
      else case value of VEnumList vs \<Rightarrow> Ret (json_enumList J e vs) | _ \<Rightarrow> undefined_by Bad_cast)"
| "json_serializeValue X J rec (MMessage c) value =
     (if registry X (MMessage c) = None then Ret []
      else case value of
          VMessage (Some m) \<Rightarrow> rec c m
        | VMessage None \<Rightarrow> undefined_by Null_dereference
        | _ \<Rightarrow> undefined_by Bad_cast)"
| "json_serializeValue X J rec (MMessageList c) value =
     (if registry X (MMessageList c) = None then Ret []
      else case value of
          VMessageList ms \<Rightarrow>
            and_then (collect (\<lambda>m. if m = None then Ret [] else json_serializeListObject rec c m) ms) (\<lambda>items.
              Ret (json_serializeListEnd (ascii ''['' @ items)))
        | _ \<Rightarrow> undefined_by Bad_cast)"
| "json_serializeValue X J rec (MMap k v) value =
     (if registry X (MMap k v) = None then Ret []
      else case value of
          VMap ps \<Rightarrow>
            and_then (collect (\<lambda>p. if snd p = VMessage None then Ret []
                else json_serializeMapPair (qt X) J (json_serializeValue X J rec v) p) ps) (\<lambda>items.
              Ret (json_serializeMapEnd (ascii ''{'' @ items)))
        | _ \<Rightarrow> undefined_by Bad_cast)"

definition json_serializeProperty :: "serializer_env \<Rightarrow> json_api \<Rightarrow> (nat \<Rightarrow> message \<Rightarrow> bytes outcome) \<Rightarrow> qstring \<Rightarrow>
    metatype \<Rightarrow> variant \<Rightarrow> bytes outcome" where
  "json_serializeProperty X J rec jsonName t value =
     and_then (json_serializeValue X J rec t value) (\<lambda>text.
       Ret (quote (toUtf8 (qt X) jsonName) @ ascii '':'' @ text))"

text \<open>
  \<open>serializeObject\<close>: the comma behind the last property is cut off; without properties that is the brace. The
  fuel bounds the depth of nested messages.
\<close>

fun json_serializeObject :: "serializer_env \<Rightarrow> json_api \<Rightarrow> nat \<Rightarrow> nat \<Rightarrow> message \<Rightarrow> bytes outcome" where
  "json_serializeObject X J 0 c object = No_fuel"
| "json_serializeObject X J (Suc fuel) c object =
     and_then (collect (\<lambda>(fieldIndex, propertyIndex, jsonName).
         let t = staticMetaObject (protobufMetaObject X c) ! propertyIndex
         in and_then (json_serializeProperty X J (json_serializeObject X J fuel) jsonName t
                (read_property X t (properties object ! propertyIndex)))
              (\<lambda>text. Ret (text @ ascii '','')))
       (propertyOrdering (protobufMetaObject X c)))
     (\<lambda>items. Ret (butlast (ascii ''{'' @ items) @ ascii ''}''))"

subsection \<open>Deserialization\<close>

text \<open>
  A deserializer of the table gives a \<open>QVariant\<close> (\<open>None\<close> when it is invalid) and sets \<open>ok\<close>. For numbers \<open>ok\<close> is
  also set when the parser found a number.
\<close>

definition json_integer :: "('v::zero \<Rightarrow> basic) \<Rightarrow> 'v option \<Rightarrow> JsonType \<Rightarrow> basic option \<times> bool" where
  "json_integer mk parsed type =
     (Some (mk (case parsed of Some v \<Rightarrow> v | None \<Rightarrow> 0)), parsed \<noteq> None \<or> type = JsonNumberType)"

definition json_floating :: "('v::zero \<Rightarrow> basic) \<Rightarrow> (bytes \<Rightarrow> 'v option) \<Rightarrow> bytes \<Rightarrow> JsonType \<Rightarrow> basic option \<times> bool" where
  "json_floating mk parse data type =
     (if data \<in> {ascii ''NaN'', ascii ''Infinity'', ascii ''-Infinity''} then (None, True)
      else json_integer mk (parse data) type)"

text \<open>\<open>QString::replace\<close> of an escaped quote by the quote.\<close>

fun unescape_quotes :: "qstring \<Rightarrow> qstring" where
  "unescape_quotes [] = []"
| "unescape_quotes [a] = [a]"
| "unescape_quotes (a # b # s) =
     (if a = 92 \<and> b = 34 then 34 # unescape_quotes s else a # unescape_quotes (b # s))"

definition json_deserializeString :: "qt_api \<Rightarrow> bytes \<Rightarrow> JsonType \<Rightarrow> basic option \<times> bool" where
  "json_deserializeString Q data type =
     (if type = JsonStringType then (Some (BString (unescape_quotes (fromUtf8 Q data))), True) else (None, False))"

fun json_deserializer :: "qt_api \<Rightarrow> json_api \<Rightarrow> btype \<Rightarrow> bytes \<Rightarrow> JsonType \<Rightarrow> basic option \<times> bool" where
  "json_deserializer Q J TInt32 data type = json_integer BInt32 (toInt J data) type"
| "json_deserializer Q J TSFixed32 data type = json_integer BSFixed32 (toInt J data) type"
| "json_deserializer Q J TSInt32 data type = json_integer BSInt32 (toInt J data) type"
| "json_deserializer Q J TSInt64 data type = json_integer BSInt64 (toLongLong J data) type"
| "json_deserializer Q J TInt64 data type = json_integer BInt64 (toLongLong J data) type"
| "json_deserializer Q J TSFixed64 data type = json_integer BSFixed64 (toLongLong J data) type"
| "json_deserializer Q J TUInt32 data type = json_integer BUInt32 (toUInt J data) type"
| "json_deserializer Q J TFixed32 data type = json_integer BFixed32 (toUInt J data) type"
| "json_deserializer Q J TUInt64 data type = json_integer BUInt64 (toULongLong J data) type"
| "json_deserializer Q J TFixed64 data type = json_integer BFixed64 (toULongLong J data) type"
| "json_deserializer Q J TFloat data type = json_floating BFloat (toFloat J) data type"
| "json_deserializer Q J TDouble data type = json_floating BDouble (toDouble J) data type"
| "json_deserializer Q J TBool data type =
     (if type = JsonBoolType then (Some (BBool (data = ascii ''true'')), True) else (None, False))"
| "json_deserializer Q J TString data type = json_deserializeString Q data type"
| "json_deserializer Q J TBytes data type =
     (if type = JsonStringType then (Some (BBytes (fromBase64 J data)), True) else (None, False))"

text \<open>\<open>QVariant::value<T>\<close> of an invalid variant is a default constructed value.\<close>

definition json_element :: "qt_api \<Rightarrow> json_api \<Rightarrow> btype \<Rightarrow> json_value \<Rightarrow> basic" where
  "json_element Q J t v = (case fst (json_deserializer Q J t (jv_value v) (jv_type v)) of Some x \<Rightarrow> x | None \<Rightarrow> bdefault t)"

fun string_of :: "basic \<Rightarrow> qstring" where
  "string_of (BString s) = s"
| "string_of _ = []"

fun bytes_of :: "basic \<Rightarrow> bytes" where
  "bytes_of (BBytes b) = b"
| "bytes_of _ = []"

definition json_deserializeList :: "qt_api \<Rightarrow> json_api \<Rightarrow> btype \<Rightarrow> bytes \<Rightarrow> JsonType \<Rightarrow> basic list option" where
  "json_deserializeList Q J t data type =
     (if type \<noteq> JsonArrayType then None else Some (map (json_element Q J t) (parseJsonArray J data)))"

text \<open>
  The loops over the elements of a list of messages and of a map; \<open>rest\<close> is what is left of the iterator, which
  checks how far it is moved. The fuel bounds the turns.
\<close>

definition json_move :: "nat \<Rightarrow> bytes \<Rightarrow> bytes outcome" where
  "json_move i rest = (if i > length rest then throw Out_of_range else Ret (drop i rest))"

definition json_deserializeListObject :: "json_api \<Rightarrow> (bytes \<Rightarrow> message outcome) \<Rightarrow> bytes \<Rightarrow>
    (message option \<times> bytes) outcome" where
  "json_deserializeListObject J rec rest =
     (let rest = (if take 1 rest = ascii ''['' then drop 1 rest else rest)
      in case extractValue J rest of
           None \<Rightarrow> Ret (None, [])
         | Some (i, begin_at, size_of) \<Rightarrow>
             and_then (rec (take size_of (drop begin_at rest))) (\<lambda>m.
               and_then (json_move i rest) (\<lambda>rest. Ret (Some m, rest))))"

fun json_list_loop :: "nat \<Rightarrow> json_api \<Rightarrow> (bytes \<Rightarrow> message outcome) \<Rightarrow> bytes \<Rightarrow> message option list \<Rightarrow>
    message option list outcome" where
  "json_list_loop 0 J rec rest list = No_fuel"
| "json_list_loop (Suc fuel) J rec rest list =
     (if rest = [] then Ret list
      else and_then (json_deserializeListObject J rec rest) (\<lambda>(m, rest).
             json_list_loop fuel J rec rest (case m of None \<Rightarrow> list | Some x \<Rightarrow> list @ [Some x])))"

definition json_deserializeMapPair :: "qt_api \<Rightarrow> json_api \<Rightarrow>
    (bytes \<Rightarrow> JsonType \<Rightarrow> bool \<Rightarrow> (variant option \<times> bool) outcome) \<Rightarrow> btype \<Rightarrow> metatype \<Rightarrow> bytes \<Rightarrow>
    ((basic \<times> variant) option \<times> bytes) outcome" where
  "json_deserializeMapPair Q J dec k v rest =
     (let rest = (if take 1 rest = ascii ''{'' then drop 1 rest else rest)
      in case extractProperty J rest of
           None \<Rightarrow> Ret (None, [])
         | Some (i, name, value) \<Rightarrow>
             let (key, ok) = json_deserializer Q J k name JsonStringType;
                 key = (if ok then key else None)
             in and_then (dec (jv_value value) (jv_type value) ok) (\<lambda>(x, ok).
                  let x = (if ok then x else None)
                  in and_then (json_move i rest) (\<lambda>rest.
                       Ret (Some (case key of Some y \<Rightarrow> y | None \<Rightarrow> bdefault k,
                                  case x of Some y \<Rightarrow> y | None \<Rightarrow> default_value v), rest))))"

fun json_map_loop :: "nat \<Rightarrow> qt_api \<Rightarrow> json_api \<Rightarrow> (bytes \<Rightarrow> JsonType \<Rightarrow> bool \<Rightarrow> (variant option \<times> bool) outcome) \<Rightarrow>
    btype \<Rightarrow> metatype \<Rightarrow> bytes \<Rightarrow> (basic \<times> variant) list \<Rightarrow> (basic \<times> variant) list outcome" where
  "json_map_loop 0 Q J dec k v rest pairs = No_fuel"
| "json_map_loop (Suc fuel) Q J dec k v rest pairs =
     (if rest = [] then Ret pairs
      else and_then (json_deserializeMapPair Q J dec k v rest) (\<lambda>(p, rest).
             json_map_loop fuel Q J dec k v rest (case p of None \<Rightarrow> pairs | Some (a, b) \<Rightarrow> qmap_insert a b pairs)))"

definition json_deserializeEnumList :: "json_api \<Rightarrow> nat \<Rightarrow> int \<Rightarrow> bytes \<Rightarrow> int list" where
  "json_deserializeEnumList J e first data =
     map (\<lambda>v. if jv_value v = ascii ''null'' then first else keyToValue J e (jv_value v)) (parseJsonArray J data)"

text \<open>
  \<open>deserializeValue\<close>: \<open>rec\<close> reads an object of a class, \<open>ok\<close> is the flag as the caller left it. A registered type
  is read by its handler until the data is used up; with no data \<open>ok\<close> stays as it is. \<open>metaEnum.value(0)\<close>, the
  first enumerator, is zero in proto3.
\<close>

fun json_deserializeValue :: "serializer_env \<Rightarrow> json_api \<Rightarrow> nat \<Rightarrow> (nat \<Rightarrow> bytes \<Rightarrow> message outcome) \<Rightarrow> metatype \<Rightarrow>
    bytes \<Rightarrow> JsonType \<Rightarrow> bool \<Rightarrow> (variant option \<times> bool) outcome" where
  "json_deserializeValue X J fuel rec (MBasic t) data type ok =
     (let (v, ok) = json_deserializer (qt X) J t data type in Ret (map_option VBasic v, ok))"
| "json_deserializeValue X J fuel rec (MList t) data type ok =
     (if packable t \<and> t \<noteq> TBool
      then let l = json_deserializeList (qt X) J t data type in Ret (map_option VList l, l \<noteq> None)
      else Ret (None, ok))"
| "json_deserializeValue X J fuel rec MStringList data type ok =
     (let l = json_deserializeList (qt X) J TString data type
      in Ret (map_option (\<lambda>l. VStringList (map string_of l)) l, l \<noteq> None))"
| "json_deserializeValue X J fuel rec MBytesList data type ok =
     (let l = json_deserializeList (qt X) J TBytes data type
      in Ret (map_option (\<lambda>l. VBytesList (map bytes_of l)) l, l \<noteq> None))"
| "json_deserializeValue X J fuel rec (MEnum e) data type ok =
     Ret (if registry X (MEnum e) = None \<or> data = [] then (None, ok) else (Some (VEnum (keyToValue J e data)), True))"
| "json_deserializeValue X J fuel rec (MEnumList e) data type ok =
     Ret (if registry X (MEnumList e) = None \<or> data = [] then (None, ok)
          else (Some (VEnumList (json_deserializeEnumList J e 0 data)), True))"
| "json_deserializeValue X J fuel rec (MMessage c) data type ok =
     (if registry X (MMessage c) = None \<or> data = [] then Ret (None, ok)
      else and_then (rec c data) (\<lambda>m. Ret (Some (VMessage (Some m)), True)))"
| "json_deserializeValue X J fuel rec (MMessageList c) data type ok =
     (if registry X (MMessageList c) = None \<or> data = [] then Ret (None, ok)
      else and_then (json_list_loop fuel J (rec c) data []) (\<lambda>l.
             Ret (if l = [] then None else Some (VMessageList l), True)))"
| "json_deserializeValue X J fuel rec (MMap k v) data type ok =
     (if registry X (MMap k v) = None \<or> data = [] then Ret (None, ok)
      else and_then (json_map_loop fuel (qt X) J (json_deserializeValue X J fuel rec v) k v data []) (\<lambda>ps.
             Ret (if ps = [] then None else Some (VMap ps), True)))"

text \<open>Writing an invalid \<open>QVariant\<close> to a property gives it its default value.\<close>

definition write_variant :: "metatype list \<Rightarrow> nat \<Rightarrow> variant option \<Rightarrow> message \<Rightarrow> message" where
  "write_variant types p v object =
     Message ((properties object)[p := (case v of Some x \<Rightarrow> x | None \<Rightarrow> default_value (types ! p))])"

fun json_fields :: "serializer_env \<Rightarrow> json_api \<Rightarrow> nat \<Rightarrow> (nat \<Rightarrow> bytes \<Rightarrow> message outcome) \<Rightarrow> nat \<Rightarrow>
    (bytes \<times> json_value) list \<Rightarrow> message \<Rightarrow> message outcome" where
  "json_fields X J fuel rec c [] object = Ret object"
| "json_fields X J fuel rec c ((name, v) # fs) object =
     (let M = protobufMetaObject X c
      in case find (\<lambda>(i, p, jsonName). jsonName = fromUtf8 (qt X) name) (propertyOrdering M) of
           None \<Rightarrow> json_fields X J fuel rec c fs object
         | Some (i, p, jsonName) \<Rightarrow>
             if jv_value v = ascii ''null'' \<and> jv_type v = JsonObjectType
             then json_fields X J fuel rec c fs (write_variant (staticMetaObject M) p None object)
             else and_then (json_deserializeValue X J fuel rec (staticMetaObject M ! p) (jv_value v) (jv_type v) False)
               (\<lambda>(value, ok). json_fields X J fuel rec c fs
                  (if ok then write_variant (staticMetaObject M) p value object else object)))"

fun json_deserializeObject :: "serializer_env \<Rightarrow> json_api \<Rightarrow> nat \<Rightarrow> nat \<Rightarrow> message \<Rightarrow> bytes \<Rightarrow> message outcome" where
  "json_deserializeObject X J 0 c object data = No_fuel"
| "json_deserializeObject X J (Suc fuel) c object data =
     json_fields X J fuel (\<lambda>c' data. json_deserializeObject X J fuel c' (new_message X c') data) c
       (parseJsonObject J data) object"

subsection \<open>The grammar of JSON\<close>

text \<open>JSON texts without white space (RFC 8259).\<close>

definition is_digit :: "byte \<Rightarrow> bool" where
  "is_digit b \<longleftrightarrow> 48 \<le> b \<and> b \<le> 57"

definition digits :: "bytes \<Rightarrow> bool" where
  "digits bs \<longleftrightarrow> bs \<noteq> [] \<and> list_all is_digit bs"

definition json_number :: "bytes \<Rightarrow> bool" where
  "json_number bs \<longleftrightarrow>
     (\<exists>sign whole fraction expo. bs = sign @ whole @ fraction @ expo
        \<and> (sign = [] \<or> sign = [45])
        \<and> digits whole \<and> (hd whole = 48 \<longrightarrow> length whole = 1)
        \<and> (fraction = [] \<or> (\<exists>ds. fraction = 46 # ds \<and> digits ds))
        \<and> (expo = [] \<or> (\<exists>e es ds. expo = e # es @ ds \<and> e \<in> {69, 101} \<and> es \<in> {[], [43], [45]} \<and> digits ds)))"

text \<open>The inside of a string: bytes that need no escape, or an escape of one character.\<close>

fun json_chars :: "bytes \<Rightarrow> bool" where
  "json_chars [] \<longleftrightarrow> True"
| "json_chars (b # bs) \<longleftrightarrow>
     (if b = 92 then (case bs of [] \<Rightarrow> False
        | e # rest \<Rightarrow> e \<in> {34, 92, 47, 98, 102, 110, 114, 116} \<and> json_chars rest)
      else b \<noteq> 34 \<and> 32 \<le> b \<and> json_chars bs)"

fun join :: "bytes \<Rightarrow> bytes list \<Rightarrow> bytes" where
  "join sep [] = []"
| "join sep [x] = x"
| "join sep (x # y # xs) = x @ sep @ join sep (y # xs)"

inductive json :: "bytes \<Rightarrow> bool" where
  number: "json_number bs \<Longrightarrow> json bs"
| literal: "bs \<in> {ascii ''true'', ascii ''false'', ascii ''null''} \<Longrightarrow> json bs"
| str: "json_chars s \<Longrightarrow> json (quote s)"
| arr: "\<forall>v \<in> set vs. json v \<Longrightarrow> json (ascii ''['' @ join (ascii '','') vs @ ascii '']'')"
| obj: "\<forall>(k, v) \<in> set kvs. json_chars k \<and> json v \<Longrightarrow>
    json (ascii ''{'' @ join (ascii '','') (map (\<lambda>(k, v). quote k @ ascii '':'' @ v) kvs) @ ascii ''}'')"

lemma ascii_Cons: "ascii (c # s) = of_char c # ascii s"
  by (simp add: ascii_def)

lemma ascii_Nil [simp]: "ascii [] = []"
  by (simp add: ascii_def)

lemma comma: "ascii '','' = [44]" "ascii ''['' = [91]" "ascii '']'' = [93]" "ascii ''{'' = [123]" "ascii ''}'' = [125]"
  "ascii '':'' = [58]"
  by (simp_all add: ascii_def)

subsection \<open>Printing loops\<close>

text \<open>A comma behind every element, the last one cut off: the elements joined by commas.\<close>

lemma concat_comma: "vs \<noteq> [] \<Longrightarrow> concat (map (\<lambda>v. v @ [44]) vs) = join [44] vs @ [44]"
  by (induction vs rule: join.induct [of _ "[44]"]) auto

lemma comma_items_concat: "comma_items f result vs = result @ concat (map (\<lambda>v. v @ [44]) (map f vs))"
  by (induction vs arbitrary: result) (auto simp: comma)

lemma comma_list_join: "comma_list f vs = ascii ''['' @ join (ascii '','') (map f vs) @ ascii '']''"
  using concat_comma [of "map f vs"]
  by (cases vs) (simp_all add: comma_list_def comma_items_concat comma butlast_append)

lemma strip_join:
  "pre \<noteq> [] \<Longrightarrow> last pre \<noteq> 44 \<Longrightarrow> strip_comma (pre @ concat (map (\<lambda>v. v @ [44]) vs)) = pre @ join [44] vs"
  using concat_comma [of vs] by (cases "vs = []") (simp_all add: strip_comma_def comma butlast_append)

lemma collect_comma:
  assumes "\<And>x. x \<in> set xs \<Longrightarrow> \<exists>t. f x = Ret t \<and> P x t"
  shows "\<exists>ts. collect (\<lambda>x. and_then (f x) (\<lambda>t. Ret (g x t @ [44]))) xs = Ret (concat (map (\<lambda>v. v @ [44]) (map2 g xs ts)))
    \<and> list_all2 P xs ts"
  using assms
proof (induction xs)
  case (Cons x xs)
  then obtain t ts where "f x = Ret t" "P x t" "list_all2 P xs ts"
    "collect (\<lambda>x. and_then (f x) (\<lambda>t. Ret (g x t @ [44]))) xs = Ret (concat (map (\<lambda>v. v @ [44]) (map2 g xs ts)))"
    by fastforce
  then show ?case by (intro exI [of _ "t # ts"]) simp
qed simp

text \<open>Elements a loop leaves out.\<close>

lemma collect_skip:
  "collect (\<lambda>x. if p x then Ret [] else f x) xs = collect f (filter (\<lambda>x. \<not> p x) xs)"
proof (induction xs)
  case (Cons x xs)
  then show ?case by (cases "collect f (filter (\<lambda>x. \<not> p x) xs)") auto
qed simp

subsection \<open>Messages that print as JSON\<close>

text \<open>
  What the serializer asks of a message to give valid JSON: numbers are formatted as JSON numbers (infinities and
  NaN are not), strings, keys and names have no characters that need an escape, the types are registered, and no
  class is without properties.
\<close>

fun scalar_ok :: "qt_api \<Rightarrow> json_api \<Rightarrow> basic \<Rightarrow> bool" where
  "scalar_ok Q J (BString s) \<longleftrightarrow> json_chars (toUtf8 Q s)"
| "scalar_ok Q J (BBytes b) \<longleftrightarrow> json_chars (toBase64 J b)"
| "scalar_ok Q J (BFloat w) \<longleftrightarrow> json_number (float_text J w)"
| "scalar_ok Q J (BBool b) \<longleftrightarrow> variant_text J (BBool b) = (if b then ascii ''true'' else ascii ''false'')"
| "scalar_ok Q J v \<longleftrightarrow> json_number (variant_text J v)"

fun printable_value :: "serializer_env \<Rightarrow> json_api \<Rightarrow> (nat \<Rightarrow> message \<Rightarrow> bool) \<Rightarrow> metatype \<Rightarrow> variant \<Rightarrow> bool" where
  "printable_value X J ok (MBasic t) value \<longleftrightarrow> (case value of VBasic v \<Rightarrow> scalar_ok (qt X) J v | _ \<Rightarrow> False)"
| "printable_value X J ok (MList t) value \<longleftrightarrow> packable t \<and> t \<noteq> TBool \<and>
     (case value of VList vs \<Rightarrow> \<forall>v \<in> set vs. json_number (list_number J v) | _ \<Rightarrow> False)"
| "printable_value X J ok MStringList value \<longleftrightarrow>
     (case value of VStringList vs \<Rightarrow> \<forall>v \<in> set vs. json_chars (toUtf8 (qt X) v) | _ \<Rightarrow> False)"
| "printable_value X J ok MBytesList value \<longleftrightarrow>
     (case value of VBytesList vs \<Rightarrow> \<forall>v \<in> set vs. json_chars (toBase64 J v) | _ \<Rightarrow> False)"
| "printable_value X J ok (MEnum e) value \<longleftrightarrow> registry X (MEnum e) \<noteq> None \<and>
     (case value of VEnum v \<Rightarrow> json_chars (enum_key J e v) | _ \<Rightarrow> False)"
| "printable_value X J ok (MEnumList e) value \<longleftrightarrow> registry X (MEnumList e) \<noteq> None \<and>
     (case value of VEnumList vs \<Rightarrow> \<forall>v \<in> set vs. json_chars (enum_key J e v) | _ \<Rightarrow> False)"
| "printable_value X J ok (MMessage c) value \<longleftrightarrow> registry X (MMessage c) \<noteq> None \<and>
     (case value of VMessage (Some m) \<Rightarrow> ok c m | _ \<Rightarrow> False)"
| "printable_value X J ok (MMessageList c) value \<longleftrightarrow> registry X (MMessageList c) \<noteq> None \<and>
     (case value of VMessageList ms \<Rightarrow> \<forall>m \<in> set ms. (case m of None \<Rightarrow> True | Some x \<Rightarrow> ok c x) | _ \<Rightarrow> False)"
| "printable_value X J ok (MMap k v) value \<longleftrightarrow> registry X (MMap k v) \<noteq> None \<and>
     (case value of VMap ps \<Rightarrow> \<forall>p \<in> set ps. json_chars (json_key (qt X) J (fst p))
          \<and> (snd p = VMessage None \<or> printable_value X J ok v (snd p)) | _ \<Rightarrow> False)"

fun printable_message :: "serializer_env \<Rightarrow> json_api \<Rightarrow> nat \<Rightarrow> nat \<Rightarrow> message \<Rightarrow> bool" where
  "printable_message X J 0 c object \<longleftrightarrow> False"
| "printable_message X J (Suc n) c object \<longleftrightarrow>
     propertyOrdering (protobufMetaObject X c) \<noteq> []
     \<and> (\<forall>(i, p, name) \<in> set (propertyOrdering (protobufMetaObject X c)).
          json_chars (toUtf8 (qt X) name)
          \<and> (let t = staticMetaObject (protobufMetaObject X c) ! p
             in printable_value X J (printable_message X J n) t (read_property X t (properties object ! p))))"

lemma json_scalar_json: "scalar_ok Q J v \<Longrightarrow> json (json_scalar Q J v)"
  by (cases v) (auto simp: json_float_def json_string_def json_bytes_def intro: json.intros split: if_splits)

lemma json_comma_list: "(\<And>v. v \<in> set vs \<Longrightarrow> json (f v)) \<Longrightarrow> json (comma_list f vs)"
  unfolding comma_list_join by (rule json.arr) auto

lemma map2_second: "length xs = length ys \<Longrightarrow> map2 (\<lambda>x y. y) xs ys = ys"
  by (induction xs ys rule: list_induct2) auto

lemma map2_keys: "map2 (\<lambda>p t. quote (key p) @ [58] @ t) ps ts = map (\<lambda>(k, v). quote k @ [58] @ v) (zip (map key ps) ts)"
  by (induction ps ts rule: list_induct2') auto

lemma json_object_of:
  assumes "\<And>p. p \<in> set ps \<Longrightarrow> json_chars (key p)" "list_all2 (\<lambda>p t. json t) ps ts"
  shows "json ([123] @ join [44] (map2 (\<lambda>p t. quote (key p) @ [58] @ t) ps ts) @ [125])"
proof -
  have "\<forall>(k, v) \<in> set (zip (map key ps) ts). json_chars k \<and> json v"
    using assms(2,1) by (induction rule: list_all2_induct) auto
  from json.obj [OF this, unfolded comma] show ?thesis by (subst map2_keys)
qed

lemma json_message_list:
  assumes "\<And>m. Some m \<in> set ms \<Longrightarrow> \<exists>b. rec c m = Ret b \<and> json b"
  shows "\<exists>b. and_then (collect (\<lambda>m. if m = None then Ret [] else json_serializeListObject rec c m) ms) (\<lambda>items.
      Ret (json_serializeListEnd (ascii ''['' @ items))) = Ret b \<and> json b"
proof -
  let ?ms = "filter (\<lambda>m. m \<noteq> None) ms"
  have body: "json_serializeListObject rec c m
      = and_then (case m of None \<Rightarrow> undefined_by Null_dereference | Some x \<Rightarrow> rec c x) (\<lambda>t. Ret (t @ [44]))" for m
    by (cases m) (simp_all add: json_serializeListObject_def comma)
  obtain ts where ts: "collect (json_serializeListObject rec c) ?ms = Ret (concat (map (\<lambda>v. v @ [44]) (map2 (\<lambda>m t. t) ?ms ts)))"
    "list_all2 (\<lambda>m t. json t) ?ms ts"
    using collect_comma [of ?ms "\<lambda>m. case m of None \<Rightarrow> undefined_by Null_dereference | Some x \<Rightarrow> rec c x"
        "\<lambda>m t. json t" "\<lambda>m t. t"] assms unfolding body by fastforce
  have "map2 (\<lambda>m t. t) ?ms ts = ts" using list_all2_lengthD [OF ts(2)] by (rule map2_second)
  moreover have "\<forall>t \<in> set ts. json t" using ts(2) by (auto simp: list_all2_conv_all_nth in_set_conv_nth)
  ultimately show ?thesis
    using ts(1) json.arr [of ts]
    by (simp add: collect_skip json_serializeListEnd_def comma strip_join [of "[91]", simplified])
qed

lemma json_map:
  assumes "\<And>p. p \<in> set ps \<Longrightarrow> json_chars (json_key Q J (fst p))"
    and "\<And>p. p \<in> set ps \<Longrightarrow> snd p \<noteq> VMessage None \<Longrightarrow> \<exists>b. ser (snd p) = Ret b \<and> json b"
  shows "\<exists>b. and_then (collect (\<lambda>p. if snd p = VMessage None then Ret [] else json_serializeMapPair Q J ser p) ps)
      (\<lambda>items. Ret (json_serializeMapEnd (ascii ''{'' @ items))) = Ret b \<and> json b"
proof -
  let ?ps = "filter (\<lambda>p. snd p \<noteq> VMessage None) ps" and ?g = "\<lambda>p t. quote (json_key Q J (fst p)) @ [58] @ t"
  have body: "json_serializeMapPair Q J ser p = and_then (ser (snd p)) (\<lambda>t. Ret (?g p t @ [44]))" for p
    by (simp add: json_serializeMapPair_def comma)
  obtain ts where ts: "collect (json_serializeMapPair Q J ser) ?ps = Ret (concat (map (\<lambda>v. v @ [44]) (map2 ?g ?ps ts)))"
    "list_all2 (\<lambda>p t. json t) ?ps ts"
    using collect_comma [of ?ps "\<lambda>p. ser (snd p)" "\<lambda>p t. json t" ?g] assms(2) unfolding body by auto
  have "json ([123] @ join [44] (map2 ?g ?ps ts) @ [125])"
    by (rule json_object_of [OF _ ts(2)]) (use assms(1) in auto)
  then show ?thesis
    using ts(1) strip_join [of "[123]" "map2 ?g ?ps ts"]
    by (simp add: collect_skip json_serializeMapEnd_def comma)
qed

lemma json_value_json:
  assumes "\<And>c m. ok c m \<Longrightarrow> \<exists>b. rec c m = Ret b \<and> json b"
  shows "printable_value X J ok t v \<Longrightarrow> \<exists>b. json_serializeValue X J rec t v = Ret b \<and> json b"
proof (induction t arbitrary: v)
  case (MMessageList c)
  then show ?case using assms json_message_list [of _ rec c]
    by (fastforce split: variant.splits option.splits)
next
  case (MMap k t)
  then obtain ps where v: "v = VMap ps" "registry X (MMap k t) \<noteq> None"
    and keys: "\<And>p. p \<in> set ps \<Longrightarrow> json_chars (json_key (qt X) J (fst p))"
    and vals: "\<And>p. p \<in> set ps \<Longrightarrow> snd p \<noteq> VMessage None \<Longrightarrow> printable_value X J ok t (snd p)"
    by (auto split: variant.splits)
  have "\<exists>b. json_serializeValue X J rec t (snd p) = Ret b \<and> json b" if "p \<in> set ps" "snd p \<noteq> VMessage None" for p
    by (rule MMap.IH [OF vals [OF that]])
  with json_map [of ps "qt X" J "json_serializeValue X J rec t"] keys v show ?case by auto
qed (auto split: variant.splits option.splits simp: json_list_def json_stringList_def json_bytesList_def
    json_enum_def json_enumList_def intro: json_scalar_json json_comma_list json.intros assms)

lemma json_chars_no_quote: "json_chars s \<Longrightarrow> 92 \<notin> set s \<Longrightarrow> 34 \<notin> set s"
  by (induction s rule: json_chars.induct) auto

lemma json_number_first: "json_number bs \<Longrightarrow> bs \<noteq> [] \<and> (hd bs = 45 \<or> is_digit (hd bs))"
  by (auto simp: json_number_def digits_def hd_append list_all_iff split: if_splits)

lemma json_first: "json bs \<Longrightarrow> bs \<noteq> [] \<and> hd bs \<noteq> 125 \<and> (hd bs = 34 \<longrightarrow> (\<exists>s. bs = quote s \<and> json_chars s))"
proof (induction rule: json.cases)
  case (number bs)
  then show ?case using json_number_first [of bs] by (auto simp: is_digit_def)
qed (auto simp: ascii_def quote_def)

end
