(* ===== verification/JsonTexts.thy ===== *)
theory JsonTexts
  imports JsonSerializer
begin

section \<open>Decimal numbers and Base64\<close>

text \<open>
  The texts Qt makes of integers and of bytes, with functions that read them: decimal numbers with a sign, and
  Base64. The JSON round trip asks of Qt what is proved of these functions here.
\<close>

subsection \<open>Decimal numbers\<close>

text \<open>What \<open>QString::number\<close> makes of an integer.\<close>

function decimal :: "nat \<Rightarrow> bytes" where
  "decimal n = (if n < 10 then [48 + word_of_nat n] else decimal (n div 10) @ [48 + word_of_nat (n mod 10)])"
  by pat_completeness auto
termination by (relation "measure id") auto

declare decimal.simps [simp del]

definition decimal_int :: "int \<Rightarrow> bytes" where
  "decimal_int i = (if i < 0 then 45 # decimal (nat (- i)) else decimal (nat i))"

lemma json_number_bytes: "json_number bs \<Longrightarrow> b \<in> set bs \<Longrightarrow> is_digit b \<or> b \<in> {43, 45, 46, 69, 101}"
  by (auto simp: json_number_def digits_def list_all_iff)

lemma all_digits: "list_all (\<lambda>n. is_digit (48 + word_of_nat n) \<and> unat (word_of_nat n :: byte) = n
    \<and> (word_of_nat n = (0 :: byte) \<longleftrightarrow> n = 0)) [0..<10]"
  by code_simp

lemma decimal_digit:
  assumes "n < 10"
  shows "is_digit (48 + word_of_nat n)" "unat (word_of_nat n :: byte) = n" "word_of_nat n = (0 :: byte) \<longleftrightarrow> n = 0"
  using all_digits assms by (simp_all only: list_all_iff set_upt atLeastLessThan_iff le0 simp_thms Ball_def)

lemma decimal_digits: "digits (decimal n)"
proof (induction n rule: decimal.induct)
  case (1 n)
  then show ?case using decimal_digit [of n] decimal_digit [of "n mod 10"]
    by (subst decimal.simps) (auto simp: digits_def)
qed

lemma decimal_leading_zero: "0 < n \<Longrightarrow> hd (decimal n) \<noteq> 48"
proof (induction n rule: decimal.induct)
  case (1 n)
  then show ?case using decimal_digit [of n] decimal_digits [of "n div 10"]
    by (subst decimal.simps) (auto simp: digits_def)
qed

lemma decimal_0: "decimal 0 = [48]"
  by (simp add: decimal.simps)

lemma json_number_decimal: "json_number (decimal_int i)"
proof -
  have whole: "hd (decimal n) = 48 \<longrightarrow> length (decimal n) = 1" for n
    using decimal_leading_zero [of n] by (cases "n = 0") (auto simp: decimal_0)
  then show ?thesis
    unfolding json_number_def decimal_int_def
    by (intro exI [of _ "if i < 0 then [45] else []"] exI [of _ "decimal (nat \<bar>i\<bar>)"] exI [of _ "[]"]) (auto simp: decimal_digits)
qed

definition undecimal :: "bytes \<Rightarrow> nat option" where
  "undecimal bs = (if digits bs then Some (foldl (\<lambda>n b. n * 10 + unat (b - 48)) 0 bs) else None)"

definition undecimal_int :: "bytes \<Rightarrow> 'w::len word option" where
  "undecimal_int bs = (if take 1 bs = [45] then map_option (\<lambda>n. - word_of_nat n) (undecimal (drop 1 bs))
     else map_option word_of_nat (undecimal bs))"

lemma undecimal_decimal: "undecimal (decimal n) = Some n"
proof (induction n rule: decimal.induct)
  case (1 n)
  show ?case
  proof (cases "n < 10")
    case True
    then have "decimal n = [48 + word_of_nat n]" by (simp add: decimal.simps)
    then show ?thesis using decimal_digits [of n] decimal_digit [OF True] by (simp add: undecimal_def)
  next
    case False
    have "decimal n = decimal (n div 10) @ [48 + word_of_nat (n mod 10)]" using False by (subst decimal.simps) simp
    then show ?thesis
      using decimal_digits [of n] decimal_digits [of "n div 10"] decimal_digit [of "n mod 10"] 1 False
      by (simp add: undecimal_def)
  qed
qed

lemma decimal_no_sign: "take 1 (decimal n) \<noteq> [45]"
  using decimal_digits [of n] by (cases "decimal n") (auto simp: digits_def is_digit_def)

lemma undecimal_int_decimal: "undecimal_int (decimal_int i) = Some (word_of_int i :: 'w::len word)"
proof (cases "i < 0")
  case True
  have "(word_of_nat (nat (- i)) :: 'w word) = word_of_int (int (nat (- i)))" by (simp only: of_int_of_nat_eq)
  also have "\<dots> = - word_of_int i" using True by simp
  finally have "(word_of_nat (nat (- i)) :: 'w word) = - word_of_int i" .
  with True show ?thesis by (simp add: undecimal_int_def decimal_int_def undecimal_decimal)
next
  case False
  then have "(word_of_nat (nat i) :: 'w word) = word_of_int i" by simp
  with False show ?thesis by (simp only: undecimal_int_def decimal_int_def undecimal_decimal decimal_no_sign if_False option.map)
qed

subsection \<open>Base64\<close>

text \<open>Three bytes are four characters, of which \<open>=\<close> fills up the last group.\<close>

definition base64_alphabet :: bytes where
  "base64_alphabet = map word_of_nat ([65..<91] @ [97..<123] @ [48..<58] @ [43, 47])"

definition sextet :: "nat \<Rightarrow> byte" where
  "sextet n = base64_alphabet ! n"

definition unsextet :: "byte \<Rightarrow> nat" where
  "unsextet b = length (takeWhile (\<lambda>x. x \<noteq> b) base64_alphabet)"

fun base64 :: "bytes \<Rightarrow> bytes" where
  "base64 [] = []"
| "base64 [a] = [sextet (unat a div 4), sextet (unat a mod 4 * 16), 61, 61]"
| "base64 [a, b] = [sextet (unat a div 4), sextet (unat a mod 4 * 16 + unat b div 16), sextet (unat b mod 16 * 4), 61]"
| "base64 (a # b # c # rest) = [sextet (unat a div 4), sextet (unat a mod 4 * 16 + unat b div 16),
     sextet (unat b mod 16 * 4 + unat c div 64), sextet (unat c mod 64)] @ base64 rest"

definition octet :: "nat \<Rightarrow> byte" where
  "octet n = word_of_nat n"

fun unbase64 :: "bytes \<Rightarrow> bytes" where
  "unbase64 (p # q # r # s # rest) =
     octet (unsextet p * 4 + unsextet q div 16)
     # (if r = 61 then [] else octet (unsextet q mod 16 * 16 + unsextet r div 4)
     # (if s = 61 then [] else octet (unsextet r mod 4 * 64 + unsextet s) # unbase64 rest))"
| "unbase64 _ = []"

lemma unat_byte: "unat (a :: byte) < 256"
  by (rule order_less_le_trans [OF unsigned_less]) simp

lemma base64_nats: "n \<in> set ([65..<91] @ [97..<123] @ [48..<58] @ [43, 47]) \<Longrightarrow> 32 \<le> n \<and> n < 256 \<and> n \<noteq> 34 \<and> n \<noteq> 61 \<and> n \<noteq> 92"
  by auto

lemma of_nat_byte: "n < 256 \<Longrightarrow> m < 256 \<Longrightarrow> (word_of_nat n :: byte) = word_of_nat m \<Longrightarrow> n = m"
  by (drule arg_cong [of _ _ unat]) (simp add: unsigned_of_nat take_bit_eq_mod)

lemma base64_distinct: "distinct base64_alphabet"
proof -
  have "inj_on (word_of_nat :: nat \<Rightarrow> byte) (set ([65..<91] @ [97..<123] @ [48..<58] @ [43, 47]))"
    by (rule inj_onI) (use base64_nats of_nat_byte in blast)
  then show ?thesis unfolding base64_alphabet_def distinct_map by simp
qed

lemma length_takeWhile_nth: "distinct xs \<Longrightarrow> n < length xs \<Longrightarrow> length (takeWhile (\<lambda>x. x \<noteq> xs ! n) xs) = n"
  by (induction xs arbitrary: n) (auto simp: nth_Cons split: nat.splits)

lemma sextet_inverse: "n < 64 \<Longrightarrow> unsextet (sextet n) = n"
  unfolding unsextet_def sextet_def
  by (rule length_takeWhile_nth [OF base64_distinct]) (simp add: base64_alphabet_def)

lemma sextet_plain:
  assumes "n < 64"
  shows "sextet n \<notin> {34, 61, 92} \<and> 32 \<le> sextet n"
proof -
  have "sextet n \<in> set base64_alphabet" using assms unfolding sextet_def by (intro nth_mem) (simp add: base64_alphabet_def)
  then obtain m where m: "m \<in> set ([65..<91] @ [97..<123] @ [48..<58] @ [43, 47])" "sextet n = word_of_nat m"
    unfolding base64_alphabet_def set_map by (elim imageE)
  have "sextet n = word_of_nat k \<Longrightarrow> k < 256 \<Longrightarrow> k = m" for k using base64_nats [OF m(1)] m(2) of_nat_byte by metis
  from this [of 34] this [of 61] this [of 92] have "sextet n \<notin> {34, 61, 92}" using base64_nats [OF m(1)] by auto
  moreover have "32 \<le> sextet n"
    using base64_nats [OF m(1)] m(2) by (simp add: word_le_nat_alt unsigned_of_nat take_bit_eq_mod)
  ultimately show ?thesis ..
qed

lemma byte_sextets: "unat a div 4 < 64" "unat a mod 4 * 16 + unat b div 16 < 64" "unat b mod 16 * 4 + unat c div 64 < 64"
    "unat a mod 4 * 16 < 64" "unat b mod 16 * 4 < 64" "unat c mod 64 < 64"
  for a b c :: byte
  using unat_byte [of a] unat_byte [of b] unat_byte [of c] by linarith+

lemma last_digit: "r < n \<Longrightarrow> (q * n + r) div n = q \<and> (q * n + r) mod n = (r :: nat)"
  by simp

lemma octets:
  fixes a b c :: byte
  shows "octet (unat a div 4 * 4 + (unat a mod 4 * 16 + unat b div 16) div 16) = a"
    "octet (unat a div 4 * 4 + (unat a mod 4 * 16) div 16) = a"
    "octet ((unat a mod 4 * 16 + unat b div 16) mod 16 * 16 + (unat b mod 16 * 4 + unat c div 64) div 4) = b"
    "octet ((unat a mod 4 * 16 + unat b div 16) mod 16 * 16 + (unat b mod 16 * 4) div 4) = b"
    "octet ((unat b mod 16 * 4 + unat c div 64) mod 4 * 64 + unat c mod 64) = c"
proof -
  have "unat b div 16 < 16" "unat c div 64 < 4" using unat_byte [of b] unat_byte [of c] by linarith+
  note last_digit [OF this(1), of "unat a mod 4"] last_digit [OF this(2), of "unat b mod 16"]
  then show "octet (unat a div 4 * 4 + (unat a mod 4 * 16 + unat b div 16) div 16) = a"
    "octet (unat a div 4 * 4 + (unat a mod 4 * 16) div 16) = a"
    "octet ((unat a mod 4 * 16 + unat b div 16) mod 16 * 16 + (unat b mod 16 * 4 + unat c div 64) div 4) = b"
    "octet ((unat a mod 4 * 16 + unat b div 16) mod 16 * 16 + (unat b mod 16 * 4) div 4) = b"
    "octet ((unat b mod 16 * 4 + unat c div 64) mod 4 * 64 + unat c mod 64) = c"
    using last_digit [of 0 16 "unat a mod 4"] last_digit [of 0 4 "unat b mod 16"]
    by (simp_all only: octet_def div_mult_mod_eq add_0_right zero_less_numeral simp_thms) (simp_all only: of_nat_unat ucast_id)
qed

lemmas base64_facts = base64.simps unbase64.simps sextet_inverse octets byte_sextets simp_thms if_True if_False append.simps

lemma not_filler: "n < 64 \<Longrightarrow> (sextet n = 61) = False"
  using sextet_plain by auto

lemma unbase64_base64: "unbase64 (base64 bs) = bs"
proof (induction bs rule: base64.induct)
  case (2 a)
  then show ?case by (simp only: base64_facts)
next
  case (3 a b)
  then show ?case by (simp only: base64_facts not_filler)
next
  case (4 a b c rest)
  then show ?case by (simp only: base64_facts not_filler)
qed simp

lemma base64_plain: "list_all (\<lambda>b. b \<noteq> 34 \<and> b \<noteq> 92 \<and> 32 \<le> b) (base64 bs)"
proof -
  have "n < 64 \<Longrightarrow> sextet n \<noteq> 34 \<and> sextet n \<noteq> 92 \<and> 32 \<le> sextet n" for n using sextet_plain by auto
  then show ?thesis
    by (induction bs rule: base64.induct) (simp_all add: byte_sextets del: One_nat_def)
qed

lemma base64_json_chars: "json_chars (base64 bs)"
proof -
  have "list_all (\<lambda>b. b \<noteq> 34 \<and> b \<noteq> 92 \<and> 32 \<le> b) cs \<Longrightarrow> json_chars cs" for cs by (induction cs) auto
  then show ?thesis using base64_plain by blast
qed

declare base64.simps [simp del] unbase64.simps [simp del]

end
