(* ===== verification/JsonRoundTrip.thy ===== *)
theory JsonRoundTrip
  imports JsonTexts
begin

section \<open>JSON round trip\<close>












subsection \<open>Texts of Qt\<close>

fun integer_text :: "basic \<Rightarrow> bytes option" where
  "integer_text (BInt32 w) = Some (decimal_int (sint w))"
| "integer_text (BSInt32 w) = Some (decimal_int (sint w))"
| "integer_text (BSFixed32 w) = Some (decimal_int (sint w))"
| "integer_text (BInt64 w) = Some (decimal_int (sint w))"
| "integer_text (BSInt64 w) = Some (decimal_int (sint w))"
| "integer_text (BSFixed64 w) = Some (decimal_int (sint w))"
| "integer_text (BUInt32 w) = Some (decimal_int (uint w))"
| "integer_text (BFixed32 w) = Some (decimal_int (uint w))"
| "integer_text (BUInt64 w) = Some (decimal_int (uint w))"
| "integer_text (BFixed64 w) = Some (decimal_int (uint w))"
| "integer_text (BBool b) = Some (if b then ascii ''true'' else ascii ''false'')"
| "integer_text _ = None"

















subsection \<open>A parser and number formats\<close>

definition parse_value :: "bytes \<Rightarrow> json_value \<times> bytes" where
  "parse_value bs =
     (if take 1 bs = [34]
      then let raw = takeWhile (\<lambda>b. b \<noteq> 34) (drop 1 bs)
           in (\<lparr>jv_value = raw, jv_type = JsonStringType\<rparr>, drop (length raw + 2) bs)
      else let raw = takeWhile (\<lambda>b. b \<noteq> 44 \<and> b \<noteq> 125) bs
           in (\<lparr>jv_value = raw, jv_type = (if raw \<in> {ascii ''true'', ascii ''false''} then JsonBoolType else JsonNumberType)\<rparr>,
               drop (length raw) bs))"

fun parse_pairs :: "nat \<Rightarrow> bytes \<Rightarrow> (bytes \<times> json_value) list" where
  "parse_pairs 0 bs = []"
| "parse_pairs (Suc n) bs =
     (let name = takeWhile (\<lambda>b. b \<noteq> 34) (drop 1 bs);
          (v, rest) = parse_value (drop (length name + 3) bs)
      in (name, v) # (if take 1 rest = [44] then parse_pairs n (drop 1 rest) else []))"

definition flat_parser :: "bytes \<Rightarrow> (bytes \<times> json_value) list" where
  "flat_parser text = (if drop 1 text = [125] then [] else parse_pairs (length text) (drop 1 text))"







definition sample_json :: json_api where
  "sample_json = \<lparr>variant_text = (\<lambda>v. case integer_text v of Some text \<Rightarrow> text | None \<Rightarrow> ascii ''0''),
     list_number = (\<lambda>v. case integer_text v of Some text \<Rightarrow> text | None \<Rightarrow> ascii ''0''), float_text = (\<lambda>w. ascii ''0''),
     toBase64 = base64, fromBase64 = unbase64, enum_key = (\<lambda>e n. ascii ''E''), keyToValue = (\<lambda>e s. 0),
     toInt = undecimal_int, toUInt = undecimal_int, toLongLong = undecimal_int, toULongLong = undecimal_int,
     toFloat = (\<lambda>bs. Some 0), toDouble = (\<lambda>bs. Some 0), parseJsonObject = flat_parser, parseJsonArray = (\<lambda>bs. []),
     extractValue = (\<lambda>bs. None), extractProperty = (\<lambda>bs. None)\<rparr>"

definition json_env :: serializer_env where
  "json_env = \<lparr>qt = \<lparr>toUtf8 = map ucast, fromUtf8 = map ucast\<rparr>,
     protobufMetaObject = (\<lambda>c. if c = 0
       then \<lparr>staticMetaObject = [MBasic TInt32, MBasic TString, MBasic TBool, MBasic TBytes],
          propertyOrdering = [(1, 0, [97]), (3, 2, [99]), (2, 1, [98]), (4, 3, [100])]\<rparr>
       else \<lparr>staticMetaObject = [], propertyOrdering = []\<rparr>),
     registry = (\<lambda>t. Some ObjectHandler)\<rparr>"

definition json_sample :: "basic list" where
  "json_sample = [BInt32 (- 42), BString [104, 105], BBool True, BBytes [1, 2]]"






subsection \<open>The output\<close>

text \<open>
  C22. What the serializer writes is JSON: a message whose numbers are formatted as JSON numbers, whose strings,
  keys and names need no escapes, whose types are registered and whose classes have properties is serialized
  without an error, and the result is a text of the JSON grammar, with every nested message, list and map.
\<close>

theorem json_output_valid:
  assumes "printable_message X J n c object"
  shows "\<exists>text. json_serializeObject X J n c object = Ret text \<and> json text"
  using assms
proof (induction n arbitrary: c object)
  case (Suc n)
  let ?ord = "propertyOrdering (protobufMetaObject X c)"
  let ?ty = "\<lambda>p. staticMetaObject (protobufMetaObject X c) ! p"
  let ?val = "\<lambda>(i, p, name). json_serializeValue X J (json_serializeObject X J n) (?ty p)
      (read_property X (?ty p) (properties object ! p))"
  let ?key = "\<lambda>(i, p, name). toUtf8 (qt X) name"
  let ?g = "\<lambda>f t. quote (?key f) @ [58] @ t"
  have "\<exists>b. ?val f = Ret b \<and> json b" if "f \<in> set ?ord" for f
    using Suc.prems that by (auto intro!: json_value_json [OF Suc.IH] simp: Let_def)
  then obtain ts where ts: "collect (\<lambda>f. and_then (?val f) (\<lambda>t. Ret (?g f t @ [44]))) ?ord
      = Ret (concat (map (\<lambda>v. v @ [44]) (map2 ?g ?ord ts)))" "list_all2 (\<lambda>f t. json t) ?ord ts"
    using collect_comma [of ?ord ?val "\<lambda>f t. json t" ?g] by blast
  have "json_serializeObject X J (Suc n) c object
      = and_then (collect (\<lambda>f. and_then (?val f) (\<lambda>t. Ret (?g f t @ [44]))) ?ord)
          (\<lambda>items. Ret (butlast (ascii ''{'' @ items) @ ascii ''}''))"
    by (simp add: json_serializeProperty_def split_def and_then_assoc Let_def comma)
  moreover have "map2 ?g ?ord ts \<noteq> []" using Suc.prems list_all2_lengthD [OF ts(2)] by (cases ?ord; cases ts) auto
  note concat_comma [OF this]
  moreover have "json ([123] @ join [44] (map2 ?g ?ord ts) @ [125])"
    by (rule json_object_of [OF _ ts(2)]) (use Suc.prems in auto)
  ultimately show ?case using ts(1) by (simp add: comma butlast_append)
qed simp

theorem json_output_valid_witness:
  "\<exists>text. json_serializeObject json_env sample_json 1 0 (Message (map VBasic json_sample)) = Ret text \<and> json text"
proof (rule json_output_valid)
  show "printable_message json_env sample_json 1 0 (Message (map VBasic json_sample))"
    using json_number_decimal
    by (simp add: json_env_def sample_json_def json_sample_def base64_json_chars One_nat_def)
qed

text \<open>
  The loops that print lists, with a comma behind every element and the last one cut off again, write the
  elements joined by commas in brackets, the empty list included.
\<close>

theorem json_lists_joined:
  "json_list J vs = ascii ''['' @ join (ascii '','') (map (list_number J) vs) @ ascii '']''
   \<and> json_stringList Q ss = ascii ''['' @ join (ascii '','') (map (\<lambda>s. quote (toUtf8 Q s)) ss) @ ascii '']''
   \<and> json_bytesList J bs = ascii ''['' @ join (ascii '','') (map (\<lambda>b. quote (toBase64 J b)) bs) @ ascii '']''
   \<and> json_enumList J e ns = ascii ''['' @ join (ascii '','') (map (\<lambda>n. quote (enum_key J e n)) ns) @ ascii '']''"
  unfolding json_list_def json_stringList_def json_bytesList_def json_enumList_def comma_list_join by simp

text \<open>
  Where the output is not JSON: a class without properties is written as a single closing brace, and a
  string with a quote (and no backslash) is written without an escape.
\<close>

theorem json_output_broken:
  assumes "propertyOrdering (protobufMetaObject X c) = []" and "34 \<in> set (toUtf8 Q s)" "92 \<notin> set (toUtf8 Q s)"
  shows "json_serializeObject X J (Suc n) c object = Ret (ascii ''}'') \<and> \<not> json (ascii ''}'')
    \<and> \<not> json (json_string Q s)"
proof -
  have "\<not> json (ascii ''}'')" using json_first [of "ascii ''}''"] by (auto simp: comma)
  moreover have "\<not> json (json_string Q s)"
  proof
    assume "json (json_string Q s)"
    then obtain s' where "quote (toUtf8 Q s) = quote s'" "json_chars s'"
      using json_first [of "json_string Q s"] by (auto simp: json_string_def quote_def ascii_def)
    then have "json_chars (toUtf8 Q s)" by (simp add: quote_def)
    with assms(2,3) json_chars_no_quote show False by blast
  qed
  ultimately show ?thesis using assms(1) by (simp add: comma)
qed

theorem json_output_broken_witness:
  "json_serializeObject json_env sample_json (Suc 0) 1 (Message []) = Ret (ascii ''}'') \<and> \<not> json (ascii ''}'')
    \<and> \<not> json (json_string (qt json_env) [34])"
  by (rule json_output_broken) (simp_all add: json_env_def)

end
