(* ===== verification/GrpcStatus.thy ===== *)
theory GrpcStatus
  imports QtPrelude
begin

section \<open>QGrpcStatus\<close>

text \<open>
  The status of a gRPC operation (\<open>qgrpcstatus.h\<close>, \<open>qgrpcstatus.cpp\<close>). An \<open>int\<close> that names no
  enumerator can still be cast to \<open>StatusCode\<close>; it is \<open>OtherCode\<close>. The read/write lock of the class
  protects single accesses and has no effect on the values.
\<close>

datatype StatusCode = Ok | Cancelled | Unknown | InvalidArgument | DeadlineExceeded | NotFound
  | AlreadyExists | PermissionDenied | Unauthenticated | ResourceExhausted | FailedPrecondition
  | Aborted | OutOfRange | Unimplemented | Internal | Unavailable | DataLoss | OtherCode int

fun code_value :: "StatusCode \<Rightarrow> int" where
  "code_value Ok = 0"
| "code_value Cancelled = 1"
| "code_value Unknown = 2"
| "code_value InvalidArgument = 3"
| "code_value DeadlineExceeded = 4"
| "code_value NotFound = 5"
| "code_value AlreadyExists = 6"
| "code_value PermissionDenied = 7"
| "code_value Unauthenticated = 16"
| "code_value ResourceExhausted = 8"
| "code_value FailedPrecondition = 9"
| "code_value Aborted = 10"
| "code_value OutOfRange = 11"
| "code_value Unimplemented = 12"
| "code_value Internal = 13"
| "code_value Unavailable = 14"
| "code_value DataLoss = 15"
| "code_value (OtherCode i) = i"

definition named_codes :: "StatusCode list" where
  "named_codes = [Ok, Cancelled, Unknown, InvalidArgument, DeadlineExceeded, NotFound, AlreadyExists,
     PermissionDenied, Unauthenticated, ResourceExhausted, FailedPrecondition, Aborted, OutOfRange,
     Unimplemented, Internal, Unavailable, DataLoss]"

text \<open>\<open>static_cast<QGrpcStatus::StatusCode>\<close> of an \<open>int\<close>.\<close>

definition status_cast :: "int \<Rightarrow> StatusCode" where
  "status_cast i = (case find (\<lambda>c. code_value c = i) named_codes of Some c \<Rightarrow> c | None \<Rightarrow> OtherCode i)"

record qgrpc_status =
  m_code :: StatusCode
  m_message :: qstring

definition mk_status :: "StatusCode \<Rightarrow> qstring \<Rightarrow> qgrpc_status" where
  "mk_status c msg = \<lparr>m_code = c, m_message = msg\<rparr>"

text \<open>The default constructor.\<close>

definition default_status :: qgrpc_status where
  "default_status = mk_status Ok []"

text \<open>Comparison looks at the codes only.\<close>

definition status_is :: "qgrpc_status \<Rightarrow> StatusCode \<Rightarrow> bool" where
  "status_is s c \<longleftrightarrow> m_code s = c"

definition status_eq :: "qgrpc_status \<Rightarrow> qgrpc_status \<Rightarrow> bool" where
  "status_eq s t \<longleftrightarrow> m_code s = m_code t"

text \<open>Copy and move assignment; the source stays as it is.\<close>

definition status_assign :: "bool \<Rightarrow> qgrpc_status \<Rightarrow> qgrpc_status \<Rightarrow> qgrpc_status" where
  "status_assign same s other =
     (if same then s else s\<lparr>m_code := m_code other, m_message := m_message other\<rparr>)"

lemma status_cast_value: "c \<in> set named_codes \<Longrightarrow> status_cast (code_value c) = c"
  by (auto simp: named_codes_def status_cast_def)

lemma status_cast_zero [simp]: "status_cast 0 = Ok"
  by (simp add: status_cast_def named_codes_def)

lemma code_value_cast: "code_value (status_cast i) = i"
  by (auto simp: status_cast_def find_Some_iff split: option.splits)

lemma status_cast_Ok [simp]: "status_cast i = Ok \<longleftrightarrow> i = 0"
  using code_value_cast [of i] by auto

lemma mk_status_sel [simp]: "m_code (mk_status c msg) = c" "m_message (mk_status c msg) = msg"
  by (simp_all add: mk_status_def)

lemma default_status_sel [simp]: "m_code default_status = Ok" "m_message default_status = []"
  by (simp_all add: default_status_def)

lemma status_assign_eq: "status_eq (status_assign same s t) (if same then s else t)"
  by (simp add: status_assign_def status_eq_def)

end
