(* ===== verification/GrpcCalls.thy ===== *)
theory GrpcCalls
  imports GrpcStatus
begin

section \<open>Calls and server streams of the native channel\<close>

text \<open>
  \<open>QGrpcChannelCall\<close> and \<open>QGrpcChannelStream\<close> (\<open>qgrpcchannel.cpp\<close>, \<open>qgrpcchannel_p.h\<close>): objects that live
  until their reference count is zero. One reference belongs to the \<open>shared_ptr\<close>, one to each operation
  handed to the gRPC library. The library answers an operation with its tag and a flag; the worker thread
  posts the answer to the object, whose handler drops the reference.

  \<open>base_call\<close> keeps, beside the members of the class, what the object gave away: the tags the library still
  has (\<open>pending\<close>), the messages it was given (\<open>sent\<close>), whether \<open>TryCancel\<close> was called, whether the
  \<open>shared_ptr\<close> and the object exist, and the signals emitted. gRPC itself is not part of the sources: its
  answers are the events of \<open>lifetime\<close>, in any order and with any flag, buffer and status.
\<close>

datatype ReaderState = FIRST_CALL | PROCESSING | ENDED

datatype tag = NewData | FinishRead | FinishWrite

datatype signal = DataReady bytes | SigFinished

text \<open>\<open>grpc::Status\<close> and \<open>grpc::ByteBuffer\<close>, as far as the sources look at them.\<close>

record library_status =
  error_code :: int
  error_message :: qstring

definition ok_status :: library_status where
  "ok_status = \<lparr>error_code = 0, error_message = []\<rparr>"

definition status_ok :: "library_status \<Rightarrow> bool" where
  "status_ok s \<longleftrightarrow> error_code s = 0"

record byte_buffer =
  dump_status :: library_status
  slices :: "bytes list"

record base_call =
  m_status :: qgrpc_status
  m_readerState :: ReaderState
  m_grpc_status :: library_status
  response :: byte_buffer
  m_refCount :: int
  m_argument :: bytes
  pending :: "tag list"
  sent :: "bytes list"
  cancelled :: bool
  shared :: bool
  deleted :: bool
  emitted :: "signal list"

record channel_call = base_call +
  responseParsed :: bytes

definition parseByteBuffer :: "byte_buffer \<Rightarrow> bytes \<Rightarrow> library_status \<times> bytes" where
  "parseByteBuffer buffer data =
     (if \<not> status_ok (dump_status buffer) then (dump_status buffer, data)
      else (ok_status, data @ concat (slices buffer)))"

definition parseQByteArray :: "bytes \<Rightarrow> byte_buffer" where
  "parseQByteArray bytearray = \<lparr>dump_status = ok_status, slices = [bytearray]\<rparr>"

text \<open>The constructor: one reference, until the \<open>shared_ptr\<close> is released.\<close>

definition new_base_call :: "bytes \<Rightarrow> base_call" where
  "new_base_call arg = \<lparr>m_status = default_status, m_readerState = FIRST_CALL, m_grpc_status = ok_status,
     response = \<lparr>dump_status = ok_status, slices = []\<rparr>, m_refCount = 1, m_argument = arg, pending = [],
     sent = [], cancelled = False, shared = True, deleted = False, emitted = []\<rparr>"

subsection \<open>Reference counting\<close>

text \<open>\<open>m_refCount.ref()\<close> followed by an operation of \<open>m_reader\<close>.\<close>

definition start_op :: "tag \<Rightarrow> 'a base_call_scheme \<Rightarrow> 'a base_call_scheme" where
  "start_op t s = s\<lparr>m_refCount := m_refCount s + 1, pending := pending s @ [t]\<rparr>"

text \<open>\<open>if (!m_refCount.deref()) delete this;\<close>\<close>

definition deref_or_delete :: "'a base_call_scheme \<Rightarrow> 'a base_call_scheme" where
  "deref_or_delete s =
     (let n = m_refCount s - 1 in s\<lparr>m_refCount := n, deleted := deleted s \<or> n = 0\<rparr>)"

definition sharedPtrReleased :: "'a base_call_scheme \<Rightarrow> 'a base_call_scheme" where
  "sharedPtrReleased s = deref_or_delete (s\<lparr>shared := False\<rparr>)"

definition cancel :: "'a base_call_scheme \<Rightarrow> 'a base_call_scheme" where
  "cancel s = s\<lparr>cancelled := True\<rparr>"

subsection \<open>Server streams\<close>

definition startReader :: "'a base_call_scheme \<Rightarrow> 'a base_call_scheme" where
  "startReader s =
     start_op FinishRead (start_op NewData
       (s\<lparr>m_status := default_status, sent := sent s @ slices (parseQByteArray (m_argument s))\<rparr>))"

definition status_of :: "library_status \<Rightarrow> qgrpc_status" where
  "status_of st = mk_status (status_cast (error_code st)) (error_message st)"

definition stream_newData_body :: "bool \<Rightarrow> 'a base_call_scheme \<Rightarrow> 'a base_call_scheme" where
  "stream_newData_body ok s =
     (if \<not> ok then s\<lparr>m_readerState := ENDED\<rparr>
      else (case m_readerState s of
          FIRST_CALL \<Rightarrow> (start_op NewData s)\<lparr>m_readerState := PROCESSING\<rparr>
        | PROCESSING \<Rightarrow>
            let (st, data) = parseByteBuffer (response s) [];
                s = s\<lparr>m_grpc_status := st\<rparr>
            in if \<not> status_ok st
               then cancel (s\<lparr>m_status := status_of st, m_readerState := ENDED\<rparr>)
               else start_op NewData (s\<lparr>emitted := emitted s @ [DataReady data]\<rparr>)
        | ENDED \<Rightarrow> s))"

definition stream_newData :: "bool \<Rightarrow> 'a base_call_scheme \<Rightarrow> 'a base_call_scheme" where
  "stream_newData ok s = deref_or_delete (stream_newData_body ok s)"

text \<open>\<open>finishRead\<close> has the same body in all classes; a status set by a parse error is kept while the
  library reports success.\<close>

definition finishRead_body :: "'a base_call_scheme \<Rightarrow> 'a base_call_scheme" where
  "finishRead_body s =
     (let s = (if m_code (m_status s) = Ok \<or> \<not> status_ok (m_grpc_status s)
               then s\<lparr>m_status := status_of (m_grpc_status s)\<rparr> else s)
      in s\<lparr>emitted := emitted s @ [SigFinished]\<rparr>)"

definition stream_finishRead :: "bool \<Rightarrow> 'a base_call_scheme \<Rightarrow> 'a base_call_scheme" where
  "stream_finishRead ok s = deref_or_delete (finishRead_body s)"

subsection \<open>Unary calls\<close>

definition call_startReader :: "'a base_call_scheme \<Rightarrow> 'a base_call_scheme" where
  "call_startReader s =
     (let request = parseQByteArray (m_argument s);
          s = start_op NewData (s\<lparr>m_status := default_status, sent := sent s @ slices request\<rparr>)
      in start_op FinishRead s)"

definition call_newData_body :: "bool \<Rightarrow> 'a channel_call_scheme \<Rightarrow> 'a channel_call_scheme" where
  "call_newData_body ok s =
     (if \<not> ok then s
      else (case m_readerState s of
          FIRST_CALL \<Rightarrow> (start_op NewData s)\<lparr>m_readerState := PROCESSING\<rparr>
        | PROCESSING \<Rightarrow>
            let (st, data) = parseByteBuffer (response s) (responseParsed s)
            in s\<lparr>m_grpc_status := st, responseParsed := data, m_status := status_of st,
                 m_readerState := ENDED\<rparr>
        | ENDED \<Rightarrow> s))"

definition call_newData :: "bool \<Rightarrow> 'a channel_call_scheme \<Rightarrow> 'a channel_call_scheme" where
  "call_newData ok s = deref_or_delete (call_newData_body ok s)"

definition call_finishRead :: "bool \<Rightarrow> 'a channel_call_scheme \<Rightarrow> 'a channel_call_scheme" where
  "call_finishRead ok s = deref_or_delete (finishRead_body s)"

text \<open>\<open>FunctionCall::callMethod\<close>: which handler a tag stands for.\<close>

fun stream_handler :: "tag \<Rightarrow> bool \<Rightarrow> 'a base_call_scheme \<Rightarrow> 'a base_call_scheme" where
  "stream_handler NewData ok s = stream_newData ok s"
| "stream_handler FinishRead ok s = stream_finishRead ok s"
| "stream_handler FinishWrite ok s = s"

fun call_handler :: "tag \<Rightarrow> bool \<Rightarrow> 'a channel_call_scheme \<Rightarrow> 'a channel_call_scheme" where
  "call_handler NewData ok s = call_newData ok s"
| "call_handler FinishRead ok s = call_finishRead ok s"
| "call_handler FinishWrite ok s = s"

subsection \<open>Lifetimes\<close>

text \<open>
  The library gives a tag back: it is not pending any more; a read has filled the response buffer, the
  end of the call its status.
\<close>

definition take_tag :: "tag \<Rightarrow> byte_buffer \<Rightarrow> library_status \<Rightarrow> 'a base_call_scheme \<Rightarrow> 'a base_call_scheme" where
  "take_tag t buf st s =
     s\<lparr>pending := remove1 t (pending s),
       response := (if t = NewData then buf else response s),
       m_grpc_status := (if t = FinishRead then st else m_grpc_status s)\<rparr>"

text \<open>
  All histories of an object: answers of the library for pending tags, \<open>cancel\<close> and the release of the
  \<open>shared_ptr\<close> while there is one. Nothing here asks whether the object still exists.
\<close>

inductive lifetime :: "(tag \<Rightarrow> bool \<Rightarrow> 'a base_call_scheme \<Rightarrow> 'a base_call_scheme) \<Rightarrow>
    'a base_call_scheme \<Rightarrow> 'a base_call_scheme \<Rightarrow> bool" for H s0 where
  begins: "lifetime H s0 s0"
| answers: "lifetime H s0 s \<Longrightarrow> t \<in> set (pending s) \<Longrightarrow> lifetime H s0 (H t ok (take_tag t buf st s))"
| cancels: "lifetime H s0 s \<Longrightarrow> shared s \<Longrightarrow> lifetime H s0 (cancel s)"
| releases: "lifetime H s0 s \<Longrightarrow> shared s \<Longrightarrow> lifetime H s0 (sharedPtrReleased s)"

definition count_inv :: "'a base_call_scheme \<Rightarrow> bool" where
  "count_inv s \<longleftrightarrow>
     m_refCount s = of_bool (shared s) + int (length (pending s))
     \<and> (deleted s \<longleftrightarrow> \<not> shared s \<and> pending s = [])"

definition finish_inv :: "'a base_call_scheme \<Rightarrow> bool" where
  "finish_inv s \<longleftrightarrow> count_list (pending s) FinishRead + count_list (emitted s) SigFinished = 1"

text \<open>
  What a handler must do for its object to be counted right: start as many operations as it takes
  references, drop one reference of its own, and delete the object when none is left.
\<close>

lemma Suc_length_remove1: "x \<in> set xs \<Longrightarrow> length xs = Suc (length (remove1 x xs))"
  by (induction xs) auto

lemma count_remove1:
  "x \<in> set xs \<Longrightarrow> count_list (remove1 x xs) y + of_bool (x = y) = count_list xs y"
  by (induction xs) auto

locale counted_call =
  fixes H :: "tag \<Rightarrow> bool \<Rightarrow> 'a base_call_scheme \<Rightarrow> 'a base_call_scheme"
    and tags :: "tag set"
  assumes drops: "t \<in> tags \<Longrightarrow> 1 \<le> m_refCount s \<Longrightarrow>
      m_refCount (H t ok s) - int (length (pending (H t ok s))) = m_refCount s - int (length (pending s)) - 1"
    and dies: "t \<in> tags \<Longrightarrow> 1 \<le> m_refCount s \<Longrightarrow>
      deleted (H t ok s) \<longleftrightarrow> deleted s \<or> m_refCount (H t ok s) = 0"
    and starts: "t \<in> tags \<Longrightarrow> set (pending (H t ok s)) \<subseteq> tags \<union> set (pending s)"
    and unowned: "t \<in> tags \<Longrightarrow> shared (H t ok s) = shared s"
    and finishes: "t \<in> tags \<Longrightarrow>
      count_list (pending (H t ok s)) FinishRead + count_list (emitted (H t ok s)) SigFinished
        = count_list (pending s) FinishRead + count_list (emitted s) SigFinished + of_bool (t = FinishRead)"
begin

lemma answer_counts:
  assumes "count_inv s" "t \<in> set (pending s)" "t \<in> tags"
  shows "count_inv (H t ok (take_tag t buf st s)) \<and> \<not> deleted s"
proof -
  let ?s = "take_tag t buf st s"
  have len: "int (length (pending ?s)) = int (length (pending s)) - 1"
    using Suc_length_remove1 [OF assms(2)] by (simp add: take_tag_def del: length_remove1)
  have eqs: "m_refCount ?s = m_refCount s" "shared ?s = shared s" "deleted ?s = deleted s"
    by (simp_all add: take_tag_def)
  have nd: "\<not> deleted s" using assms(1,2) by (auto simp: count_inv_def)
  have "1 \<le> m_refCount ?s" using assms(1) Suc_length_remove1 [OF assms(2)] eqs by (simp add: count_inv_def)
  with nd eqs len show ?thesis
    using assms(1) drops [OF assms(3), of ?s ok] unowned [OF assms(3), of ok ?s] dies [OF assms(3), of ?s ok]
    by (auto simp: count_inv_def)
qed

lemma answer_tags:
  assumes "set (pending s) \<subseteq> tags" "t \<in> tags"
  shows "set (pending (H t ok (take_tag t buf st s))) \<subseteq> tags"
proof -
  have "set (pending (take_tag t buf st s)) \<subseteq> tags"
    using assms(1) by (auto simp: take_tag_def dest: notin_set_remove1)
  with starts [OF assms(2), of ok "take_tag t buf st s"] show ?thesis
    by auto
qed

lemma answer_finishes:
  assumes "finish_inv s" "t \<in> set (pending s)" "t \<in> tags"
  shows "finish_inv (H t ok (take_tag t buf st s))"
proof -
  let ?s = "take_tag t buf st s"
  have "count_list (pending ?s) FinishRead + of_bool (t = FinishRead) = count_list (pending s) FinishRead"
    using count_remove1 [OF assms(2), of FinishRead] by (simp only: take_tag_def) simp
  moreover have "emitted ?s = emitted s" by (simp add: take_tag_def)
  ultimately show ?thesis
    using assms(1) finishes [OF assms(3), of ok ?s]
    by (simp add: finish_inv_def)
qed

lemma lifetime_inv:
  assumes "lifetime H s0 s" "count_inv s0" "finish_inv s0" "set (pending s0) \<subseteq> tags"
  shows "count_inv s \<and> finish_inv s \<and> set (pending s) \<subseteq> tags"
  using assms
proof (induction rule: lifetime.induct)
  case (answers s t ok buf st)
  then have "t \<in> tags" by auto
  with answers show ?case
    using answer_counts [of s t ok buf st] answer_tags [of s t ok buf st] answer_finishes [of s t ok buf st]
    by blast
qed (auto simp: count_inv_def finish_inv_def cancel_def sharedPtrReleased_def deref_or_delete_def Let_def)

end

lemmas call_defs = start_op_def cancel_def stream_newData_body_def call_newData_body_def
  finishRead_body_def stream_newData_def stream_finishRead_def call_newData_def call_finishRead_def

lemmas count_splits = ReaderState.splits prod.splits if_splits

interpretation stream_calls: counted_call stream_handler "{NewData, FinishRead}"
  by unfold_locales (auto simp: call_defs deref_or_delete_def Let_def split: count_splits)

interpretation unary_calls: counted_call call_handler "{NewData, FinishRead}"
  by unfold_locales (auto simp: call_defs deref_or_delete_def Let_def split: count_splits)

definition new_channel_call :: "bytes \<Rightarrow> channel_call" where
  "new_channel_call arg = base_call.extend (new_base_call arg) (channel_call.fields [])"

lemma started_stream: 
  "count_inv (startReader (new_base_call arg))" "finish_inv (startReader (new_base_call arg))"
  "set (pending (startReader (new_base_call arg))) \<subseteq> {NewData, FinishRead}"
  by (auto simp: startReader_def start_op_def new_base_call_def count_inv_def finish_inv_def)

lemma started_call:
  "count_inv (call_startReader (new_channel_call arg))" "finish_inv (call_startReader (new_channel_call arg))"
  "set (pending (call_startReader (new_channel_call arg))) \<subseteq> {NewData, FinishRead}"
  by (auto simp: call_startReader_def Let_def start_op_def new_channel_call_def new_base_call_def base_call.defs
      channel_call.defs count_inv_def finish_inv_def)

subsection \<open>Properties\<close>

text \<open>
  A started server stream is never used after it was deleted and never leaked: in every history the
  object exists exactly as long as the \<open>shared_ptr\<close> or an operation of the library refers to it, and its
  count says so.
\<close>

theorem stream_lifetime_counted:
  assumes "lifetime stream_handler (startReader (new_base_call arg)) s"
  shows "(deleted s \<longleftrightarrow> \<not> shared s \<and> pending s = [])
    \<and> m_refCount s = of_bool (shared s) + int (length (pending s))"
  using stream_calls.lifetime_inv [OF assms started_stream] by (simp add: count_inv_def)

text \<open>A history in which the stream is released first and then runs to its end.\<close>

definition ended_stream :: base_call where
  "ended_stream = stream_handler FinishRead True (take_tag FinishRead \<lparr>dump_status = ok_status, slices = []\<rparr> ok_status
     (stream_handler NewData False (take_tag NewData \<lparr>dump_status = ok_status, slices = []\<rparr> ok_status
       (sharedPtrReleased (startReader (new_base_call [1]))))))"

lemma ended_stream_lifetime: "lifetime stream_handler (startReader (new_base_call [1])) ended_stream"
  unfolding ended_stream_def
  by (intro lifetime.answers lifetime.releases lifetime.begins)
    (simp_all add: call_defs startReader_def new_base_call_def take_tag_def sharedPtrReleased_def
      deref_or_delete_def)

theorem stream_lifetime_counted_witness:
  "(deleted ended_stream \<longleftrightarrow> \<not> shared ended_stream \<and> pending ended_stream = [])
    \<and> m_refCount ended_stream = of_bool (shared ended_stream) + int (length (pending ended_stream))"
  by (rule stream_lifetime_counted [OF ended_stream_lifetime])

text \<open>
  The same holds for a unary call.
\<close>

theorem call_lifetime_counted:
  assumes "lifetime call_handler (call_startReader (new_channel_call arg)) s"
  shows "(deleted s \<longleftrightarrow> \<not> shared s \<and> pending s = [])
    \<and> m_refCount s = of_bool (shared s) + int (length (pending s))"
  using unary_calls.lifetime_inv [OF assms started_call] by (simp add: count_inv_def)

theorem call_lifetime_counted_witness:
  "(deleted (call_startReader (new_channel_call [1])) \<longleftrightarrow>
      \<not> shared (call_startReader (new_channel_call [1])) \<and> pending (call_startReader (new_channel_call [1])) = [])
    \<and> m_refCount (call_startReader (new_channel_call [1]))
      = of_bool (shared (call_startReader (new_channel_call [1]))) + int (length (pending (call_startReader (new_channel_call [1]))))"
  by (rule call_lifetime_counted [OF lifetime.begins])

text \<open>
  A stream emits \<open>finished\<close> at most once in its life, and has emitted it when the library has answered
  \<open>Finish\<close>.
\<close>

theorem stream_finishes_once:
  assumes "lifetime stream_handler (startReader (new_base_call arg)) s"
  shows "count_list (emitted s) SigFinished = (if FinishRead \<in> set (pending s) then 0 else 1)"
proof -
  have inv: "finish_inv s" using stream_calls.lifetime_inv [OF assms started_stream] by simp
  show ?thesis
  proof (cases "FinishRead \<in> set (pending s)")
    case True
    then have "count_list (pending s) FinishRead \<noteq> 0" by (simp add: count_list_0_iff)
    with inv True show ?thesis unfolding finish_inv_def by simp
  next
    case False
    then have "count_list (pending s) FinishRead = 0" by (simp add: count_list_0_iff)
    with inv False show ?thesis unfolding finish_inv_def by simp
  qed
qed

theorem stream_finishes_once_witness:
  "count_list (emitted ended_stream) SigFinished = (if FinishRead \<in> set (pending ended_stream) then 0 else 1)"
  by (rule stream_finishes_once [OF ended_stream_lifetime])

text \<open>The library answers the pending read with a buffer, several times.\<close>

definition read_answer :: "byte_buffer \<Rightarrow> 'a base_call_scheme \<Rightarrow> 'a base_call_scheme" where
  "read_answer b s = stream_handler NewData True (take_tag NewData b ok_status s)"

lemma read_answers:
  assumes "\<forall>b \<in> set bs. status_ok (dump_status b)" "m_readerState s = PROCESSING" "pending s = [FinishRead, NewData]"
  shows "emitted (fold read_answer bs s) = emitted s @ map (\<lambda>b. DataReady (concat (slices b))) bs
    \<and> pending (fold read_answer bs s) = [FinishRead, NewData]"
  using assms
proof (induction bs arbitrary: s)
  case (Cons b bs)
  have "m_readerState (read_answer b s) = PROCESSING" "pending (read_answer b s) = [FinishRead, NewData]"
    "emitted (read_answer b s) = emitted s @ [DataReady (concat (slices b))]"
    using Cons.prems
    by (simp_all add: read_answer_def call_defs take_tag_def deref_or_delete_def parseByteBuffer_def
        Let_def ok_status_def status_ok_def)
  with Cons show ?case by simp
qed simp

text \<open>
  A stream delivers what it receives, in order: after the first answer, every buffer that can be read
  becomes one \<open>dataReady\<close> with the bytes of its slices, and the next read is under way.
\<close>

theorem stream_delivers_in_order:
  assumes "\<forall>b \<in> set bs. status_ok (dump_status b)"
  shows "emitted (fold read_answer bs (read_answer b0 (startReader (new_base_call arg))))
      = map (\<lambda>b. DataReady (concat (slices b))) bs
    \<and> NewData \<in> set (pending (fold read_answer bs (read_answer b0 (startReader (new_base_call arg)))))"
proof -
  let ?s = "read_answer b0 (startReader (new_base_call arg))"
  have "m_readerState ?s = PROCESSING" "pending ?s = [FinishRead, NewData]" "emitted ?s = []"
    by (simp_all add: read_answer_def call_defs take_tag_def deref_or_delete_def startReader_def
        new_base_call_def Let_def)
  with read_answers [OF assms, of ?s] show ?thesis by simp
qed

theorem stream_delivers_in_order_witness:
  "emitted (fold read_answer [\<lparr>dump_status = ok_status, slices = [[1], [2, 3]]\<rparr>]
      (read_answer \<lparr>dump_status = ok_status, slices = []\<rparr> (startReader (new_base_call [9]))))
      = map (\<lambda>b. DataReady (concat (slices b))) [\<lparr>dump_status = ok_status, slices = [[1], [2, 3]]\<rparr>]
    \<and> NewData \<in> set (pending (fold read_answer [\<lparr>dump_status = ok_status, slices = [[1], [2, 3]]\<rparr>]
      (read_answer \<lparr>dump_status = ok_status, slices = []\<rparr> (startReader (new_base_call [9])))))"
  by (rule stream_delivers_in_order) (simp add: status_ok_def ok_status_def)

text \<open>The run of a unary call: acknowledged, answered with a buffer, finished with a status.\<close>

definition unary_run :: "bytes \<Rightarrow> byte_buffer \<Rightarrow> library_status \<Rightarrow> channel_call" where
  "unary_run arg b st =
     call_handler FinishRead True (take_tag FinishRead b st
       (call_handler NewData True (take_tag NewData b st
         (call_handler NewData True (take_tag NewData \<lparr>dump_status = ok_status, slices = []\<rparr> st
           (call_startReader (new_channel_call arg)))))))"

text \<open>
  The result of a unary call: the bytes of the answer, and the status the library reports; when the
  answer cannot be read, the error of reading it, unless the library reports an error of its own.
\<close>

theorem unary_call_result:
  "responseParsed (unary_run arg b st) = (if status_ok (dump_status b) then concat (slices b) else [])
   \<and> m_status (unary_run arg b st)
      = (if status_ok st \<and> \<not> status_ok (dump_status b) then status_of (dump_status b) else status_of st)
   \<and> emitted (unary_run arg b st) = [SigFinished] \<and> pending (unary_run arg b st) = []"
  by (auto simp: unary_run_def call_defs take_tag_def deref_or_delete_def call_startReader_def Let_def
      new_channel_call_def new_base_call_def base_call.defs channel_call.defs parseByteBuffer_def
      status_of_def ok_status_def status_ok_def)

end
