(* ===== verification/GrpcBidirect.thy ===== *)
theory GrpcBidirect
  imports GrpcCalls "HOL-Library.Sublist"
begin

section \<open>Bidirectional streams of the native channel\<close>

text \<open>
  \<open>QGrpcChannelStreamBidirect\<close> (\<open>qgrpcchannel.cpp\<close>): a stream that also writes. gRPC allows one write at a
  time, so further ones wait in \<open>m_sendQueue\<close>; each has a \<open>QGrpcWriteReplay\<close> (\<open>qgrpcwritereplay.cpp\<close>) through
  which its outcome is reported. Replays are numbered; \<open>replays\<close> is their status, \<open>replay_signals\<close> what they
  emitted. \<open>crashed\<close> records that a null replay pointer was dereferenced.
\<close>

datatype WriteStatus = W_OK | W_Failed | W_InProcess | W_NotConnected

datatype replay_signal = ReplayError | ReplayFinished

record write_data =
  wd_data :: bytes
  wd_replay :: nat
  wd_done :: bool

record stream_bidirect = base_call +
  m_sendQueue :: "write_data list"
  m_inProcess :: bool
  m_currentWriteReplay :: "nat option"
  replays :: "nat \<Rightarrow> WriteStatus"
  replay_signals :: "(nat \<times> replay_signal) list"
  crashed :: bool

definition new_stream_bidirect :: stream_bidirect where
  "new_stream_bidirect = base_call.extend (new_base_call [])
     (stream_bidirect.fields [] False None (\<lambda>_. W_NotConnected) [] False)"

text \<open>\<open>QGrpcWriteReplay::setStatus\<close>, \<open>emitError\<close>, \<open>emitFinished\<close>.\<close>

definition setStatus :: "nat \<Rightarrow> WriteStatus \<Rightarrow> stream_bidirect \<Rightarrow> stream_bidirect" where
  "setStatus r st s = s\<lparr>replays := (replays s)(r := st)\<rparr>"

definition emit_replay :: "nat \<Rightarrow> replay_signal \<Rightarrow> stream_bidirect \<Rightarrow> stream_bidirect" where
  "emit_replay r sig s = s\<lparr>replay_signals := replay_signals s @ [(r, sig)]\<rparr>"

definition fail_replay :: "nat \<Rightarrow> stream_bidirect \<Rightarrow> stream_bidirect" where
  "fail_replay r s = emit_replay r ReplayFinished (emit_replay r ReplayError (setStatus r W_Failed s))"

definition bidi_startReader :: "stream_bidirect \<Rightarrow> stream_bidirect" where
  "bidi_startReader s =
     start_op FinishRead (start_op NewData (s\<lparr>m_status := default_status, m_inProcess := True\<rparr>))"

text \<open>\<open>dequeueWrite\<close>: a queued \<open>writeDone\<close> leaves \<open>m_currentWriteReplay\<close> as it is.\<close>

definition dequeueWrite :: "stream_bidirect \<Rightarrow> stream_bidirect" where
  "dequeueWrite s =
     (case m_sendQueue s of
        [] \<Rightarrow> s\<lparr>m_inProcess := False\<rparr>
      | d # queue \<Rightarrow>
          let s = s\<lparr>m_inProcess := True, m_sendQueue := queue\<rparr>
          in if wd_done d then start_op FinishWrite s
             else start_op FinishWrite
               (s\<lparr>m_currentWriteReplay := Some (wd_replay d),
                  sent := sent s @ slices (parseQByteArray (wd_data d))\<rparr>))"

definition writeDone :: "nat \<Rightarrow> stream_bidirect \<Rightarrow> stream_bidirect" where
  "writeDone replay s =
     deref_or_delete
       (if m_inProcess s
        then s\<lparr>m_sendQueue := m_sendQueue s @ [\<lparr>wd_data = [], wd_replay = replay, wd_done = True\<rparr>]\<rparr>
        else start_op FinishWrite (s\<lparr>m_currentWriteReplay := Some replay\<rparr>))"

definition appendToSend :: "bytes \<Rightarrow> nat \<Rightarrow> stream_bidirect \<Rightarrow> stream_bidirect" where
  "appendToSend data replay s =
     (if m_inProcess s
      then s\<lparr>m_sendQueue := m_sendQueue s @ [\<lparr>wd_data = data, wd_replay = replay, wd_done = False\<rparr>]\<rparr>
      else start_op FinishWrite
        (s\<lparr>m_inProcess := True, sent := sent s @ slices (parseQByteArray data),
           m_currentWriteReplay := Some replay\<rparr>))"

definition bidi_newData :: "bool \<Rightarrow> stream_bidirect \<Rightarrow> stream_bidirect" where
  "bidi_newData ok s =
     deref_or_delete
       (if \<not> ok then s\<lparr>m_readerState := ENDED\<rparr>
        else (case m_readerState s of
            FIRST_CALL \<Rightarrow> (start_op NewData (dequeueWrite s))\<lparr>m_readerState := PROCESSING\<rparr>
          | PROCESSING \<Rightarrow>
              let (st, data) = parseByteBuffer (response s) [];
                  s = s\<lparr>m_grpc_status := st\<rparr>
              in if \<not> status_ok st
                 then cancel (s\<lparr>m_status := status_of st, m_readerState := ENDED\<rparr>)
                 else start_op NewData (s\<lparr>emitted := emitted s @ [DataReady data]\<rparr>)
          | ENDED \<Rightarrow> s))"

text \<open>The end of the stream fails the write under way and every queued one.\<close>

definition fail_current :: "stream_bidirect \<Rightarrow> stream_bidirect" where
  "fail_current s =
     (if m_inProcess s then (case m_currentWriteReplay s of None \<Rightarrow> s | Some r \<Rightarrow> fail_replay r s) else s)"

fun fail_queue :: "write_data list \<Rightarrow> stream_bidirect \<Rightarrow> stream_bidirect" where
  "fail_queue [] s = s\<lparr>m_sendQueue := []\<rparr>"
| "fail_queue (d # ds) s = fail_queue ds (fail_replay (wd_replay d) s)"

definition bidi_finishRead :: "bool \<Rightarrow> stream_bidirect \<Rightarrow> stream_bidirect" where
  "bidi_finishRead ok s =
     (let s = (if m_code (m_status s) = Ok \<or> \<not> status_ok (m_grpc_status s)
               then s\<lparr>m_status := status_of (m_grpc_status s)\<rparr> else s);
          s = fail_current s;
          s = fail_queue (m_sendQueue s) s
      in deref_or_delete (s\<lparr>emitted := emitted s @ [SigFinished]\<rparr>))"

definition finish_replay :: "bool \<Rightarrow> stream_bidirect \<Rightarrow> stream_bidirect" where
  "finish_replay ok s =
     (case m_currentWriteReplay s of
        None \<Rightarrow> s\<lparr>crashed := True\<rparr>
      | Some r \<Rightarrow> if ok then emit_replay r ReplayFinished (setStatus r W_OK s) else fail_replay r s)"

definition bidi_finishWrite :: "bool \<Rightarrow> stream_bidirect \<Rightarrow> stream_bidirect" where
  "bidi_finishWrite ok s =
     (let s = deref_or_delete (finish_replay ok s)
      in if m_refCount s = 0 then s else dequeueWrite s)"

fun bidi_handler :: "tag \<Rightarrow> bool \<Rightarrow> stream_bidirect \<Rightarrow> stream_bidirect" where
  "bidi_handler NewData ok s = bidi_newData ok s"
| "bidi_handler FinishRead ok s = bidi_finishRead ok s"
| "bidi_handler FinishWrite ok s = bidi_finishWrite ok s"

text \<open>
  All histories; \<open>done\<close> says whether the user may call \<open>writeDone\<close>. A replay is in process when the
  channel hands it to the stream.
\<close>

inductive bidi_history :: "bool \<Rightarrow> stream_bidirect \<Rightarrow> bool" for allow_done where
  begins: "bidi_history allow_done (bidi_startReader new_stream_bidirect)"
| answers: "bidi_history allow_done s \<Longrightarrow> t \<in> set (pending s) \<Longrightarrow>
    bidi_history allow_done (bidi_handler t ok (take_tag t buf st s))"
| cancels: "bidi_history allow_done s \<Longrightarrow> shared s \<Longrightarrow> bidi_history allow_done (cancel s)"
| releases: "bidi_history allow_done s \<Longrightarrow> shared s \<Longrightarrow> bidi_history allow_done (sharedPtrReleased s)"
| appends: "bidi_history allow_done s \<Longrightarrow> shared s \<Longrightarrow>
    bidi_history allow_done (appendToSend data r (setStatus r W_InProcess s))"
| dones: "bidi_history allow_done s \<Longrightarrow> shared s \<Longrightarrow> allow_done \<Longrightarrow>
    bidi_history allow_done (writeDone r (setStatus r W_InProcess s))"

lemmas replay_defs = setStatus_def emit_replay_def fail_replay_def fail_current_def finish_replay_def

text \<open>Reporting to replays touches nothing the reference count depends on.\<close>

lemma fail_queue_base [simp]:
  "m_refCount (fail_queue ds s) = m_refCount s" "pending (fail_queue ds s) = pending s"
  "shared (fail_queue ds s) = shared s" "deleted (fail_queue ds s) = deleted s"
  "emitted (fail_queue ds s) = emitted s" "sent (fail_queue ds s) = sent s"
  "m_inProcess (fail_queue ds s) = m_inProcess s" "m_readerState (fail_queue ds s) = m_readerState s"
  "m_sendQueue (fail_queue ds s) = []"
  by (induction ds s rule: fail_queue.induct) (simp_all add: replay_defs)

lemma fail_current_base [simp]:
  "m_refCount (fail_current s) = m_refCount s" "pending (fail_current s) = pending s"
  "shared (fail_current s) = shared s" "deleted (fail_current s) = deleted s"
  "emitted (fail_current s) = emitted s" "sent (fail_current s) = sent s"
  "m_inProcess (fail_current s) = m_inProcess s" "m_readerState (fail_current s) = m_readerState s"
  "m_sendQueue (fail_current s) = m_sendQueue s"
  by (simp_all add: replay_defs split: option.splits)

lemma finish_replay_base [simp]:
  "m_refCount (finish_replay ok s) = m_refCount s" "pending (finish_replay ok s) = pending s"
  "shared (finish_replay ok s) = shared s" "deleted (finish_replay ok s) = deleted s"
  "emitted (finish_replay ok s) = emitted s" "sent (finish_replay ok s) = sent s"
  "m_inProcess (finish_replay ok s) = m_inProcess s" "m_readerState (finish_replay ok s) = m_readerState s"
  "m_sendQueue (finish_replay ok s) = m_sendQueue s"
  by (simp_all add: replay_defs split: option.splits)

lemma setStatus_base [simp]:
  "m_refCount (setStatus r st s) = m_refCount s" "pending (setStatus r st s) = pending s"
  "shared (setStatus r st s) = shared s" "deleted (setStatus r st s) = deleted s"
  "emitted (setStatus r st s) = emitted s" "sent (setStatus r st s) = sent s"
  "m_inProcess (setStatus r st s) = m_inProcess s" "m_readerState (setStatus r st s) = m_readerState s"
  "m_sendQueue (setStatus r st s) = m_sendQueue s"
  by (simp_all add: setStatus_def)

lemmas bidi_defs = dequeueWrite_def bidi_newData_def bidi_finishRead_def bidi_finishWrite_def
  deref_or_delete_def start_op_def cancel_def

lemmas bidi_splits = count_splits list.splits

interpretation bidi_calls: counted_call bidi_handler UNIV
proof
  fix t ok and s :: stream_bidirect
  show "m_refCount (bidi_handler t ok s) - int (length (pending (bidi_handler t ok s)))
      = m_refCount s - int (length (pending s)) - 1" if "1 \<le> m_refCount s"
    using that by (cases t) (auto simp: bidi_defs Let_def split: bidi_splits)
  show "deleted (bidi_handler t ok s) \<longleftrightarrow> deleted s \<or> m_refCount (bidi_handler t ok s) = 0" if "1 \<le> m_refCount s"
    using that by (cases t) (auto simp: bidi_defs Let_def split: bidi_splits)
  show "shared (bidi_handler t ok s) = shared s"
    by (cases t) (auto simp: bidi_defs Let_def split: bidi_splits)
  show "count_list (pending (bidi_handler t ok s)) FinishRead + count_list (emitted (bidi_handler t ok s)) SigFinished
        = count_list (pending s) FinishRead + count_list (emitted s) SigFinished + of_bool (t = FinishRead)"
    by (cases t) (auto simp: bidi_defs Let_def split: bidi_splits)
qed auto

subsection \<open>Invariants without writeDone\<close>

lemma started_bidi:
  "count_inv (bidi_startReader new_stream_bidirect)" "finish_inv (bidi_startReader new_stream_bidirect)"
  by (auto simp: bidi_startReader_def start_op_def new_stream_bidirect_def new_base_call_def base_call.defs
      stream_bidirect.defs count_inv_def finish_inv_def)

lemma append_counts: "count_inv s \<Longrightarrow> shared s \<Longrightarrow> count_inv (appendToSend data r (setStatus r' st s))"
  by (auto simp: appendToSend_def start_op_def count_inv_def)

lemma bidi_counted: "bidi_history False s \<Longrightarrow> count_inv s"
proof (induction rule: bidi_history.induct)
  case (answers s t ok buf st)
  then show ?case using bidi_calls.answer_counts [of s t ok buf st] by simp
next
  case (appends s data r)
  then show ?case by (simp add: append_counts)
next
  case begins
  show ?case by (rule started_bidi)
qed (auto simp: count_inv_def cancel_def sharedPtrReleased_def deref_or_delete_def Let_def)

text \<open>Writes in flight.\<close>

definition write_inv :: "stream_bidirect \<Rightarrow> bool" where
  "write_inv s \<longleftrightarrow>
     count_list (pending s) FinishWrite \<le> of_bool (m_inProcess s)
     \<and> (m_readerState s = FIRST_CALL \<longrightarrow> m_inProcess s \<and> FinishWrite \<notin> set (pending s))"

lemma take_tag_sel [simp]:
  "m_readerState (take_tag t buf st s) = m_readerState s" "sent (take_tag t buf st s) = sent s"
  "pending (take_tag t buf st s) = remove1 t (pending s)"
  by (simp_all add: take_tag_def)

lemma take_tag_bidi [simp]:
  "m_inProcess (take_tag t buf st (s :: stream_bidirect)) = m_inProcess s"
  "m_sendQueue (take_tag t buf st s) = m_sendQueue s"
  by (simp_all add: take_tag_def)

lemma count_other: "t \<noteq> u \<Longrightarrow> count_list (remove1 t xs) u = count_list xs u"
  by (induction xs) auto

lemma count_taken: "x \<in> set xs \<Longrightarrow> count_list (remove1 x xs) x = count_list xs x - 1"
  using count_remove1 [of x xs x] by simp

lemma dequeue_write_inv:
  "count_list (pending s) FinishWrite = 0 \<Longrightarrow> count_list (pending (dequeueWrite s)) FinishWrite \<le> of_bool (m_inProcess (dequeueWrite s))"
  by (auto simp: dequeueWrite_def start_op_def Let_def split: list.splits)

lemma dequeue_state [simp]:
  "m_readerState (dequeueWrite s) = m_readerState s"
  by (auto simp: dequeueWrite_def start_op_def Let_def split: list.splits)

lemma newData_write_inv:
  assumes "write_inv s" "NewData \<in> set (pending s)"
  shows "write_inv (bidi_newData ok (take_tag NewData buf st s))"
proof (cases "ok \<and> m_readerState s = FIRST_CALL")
  case True
  let ?s = "take_tag NewData buf st s"
  have "count_list (pending ?s) FinishWrite = 0"
    using assms True by (simp add: write_inv_def count_other count_list_0_iff)
  from dequeue_write_inv [OF this] True show ?thesis
    by (simp add: write_inv_def bidi_newData_def start_op_def deref_or_delete_def Let_def)
next
  case False
  then show ?thesis using assms
    by (auto simp: write_inv_def bidi_newData_def start_op_def cancel_def deref_or_delete_def Let_def count_other
        dest: notin_set_remove1 split: count_splits)
qed

lemma finishWrite_write_inv:
  assumes "write_inv s" "FinishWrite \<in> set (pending s)"
  shows "write_inv (bidi_finishWrite ok (take_tag FinishWrite buf st s))"
proof -
  let ?s = "deref_or_delete (finish_replay ok (take_tag FinishWrite buf st s))"
  have "count_list (pending s) FinishWrite \<le> 1" "m_readerState s \<noteq> FIRST_CALL"
    using assms by (auto simp: write_inv_def of_bool_def split: if_splits)
  then have z: "count_list (pending ?s) FinishWrite = 0" and st: "m_readerState ?s \<noteq> FIRST_CALL"
    using assms(2) by (simp_all add: deref_or_delete_def Let_def count_taken)
  show ?thesis
  proof (cases "m_refCount ?s = 0")
    case True
    with z st show ?thesis by (simp add: write_inv_def bidi_finishWrite_def)
  next
    case False
    with st dequeue_write_inv [OF z] show ?thesis by (simp add: write_inv_def bidi_finishWrite_def)
  qed
qed

lemma bidi_write_inv: "bidi_history False s \<Longrightarrow> write_inv s"
proof (induction rule: bidi_history.induct)
  case begins
  show ?case
    by (simp add: write_inv_def bidi_startReader_def start_op_def)
      (simp add: new_stream_bidirect_def new_base_call_def base_call.defs stream_bidirect.defs)
next
  case (answers s t ok buf st)
  show ?case
  proof (cases t)
    case FinishRead
    with answers show ?thesis
      by (auto simp: write_inv_def bidi_finishRead_def deref_or_delete_def Let_def count_other
          dest: notin_set_remove1)
  qed (use answers newData_write_inv finishWrite_write_inv in auto)
qed (auto simp: write_inv_def cancel_def sharedPtrReleased_def deref_or_delete_def Let_def
    appendToSend_def start_op_def split: if_splits)

subsection \<open>Properties\<close>

lemma example_history:
  "bidi_history False (appendToSend [2] 8 (setStatus 8 W_InProcess (appendToSend [1] 7
     (setStatus 7 W_InProcess (bidi_startReader new_stream_bidirect)))))"
  by (intro bidi_history.intros)
    (simp_all add: appendToSend_def bidi_startReader_def start_op_def new_stream_bidirect_def
      new_base_call_def base_call.defs stream_bidirect.defs)

text \<open>Between its acknowledgement and its end a stream knows whether a write is under way.\<close>

definition process_inv :: "stream_bidirect \<Rightarrow> bool" where
  "process_inv s \<longleftrightarrow>
     (m_readerState s = PROCESSING \<and> \<not> deleted s \<and> m_inProcess s \<longrightarrow> FinishWrite \<in> set (pending s))"

lemma dequeue_in_process: "m_inProcess (dequeueWrite s) \<Longrightarrow> FinishWrite \<in> set (pending (dequeueWrite s))"
  by (auto simp: dequeueWrite_def start_op_def Let_def split: list.splits)

lemma remove1_other: "t \<noteq> u \<Longrightarrow> u \<in> set (remove1 t xs) \<longleftrightarrow> u \<in> set xs"
  by (induction xs) auto

lemma newData_process_inv:
  assumes "process_inv s"
  shows "process_inv (bidi_newData ok (take_tag NewData buf st s))"
proof (cases "ok \<and> m_readerState s = FIRST_CALL")
  case True
  let ?s = "take_tag NewData buf st s"
  have "m_inProcess (dequeueWrite ?s) \<longrightarrow> FinishWrite \<in> set (pending (dequeueWrite ?s))"
    using dequeue_in_process by blast
  with True show ?thesis
    by (simp add: process_inv_def bidi_newData_def start_op_def deref_or_delete_def Let_def)
next
  case False
  then show ?thesis using assms
    by (auto simp: process_inv_def bidi_newData_def start_op_def cancel_def deref_or_delete_def Let_def remove1_other
        take_tag_def split: count_splits)
qed

lemma finishWrite_process_inv: "process_inv (bidi_finishWrite ok s)"
proof (cases "m_refCount (deref_or_delete (finish_replay ok s)) = 0")
  case True
  then have "deleted (deref_or_delete (finish_replay ok s))" by (simp add: deref_or_delete_def Let_def split: if_splits)
  with True show ?thesis by (simp add: process_inv_def bidi_finishWrite_def Let_def)
next
  case False
  with dequeue_in_process show ?thesis by (simp add: process_inv_def bidi_finishWrite_def Let_def)
qed

lemma bidi_process_inv: "bidi_history False s \<Longrightarrow> process_inv s"
proof (induction rule: bidi_history.induct)
  case begins
  show ?case by (simp add: process_inv_def bidi_startReader_def start_op_def new_stream_bidirect_def new_base_call_def
        base_call.defs stream_bidirect.defs)
next
  case (answers s t ok buf st)
  show ?case
  proof (cases t)
    case FinishRead
    with answers show ?thesis
      by (auto simp: process_inv_def bidi_finishRead_def deref_or_delete_def Let_def remove1_other take_tag_def)
  qed (use answers newData_process_inv finishWrite_process_inv in auto)
qed (auto simp: process_inv_def cancel_def sharedPtrReleased_def deref_or_delete_def Let_def
    appendToSend_def start_op_def split: if_splits)

text \<open>
  C26. A bidirectional stream whose user does not call \<open>writeDone\<close> is counted right, and never has two writes
  under way at once, as gRPC demands: as long as \<open>m_inProcess\<close> is false none is, so that another one may be started, and from
  the acknowledgement of the stream to its end one is under way exactly when \<open>m_inProcess\<close> is true.
\<close>

theorem bidirect_one_write_at_a_time:
  assumes "bidi_history False s"
  shows "count_list (pending s) FinishWrite \<le> of_bool (m_inProcess s)
    \<and> (m_readerState s = PROCESSING \<and> \<not> deleted s \<longrightarrow> count_list (pending s) FinishWrite = of_bool (m_inProcess s))
    \<and> (deleted s \<longleftrightarrow> \<not> shared s \<and> pending s = [])
    \<and> m_refCount s = of_bool (shared s) + int (length (pending s))"
proof -
  have one: "count_list (pending s) FinishWrite \<le> of_bool (m_inProcess s)"
    using bidi_write_inv [OF assms] by (simp add: write_inv_def)
  moreover have "count_list (pending s) FinishWrite = of_bool (m_inProcess s)"
    if "m_readerState s = PROCESSING \<and> \<not> deleted s"
    using one that bidi_process_inv [OF assms] count_notin [of FinishWrite "pending s"]
    by (cases "m_inProcess s") (auto simp: process_inv_def le_Suc_eq count_list_0_iff)
  ultimately show ?thesis using bidi_counted [OF assms] by (auto simp: count_inv_def)
qed

theorem bidirect_one_write_at_a_time_witness:
  "let s = appendToSend [2] 8 (setStatus 8 W_InProcess (appendToSend [1] 7
     (setStatus 7 W_InProcess (bidi_startReader new_stream_bidirect))))
   in count_list (pending s) FinishWrite \<le> of_bool (m_inProcess s)
    \<and> (deleted s \<longleftrightarrow> \<not> shared s \<and> pending s = [])
    \<and> m_refCount s = of_bool (shared s) + int (length (pending s))"
  unfolding Let_def using bidirect_one_write_at_a_time [OF example_history] by blast

text \<open>The messages the user wrote: those given to the library and those still queued.\<close>

definition writes_of :: "stream_bidirect \<Rightarrow> bytes list" where
  "writes_of s = sent s @ map wd_data (filter (\<lambda>d. \<not> wd_done d) (m_sendQueue s))"

lemma dequeue_writes [simp]: "writes_of (dequeueWrite s) = writes_of s"
  by (auto simp: writes_of_def dequeueWrite_def start_op_def parseQByteArray_def Let_def split: list.splits)

lemma writes_of_cong: "sent s = sent s' \<Longrightarrow> m_sendQueue s = m_sendQueue s' \<Longrightarrow> writes_of s = writes_of s'"
  by (simp add: writes_of_def)

lemma dequeue_idle: "\<not> m_inProcess (dequeueWrite s) \<Longrightarrow> m_sendQueue (dequeueWrite s) = []"
  by (auto simp: dequeueWrite_def start_op_def Let_def split: list.splits if_splits)

lemma handler_idle:
  assumes "\<not> m_inProcess s \<Longrightarrow> m_sendQueue s = []" and "\<not> m_inProcess (bidi_handler t ok s)"
  shows "m_sendQueue (bidi_handler t ok s) = []"
proof (cases t)
  case NewData
  with assms dequeue_idle [of s] show ?thesis
    by (auto simp: bidi_newData_def start_op_def cancel_def deref_or_delete_def Let_def split: count_splits)
next
  case FinishRead
  then show ?thesis by (simp add: bidi_finishRead_def deref_or_delete_def Let_def)
next
  case FinishWrite
  let ?s = "deref_or_delete (finish_replay ok s)"
  have "m_inProcess ?s = m_inProcess s" "m_sendQueue ?s = m_sendQueue s"
    by (simp_all add: deref_or_delete_def Let_def)
  with FinishWrite assms dequeue_idle [of ?s] show ?thesis
    by (auto simp: bidi_finishWrite_def Let_def split: if_splits)
qed

lemma history_idle: "bidi_history d s \<Longrightarrow> \<not> m_inProcess s \<Longrightarrow> m_sendQueue s = []"
proof (induction rule: bidi_history.induct)
  case (answers s t ok buf st)
  then show ?case using handler_idle [of "take_tag t buf st s" t ok] by simp
qed (auto simp: bidi_startReader_def start_op_def cancel_def sharedPtrReleased_def deref_or_delete_def
    appendToSend_def writeDone_def Let_def split: if_splits)

lemma append_writes: "bidi_history d s \<Longrightarrow> writes_of (appendToSend data r (setStatus r' w s)) = writes_of s @ [data]"
  using history_idle [of d s] by (auto simp: writes_of_def appendToSend_def setStatus_def start_op_def parseQByteArray_def)

lemma writeDone_writes: "writes_of (writeDone r (setStatus r' w s)) = writes_of s"
  by (auto simp: writes_of_def writeDone_def setStatus_def start_op_def deref_or_delete_def Let_def)

lemma release_writes: "writes_of (cancel s) = writes_of s" "writes_of (sharedPtrReleased s) = writes_of s"
  by (simp_all add: writes_of_def cancel_def sharedPtrReleased_def deref_or_delete_def Let_def)

lemma answer_writes:
  assumes "t \<noteq> FinishRead"
  shows "writes_of (bidi_handler t ok (take_tag t buf st s)) = writes_of s"
proof (cases t)
  case NewData
  let ?s = "take_tag t buf st s"
  have "writes_of (bidi_newData ok ?s) = writes_of (if ok \<and> m_readerState ?s = FIRST_CALL then dequeueWrite ?s else ?s)"
    by (rule writes_of_cong) (auto simp: bidi_newData_def start_op_def cancel_def deref_or_delete_def Let_def split: count_splits)
  also have "\<dots> = writes_of s" by (simp add: writes_of_def [of "take_tag t buf st s"] writes_of_def [of s])
  finally show ?thesis using NewData by simp
next
  case FinishWrite
  let ?s = "deref_or_delete (finish_replay ok (take_tag t buf st s))"
  have "writes_of ?s = writes_of s" by (rule writes_of_cong) (simp_all add: deref_or_delete_def Let_def)
  with FinishWrite show ?thesis by (simp add: bidi_finishWrite_def Let_def)
qed (use assms in simp)

text \<open>The end of the stream drops what waits.\<close>

lemma end_writes: "subseq (writes_of (bidi_handler FinishRead ok (take_tag FinishRead buf st s))) (writes_of s)"
proof -
  have "subseq as (as @ bs)" for as bs :: "bytes list" by (rule prefix_imp_subseq) simp
  then show ?thesis by (simp add: writes_of_def bidi_finishRead_def deref_or_delete_def Let_def)
qed

text \<open>
  Histories with the list of the messages the user wrote, in the order of the calls; \<open>ended\<close> says whether the end of
  the stream has been handled.
\<close>

inductive bidi_writes :: "bytes list \<Rightarrow> bool \<Rightarrow> stream_bidirect \<Rightarrow> bool" where
  begins: "bidi_writes [] False (bidi_startReader new_stream_bidirect)"
| answers: "bidi_writes ws ended s \<Longrightarrow> t \<in> set (pending s) \<Longrightarrow>
    bidi_writes ws (ended \<or> t = FinishRead) (bidi_handler t ok (take_tag t buf st s))"
| cancels: "bidi_writes ws ended s \<Longrightarrow> shared s \<Longrightarrow> bidi_writes ws ended (cancel s)"
| releases: "bidi_writes ws ended s \<Longrightarrow> shared s \<Longrightarrow> bidi_writes ws ended (sharedPtrReleased s)"
| appends: "bidi_writes ws ended s \<Longrightarrow> shared s \<Longrightarrow>
    bidi_writes (ws @ [data]) ended (appendToSend data r (setStatus r W_InProcess s))"
| dones: "bidi_writes ws ended s \<Longrightarrow> shared s \<Longrightarrow> bidi_writes ws ended (writeDone r (setStatus r W_InProcess s))"

lemma writes_history: "bidi_writes ws ended s \<Longrightarrow> bidi_history True s"
  by (induction rule: bidi_writes.induct) (auto intro: bidi_history.intros)

text \<open>
  C13. Writes are first in, first out, in every history: until the end of the stream is handled, the messages handed to
  the library followed by those that wait are the messages the user wrote, in the order of the calls, none lost and
  none twice. The end drops what waits; from then on they are a subsequence of what was written.
\<close>

theorem bidirect_writes_fifo:
  assumes "bidi_writes ws ended s"
  shows "(\<not> ended \<longrightarrow> sent s @ map wd_data (filter (\<lambda>d. \<not> wd_done d) (m_sendQueue s)) = ws)
    \<and> subseq (sent s @ map wd_data (filter (\<lambda>d. \<not> wd_done d) (m_sendQueue s))) ws"
  unfolding writes_of_def [symmetric] using assms
proof (induction rule: bidi_writes.induct)
  case begins
  show ?case by (simp add: writes_of_def bidi_startReader_def start_op_def new_stream_bidirect_def new_base_call_def
        base_call.defs stream_bidirect.defs)
next
  case (answers ws ended s t ok buf st)
  show ?case
  proof (cases "t = FinishRead")
    case True
    with answers.IH end_writes [of ok buf st s] show ?thesis by (auto intro: subseq_order.order_trans)
  qed (use answers.IH answer_writes in auto)
next
  case (appends ws ended s data r)
  then show ?case
    unfolding append_writes [OF writes_history [OF appends.hyps(1)]] by (auto intro: list_emb_append_mono)
qed (simp_all add: release_writes writeDone_writes)

lemma example_writes:
  "bidi_writes ([[1]] @ [[2]]) False (appendToSend [2] 8 (setStatus 8 W_InProcess (appendToSend [1] 7
     (setStatus 7 W_InProcess (bidi_startReader new_stream_bidirect)))))"
proof -
  have "bidi_writes ([] @ [[1]]) False (appendToSend [1] 7 (setStatus 7 W_InProcess (bidi_startReader new_stream_bidirect)))"
    by (intro bidi_writes.intros)
      (simp add: bidi_startReader_def start_op_def new_stream_bidirect_def new_base_call_def base_call.defs stream_bidirect.defs)
  then show ?thesis
    by (intro bidi_writes.appends)
      (simp_all add: appendToSend_def bidi_startReader_def start_op_def new_stream_bidirect_def
        new_base_call_def base_call.defs stream_bidirect.defs)
qed

theorem bidirect_writes_fifo_witness:
  "let s = appendToSend [2] 8 (setStatus 8 W_InProcess (appendToSend [1] 7
     (setStatus 7 W_InProcess (bidi_startReader new_stream_bidirect))))
   in sent s @ map wd_data (filter (\<lambda>d. \<not> wd_done d) (m_sendQueue s)) = [[1], [2]]"
  unfolding Let_def using bidirect_writes_fifo [OF example_writes] by simp

text \<open>A run of a given list of answers, all of them good.\<close>

definition answer :: "tag \<Rightarrow> stream_bidirect \<Rightarrow> stream_bidirect" where
  "answer t s = bidi_handler t True (take_tag t \<lparr>dump_status = ok_status, slices = []\<rparr> ok_status s)"

lemmas run_defs = answer_def take_tag_def bidi_startReader_def writeDone_def appendToSend_def
  sharedPtrReleased_def bidi_defs replay_defs parseByteBuffer_def parseQByteArray_def new_stream_bidirect_def
  new_base_call_def base_call.defs stream_bidirect.defs status_ok_def ok_status_def Let_def

text \<open>
  One call of \<open>writeDone\<close> drops a reference nobody took. There is a history with a single \<open>writeDone\<close> after
  which the stream is deleted while the library still has the tag of its \<open>Finish\<close>, whose answer will be
  delivered to freed memory.
\<close>

theorem writeDone_deletes_too_early:
  "\<exists>s. bidi_history True s \<and> deleted s \<and> pending s = [FinishRead]"
proof -
  let ?s1 = "answer NewData (bidi_startReader new_stream_bidirect)"
  let ?s2 = "answer FinishWrite (writeDone 1 (setStatus 1 W_InProcess ?s1))"
  let ?s3 = "bidi_newData False (take_tag NewData \<lparr>dump_status = ok_status, slices = []\<rparr> ok_status ?s2)"
  have "bidi_history True ?s1"
    unfolding answer_def by (rule bidi_history.answers [OF bidi_history.begins]) (simp add: run_defs)
  then have "bidi_history True (writeDone 1 (setStatus 1 W_InProcess ?s1))"
    by (rule bidi_history.dones) (simp_all add: run_defs)
  then have 2: "bidi_history True ?s2"
    unfolding answer_def [of FinishWrite] by (rule bidi_history.answers) (simp add: run_defs)
  have "bidi_history True ?s3"
    using bidi_history.answers [OF 2, of NewData False] by (simp add: run_defs)
  then have "bidi_history True (sharedPtrReleased ?s3)"
    by (rule bidi_history.releases) (simp add: run_defs)
  moreover have "deleted (sharedPtrReleased ?s3)" "pending (sharedPtrReleased ?s3) = [FinishRead]"
    by (simp_all add: run_defs)
  ultimately show ?thesis by blast
qed

text \<open>
  A \<open>writeDone\<close> that had to wait is not reported: its replay stays in process for ever, and the replay of
  the write before it is told a second time that it finished.
\<close>

theorem queued_writeDone_not_reported:
  "let s = fold answer [NewData] (bidi_startReader new_stream_bidirect);
       s = writeDone 2 (setStatus 2 W_InProcess (appendToSend [1] 1 (setStatus 1 W_InProcess s)));
       s = fold answer [FinishWrite, FinishWrite] s
   in replay_signals s = [(1, ReplayFinished), (1, ReplayFinished)] \<and> replays s 2 = W_InProcess
      \<and> m_sendQueue s = [] \<and> FinishWrite \<notin> set (pending s)"
  by code_simp

text \<open>
  A \<open>writeDone\<close> called before the server has answered, with no write before it, makes the handler of its
  completion dereference a null pointer.
\<close>

theorem early_writeDone_crashes:
  "crashed (fold answer [NewData, FinishWrite] (writeDone 1 (setStatus 1 W_InProcess (bidi_startReader new_stream_bidirect))))"
  by code_simp

end
