(* ===== verification/GrpcSessions.thy ===== *)
theory GrpcSessions
  imports GrpcBidirect
begin

section \<open>Calls and streams of the channel as the client sees them\<close>

text \<open>
  \<open>QGrpcAsyncOperationBase\<close>, \<open>QGrpcCallReply\<close>, \<open>QGrpcStream\<close> and the functions \<open>call\<close> and \<open>stream\<close> of
  \<open>QGrpcChannelPrivate\<close>, which tie such an object to the gRPC call behind it by a set of signal
  connections. A session is the object, the call and the connections that are alive; each event is a
  signal, which runs the lambda connected to it if the connection still exists. The lambdas hold the
  \<open>shared_ptr\<close> of the call: when they are disconnected, it is released.
\<close>

datatype op_signal = OpFinished | OpError qgrpc_status | OpMessage bytes

record async_op =
  m_data :: bytes
  op_signals :: "op_signal list"

definition new_op :: async_op where
  "new_op = \<lparr>m_data = [], op_signals = []\<rparr>"

definition setData :: "bytes \<Rightarrow> async_op \<Rightarrow> async_op" where
  "setData data op = op\<lparr>m_data := data\<rparr>"

definition emitFinished :: "async_op \<Rightarrow> async_op" where
  "emitFinished op = op\<lparr>op_signals := op_signals op @ [OpFinished]\<rparr>"

definition emitError :: "qgrpc_status \<Rightarrow> async_op \<Rightarrow> async_op" where
  "emitError status op = op\<lparr>op_signals := op_signals op @ [OpError status]\<rparr>"

text \<open>\<open>QGrpcStream::handler\<close>: data, user handlers, then \<open>messageReceived\<close>.\<close>

definition stream_data_handler :: "bytes \<Rightarrow> async_op \<Rightarrow> async_op" where
  "stream_data_handler data op = (setData data op)\<lparr>op_signals := op_signals op @ [OpMessage data]\<rparr>"

lemmas op_defs = setData_def emitFinished_def emitError_def stream_data_handler_def new_op_def

subsection \<open>Unary calls\<close>

record call_session =
  cs_connection :: bool
  cs_abortConnection :: bool
  cs_clientConnection :: bool
  cs_reply :: async_op
  cs_released :: bool

datatype call_event = CallFinished qgrpc_status bytes | CallChannelFinished | ReplyAbort

definition new_call_session :: call_session where
  "new_call_session = \<lparr>cs_connection = True, cs_abortConnection = True, cs_clientConnection = True,
     cs_reply = new_op, cs_released = False\<rparr>"

definition cs_disconnect :: "call_session \<Rightarrow> call_session" where
  "cs_disconnect s = s\<lparr>cs_connection := False, cs_abortConnection := False, cs_clientConnection := False,
     cs_released := True\<rparr>"

definition on_reply :: "(async_op \<Rightarrow> async_op) \<Rightarrow> call_session \<Rightarrow> call_session" where
  "on_reply f s = s\<lparr>cs_reply := f (cs_reply s)\<rparr>"

text \<open>Emitting \<open>error\<close> on the reply runs the lambda of \<open>abortConnection\<close>.\<close>

definition reply_emitError :: "qgrpc_status \<Rightarrow> call_session \<Rightarrow> call_session" where
  "reply_emitError status s =
     (let s' = on_reply (emitError status) s
      in if cs_abortConnection s' \<and> m_code status = Aborted then cs_disconnect s' else s')"

definition channel_aborted :: qgrpc_status where
  "channel_aborted = mk_status Aborted (qs ''GRPC channel aborted'')"

definition user_aborted :: qgrpc_status where
  "user_aborted = mk_status Aborted (qs ''Call aborted by user or timeout'')"

fun call_step :: "call_event \<Rightarrow> call_session \<Rightarrow> call_session" where
  "call_step CallChannelFinished s =
     (if cs_clientConnection s
      then cs_disconnect (on_reply emitFinished (reply_emitError channel_aborted (on_reply (setData []) s)))
      else s)"
| "call_step (CallFinished status parsed) s =
     (if cs_connection s
      then cs_disconnect
        (if m_code status = Ok then on_reply emitFinished (on_reply (setData parsed) s)
         else reply_emitError status (on_reply (setData []) s))
      else s)"
| "call_step ReplyAbort s = reply_emitError user_aborted (on_reply (setData []) s)"

text \<open>The synchronous call waits for the call or the worker thread to finish.\<close>

definition sync_call :: "bool \<Rightarrow> channel_call \<Rightarrow> qgrpc_status \<times> bytes" where
  "sync_call worker_finished call =
     ((if worker_finished then mk_status Aborted (qs ''Connection aborted'')
       else m_status call), responseParsed call)"

lemmas session_defs = on_reply_def reply_emitError_def cs_disconnect_def op_defs

lemma call_step_closed:
  "\<not> cs_connection s \<Longrightarrow> \<not> cs_clientConnection s \<Longrightarrow> e \<noteq> ReplyAbort \<Longrightarrow> call_step e s = s"
  by (cases e) auto

lemma call_step_closes:
  "\<not> cs_connection (call_step e new_call_session) \<and> \<not> cs_clientConnection (call_step e new_call_session)"
  by (cases e) (auto simp: session_defs new_call_session_def user_aborted_def Let_def)

subsection \<open>Streams\<close>

text \<open>The name of the remote procedure.\<close>

definition rpcName :: "qstring \<Rightarrow> qstring \<Rightarrow> qstring" where
  "rpcName service method = qs ''/'' @ service @ qs ''/'' @ method"

text \<open>\<open>'sub\<close> is the gRPC call behind the stream, a server stream or a bidirectional one.\<close>

record 'sub stream_session =
  sub :: 'sub
  ss_connection :: bool
  ss_readConnection :: bool
  ss_abortConnection :: bool
  ss_clientConnection :: bool
  ss_channelFinished :: bool
  ss_writeConnection :: bool
  ss_writeDoneConnection :: bool
  ss_stream :: async_op

definition new_session :: "'sub \<Rightarrow> bool \<Rightarrow> 'sub stream_session" where
  "new_session call writes = \<lparr>sub = call, ss_connection = True, ss_readConnection = True, ss_abortConnection = True,
     ss_clientConnection = True, ss_channelFinished = True, ss_writeConnection = writes,
     ss_writeDoneConnection = writes, ss_stream = new_op\<rparr>"

definition ss_disconnect :: "'sub stream_session \<Rightarrow> 'sub stream_session" where
  "ss_disconnect s = s\<lparr>ss_connection := False, ss_readConnection := False, ss_abortConnection := False,
     ss_clientConnection := False, ss_channelFinished := False, ss_writeConnection := False,
     ss_writeDoneConnection := False\<rparr>"

text \<open>After the lambda, the last copy of the \<open>shared_ptr\<close> is gone.\<close>

definition ss_release :: "'a base_call_scheme stream_session \<Rightarrow> 'a base_call_scheme stream_session" where
  "ss_release s = s\<lparr>sub := sharedPtrReleased (sub s)\<rparr>"

definition ss_cancel :: "'a base_call_scheme stream_session \<Rightarrow> 'a base_call_scheme stream_session" where
  "ss_cancel s = s\<lparr>sub := GrpcCalls.cancel (sub s)\<rparr>"

datatype stream_event = SubDataReady bytes | SubFinished | StreamFinished | ClientDestroyed | ChannelFinished

fun stream_step :: "stream_event \<Rightarrow> 'a base_call_scheme stream_session \<Rightarrow> 'a base_call_scheme stream_session" where
  "stream_step (SubDataReady data) s =
     (if ss_readConnection s then s\<lparr>ss_stream := stream_data_handler data (ss_stream s)\<rparr> else s)"
| "stream_step SubFinished s =
     (if ss_connection s
      then let s = ss_disconnect s;
               s = (if m_code (m_status (sub s)) \<noteq> Ok
                    then s\<lparr>ss_stream := emitError (m_status (sub s)) (ss_stream s)\<rparr> else s)
           in ss_release s
      else s)"
| "stream_step StreamFinished s =
     (let s = s\<lparr>ss_stream := emitFinished (ss_stream s)\<rparr>
      in if ss_abortConnection s then ss_release (ss_cancel (ss_disconnect s)) else s)"
| "stream_step ClientDestroyed s =
     (if ss_clientConnection s then ss_release (ss_cancel (ss_disconnect s)) else s)"
| "stream_step ChannelFinished s =
     (if ss_channelFinished s then ss_release (ss_cancel (ss_disconnect s)) else s)"

text \<open>The two signals of a bidirectional stream that write.\<close>

definition on_writeReady :: "bytes \<Rightarrow> nat \<Rightarrow> stream_bidirect stream_session \<Rightarrow> stream_bidirect stream_session" where
  "on_writeReady data r s =
     (if ss_writeConnection s then s\<lparr>sub := appendToSend data r (setStatus r W_InProcess (sub s))\<rparr> else s)"

definition on_writeDoneReady :: "nat \<Rightarrow> stream_bidirect stream_session \<Rightarrow> stream_bidirect stream_session" where
  "on_writeDoneReady r s =
     (if ss_writeDoneConnection s then s\<lparr>sub := writeDone r (setStatus r W_InProcess (sub s))\<rparr> else s)"

text \<open>All signals of a bidirectional stream and its call.\<close>

datatype bidi_event = WriteReady bytes nat | WriteDoneReady nat | StreamEvent stream_event

fun bidi_step :: "bidi_event \<Rightarrow> stream_bidirect stream_session \<Rightarrow> stream_bidirect stream_session" where
  "bidi_step (WriteReady data r) s = on_writeReady data r s"
| "bidi_step (WriteDoneReady r) s = on_writeDoneReady r s"
| "bidi_step (StreamEvent e) s = stream_step e s"

definition session_open :: "'sub stream_session \<Rightarrow> bool" where
  "session_open s \<longleftrightarrow> ss_connection s \<and> ss_readConnection s \<and> ss_abortConnection s \<and> ss_clientConnection s
     \<and> ss_channelFinished s"

definition session_closed :: "'sub stream_session \<Rightarrow> bool" where
  "session_closed s \<longleftrightarrow> \<not> ss_connection s \<and> \<not> ss_readConnection s \<and> \<not> ss_abortConnection s
     \<and> \<not> ss_clientConnection s \<and> \<not> ss_channelFinished s"

lemmas ss_defs = ss_disconnect_def ss_release_def ss_cancel_def session_open_def session_closed_def

fun is_data :: "stream_event \<Rightarrow> bool" where
  "is_data (SubDataReady _) = True"
| "is_data _ = False"

lemma stream_step_closed:
  "session_closed s \<Longrightarrow> e \<noteq> StreamFinished \<Longrightarrow> stream_step e s = s"
  by (cases e) (auto simp: session_closed_def)

lemma stream_step_closes: "session_open s \<Longrightarrow> \<not> is_data e \<Longrightarrow> session_closed (stream_step e s)"
  by (cases e) (auto simp: ss_defs Let_def)

lemma stream_step_data: "session_open s \<Longrightarrow> session_open (stream_step (SubDataReady d) s)"
  by (auto simp: session_open_def)

lemma data_steps:
  "session_open s \<Longrightarrow> session_open (fold stream_step (map SubDataReady ds) s)
     \<and> op_signals (ss_stream (fold stream_step (map SubDataReady ds) s)) = op_signals (ss_stream s) @ map OpMessage ds
     \<and> sub (fold stream_step (map SubDataReady ds) s) = sub s"
proof (induction ds arbitrary: s)
  case (Cons d ds)
  have "session_open (stream_step (SubDataReady d) s)" by (rule stream_step_data [OF Cons.prems(1)])
  from Cons.IH [OF this] Cons.prems show ?case
    by (auto simp: session_open_def stream_data_handler_def setData_def)
qed simp

subsection \<open>Properties\<close>

lemma closed_steps:
  "session_closed s \<Longrightarrow> StreamFinished \<notin> set es \<Longrightarrow> fold stream_step es s = s"
  by (induction es) (auto simp: stream_step_closed)

lemma closed_call_steps:
  "\<not> cs_connection s \<Longrightarrow> \<not> cs_clientConnection s \<Longrightarrow> ReplyAbort \<notin> set es \<Longrightarrow> fold call_step es s = s"
  by (induction es) (auto simp: call_step_closed)

text \<open>
  An asynchronous call is reported once: the first of the end of the call, the end of the channel and an
  abort by the user decides what the reply holds and emits, and whatever comes later from the call or the
  channel changes nothing.
\<close>

theorem call_reported_once:
  assumes "ReplyAbort \<notin> set es"
  shows "cs_reply (fold call_step es (call_step e new_call_session)) =
    (case e of
       CallFinished st data \<Rightarrow>
         if m_code st = Ok then \<lparr>m_data = data, op_signals = [OpFinished]\<rparr>
         else \<lparr>m_data = [], op_signals = [OpError st]\<rparr>
     | CallChannelFinished \<Rightarrow> \<lparr>m_data = [], op_signals = [OpError channel_aborted, OpFinished]\<rparr>
     | ReplyAbort \<Rightarrow> \<lparr>m_data = [], op_signals = [OpError user_aborted]\<rparr>)"
proof -
  have "fold call_step es (call_step e new_call_session) = call_step e new_call_session"
    using call_step_closes [of e] assms by (intro closed_call_steps) auto
  then show ?thesis
    by (cases e) (auto simp: session_defs new_call_session_def Let_def)
qed

theorem call_reported_once_witness:
  "cs_reply (fold call_step [CallChannelFinished] (call_step (CallFinished default_status [1, 2]) new_call_session))
    = (case CallFinished default_status [1, 2] of
       CallFinished st data \<Rightarrow>
         if m_code st = Ok then \<lparr>m_data = data, op_signals = [OpFinished]\<rparr>
         else \<lparr>m_data = [], op_signals = [OpError st]\<rparr>
     | CallChannelFinished \<Rightarrow> \<lparr>m_data = [], op_signals = [OpError channel_aborted, OpFinished]\<rparr>
     | ReplyAbort \<Rightarrow> \<lparr>m_data = [], op_signals = [OpError user_aborted]\<rparr>)"
  by (rule call_reported_once) simp

text \<open>
  A stream hands every message on, in order, until the first event that ends it: the server closes it,
  the user aborts it, the client or the channel goes away. After that nothing reaches the stream, the call
  behind it is cancelled unless the server ended it, and its \<open>shared_ptr\<close> is released.
\<close>

theorem stream_session_ends:
  fixes call :: "'a base_call_scheme" and w ds es e
  assumes "\<not> is_data e" and "StreamFinished \<notin> set es"
  defines "s \<equiv> fold stream_step es (stream_step e (fold stream_step (map SubDataReady ds) (new_session call w)))"
  shows "op_signals (ss_stream s) = map OpMessage ds @
      (case e of
         SubFinished \<Rightarrow> if m_code (m_status call) = Ok then [] else [OpError (m_status call)]
       | StreamFinished \<Rightarrow> [OpFinished]
       | _ \<Rightarrow> [])
    \<and> sub s = sharedPtrReleased (if e = SubFinished then call else GrpcCalls.cancel call)"
proof -
  let ?s1 = "fold stream_step (map SubDataReady ds) (new_session call w)"
  have open0: "session_open (new_session call w)" by (simp add: session_open_def new_session_def)
  note d = data_steps [OF open0, of ds]
  have "session_closed (stream_step e ?s1)" using d assms(1) by (intro stream_step_closes) auto
  then have s: "s = stream_step e ?s1" unfolding s_def using assms(2) by (rule closed_steps)
  have "op_signals (ss_stream (new_session call w)) = []" "sub (new_session call w) = call"
    by (simp_all add: new_session_def new_op_def)
  with d have "session_open ?s1" "op_signals (ss_stream ?s1) = map OpMessage ds" "sub ?s1 = call" by auto
  with assms(1) show ?thesis
    unfolding s by (cases e) (auto simp: ss_defs emitError_def emitFinished_def Let_def)
qed

theorem stream_session_ends_witness:
  "let s = fold stream_step [ChannelFinished] (stream_step StreamFinished (fold stream_step (map SubDataReady [[1], [2]])
       (new_session (startReader (new_base_call [])) False)))
   in op_signals (ss_stream s) = map OpMessage [[1], [2]] @ [OpFinished]
    \<and> sub s = sharedPtrReleased (GrpcCalls.cancel (startReader (new_base_call [])))"
  using stream_session_ends [of StreamFinished "[ChannelFinished]" "[[1], [2]]" "startReader (new_base_call [])" False]
  by (simp add: Let_def)

text \<open>
  When the server closes a stream without an error, the stream object is told nothing: neither
  \<open>finished\<close> nor \<open>error\<close> is emitted.
\<close>

theorem server_close_not_reported:
  assumes "m_code (m_status call) = Ok"
  shows "op_signals (ss_stream (stream_step SubFinished (fold stream_step (map SubDataReady ds) (new_session call w))))
    = map OpMessage ds"
proof -
  have "session_open (new_session call w)" by (simp add: session_open_def new_session_def)
  from data_steps [OF this, of ds] assms show ?thesis
    by (auto simp: ss_defs Let_def new_session_def new_op_def)
qed

theorem server_close_not_reported_witness:
  "op_signals (ss_stream (stream_step SubFinished (fold stream_step (map SubDataReady [[1], [2]])
      (new_session (startReader (new_base_call [])) False)))) = map OpMessage [[1], [2]]"
  by (rule server_close_not_reported) (simp add: startReader_def start_op_def)

end
