(* ===== verification/Http2Channel.thy ===== *)
theory Http2Channel
  imports BasicCodec GrpcSessions
begin

section \<open>QGrpcHttp2Channel\<close>

text \<open>
  The HTTP/2 channel (\<open>qgrpchttp2channel.cpp\<close>): how a request is framed, how a reply becomes a status and
  data, how the chunks of a stream are put together into messages, and what the end of a stream leads to.
  \<open>QNetworkReply\<close> is Qt code: \<open>network_reply\<close> is what the channel reads from it.
\<close>

datatype NetworkError = NoError | ConnectionRefusedError | RemoteHostClosedError | HostNotFoundError
  | TimeoutError | OperationCanceledError | SslHandshakeFailedError | TemporaryNetworkFailureError
  | NetworkSessionFailedError | BackgroundRequestNotAllowedError | TooManyRedirectsError
  | InsecureRedirectError | UnknownNetworkError | ProxyConnectionRefusedError | ProxyConnectionClosedError
  | ProxyNotFoundError | ProxyTimeoutError | ProxyAuthenticationRequiredError | UnknownProxyError
  | ContentAccessDenied | ContentOperationNotPermittedError | ContentNotFoundError
  | AuthenticationRequiredError | ContentReSendError | ContentConflictError | ContentGoneError
  | UnknownContentError | ProtocolUnknownError | ProtocolInvalidOperationError | ProtocolFailure
  | InternalServerError | OperationNotImplementedError | ServiceUnavailableError | UnknownServerError

definition StatusCodeMap :: "(NetworkError \<times> StatusCode) list" where
  "StatusCodeMap =
    [(ConnectionRefusedError, Unavailable), (RemoteHostClosedError, Unavailable),
     (HostNotFoundError, Unavailable), (TimeoutError, DeadlineExceeded),
     (OperationCanceledError, Unavailable), (SslHandshakeFailedError, PermissionDenied),
     (TemporaryNetworkFailureError, Unknown), (NetworkSessionFailedError, Unavailable),
     (BackgroundRequestNotAllowedError, Unknown), (TooManyRedirectsError, Unavailable),
     (InsecureRedirectError, PermissionDenied), (UnknownNetworkError, Unknown),
     (ProxyConnectionRefusedError, Unavailable), (ProxyConnectionClosedError, Unavailable),
     (ProxyNotFoundError, Unavailable), (ProxyTimeoutError, DeadlineExceeded),
     (ProxyAuthenticationRequiredError, Unauthenticated), (UnknownProxyError, Unknown),
     (ContentAccessDenied, PermissionDenied), (ContentOperationNotPermittedError, PermissionDenied),
     (ContentNotFoundError, NotFound), (AuthenticationRequiredError, PermissionDenied),
     (ContentReSendError, DataLoss), (ContentConflictError, InvalidArgument),
     (ContentGoneError, DataLoss), (UnknownContentError, Unknown), (ProtocolUnknownError, Unknown),
     (ProtocolInvalidOperationError, Unimplemented), (ProtocolFailure, Unknown),
     (InternalServerError, Internal), (OperationNotImplementedError, Unimplemented),
     (ServiceUnavailableError, Unavailable), (UnknownServerError, Unknown)]"

text \<open>\<open>StatusCodeMap.at\<close> throws when there is no entry.\<close>

definition status_at :: "NetworkError \<Rightarrow> StatusCode outcome" where
  "status_at e = (case map_of StatusCodeMap e of Some c \<Rightarrow> Ret c | None \<Rightarrow> throw Out_of_range)"

definition GrpcMessageSizeHeaderSize :: int where "GrpcMessageSizeHeaderSize = 5"

subsection \<open>Requests\<close>

record http_request =
  rq_path :: string
  rq_headers :: "(string \<times> bytes) list"
  rq_body :: bytes
  rq_timeout :: bool

text \<open>
  \<open>qToBigEndian\<close> on a little endian host reverses the bytes of its argument. The type of \<open>args.size()\<close> is
  the type \<open>'s\<close>: the \<open>qsizetype\<close> of Qt 6 is 64 bits wide on a 64 bit machine and 32 bits on a 32 bit one. The result is stored through
  an \<open>int\<close> pointer, so that its low 32 bits are kept.
\<close>

definition qToBigEndian :: "'s::len word \<Rightarrow> 's word" where
  "qToBigEndian w = from_le (rev (le_bytes w))"

definition frame :: "'s::len itself \<Rightarrow> bytes \<Rightarrow> bytes" where
  "frame size_type args =
     [0] @ le_bytes (ucast (qToBigEndian (word_of_nat (length args) :: 's word)) :: 32 word) @ args"

text \<open>\<open>setRawHeader\<close> replaces a header of the same name; the case of letters does not count.\<close>

definition lower_case :: "string \<Rightarrow> string" where
  "lower_case s = map (\<lambda>c. if 65 \<le> (of_char c :: nat) \<and> (of_char c :: nat) \<le> 90 then char_of ((of_char c :: nat) + 32) else c) s"

definition setRawHeader :: "string \<times> bytes \<Rightarrow> (string \<times> bytes) list \<Rightarrow> (string \<times> bytes) list" where
  "setRawHeader h headers = filter (\<lambda>g. lower_case (fst g) \<noteq> lower_case (fst h)) headers @ [h]"

definition post :: "'s::len itself \<Rightarrow> (string \<times> bytes) list \<Rightarrow> string \<Rightarrow> string \<Rightarrow> bytes \<Rightarrow> bool \<Rightarrow> http_request" where
  "post size_type callCredentials method service args stream =
     \<lparr>rq_path = ''/'' @ service @ ''/'' @ method,
      rq_headers = fold setRawHeader callCredentials
        [(''content-type'', ascii ''application/grpc''),
         (''grpc-accept-encoding'', ascii ''identity,deflate,gzip''),
         (''accept-encoding'', ascii ''identity,gzip''), (''te'', ascii ''trailers'')],
      rq_body = frame size_type args,
      rq_timeout = \<not> stream\<rparr>"

subsection \<open>Replies\<close>

record network_reply =
  nr_error :: NetworkError
  nr_running :: bool
  nr_finished :: bool
  nr_grpc_status :: int
  nr_grpc_message :: qstring
  nr_data :: bytes

datatype reply_fate = Aborting | Deleting

definition abortNetworkReply :: "network_reply \<Rightarrow> reply_fate" where
  "abortNetworkReply r = (if nr_running r then Aborting else Deleting)"

definition processReply :: "network_reply \<Rightarrow> (StatusCode \<times> bytes) outcome" where
  "processReply r =
     (if nr_error r \<noteq> NoError then and_then (status_at (nr_error r)) (\<lambda>c. Ret (c, []))
      else if status_cast (nr_grpc_status r) \<noteq> Ok then Ret (status_cast (nr_grpc_status r), [])
      else Ret (Ok, drop (nat GrpcMessageSizeHeaderSize) (nr_data r)))"

definition http2_call :: "network_reply \<Rightarrow> (qgrpc_status \<times> bytes) outcome" where
  "http2_call r = and_then (processReply r) (\<lambda>(c, data). Ret (mk_status c (nr_grpc_message r), data))"

text \<open>What the lambdas of the asynchronous call make of the reply object.\<close>

datatype reply_report = ReportFinished bytes | ReportError qgrpc_status

definition on_reply_finished :: "network_reply \<Rightarrow> reply_report outcome" where
  "on_reply_finished r =
     and_then (processReply r) (\<lambda>(c, data).
       Ret (if c = Ok then ReportFinished data else ReportError (mk_status c (nr_grpc_message r))))"

text \<open>
  The asynchronous call: the end of the network reply is reported once, the abort of the call by the user
  breaks both connections.
\<close>

record http2_call_session =
  hc_connection :: bool
  hc_abortConnection :: bool
  hc_reply :: async_op

datatype http2_call_event = NetworkFinished network_reply | CallAborted

definition new_http2_call :: http2_call_session where
  "new_http2_call = \<lparr>hc_connection = True, hc_abortConnection = True, hc_reply = new_op\<rparr>"

definition hc_disconnect :: "http2_call_session \<Rightarrow> http2_call_session" where
  "hc_disconnect s = s\<lparr>hc_connection := False, hc_abortConnection := False\<rparr>"

fun http2_call_step :: "http2_call_event \<Rightarrow> http2_call_session \<Rightarrow> http2_call_session outcome" where
  "http2_call_step (NetworkFinished r) s =
     (if hc_connection s
      then and_then (on_reply_finished r) (\<lambda>report.
             let s = hc_disconnect s
             in Ret (s\<lparr>hc_reply := (case report of
                  ReportFinished data \<Rightarrow> emitFinished (setData data (hc_reply s))
                | ReportError st \<Rightarrow> emitError st (setData [] (hc_reply s)))\<rparr>))
      else Ret s)"
| "http2_call_step CallAborted s =
     (let s' = s\<lparr>hc_reply := emitError user_aborted (setData [] (hc_reply s))\<rparr>
      in Ret (if hc_abortConnection s' then hc_disconnect s' else s'))"

fun http2_call_run :: "http2_call_event list \<Rightarrow> http2_call_session \<Rightarrow> http2_call_session outcome" where
  "http2_call_run [] s = Ret s"
| "http2_call_run (e # es) s = and_then (http2_call_step e s) (http2_call_run es)"

text \<open>The constructor: an https url needs a TLS configuration.\<close>

definition http2_channel_scheme :: "string \<Rightarrow> bool \<Rightarrow> string outcome" where
  "http2_channel_scheme scheme has_ssl_config =
     (if scheme = ''https'' then (if has_ssl_config then Ret scheme else throw Invalid_argument)
      else if scheme = [] then Ret ''http'' else Ret scheme)"

subsection \<open>Chunks of a stream\<close>

text \<open>
  \<open>getExpectedDataSize\<close> reads the four bytes behind the first one; a container of less than four bytes (and
  the zero behind it) is read out of bounds.
\<close>

definition getExpectedDataSize :: "bytes \<Rightarrow> int outcome" where
  "getExpectedDataSize container =
     (if length container < 4 then undefined_by Overread
      else let n = sint (qToBigEndian (from_le (take 4 (drop 1 (container @ [0]))) :: 32 word));
               size = n + GrpcMessageSizeHeaderSize
           in if in_int size then Ret size else undefined_by Int_overflow)"

record expected_data =
  expectedSize :: int
  container :: bytes

text \<open>\<open>QByteArray::mid\<close> and \<open>remove\<close> with a negative length.\<close>

definition mid :: "bytes \<Rightarrow> int \<Rightarrow> int \<Rightarrow> bytes" where
  "mid bs pos len = (if len < 0 then drop (nat pos) bs else take (nat len) (drop (nat pos) bs))"

definition remove_front :: "bytes \<Rightarrow> int \<Rightarrow> bytes" where
  "remove_front bs len = (if len \<le> 0 then bs else drop (nat len) bs)"

text \<open>The loop over the complete messages of the container. \<open>fuel\<close> bounds the turns.\<close>

fun readyRead_loop :: "nat \<Rightarrow> bool \<Rightarrow> expected_data \<Rightarrow> bytes list \<Rightarrow> (expected_data \<times> bytes list) outcome" where
  "readyRead_loop 0 finished d out = No_fuel"
| "readyRead_loop (Suc fuel) finished d out =
     (if int (length (container d)) \<ge> expectedSize d \<and> \<not> finished
      then let msg = mid (container d) GrpcMessageSizeHeaderSize (expectedSize d - GrpcMessageSizeHeaderSize);
               rest = remove_front (container d) (expectedSize d)
           in if int (length rest) > GrpcMessageSizeHeaderSize
              then and_then (getExpectedDataSize rest) (\<lambda>n.
                     readyRead_loop fuel finished \<lparr>expectedSize = n, container = rest\<rparr> (out @ [msg]))
              else readyRead_loop fuel finished (d\<lparr>container := rest\<rparr>) (out @ [msg])
      else Ret (d, out))"

text \<open>
  The slot of \<open>readyRead\<close>: \<open>entry\<close> is what \<open>activeStreamReplies\<close> has for the reply; the result is the new entry
  and the messages given to the handler of the stream.
\<close>

definition readyRead :: "nat \<Rightarrow> bool \<Rightarrow> bytes \<Rightarrow> expected_data option \<Rightarrow>
    (expected_data option \<times> bytes list) outcome" where
  "readyRead fuel finished data entry =
     and_then
       (case entry of
          Some d \<Rightarrow> Ret (Inr d)
        | None \<Rightarrow> and_then (getExpectedDataSize data) (\<lambda>expectedDataSize.
            Ret (if expectedDataSize = 0 then Inl () else Inr \<lparr>expectedSize = expectedDataSize, container = []\<rparr>)))
       (\<lambda>first. case first of
          Inl _ \<Rightarrow> Ret (None, [[]])
        | Inr d \<Rightarrow>
            and_then (readyRead_loop fuel finished (d\<lparr>container := container d @ data\<rparr>) []) (\<lambda>(d, out).
              Ret (if int (length (container d)) < GrpcMessageSizeHeaderSize \<or> finished then None else Some d, out)))"

subsection \<open>The end of a stream\<close>

datatype stream_end = Reconnect | EndFinished | EndError qgrpc_status

definition on_stream_finished :: "network_reply \<Rightarrow> qstring \<Rightarrow> stream_end outcome" where
  "on_stream_finished r errorText =
     (case nr_error r of
        RemoteHostClosedError \<Rightarrow> Ret Reconnect
      | NoError \<Rightarrow> and_then (processReply r) (\<lambda>(c, _).
          Ret (if c \<noteq> Ok then EndError (mk_status c (nr_grpc_message r)) else EndFinished))
      | e \<Rightarrow> and_then (status_at e) (\<lambda>c. Ret (EndError (mk_status c errorText))))"

subsection \<open>Sessions\<close>

text \<open>
  \<open>QGrpcHttp2Channel::stream\<close>: the object, the reply behind it and the connections between them. \<open>h_posts\<close> counts
  the requests, \<open>h_fates\<close> is what happened to the replies that were given up. The reply is deleted after the
  slot that ends it, and its connections with it.
\<close>

record http2_stream =
  h_entry :: "expected_data option"
  h_readConnection :: bool
  h_abortConnection :: bool
  h_finishConnection :: bool
  h_clientConnection :: bool
  h_stream :: async_op
  h_posts :: nat
  h_fates :: "reply_fate list"

definition http2_begin :: "async_op \<Rightarrow> nat \<Rightarrow> reply_fate list \<Rightarrow> http2_stream" where
  "http2_begin op posts fates = \<lparr>h_entry = None, h_readConnection = True, h_abortConnection = True,
     h_finishConnection = True, h_clientConnection = True, h_stream = op, h_posts = Suc posts, h_fates = fates\<rparr>"

datatype http2_event = ReadyRead bool bytes | ReplyFinished network_reply qstring
  | Http2StreamFinished network_reply | Http2ClientDestroyed network_reply

definition http2_close :: "network_reply \<Rightarrow> http2_stream \<Rightarrow> http2_stream" where
  "http2_close r s = s\<lparr>h_readConnection := False, h_abortConnection := False, h_finishConnection := False,
     h_clientConnection := False, h_fates := h_fates s @ [abortNetworkReply r]\<rparr>"

fun http2_step :: "nat \<Rightarrow> http2_event \<Rightarrow> http2_stream \<Rightarrow> http2_stream outcome" where
  "http2_step fuel (ReadyRead finished data) s =
     (if h_readConnection s
      then and_then (readyRead fuel finished data (h_entry s)) (\<lambda>(entry, ms).
             Ret (s\<lparr>h_entry := entry, h_stream := fold stream_data_handler ms (h_stream s)\<rparr>))
      else Ret s)"
| "http2_step fuel (ReplyFinished r errorText) s =
     (if h_finishConnection s
      then let s = http2_close r (s\<lparr>h_entry := None\<rparr>)
           in and_then (on_stream_finished r errorText) (\<lambda>e. Ret (case e of
                Reconnect \<Rightarrow> http2_begin (h_stream s) (h_posts s) (h_fates s)
              | EndFinished \<Rightarrow> s\<lparr>h_stream := emitFinished (h_stream s)\<rparr>
              | EndError st \<Rightarrow> s\<lparr>h_stream := emitError st (h_stream s)\<rparr>))
      else Ret s)"
| "http2_step fuel (Http2StreamFinished r) s =
     (let s = s\<lparr>h_stream := emitFinished (h_stream s)\<rparr>
      in Ret (if h_abortConnection s then http2_close r s else s))"
| "http2_step fuel (Http2ClientDestroyed r) s =
     Ret (if h_clientConnection s then http2_close r (s\<lparr>h_entry := None\<rparr>) else s)"

fun http2_run :: "nat \<Rightarrow> http2_event list \<Rightarrow> http2_stream \<Rightarrow> http2_stream outcome" where
  "http2_run fuel [] s = Ret s"
| "http2_run fuel (e # es) s = and_then (http2_step fuel e s) (http2_run fuel es)"

subsection \<open>The header of a message\<close>

lemma le_bytes_from_le:
  assumes "length bs = LENGTH('v::len) div 8" "8 dvd LENGTH('v)"
  shows "le_bytes (from_le bs :: 'v word) = bs"
proof (rule nth_equalityI)
  show "length (le_bytes (from_le bs :: 'v word)) = length bs" using assms by simp
next
  fix i assume "i < length (le_bytes (from_le bs :: 'v word))"
  then have i: "i < length bs" "i < LENGTH('v) div 8" using assms by auto
  show "le_bytes (from_le bs :: 'v word) ! i = bs ! i"
  proof (rule bit_word_eqI)
    fix n assume n: "n < LENGTH(8)"
    have "8 * i + n < LENGTH('v)" using i(2) n assms(2) by auto
    moreover have "(8 * i + n) div 8 = i" "(8 * i + n) mod 8 = n" using n by auto
    ultimately show "bit (le_bytes (from_le bs :: 'v word) ! i) n = bit (bs ! i) n"
      using i n by (simp add: le_bytes_def bit_simps bit_from_le)
  qed
qed

lemma qToBigEndian_involution:
  "8 dvd LENGTH('v::len) \<Longrightarrow> qToBigEndian (qToBigEndian w) = (w :: 'v word)"
  by (simp add: qToBigEndian_def le_bytes_from_le from_le_bytes)

definition header :: "nat \<Rightarrow> bytes" where
  "header n = 0 # le_bytes (qToBigEndian (word_of_nat n :: 32 word))"

lemma length_header [simp]: "length (header n) = 5"
  by (simp add: header_def)

lemma frame_32: "frame TYPE(32) m = header (length m) @ m"
  by (simp add: frame_def header_def)

lemma getExpectedDataSize_header:
  assumes "n < 2147483643"
  shows "getExpectedDataSize (header n @ rest) = Ret (int n + 5)"
proof -
  have "sint (word_of_nat n :: 32 word) = int n"
    using assms by (simp add: signed_of_nat signed_take_bit_int_eq_self_iff)
  then show ?thesis
    using assms by (simp add: getExpectedDataSize_def header_def GrpcMessageSizeHeaderSize_def from_le_bytes
        qToBigEndian_involution int_limits Let_def)
qed

subsection \<open>Reassembling messages\<close>

text \<open>
  The reference: \<open>deframe\<close> cuts a buffer into its complete messages and what is left. The channel implements it
  as long as no chunk ends inside a header; \<open>cut_ok\<close> says that at every start of a message inside the buffer
  there is nothing or more than a header left.
\<close>

definition msg_size :: "bytes \<Rightarrow> nat" where
  "msg_size buf = unat (qToBigEndian (from_le (take 4 (drop 1 buf)) :: 32 word))"

function deframe :: "bytes \<Rightarrow> bytes list \<times> bytes" where
  "deframe buf =
     (if length buf < 5 \<or> length buf < msg_size buf + 5 then ([], buf)
      else let (ms, rest) = deframe (drop (msg_size buf + 5) buf)
           in (take (msg_size buf) (drop 5 buf) # ms, rest))"
  by pat_completeness auto
termination by (relation "measure length") auto

declare deframe.simps [simp del]

function cut_ok :: "bytes \<Rightarrow> bool" where
  "cut_ok buf \<longleftrightarrow> buf = [] \<or>
     5 < length buf \<and> msg_size buf < 2147483643 \<and>
     (if length buf < msg_size buf + 5 then True else cut_ok (drop (msg_size buf + 5) buf))"
  by pat_completeness auto
termination by (relation "measure length") auto

declare cut_ok.simps [simp del]

text \<open>The first message of the buffer may be a header alone.\<close>

definition first_ok :: "bytes \<Rightarrow> bool" where
  "first_ok buf \<longleftrightarrow>
     5 \<le> length buf \<and> msg_size buf < 2147483643 \<and>
     (if length buf < msg_size buf + 5 then True else cut_ok (drop (msg_size buf + 5) buf))"

lemma getExpectedDataSize_msg:
  assumes "5 \<le> length buf" "msg_size buf < 2147483643"
  shows "getExpectedDataSize buf = Ret (int (msg_size buf) + 5)"
proof -
  let ?w = "qToBigEndian (from_le (take 4 (drop 1 buf)) :: 32 word)"
  have t: "take 4 (drop 1 (buf @ [0])) = take 4 (drop 1 buf)" using assms(1) by simp
  have m: "int (msg_size buf) = uint ?w" unfolding msg_size_def by (rule uint_nat [symmetric])
  have "uint ?w < 2147483643" using assms(2) unfolding m [symmetric] by simp
  then have "sint ?w = int (msg_size buf)"
    unfolding m sint_uint by (simp add: signed_take_bit_int_eq_self_iff order.trans [OF _ uint_ge_0])
  then show ?thesis
    using assms by (simp add: getExpectedDataSize_def t GrpcMessageSizeHeaderSize_def int_limits Let_def)
qed

lemma cut_ok_first: "cut_ok buf \<Longrightarrow> buf \<noteq> [] \<Longrightarrow> first_ok buf \<and> 5 < length buf"
  using cut_ok.simps [of buf] by (auto simp: first_ok_def split: if_splits)

lemma deframe_Nil [simp]: "deframe [] = ([], [])"
  by (subst deframe.simps) simp

lemma deframe_more:
  "5 \<le> length buf \<Longrightarrow> msg_size buf + 5 \<le> length buf \<Longrightarrow>
     deframe buf = (take (msg_size buf) (drop 5 buf) # fst (deframe (drop (msg_size buf + 5) buf)),
       snd (deframe (drop (msg_size buf + 5) buf)))"
  using deframe.simps [of buf] by (simp add: split_beta)

text \<open>What the entry of a reply stands for: the bytes that do not make a message yet.\<close>

definition entry_ok :: "expected_data option \<Rightarrow> bytes \<Rightarrow> bool" where
  "entry_ok entry buf \<longleftrightarrow>
     (case entry of
        None \<Rightarrow> buf = []
      | Some d \<Rightarrow> container d = buf \<and> 5 \<le> length buf \<and> length buf < msg_size buf + 5
          \<and> expectedSize d = int (msg_size buf) + 5)"

lemma readyRead_loop_deframes:
  assumes "first_ok (container d)" "expectedSize d = int (msg_size (container d)) + 5"
    "length (container d) < fuel"
  shows "\<exists>d'. readyRead_loop fuel False d out = Ret (d', out @ fst (deframe (container d)))
    \<and> container d' = snd (deframe (container d))
    \<and> (snd (deframe (container d)) = [] \<or> entry_ok (Some d') (snd (deframe (container d))))"
  using assms
proof (induction "container d" arbitrary: d out fuel rule: deframe.induct)
  case 1
  let ?buf = "container d" and ?n = "msg_size (container d)"
  from "1.prems"(3) obtain f where f: "fuel = Suc f" by (cases fuel) auto
  show ?case
  proof (cases "length ?buf < ?n + 5")
    case True
    then have "deframe ?buf = ([], ?buf)" by (subst deframe.simps) simp
    with True "1.prems" show ?thesis by (auto simp: f first_ok_def entry_ok_def)
  next
    case False
    let ?rest = "drop (?n + 5) ?buf"
    have n: "nat (int ?n + 5) = ?n + 5" by simp
    have len: "5 \<le> length ?buf" and cut: "cut_ok ?rest" using "1.prems"(1) False by (auto simp: first_ok_def)
    note df = deframe_more [OF len]
    have msg: "mid ?buf GrpcMessageSizeHeaderSize (expectedSize d - GrpcMessageSizeHeaderSize) = take ?n (drop 5 ?buf)"
      by (simp add: mid_def GrpcMessageSizeHeaderSize_def "1.prems"(2))
    have rem: "remove_front ?buf (expectedSize d) = ?rest"
      by (simp add: remove_front_def "1.prems"(2) n)
    show ?thesis
    proof (cases "?rest = []")
      case True
      with False "1.prems"(2,3) msg rem df len show ?thesis
        by (cases f) (auto simp: f GrpcMessageSizeHeaderSize_def)
    next
      case neq: False
      from cut_ok_first [OF cut neq] have fo: "first_ok ?rest" and l5: "5 < length ?rest" by auto
      let ?d = "\<lparr>expectedSize = int (msg_size ?rest) + 5, container = ?rest\<rparr>"
      have size: "getExpectedDataSize ?rest = Ret (int (msg_size ?rest) + 5)"
        using fo by (intro getExpectedDataSize_msg) (auto simp: first_ok_def)
      have "\<not> (length ?buf < 5 \<or> length ?buf < ?n + 5)" using False len by simp
      moreover have "length ?rest < f" using "1.prems"(3) len False f by auto
      ultimately obtain d' where
        "readyRead_loop f False ?d (out @ [take ?n (drop 5 ?buf)])
           = Ret (d', (out @ [take ?n (drop 5 ?buf)]) @ fst (deframe ?rest))"
        "container d' = snd (deframe ?rest)"
        "snd (deframe ?rest) = [] \<or> entry_ok (Some d') (snd (deframe ?rest))"
        using "1.hyps" [of ?d f "out @ [take ?n (drop 5 ?buf)]"] fo by auto
      with False len df l5 size msg rem "1.prems"(2) show ?thesis
        by (auto simp: f GrpcMessageSizeHeaderSize_def)
    qed
  qed
qed

lemma readyRead_deframes:
  assumes "entry_ok entry buf" "data \<noteq> []" "first_ok (buf @ data)" "length (buf @ data) < fuel"
    "snd (deframe (buf @ data)) = [] \<or> 5 \<le> length (snd (deframe (buf @ data)))"
  shows "\<exists>entry'. readyRead fuel False data entry = Ret (entry', fst (deframe (buf @ data)))
    \<and> entry_ok entry' (snd (deframe (buf @ data)))"
proof -
  let ?d = "\<lparr>expectedSize = int (msg_size (buf @ data)) + 5, container = buf @ data\<rparr>"
  obtain d' where d': "readyRead_loop fuel False ?d [] = Ret (d', fst (deframe (buf @ data)))"
    "container d' = snd (deframe (buf @ data))"
    "snd (deframe (buf @ data)) = [] \<or> entry_ok (Some d') (snd (deframe (buf @ data)))"
    using readyRead_loop_deframes [of ?d fuel "[]"] assms by auto
  have fin: "entry_ok (if int (length (container d')) < GrpcMessageSizeHeaderSize \<or> False then None else Some d')
      (snd (deframe (buf @ data)))"
    using d'(2,3) assms(5) by (auto simp: GrpcMessageSizeHeaderSize_def entry_ok_def)
  show ?thesis
  proof (cases entry)
    case None
    with assms(1) have buf: "buf = []" by (simp add: entry_ok_def)
    have "getExpectedDataSize data = Ret (int (msg_size data) + 5)"
      using assms(3) buf by (intro getExpectedDataSize_msg) (auto simp: first_ok_def)
    with d' fin None buf show ?thesis by (simp add: readyRead_def)
  next
    case (Some d)
    with assms(1) have d: "container d = buf" "5 \<le> length buf" "expectedSize d = int (msg_size buf) + 5"
      by (auto simp: entry_ok_def)
    have "msg_size (buf @ data) = msg_size buf" using d(2) by (simp add: msg_size_def)
    then have "d\<lparr>container := container d @ data\<rparr> = ?d" using d by (cases d) simp
    with d' fin Some show ?thesis by (simp add: readyRead_def)
  qed
qed

lemma first_ok_rest:
  "first_ok buf \<Longrightarrow> snd (deframe buf) = [] \<or> 5 \<le> length (snd (deframe buf))"
proof (induction buf rule: deframe.induct)
  case (1 buf)
  show ?case
  proof (cases "length buf < msg_size buf + 5")
    case True
    with 1 show ?thesis using deframe.simps [of buf] by (auto simp: first_ok_def)
  next
    case False
    let ?rest = "drop (msg_size buf + 5) buf"
    have "cut_ok ?rest" "5 \<le> length buf" using 1 False by (auto simp: first_ok_def)
    with False 1 show ?thesis
      using deframe_more [of buf] cut_ok_first [of ?rest] by (cases "?rest = []") auto
  qed
qed

text \<open>A stream is its sequence of chunks, each one a \<open>readyRead\<close>.\<close>

fun receive :: "nat \<Rightarrow> expected_data option \<Rightarrow> bytes list \<Rightarrow> (expected_data option \<times> bytes list) outcome" where
  "receive fuel entry [] = Ret (entry, [])"
| "receive fuel entry (c # cs) =
     and_then (readyRead fuel False c entry) (\<lambda>(entry', ms).
       and_then (receive fuel entry' cs) (\<lambda>(entry'', ms'). Ret (entry'', ms @ ms')))"

fun chunks_ok :: "bytes \<Rightarrow> bytes list \<Rightarrow> bool" where
  "chunks_ok buf [] \<longleftrightarrow> True"
| "chunks_ok buf (c # cs) \<longleftrightarrow> c \<noteq> [] \<and> first_ok (buf @ c) \<and> chunks_ok (snd (deframe (buf @ c))) cs"

lemma deframe_append:
  "deframe (buf @ tail) = (fst (deframe buf) @ fst (deframe (snd (deframe buf) @ tail)),
     snd (deframe (snd (deframe buf) @ tail)))"
proof (induction buf rule: deframe.induct)
  case (1 buf)
  show ?case
  proof (cases "length buf < 5 \<or> length buf < msg_size buf + 5")
    case True
    then have "deframe buf = ([], buf)" using deframe.simps [of buf] by simp
    then show ?thesis by simp
  next
    case False
    have same: "msg_size (buf @ tail) = msg_size buf" using False by (simp add: msg_size_def)
    with False 1 [OF False] show ?thesis
      using deframe_more [of "buf @ tail"] deframe_more [of buf] by auto
  qed
qed

lemma length_deframe_rest: "length (snd (deframe buf)) \<le> length buf"
proof (induction buf rule: deframe.induct)
  case (1 buf)
  then show ?case using deframe.simps [of buf] by (auto simp: split_beta)
qed

lemma receive_deframes:
  assumes "entry_ok entry buf" "chunks_ok buf cs" "length buf + length (concat cs) < fuel"
  shows "\<exists>entry'. receive fuel entry cs = Ret (entry', fst (deframe (buf @ concat cs)) )
    \<and> entry_ok entry' (snd (deframe (buf @ concat cs)))"
  using assms
proof (induction cs arbitrary: entry buf)
  case Nil
  then have "deframe buf = ([], buf)" using deframe.simps [of buf]
    by (auto simp: entry_ok_def split: option.splits)
  with Nil show ?case by simp
next
  case (Cons c cs)
  let ?rest = "snd (deframe (buf @ c))"
  have fo: "first_ok (buf @ c)" "c \<noteq> []" "chunks_ok ?rest cs" using Cons.prems by auto
  obtain entry' where e: "readyRead fuel False c entry = Ret (entry', fst (deframe (buf @ c)))" "entry_ok entry' ?rest"
    using readyRead_deframes [OF Cons.prems(1) fo(2,1) _ first_ok_rest [OF fo(1)], of fuel] Cons.prems(3) by auto
  have "length ?rest + length (concat cs) < fuel"
    using length_deframe_rest [of "buf @ c"] Cons.prems(3) by simp
  from Cons.IH [OF e(2) fo(3) this] e show ?case
    using deframe_append [of "buf @ c" "concat cs"] by (auto simp: split_beta)
qed

lemma deframe_frames:
  assumes "\<forall>m \<in> set ms. length m < 2147483643"
  shows "deframe (concat (map (frame TYPE(32)) ms)) = (ms, [])"
  using assms
proof (induction ms)
  case (Cons m ms)
  let ?more = "concat (map (frame TYPE(32)) ms)"
  have "msg_size (frame TYPE(32) m @ ?more) = length m"
    using Cons.prems by (simp add: msg_size_def frame_32 header_def from_le_bytes qToBigEndian_involution unat_of_nat)
  moreover have "deframe ?more = (ms, [])" using Cons by simp
  moreover have "frame TYPE(32) m @ ?more = header (length m) @ m @ ?more" by (simp only: frame_32 append_assoc)
  ultimately show ?case
    using deframe_more [of "frame TYPE(32) m @ ?more"] by simp
qed simp

lemma chunks_reassembled:
  assumes "concat cs = concat (map (frame TYPE(32)) ms)" "\<forall>m \<in> set ms. length m < 2147483643"
    and "chunks_ok [] cs" "length (concat cs) < fuel"
  shows "receive fuel None cs = Ret (None, ms)"
proof -
  obtain entry where "receive fuel None cs = Ret (entry, fst (deframe (concat cs)))"
    "entry_ok entry (snd (deframe (concat cs)))"
    using receive_deframes [of None "[]" cs fuel] assms(3,4) by (auto simp: entry_ok_def)
  with deframe_frames [OF assms(2)] assms(1) show ?thesis
    by (cases entry) (auto simp: entry_ok_def)
qed

lemma msg_size_header: "n < 4294967296 \<Longrightarrow> msg_size (header n @ tail) = n"
  by (simp add: msg_size_def header_def from_le_bytes qToBigEndian_involution unat_of_nat)

lemma small_headers: "header 2 = [0, 0, 0, 0, 2]" "header 1 = [0, 0, 0, 0, 1]"
  by code_simp+

lemma small_sizes: "msg_size (0 # 0 # 0 # 0 # 2 # tail) = 2" "msg_size (0 # 0 # 0 # 0 # 1 # tail) = 1"
  using msg_size_header [of 2 tail] msg_size_header [of 1 tail] by (simp_all add: small_headers del: One_nat_def)

lemma two_frames:
  "concat [[0, 0, 0, 0, 2, 7], [8, 0, 0, 0, 0, 1, 9]] = concat (map (frame TYPE(32)) [[7, 8], [9]])"
  by (simp add: frame_32 small_headers [unfolded One_nat_def numeral_2_eq_2])

lemma two_frames_ok: "chunks_ok [] [[0, 0, 0, 0, 2, 7], [8, 0, 0, 0, 0, 1, 9]]"
  by (simp add: first_ok_def small_sizes cut_ok.simps deframe.simps)

definition ok_reply :: network_reply where
  "ok_reply = \<lparr>nr_error = NoError, nr_running = False, nr_finished = True, nr_grpc_status = 0,
     nr_grpc_message = [], nr_data = []\<rparr>"

lemma StatusCodeMap_total: "map_of StatusCodeMap e \<in> {None, Some Ok} \<longleftrightarrow> e = NoError"
  by (cases e) (simp_all add: StatusCodeMap_def)

lemma status_at_error: "e \<noteq> NoError \<Longrightarrow> status_at e = Ret (the (map_of StatusCodeMap e))"
  using StatusCodeMap_total [of e] by (cases "map_of StatusCodeMap e") (auto simp: status_at_def)

lemma on_stream_finished_result:
  "on_stream_finished r errorText = Ret (case nr_error r of RemoteHostClosedError \<Rightarrow> Reconnect
     | NoError \<Rightarrow> if nr_grpc_status r = 0 then EndFinished
         else EndError (mk_status (status_cast (nr_grpc_status r)) (nr_grpc_message r))
     | err \<Rightarrow> EndError (mk_status (the (map_of StatusCodeMap err)) errorText))"
  by (cases "nr_error r") (simp_all add: on_stream_finished_def processReply_def status_at_error status_cast_Ok)

lemma http2_run_append:
  "http2_run fuel (es @ es') s = and_then (http2_run fuel es s) (http2_run fuel es')"
proof (induction es arbitrary: s)
  case (Cons e es)
  then show ?case by (cases "http2_step fuel e s") auto
qed simp

lemma http2_run_chunks:
  assumes "receive fuel (h_entry s) cs = Ret (entry, ms)" "h_readConnection s"
  shows "http2_run fuel (map (ReadyRead False) cs) s
    = Ret (s\<lparr>h_entry := entry, h_stream := fold stream_data_handler ms (h_stream s)\<rparr>)"
  using assms
proof (induction cs arbitrary: s ms)
  case (Cons c cs)
  then obtain entry' ms1 ms2 where r: "readyRead fuel False c (h_entry s) = Ret (entry', ms1)"
    "receive fuel entry' cs = Ret (entry, ms2)" "ms = ms1 @ ms2"
    by (auto simp: and_then_Ret_iff split_beta)
  let ?s = "s\<lparr>h_entry := entry', h_stream := fold stream_data_handler ms1 (h_stream s)\<rparr>"
  have "http2_step fuel (ReadyRead False c) s = Ret ?s" using r Cons.prems(2) by simp
  moreover have "http2_run fuel (map (ReadyRead False) cs) ?s
      = Ret (?s\<lparr>h_entry := entry, h_stream := fold stream_data_handler ms2 (h_stream ?s)\<rparr>)"
    using r Cons.prems(2) by (intro Cons.IH) auto
  ultimately show ?case using r(3) by simp
qed simp

lemma stream_data_handler_signals:
  "op_signals (fold stream_data_handler ms op) = op_signals op @ map OpMessage ms"
  by (induction ms arbitrary: op) (auto simp: stream_data_handler_def)

subsection \<open>Properties\<close>

text \<open>
  C8. A stream over HTTP/2 from its request to its end: the messages the server framed reach the stream in order,
  however their bytes are spread over the chunks, as long as a chunk that begins with a message has all of its header, and
  wherever a chunk goes on behind the end of a message, more than the five bytes of a header follow (which leaves out an
  empty message at the end of a chunk that completes another one). Then comes the one report
  that the end of the reply calls for; when the remote host closed the connection, a new request is made
  instead, with no bytes left over from the old one.
\<close>

theorem http2_stream_delivers:
  assumes "concat cs = concat (map (frame TYPE(32)) ms)" "\<forall>m \<in> set ms. length m < 2147483643"
    and "chunks_ok [] cs" "length (concat cs) < fuel"
  shows "\<exists>s. http2_run fuel (map (ReadyRead False) cs @ [ReplyFinished r errorText]) (http2_begin new_op 0 []) = Ret s
    \<and> h_entry s = None
    \<and> h_posts s = (if nr_error r = RemoteHostClosedError then 2 else 1)
    \<and> op_signals (h_stream s) = map OpMessage ms @
        (if nr_error r = RemoteHostClosedError then []
         else if nr_error r = NoError \<and> nr_grpc_status r = 0 then [OpFinished]
         else if nr_error r = NoError then [OpError (mk_status (status_cast (nr_grpc_status r)) (nr_grpc_message r))]
         else [OpError (mk_status (the (map_of StatusCodeMap (nr_error r))) errorText)])"
proof -
  have "receive fuel (h_entry (http2_begin new_op 0 [])) cs = Ret (None, ms)"
    using chunks_reassembled [OF assms] by (simp add: http2_begin_def)
  then have run: "http2_run fuel (map (ReadyRead False) cs) (http2_begin new_op 0 [])
      = Ret ((http2_begin new_op 0 [])\<lparr>h_entry := None,
          h_stream := fold stream_data_handler ms (h_stream (http2_begin new_op 0 []))\<rparr>)"
    by (rule http2_run_chunks) (simp add: http2_begin_def)
  have sig: "op_signals (fold stream_data_handler ms new_op) = map OpMessage ms"
    by (simp add: stream_data_handler_signals new_op_def)
  show ?thesis
    unfolding http2_run_append run
    by (cases "nr_error r") (simp_all add: on_stream_finished_result http2_begin_def http2_close_def Let_def sig
      emitFinished_def emitError_def)
qed

theorem http2_stream_delivers_witness:
  "\<exists>s. http2_run 20 (map (ReadyRead False) [[0, 0, 0, 0, 2, 7], [8, 0, 0, 0, 0, 1, 9]] @ [ReplyFinished ok_reply []])
      (http2_begin new_op 0 []) = Ret s
    \<and> h_entry s = None \<and> h_posts s = 1
    \<and> op_signals (h_stream s) = [OpMessage [7, 8], OpMessage [9], OpFinished]"
proof -
  have "\<forall>m \<in> set [[7, 8], [9 :: byte]]. length m < 2147483643" by simp
  moreover have "length (concat [[0, 0, 0, 0, 2, 7], [8, 0, 0, 0, 0, 1, 9 :: byte]]) < 20" by simp
  ultimately show ?thesis
    using http2_stream_delivers [OF two_frames _ two_frames_ok, of 20 ok_reply "[]"] by (simp add: ok_reply_def)
qed

text \<open>
  A chunk that ends inside the header of the next message loses the part of the header it has: the message
  before it is delivered and the entry of the stream is erased. With an empty message behind another one in the
  same chunk the size of the first one is kept, so that the empty message is not delivered.
\<close>

theorem split_header_lost:
  assumes "m \<noteq> []" "length m < 2147483643" "0 < k" "k < 5"
  shows "readyRead (Suc (Suc fuel)) False (frame TYPE(32) m @ take k (header n)) None = Ret (None, [m])
    \<and> readyRead (Suc (Suc fuel)) False (frame TYPE(32) m @ frame TYPE(32) []) None
        = Ret (Some \<lparr>expectedSize = int (length m) + 5, container = frame TYPE(32) []\<rparr>, [m])"
proof -
  have size: "getExpectedDataSize (frame TYPE(32) m @ tail) = Ret (int (length m) + 5)" for tail
    using getExpectedDataSize_header [OF assms(2), of "m @ tail"] by (simp add: frame_32)
  have n: "nat (int (length m) + 5) = length m + 5" by simp
  have loop: "readyRead_loop (Suc (Suc fuel)) False \<lparr>expectedSize = int (length m) + 5, container = frame TYPE(32) m @ tail\<rparr> []
      = Ret (\<lparr>expectedSize = int (length m) + 5, container = tail\<rparr>, [m])" if "length tail \<le> 5" for tail fuel
  proof -
    have "\<not> int (length m) + 5 \<le> int (length tail)" using that assms(1) by (cases m) auto
    with that show ?thesis
      by (simp add: frame_32 mid_def remove_front_def GrpcMessageSizeHeaderSize_def n)
  qed
  show ?thesis
    using assms(3,4)
    by (simp add: readyRead_def size loop frame_32 [of "[]"] GrpcMessageSizeHeaderSize_def del: readyRead_loop.simps)
qed

theorem split_header_lost_witness:
  "readyRead (Suc (Suc 0)) False (frame TYPE(32) [7] @ take 3 (header 4)) None = Ret (None, [[7]])
    \<and> readyRead (Suc (Suc 0)) False (frame TYPE(32) [7] @ frame TYPE(32) []) None
        = Ret (Some \<lparr>expectedSize = int (length [7 :: byte]) + 5, container = frame TYPE(32) []\<rparr>, [[7]])"
  by (rule split_header_lost) simp_all

text \<open>
  A first chunk whose length field is negative when read as an \<open>int\<close> makes the slot call the handler of the
  stream for ever: no number of turns of the loop is enough.
\<close>

theorem negative_size_never_ends:
  assumes "getExpectedDataSize data = Ret n" "n < 0"
  shows "readyRead fuel False data None = No_fuel"
proof -
  have loop: "readyRead_loop fuel False \<lparr>expectedSize = n, container = data\<rparr> out = No_fuel" for out
  proof (induction fuel arbitrary: out)
    case (Suc fuel)
    then show ?case using assms by (simp add: remove_front_def Let_def)
  qed simp
  show ?thesis using assms by (simp add: readyRead_def loop)
qed

theorem negative_size_never_ends_witness:
  "getExpectedDataSize [0, 255, 255, 255, 0, 1] = Ret (-251)
    \<and> (\<forall>fuel. readyRead fuel False [0, 255, 255, 255, 0, 1] None = No_fuel)"
proof -
  have "getExpectedDataSize [0, 255, 255, 255, 0, 1] = Ret (-251)" by code_simp
  with negative_size_never_ends [OF this] show ?thesis by simp
qed

lemma bit_qToBigEndian:
  "8 dvd LENGTH('v::len) \<Longrightarrow> bit (qToBigEndian (w :: 'v word)) n \<longleftrightarrow>
     n < LENGTH('v) \<and> bit w (8 * (LENGTH('v) div 8 - Suc (n div 8)) + n mod 8)"
proof -
  assume "8 dvd LENGTH('v)"
  then have "n < LENGTH('v) \<Longrightarrow> n div 8 < LENGTH('v) div 8" by (auto elim!: dvdE simp: less_mult_imp_div_less mult.commute)
  then show ?thesis
    by (auto simp: qToBigEndian_def bit_from_le rev_nth le_bytes_def bit_simps add.commute)
qed

text \<open>
  C27. The length field of a request: with a 32 bit \<open>size()\<close> the receiver reads the length of the message back;
  with the 64 bit \<open>size()\<close> of a 64 bit machine the field is zero for every message shorter than four gigabytes.
\<close>

theorem request_length_field:
  assumes "length args < 2147483643"
  shows "getExpectedDataSize (frame TYPE(32) args @ rest) = Ret (int (length args) + 5)
    \<and> frame TYPE(64) args = replicate 5 0 @ args"
proof -
  have "(ucast (qToBigEndian (word_of_nat (length args) :: 64 word)) :: 32 word) = 0"
  proof (rule bit_word_eqI)
    fix n assume n: "n < LENGTH(32)"
    let ?k = "8 * (LENGTH(64) div 8 - Suc (n div 8)) + n mod 8"
    have "n div 8 \<le> 3" using n by simp
    then have k: "32 \<le> ?k" by simp
    have "length args < 2 ^ ?k"
      using assms power_increasing [OF k, of "2 :: nat"] by simp
    then have "\<not> bit (length args) ?k" by (simp add: bit_iff_odd)
    then have "\<not> bit (word_of_nat (length args) :: 64 word) ?k" by (simp add: bit_of_nat_iff)
    then have "\<not> bit (qToBigEndian (word_of_nat (length args) :: 64 word)) n" by (simp add: bit_qToBigEndian)
    then show "bit (ucast (qToBigEndian (word_of_nat (length args) :: 64 word)) :: 32 word) n = bit (0 :: 32 word) n"
      unfolding bit_unsigned_iff by simp
  qed
  moreover have "le_bytes (0 :: 32 word) = replicate 4 0" by code_simp
  ultimately have "frame TYPE(64) args = replicate 5 0 @ args"
    by (simp add: frame_def numeral_eq_Suc)
  then show ?thesis
    using getExpectedDataSize_header [OF assms, of "args @ rest"] by (simp add: frame_32)
qed

theorem request_length_field_witness:
  "getExpectedDataSize (frame TYPE(32) [1, 2, 3] @ [9]) = Ret (int (length [1, 2, 3 :: byte]) + 5)
    \<and> frame TYPE(64) [1, 2, 3] = replicate 5 0 @ [1, 2, 3]"
  by (rule request_length_field) simp

lemma on_reply_finished_result:
  "on_reply_finished r =
    Ret (if nr_error r = NoError \<and> nr_grpc_status r = 0 then ReportFinished (drop 5 (nr_data r))
         else ReportError (mk_status
           (if nr_error r = NoError then status_cast (nr_grpc_status r) else the (map_of StatusCodeMap (nr_error r)))
           (nr_grpc_message r)))"
proof (cases "nr_error r = NoError")
  case True
  then show ?thesis by (simp add: on_reply_finished_def processReply_def status_cast_Ok GrpcMessageSizeHeaderSize_def)
next
  case False
  with StatusCodeMap_total [of "nr_error r"] obtain c where "map_of StatusCodeMap (nr_error r) = Some c" "c \<noteq> Ok"
      by (cases "map_of StatusCodeMap (nr_error r)") auto
    with False show ?thesis by (simp add: on_reply_finished_def processReply_def status_at_def)
qed

lemma closed_http2_call:
  "\<not> hc_connection s \<Longrightarrow> http2_call_run (map NetworkFinished rs) s = Ret s"
  by (induction rs) auto

text \<open>
  Every reply of an asynchronous call is reported, once: data without the header of the message and
  \<open>finished\<close> exactly when neither the network nor the server reported an error, else an error with a code
  that is not \<open>Ok\<close> (no network error is missing in the map of codes); after an abort nothing else is.
\<close>

theorem http2_call_reported:
  "(\<exists>s. http2_call_run (NetworkFinished r # map NetworkFinished rs) new_http2_call = Ret s \<and> hc_reply s =
      (if nr_error r = NoError \<and> nr_grpc_status r = 0 then \<lparr>m_data = drop 5 (nr_data r), op_signals = [OpFinished]\<rparr>
       else \<lparr>m_data = [], op_signals = [OpError (mk_status
           (if nr_error r = NoError then status_cast (nr_grpc_status r) else the (map_of StatusCodeMap (nr_error r)))
           (nr_grpc_message r))]\<rparr>))
   \<and> (\<exists>s. http2_call_run (CallAborted # map NetworkFinished rs) new_http2_call = Ret s
        \<and> hc_reply s = \<lparr>m_data = [], op_signals = [OpError user_aborted]\<rparr>)
   \<and> {e. map_of StatusCodeMap e \<in> {None, Some Ok}} = {NoError}"
proof (intro conjI)
  show "{e. map_of StatusCodeMap e \<in> {None, Some Ok}} = {NoError}"
    by (simp only: StatusCodeMap_total singleton_conv)
qed (simp_all add: on_reply_finished_result new_http2_call_def hc_disconnect_def op_defs closed_http2_call Let_def)

end
