(* ===== verification/GrpcClient.thy ===== *)
theory GrpcClient
  imports Http2Channel WireProperties
begin

section \<open>QAbstractGrpcClient\<close>

text \<open>
  The base class of the generated clients (\<open>qabstractgrpcclient.h\<close>, \<open>qabstractgrpcclient.cpp\<close>): typed calls on top
  of a channel, and the streams a client has open. Method names come from the proto file, so the conversion to
  Latin-1 keeps them. Calls from another thread are forwarded and have the same result; the model is the
  thread of the client.

  Objects are numbered. \<open>c_objects\<close> is what an object holds, \<open>c_connected\<close> the objects whose connections to the
  client exist (their lambdas hold a reference), \<open>c_held\<close> the ones the user holds, \<open>c_started\<close> the calls of
  \<open>channel->stream\<close>, \<open>c_timers\<close> the restarts that are due, \<open>c_errors\<close> the \<open>error\<close> signals of the client.
\<close>

record grpc_channel =
  ch_call :: "string \<Rightarrow> string \<Rightarrow> bytes \<Rightarrow> (qgrpc_status \<times> bytes) outcome"
  ch_has_serializer :: bool

record grpc_stream =
  st_bidirect :: bool
  st_method :: string
  st_arg :: bytes
  st_handlers :: "nat list"

record client =
  c_service :: string
  c_channel :: "grpc_channel option"
  activeStreams :: "nat list"
  activeStreamsBidirect :: "nat list"
  c_objects :: "nat \<Rightarrow> grpc_stream"
  c_next :: nat
  c_connected :: "nat set"
  c_held :: "nat set"
  c_started :: "nat list"
  c_timers :: "nat list"
  c_errors :: "qgrpc_status list"

definition new_client :: "string \<Rightarrow> client" where
  "new_client service = \<lparr>c_service = service, c_channel = None, activeStreams = [], activeStreamsBidirect = [],
     c_objects = (\<lambda>_. \<lparr>st_bidirect = False, st_method = [], st_arg = [], st_handlers = []\<rparr>), c_next = 0, c_connected = {}, c_held = {},
     c_started = [], c_timers = [], c_errors = []\<rparr>"

definition client_error :: "qgrpc_status \<Rightarrow> client \<Rightarrow> client" where
  "client_error st c = c\<lparr>c_errors := c_errors c @ [st]\<rparr>"

definition no_channel :: qgrpc_status where
  "no_channel = mk_status Unknown (qs ''No channel(s) attached.'')"

definition client_serializer :: "client \<Rightarrow> bool" where
  "client_serializer c = (case c_channel c of None \<Rightarrow> False | Some ch \<Rightarrow> ch_has_serializer ch)"

subsection \<open>Calls\<close>

definition client_call :: "string \<Rightarrow> bytes \<Rightarrow> client \<Rightarrow> (qgrpc_status \<times> bytes \<times> client) outcome" where
  "client_call method arg c =
     and_then (case c_channel c of
         Some ch \<Rightarrow> ch_call ch method (c_service c) arg
       | None \<Rightarrow> Ret (no_channel, []))
       (\<lambda>(callStatus, ret).
         Ret (callStatus, ret, if m_code callStatus \<noteq> Ok then client_error callStatus c else c))"

definition not_ready :: "string \<Rightarrow> qgrpc_status" where
  "not_ready what = mk_status Unknown (qs (what @ '' failed. Serializer is not ready''))"

definition trySerialize :: "serializer_env \<Rightarrow> nat \<Rightarrow> nat \<Rightarrow> message \<Rightarrow> client \<Rightarrow> (bytes \<times> bool \<times> client) outcome" where
  "trySerialize X fuel cls arg c =
     (if \<not> client_serializer c then Ret ([], False, client_error (not_ready ''Serializing'') c)
      else and_then (serialize X fuel cls arg) (\<lambda>data. Ret (data, True, c)))"

definition deserialize_error :: "exn \<Rightarrow> qgrpc_status" where
  "deserialize_error e =
     (case e of
        Invalid_argument \<Rightarrow> mk_status InvalidArgument (qs ''Response deserialization failed invalid field found'')
      | Out_of_range \<Rightarrow> mk_status OutOfRange (qs ''Invalid size of received buffer'')
      | _ \<Rightarrow> mk_status Internal (qs ''Unknown exception caught during deserialization''))"

definition tryDeserialize :: "serializer_env \<Rightarrow> nat \<Rightarrow> nat \<Rightarrow> message \<Rightarrow> bytes \<Rightarrow> client \<Rightarrow>
    (qgrpc_status \<times> message \<times> client) outcome" where
  "tryDeserialize X fuel cls ret retData c =
     (if client_serializer c
      then let (value, ended) = deserialize X fuel cls ret retData
           in case ended of
                Ret _ \<Rightarrow> Ret (default_status, value, c)
              | Fail (Exn e) \<Rightarrow> Ret (deserialize_error e, value, client_error (deserialize_error e) c)
              | Fail (UB u) \<Rightarrow> undefined_by u
              | No_fuel \<Rightarrow> No_fuel
      else Ret (not_ready ''Deserializing'', ret, client_error (not_ready ''Deserializing'') c))"

text \<open>
  \<open>QGrpcAsyncOperationBase::read<T>\<close>: the last data of an operation as a message. A deserialization error is
  reported by the client and leaves what was read before it; without a client the result is a new object.
\<close>

definition op_read :: "serializer_env \<Rightarrow> nat \<Rightarrow> nat \<Rightarrow> client option \<Rightarrow> async_op \<Rightarrow> (message \<times> client option) outcome" where
  "op_read X fuel cls m_client op =
     (case m_client of
        None \<Rightarrow> Ret (new_message X cls, None)
      | Some c \<Rightarrow> and_then (tryDeserialize X fuel cls (new_message X cls) (m_data op) c)
                    (\<lambda>(_, value, c). Ret (value, Some c)))"

text \<open>The typed synchronous call; \<open>ret\<close> is \<open>None\<close> for a null pointer.\<close>

definition typed_call :: "serializer_env \<Rightarrow> nat \<Rightarrow> nat \<Rightarrow> string \<Rightarrow> nat \<Rightarrow> message \<Rightarrow> nat \<Rightarrow> message option \<Rightarrow> client \<Rightarrow>
    (qgrpc_status \<times> message option \<times> client) outcome" where
  "typed_call X n fuel method acls arg rcls ret c =
     (case ret of
        None \<Rightarrow>
          let st = mk_status InvalidArgument
                (qs (''Unable to call method: '' @ method @ ''. Pointer to return data is null''))
          in Ret (st, None, client_error st c)
      | Some r \<Rightarrow>
          and_then (trySerialize X n acls arg c) (\<lambda>(argData, ok, c).
            if ok
            then and_then (client_call method argData c) (\<lambda>(status, retData, c).
                   if m_code status = Ok
                   then and_then (tryDeserialize X fuel rcls r retData c) (\<lambda>(status, value, c).
                          Ret (status, Some value, c))
                   else Ret (status, Some r, c))
            else Ret (not_ready ''Serializing'', Some r, c)))"

text \<open>
  The asynchronous call: the reply is connected to the client until its first \<open>error\<close> or \<open>finished\<close>;
  \<open>reply_signal\<close> is what the client makes of a signal of the reply. The result is what the channel is called with.
\<close>

definition client_call_async :: "string \<Rightarrow> bytes \<Rightarrow> client \<Rightarrow> (string \<times> string \<times> bytes) option \<times> client" where
  "client_call_async method arg c =
     (case c_channel c of
        Some ch \<Rightarrow> (Some (method, c_service c, arg), c)
      | None \<Rightarrow> (None, client_error no_channel c))"

fun reply_signal :: "op_signal \<Rightarrow> bool \<times> client \<Rightarrow> bool \<times> client" where
  "reply_signal (OpError st) (connected, c) = (if connected then (False, client_error st c) else (False, c))"
| "reply_signal OpFinished (connected, c) = (False, c)"
| "reply_signal (OpMessage _) s = s"

definition typed_call_async :: "serializer_env \<Rightarrow> nat \<Rightarrow> string \<Rightarrow> nat \<Rightarrow> message \<Rightarrow> client \<Rightarrow>
    ((string \<times> string \<times> bytes) option \<times> client) outcome" where
  "typed_call_async X fuel method acls arg c =
     and_then (trySerialize X fuel acls arg c) (\<lambda>(argData, ok, c).
       Ret (if ok then client_call_async method argData c else (None, c)))"

subsection \<open>Streams\<close>

definition stream_eq :: "grpc_stream \<Rightarrow> grpc_stream \<Rightarrow> bool" where
  "stream_eq a b \<longleftrightarrow> st_method a = st_method b \<and> st_arg a = st_arg b"

definition bidirect_eq :: "grpc_stream \<Rightarrow> grpc_stream \<Rightarrow> bool" where
  "bidirect_eq a b \<longleftrightarrow> st_method a = st_method b"

definition new_stream :: "bool \<Rightarrow> string \<Rightarrow> bytes \<Rightarrow> nat option \<Rightarrow> grpc_stream" where
  "new_stream bidirect method arg handler =
     \<lparr>st_bidirect = bidirect, st_method = method, st_arg = arg, st_handlers = (case handler of None \<Rightarrow> [] | Some h \<Rightarrow> [h])\<rparr>"

definition addHandler :: "nat option \<Rightarrow> grpc_stream \<Rightarrow> grpc_stream" where
  "addHandler handler s =
     (case handler of None \<Rightarrow> s | Some h \<Rightarrow> s\<lparr>st_handlers := st_handlers s @ [h]\<rparr>)"

text \<open>A new object, connected and handed to the channel.\<close>

definition start_stream :: "grpc_stream \<Rightarrow> client \<Rightarrow> client" where
  "start_stream s c =
     c\<lparr>c_objects := (c_objects c)(c_next c := s), c_connected := insert (c_next c) (c_connected c),
       c_held := insert (c_next c) (c_held c), c_started := c_started c @ [c_next c], c_next := Suc (c_next c)\<rparr>"

definition client_stream :: "string \<Rightarrow> bytes \<Rightarrow> nat option \<Rightarrow> client \<Rightarrow> nat option \<times> client" where
  "client_stream method arg handler c =
     (case c_channel c of
        None \<Rightarrow> (None, client_error no_channel c)
      | Some ch \<Rightarrow>
          let s = new_stream False method arg handler
          in case find (\<lambda>i. stream_eq (c_objects c i) s) (activeStreams c) of
               Some i \<Rightarrow> (Some i, c\<lparr>c_objects := (c_objects c)(i := addHandler handler (c_objects c i)),
                   c_held := insert i (c_held c)\<rparr>)
             | None \<Rightarrow> (Some (c_next c), (start_stream s c)\<lparr>activeStreams := activeStreams c @ [c_next c]\<rparr>))"

definition client_streamBidirect :: "string \<Rightarrow> bytes \<Rightarrow> nat option \<Rightarrow> client \<Rightarrow> nat option \<times> client" where
  "client_streamBidirect method arg handler c =
     (case c_channel c of
        None \<Rightarrow> (None, client_error no_channel c)
      | Some ch \<Rightarrow>
          let s = new_stream True method [] handler
          in case find (\<lambda>i. bidirect_eq (c_objects c i) s) (activeStreamsBidirect c) of
               Some i \<Rightarrow> (Some i, c\<lparr>c_objects := (c_objects c)(i := addHandler handler (c_objects c i)),
                   c_held := insert i (c_held c)\<rparr>)
             | None \<Rightarrow> (Some (c_next c), (start_stream s c)\<lparr>activeStreamsBidirect := activeStreamsBidirect c @ [c_next c]\<rparr>))"

text \<open>
  The typed streams: \<open>ret\<close> is \<open>None\<close> for the overload without a result object, \<open>Some False\<close> for a null pointer;
  the handler \<open>h\<close> deserializes into the object.
\<close>

definition typed_stream :: "serializer_env \<Rightarrow> nat \<Rightarrow> string \<Rightarrow> nat \<Rightarrow> message \<Rightarrow> bool option \<Rightarrow> nat \<Rightarrow> client \<Rightarrow>
    (nat option \<times> client) outcome" where
  "typed_stream X fuel method acls arg ret h c =
     (if ret = Some False
      then Ret (None, client_error (mk_status InvalidArgument
             (qs (''Unable to stream method: '' @ method @ ''. Pointer to return data is null''))) c)
      else and_then (trySerialize X fuel acls arg c) (\<lambda>(argData, ok, c).
             Ret (if ok then client_stream method argData (if ret = None then None else Some h) c else (None, c))))"

text \<open>The lambda of \<open>error\<close>: report, and try again after a second.\<close>

definition stream_error :: "nat \<Rightarrow> qgrpc_status \<Rightarrow> client \<Rightarrow> client" where
  "stream_error i st c =
     (if i \<in> c_connected c then (client_error st c)\<lparr>c_timers := c_timers c @ [i]\<rparr> else c)"

text \<open>The timer: \<open>weak_ptr::lock\<close> succeeds as long as somebody holds the object.\<close>

definition stream_restart :: "nat \<Rightarrow> client \<Rightarrow> client" where
  "stream_restart i c =
     (let c' = c\<lparr>c_timers := remove1 i (c_timers c)\<rparr>
      in if i \<in> c_connected c \<or> i \<in> c_held c then c'\<lparr>c_started := c_started c @ [i]\<rparr> else c')"

text \<open>The lambda of \<open>finished\<close>: the first active object that compares equal is erased.\<close>

fun erase_first :: "('a \<Rightarrow> bool) \<Rightarrow> 'a list \<Rightarrow> 'a list" where
  "erase_first p [] = []"
| "erase_first p (x # xs) = (if p x then xs else x # erase_first p xs)"

definition stream_finished :: "nat \<Rightarrow> client \<Rightarrow> client" where
  "stream_finished i c =
     (if i \<in> c_connected c
      then c\<lparr>activeStreams := erase_first (\<lambda>j. stream_eq (c_objects c j) (c_objects c i)) (activeStreams c),
             c_connected := c_connected c - {i}\<rparr>
      else c)"

definition bidirect_finished :: "nat \<Rightarrow> client \<Rightarrow> client" where
  "bidirect_finished i c =
     (if i \<in> c_connected c
      then c\<lparr>activeStreamsBidirect := erase_first (\<lambda>j. bidirect_eq (c_objects c j) (c_objects c i)) (activeStreamsBidirect c),
             c_connected := c_connected c - {i}\<rparr>
      else c)"

text \<open>
  \<open>for (auto stream : activeStreams) stream->abort()\<close>: \<open>abort\<close> emits \<open>finished\<close>; when that erases an element of the
  vector, the iterator of the loop is invalid.
\<close>

fun abort_all :: "nat list \<Rightarrow> client \<Rightarrow> client outcome" where
  "abort_all [] c = Ret c"
| "abort_all (i # is) c =
     (let c' = stream_finished i c
      in if activeStreams c' \<noteq> activeStreams c then undefined_by Invalid_iterator else abort_all is c')"

definition attachChannel :: "bool \<Rightarrow> grpc_channel \<Rightarrow> client \<Rightarrow> client outcome" where
  "attachChannel same_thread channel c =
     (if \<not> same_thread then throw Runtime_error
      else and_then (abort_all (activeStreams c) c) (\<lambda>c.
             abort_all (activeStreams c) (c\<lparr>c_channel := Some channel\<rparr>)))"

definition user_drops :: "nat \<Rightarrow> client \<Rightarrow> client" where
  "user_drops i c = c\<lparr>c_held := c_held c - {i}\<rparr>"

text \<open>
  All histories of a client: channels are attached, streams opened and dropped by the user, streams fail, finish
  (by the server, or because the user aborts them) and are restarted.
\<close>

definition object_finished :: "nat \<Rightarrow> client \<Rightarrow> client" where
  "object_finished i c = (if st_bidirect (c_objects c i) then bidirect_finished i c else stream_finished i c)"

inductive client_history :: "string \<Rightarrow> client \<Rightarrow> bool" for service where
  begins: "client_history service (new_client service)"
| attaches: "client_history service c \<Longrightarrow> attachChannel t ch c = Ret c' \<Longrightarrow> client_history service c'"
| streams: "client_history service c \<Longrightarrow> client_history service (snd (client_stream method arg h c))"
| bidirects: "client_history service c \<Longrightarrow> client_history service (snd (client_streamBidirect method arg h c))"
| fails: "client_history service c \<Longrightarrow> client_history service (stream_error i st c)"
| finishes: "client_history service c \<Longrightarrow> client_history service (object_finished i c)"
| restarts: "client_history service c \<Longrightarrow> i \<in> set (c_timers c) \<Longrightarrow> client_history service (stream_restart i c)"
| dropped: "client_history service c \<Longrightarrow> client_history service (user_drops i c)"

definition stream_key :: "grpc_stream \<Rightarrow> string \<times> bytes" where
  "stream_key s = (st_method s, st_arg s)"

definition client_inv :: "client \<Rightarrow> bool" where
  "client_inv c \<longleftrightarrow>
     distinct (map (\<lambda>i. stream_key (c_objects c i)) (activeStreams c))
     \<and> distinct (map (\<lambda>i. st_method (c_objects c i)) (activeStreamsBidirect c))
     \<and> (\<forall>i \<in> set (activeStreams c). \<not> st_bidirect (c_objects c i))
     \<and> (\<forall>i \<in> set (activeStreamsBidirect c). st_bidirect (c_objects c i))
     \<and> c_connected c = set (activeStreams c) \<union> set (activeStreamsBidirect c)
     \<and> (\<forall>i \<in> c_connected c. i < c_next c)"

lemma erase_first_distinct:
  "distinct (map f xs) \<Longrightarrow> x \<in> set xs \<Longrightarrow> (\<And>y. y \<in> set xs \<Longrightarrow> p y \<longleftrightarrow> f y = f x) \<Longrightarrow> erase_first p xs = remove1 x xs"
  by (induction xs) (auto split: if_splits)

lemma distinct_map_remove1: "distinct (map f xs) \<Longrightarrow> distinct (map f (remove1 x xs))"
  by (induction xs) (auto dest: in_set_remove1 [THEN iffD1, rotated] notin_set_remove1)

lemma client_inv_finished:
  assumes "client_inv c" "i \<in> set (activeStreams c)"
  shows "stream_finished i c = c\<lparr>activeStreams := remove1 i (activeStreams c), c_connected := c_connected c - {i}\<rparr>"
proof -
  have "erase_first (\<lambda>j. stream_eq (c_objects c j) (c_objects c i)) (activeStreams c) = remove1 i (activeStreams c)"
    using assms by (intro erase_first_distinct [where f = "\<lambda>i. stream_key (c_objects c i)"])
      (auto simp: client_inv_def stream_eq_def stream_key_def)
  moreover have "i \<in> c_connected c" using assms by (auto simp: client_inv_def)
  ultimately show ?thesis by (simp add: stream_finished_def)
qed

lemma client_inv_bidirect_finished:
  assumes "client_inv c" "i \<in> set (activeStreamsBidirect c)"
  shows "bidirect_finished i c =
    c\<lparr>activeStreamsBidirect := remove1 i (activeStreamsBidirect c), c_connected := c_connected c - {i}\<rparr>"
proof -
  have "erase_first (\<lambda>j. bidirect_eq (c_objects c j) (c_objects c i)) (activeStreamsBidirect c)
      = remove1 i (activeStreamsBidirect c)"
    using assms by (intro erase_first_distinct [where f = "\<lambda>j. st_method (c_objects c j)"])
      (auto simp: client_inv_def bidirect_eq_def)
  moreover have "i \<in> c_connected c" using assms by (auto simp: client_inv_def)
  ultimately show ?thesis by (simp add: bidirect_finished_def)
qed

lemma abort_all_inv:
  assumes "client_inv c"
  shows "abort_all (activeStreams c) c = (if activeStreams c = [] then Ret c else undefined_by Invalid_iterator)"
proof (cases "activeStreams c")
  case (Cons i rest)
  then have "activeStreams (stream_finished i c) = rest"
    using client_inv_finished [OF assms, of i] by simp
  then show ?thesis using Cons by simp
qed simp

text \<open>What \<open>attachChannel\<close> does to a client of any history.\<close>

lemma attachChannel_result:
  assumes "client_inv c"
  shows "attachChannel True ch c =
    (if activeStreams c = [] then Ret (c\<lparr>c_channel := Some ch\<rparr>) else undefined_by Invalid_iterator)"
  using abort_all_inv [OF assms] by (simp add: attachChannel_def)

lemma addHandler_keeps [simp]:
  "st_method (addHandler h s) = st_method s" "st_arg (addHandler h s) = st_arg s"
  "st_bidirect (addHandler h s) = st_bidirect s"
  by (simp_all add: addHandler_def split: option.splits)

text \<open>The invariant depends on the keys of the active objects only.\<close>

lemma client_inv_objects:
  assumes "client_inv c" "\<And>i. i \<in> c_connected c \<Longrightarrow> stream_key (obj i) = stream_key (c_objects c i)
      \<and> st_bidirect (obj i) = st_bidirect (c_objects c i)"
  shows "client_inv (c\<lparr>c_objects := obj\<rparr>)"
proof -
  have con: "c_connected c = set (activeStreams c) \<union> set (activeStreamsBidirect c)"
    using assms(1) by (simp add: client_inv_def)
  then have "map (\<lambda>i. stream_key (obj i)) (activeStreams c) = map (\<lambda>i. stream_key (c_objects c i)) (activeStreams c)"
    "map (\<lambda>i. st_method (obj i)) (activeStreamsBidirect c)
      = map (\<lambda>i. st_method (c_objects c i)) (activeStreamsBidirect c)"
    using assms(2) by (auto simp: stream_key_def intro!: map_cong)
  note maps = this
  have "\<forall>i \<in> set (activeStreams c). \<not> st_bidirect (obj i)" "\<forall>i \<in> set (activeStreamsBidirect c). st_bidirect (obj i)"
    using assms con by (simp_all add: client_inv_def)
  with assms(1) show ?thesis by (simp add: client_inv_def maps del: map_eq_conv)
qed

lemma client_inv_handler:
  assumes "client_inv c"
  shows "client_inv (c\<lparr>c_objects := (c_objects c)(i := addHandler h (c_objects c i)), c_held := hs\<rparr>)"
proof -
  have "client_inv (c\<lparr>c_objects := (c_objects c)(i := addHandler h (c_objects c i))\<rparr>)"
    using assms by (rule client_inv_objects) (simp add: stream_key_def)
  then show ?thesis by (simp add: client_inv_def)
qed

lemma client_inv_start:
  assumes "client_inv c"
  shows "client_inv (c\<lparr>c_objects := (c_objects c)(c_next c := s)\<rparr>) \<and> c_next c \<notin> c_connected c"
proof
  show "c_next c \<notin> c_connected c" using assms by (auto simp: client_inv_def)
  then show "client_inv (c\<lparr>c_objects := (c_objects c)(c_next c := s)\<rparr>)"
    using assms by (intro client_inv_objects) auto
qed

lemma client_inv_streams:
  assumes "client_inv c"
  shows "client_inv (snd (client_stream method arg h c))"
proof (cases "c_channel c")
  case None
  with assms show ?thesis by (simp add: client_stream_def client_error_def client_inv_def)
next
  case (Some ch)
  let ?s = "new_stream False method arg h"
  show ?thesis
  proof (cases "find (\<lambda>i. stream_eq (c_objects c i) ?s) (activeStreams c)")
    case None
    then have "\<forall>i \<in> set (activeStreams c). stream_key (c_objects c i) \<noteq> (method, arg)"
      by (auto simp: find_None_iff stream_eq_def stream_key_def new_stream_def)
    with None Some client_inv_start [OF assms, of ?s] show ?thesis
      by (auto simp: client_stream_def start_stream_def client_inv_def new_stream_def stream_key_def less_Suc_eq
          split: if_splits)
  qed (use Some client_inv_handler [OF assms] in \<open>simp add: client_stream_def Let_def\<close>)
qed

lemma client_inv_bidirects:
  assumes "client_inv c"
  shows "client_inv (snd (client_streamBidirect method arg h c))"
proof (cases "c_channel c")
  case None
  with assms show ?thesis by (simp add: client_streamBidirect_def client_error_def client_inv_def)
next
  case (Some ch)
  let ?s = "new_stream True method [] h"
  show ?thesis
  proof (cases "find (\<lambda>i. bidirect_eq (c_objects c i) ?s) (activeStreamsBidirect c)")
    case None
    then have "\<forall>i \<in> set (activeStreamsBidirect c). st_method (c_objects c i) \<noteq> method"
      by (auto simp: find_None_iff bidirect_eq_def new_stream_def)
    with None Some client_inv_start [OF assms, of ?s] show ?thesis
      by (auto simp: client_streamBidirect_def start_stream_def client_inv_def new_stream_def less_Suc_eq
          split: if_splits)
  qed (use Some client_inv_handler [OF assms] in \<open>simp add: client_streamBidirect_def Let_def\<close>)
qed

lemma client_inv_finishes:
  assumes "client_inv c"
  shows "client_inv (object_finished i c)"
proof (cases "i \<in> c_connected c")
  case True
  have d: "distinct (activeStreams c)" "distinct (activeStreamsBidirect c)"
    using assms by (auto simp: client_inv_def simp: distinct_map)
  consider "i \<in> set (activeStreams c)" "i \<notin> set (activeStreamsBidirect c)" "\<not> st_bidirect (c_objects c i)"
    | "i \<in> set (activeStreamsBidirect c)" "i \<notin> set (activeStreams c)" "st_bidirect (c_objects c i)"
    using True assms by (auto simp: client_inv_def)
  then show ?thesis
  proof cases
    case 1
    with assms d client_inv_finished [OF assms 1(1)] show ?thesis
      by (auto simp: object_finished_def client_inv_def distinct_map_remove1)
  next
    case 2
    with assms d client_inv_bidirect_finished [OF assms 2(1)] show ?thesis
      by (auto simp: object_finished_def client_inv_def distinct_map_remove1)
  qed
next
  case False
  with assms show ?thesis by (simp add: object_finished_def stream_finished_def bidirect_finished_def)
qed

lemma client_history_inv: "client_history service c \<Longrightarrow> client_inv c"
proof (induction rule: client_history.induct)
  case begins
  show ?case by (simp add: new_client_def client_inv_def)
next
  case (attaches c t ch c')
  then have "t" by (auto simp: attachChannel_def split: if_splits)
  with attaches show ?case
    by (auto simp: attachChannel_result split: if_splits) (simp add: client_inv_def)
qed (simp_all add: client_inv_streams client_inv_bidirects client_inv_finishes, simp_all add: client_inv_def
    stream_error_def client_error_def stream_restart_def user_drops_def Let_def)

subsection \<open>Remote calls\<close>

text \<open>
  What a client needs of a channel: \<open>transport server arg\<close> is the result of the channel's \<open>call\<close> when the server
  answers the request \<open>arg\<close> with \<open>server arg\<close>.
\<close>

locale unary_channel =
  fixes transport :: "(bytes \<Rightarrow> qgrpc_status \<times> bytes) \<Rightarrow> bytes \<Rightarrow> (qgrpc_status \<times> bytes) outcome"
  assumes answered: "length arg < 2147483600 \<Longrightarrow> fst (server arg) = default_status \<Longrightarrow>
      transport server arg = Ret (default_status, snd (server arg))"
    and refused: "length arg < 2147483600 \<Longrightarrow> m_code (fst (server arg)) \<in> set named_codes - {Ok} \<Longrightarrow>
      \<exists>data. transport server arg = Ret (fst (server arg), data)"
begin

lemma typed_call_answered:
  assumes ch: "c_channel c = Some \<lparr>ch_call = \<lambda>m s. transport (server m s), ch_has_serializer = True\<rparr>"
    and arg: "serialize X n acls arg = Ret abytes" "length abytes < 2147483600"
    and ret: "server method (c_service c) abytes = (default_status, rbytes)"
      "serialize X n rcls r = Ret rbytes" "wt_message X n rcls r" "length rbytes < 2147483600" "length rbytes < fuel"
  shows "typed_call X n fuel method acls arg rcls (Some old) c
    = Ret (default_status, Some (sent_message X n rcls r), c)"
proof -
  have "transport (server method (c_service c)) abytes = Ret (default_status, rbytes)"
    using answered [OF arg(2), of "server method (c_service c)"] ret(1) by simp
  moreover have "deserialize X fuel rcls old rbytes = (sent_message X n rcls r, Ret ())"
    by (rule deserialize_serialized [OF ret(2-5)])
  ultimately show ?thesis
    using ch arg by (simp add: typed_call_def trySerialize_def client_serializer_def client_call_def
        tryDeserialize_def default_status_def mk_status_def)
qed

lemma typed_call_refused:
  assumes ch: "c_channel c = Some \<lparr>ch_call = \<lambda>m s. transport (server m s), ch_has_serializer = True\<rparr>"
    and arg: "serialize X n acls arg = Ret abytes" "length abytes < 2147483600"
    and st: "m_code (fst (server method (c_service c) abytes)) \<in> set named_codes - {Ok}"
  shows "typed_call X n fuel method acls arg rcls (Some old) c
    = Ret (fst (server method (c_service c) abytes), Some old, client_error (fst (server method (c_service c) abytes)) c)"
proof -
  obtain data where "transport (server method (c_service c)) abytes = Ret (fst (server method (c_service c) abytes), data)"
    using refused [of abytes "server method (c_service c)"] arg(2) st by auto
  with ch arg st show ?thesis
    by (simp add: typed_call_def trySerialize_def client_serializer_def client_call_def)
qed

end

text \<open>
  The native channel: the request is what the call sends, the answer arrives as one buffer (none when the server
  refuses), then the status.
\<close>

definition native_transport :: "(bytes \<Rightarrow> qgrpc_status \<times> bytes) \<Rightarrow> bytes \<Rightarrow> (qgrpc_status \<times> bytes) outcome" where
  "native_transport server arg =
     (let call = call_startReader (new_channel_call arg);
          (st, data) = server (concat (sent call));
          status = \<lparr>error_code = code_value (m_code st), error_message = m_message st\<rparr>;
          empty = parseQByteArray [];
          call = call_handler NewData True (take_tag NewData empty status call);
          call = (if m_code st = Ok then call_handler NewData True (take_tag NewData (parseQByteArray data) status call)
                  else call_handler NewData False (take_tag NewData empty status call));
          call = call_handler FinishRead True (take_tag FinishRead empty status call)
      in Ret (sync_call False call))"

lemma native_transport_result:
  assumes "m_code (fst (server arg)) \<in> set named_codes"
  shows "native_transport server arg = Ret (fst (server arg), if m_code (fst (server arg)) = Ok then snd (server arg) else [])"
proof -
  obtain st data where sv: "server arg = (st, data)" by force
  have ok: "code_value (m_code st) = 0 \<longleftrightarrow> m_code st = Ok"
    using assms sv by (auto simp: named_codes_def)
  have "mk_status (status_cast (code_value (m_code st))) (m_message st) = st"
    using assms sv by (simp add: status_cast_value mk_status_def)
  then show ?thesis
    using sv ok
    by (simp add: native_transport_def call_startReader_def start_op_def new_channel_call_def new_base_call_def
        base_call.defs channel_call.defs parseQByteArray_def take_tag_def call_defs deref_or_delete_def Let_def
        parseByteBuffer_def status_ok_def ok_status_def status_of_def default_status_def mk_status_def sync_call_def)
qed

interpretation native: unary_channel native_transport
proof
  show "native_transport server arg = Ret (default_status, snd (server arg))"
    if "fst (server arg) = default_status" for server arg
    using that native_transport_result [of server arg]
    by (simp add: default_status_def mk_status_def named_codes_def)
qed (auto simp: native_transport_result)

text \<open>
  The HTTP/2 channel with a \<open>size()\<close> of type \<open>'s\<close> and a server that reads the first message off the request and frames
  its answer. A 64 bit \<open>size()\<close> makes the length field of the request zero (\<open>request_length_field\<close>); the channel meets
  the contract where \<open>size()\<close> has 32 bits.
\<close>

definition http2_transport :: "'s::len itself \<Rightarrow> (bytes \<Rightarrow> qgrpc_status \<times> bytes) \<Rightarrow> bytes \<Rightarrow> (qgrpc_status \<times> bytes) outcome" where
  "http2_transport size_type server arg =
     (case fst (deframe (rq_body (post size_type [] [] [] arg False))) of
        [] \<Rightarrow> No_fuel
      | request # _ \<Rightarrow>
          let (st, data) = server request
          in http2_call \<lparr>nr_error = NoError, nr_running = False, nr_finished = True,
               nr_grpc_status = code_value (m_code st), nr_grpc_message = m_message st,
               nr_data = frame TYPE(32) data\<rparr>)"

lemma http2_transport_result:
  assumes "m_code (fst (server arg)) \<in> set named_codes" "length arg < 2147483600"
  shows "http2_transport TYPE(32) server arg = Ret (fst (server arg), if m_code (fst (server arg)) = Ok then snd (server arg) else [])"
proof -
  obtain st data where sv: "server arg = (st, data)" by force
  have "deframe (frame TYPE(32) arg) = ([arg], [])"
    using deframe_frames [of "[arg]"] assms(2) by simp
  moreover have "status_cast (code_value (m_code st)) = m_code st"
    using assms sv by (simp add: status_cast_value)
  moreover have "code_value (m_code st) = 0 \<longleftrightarrow> m_code st = Ok"
    using assms sv by (auto simp: named_codes_def)
  ultimately show ?thesis
    using sv by (simp add: http2_transport_def post_def http2_call_def processReply_def
        GrpcMessageSizeHeaderSize_def frame_32 mk_status_def)
qed

interpretation http2: unary_channel "http2_transport TYPE(32)"
proof
  show "http2_transport TYPE(32) server arg = Ret (default_status, snd (server arg))"
    if "length arg < 2147483600" "fst (server arg) = default_status" for server arg
    using that http2_transport_result [of server arg]
    by (simp add: default_status_def mk_status_def named_codes_def)
qed (auto simp: http2_transport_result)

subsection \<open>Writing to a bidirectional stream\<close>

text \<open>
  \<open>QGrpcAsyncOperationWriteBase::write\<close> and \<open>writeDone\<close> (\<open>qgrpcasyncoperationwritebase_p.h\<close>): \<open>r\<close> is the number of the
  new replay, \<open>serialized\<close> what serializing the value gives.
\<close>

definition on_sub :: "('s \<Rightarrow> 's) \<Rightarrow> 's stream_session \<Rightarrow> 's stream_session" where
  "on_sub f s = s\<lparr>sub := f (sub s)\<rparr>"

definition write_failed :: "WriteStatus \<Rightarrow> bool" where
  "write_failed st \<longleftrightarrow> st = W_Failed \<or> st = W_NotConnected"

definition stream_write :: "bytes outcome \<Rightarrow> nat \<Rightarrow> stream_bidirect stream_session \<Rightarrow> stream_bidirect stream_session outcome" where
  "stream_write serialized r s =
     (let s = on_sub (setStatus r W_NotConnected) s
      in and_then (case serialized of
            Ret data \<Rightarrow> Ret (on_writeReady data r s)
          | Fail (Exn e) \<Rightarrow>
              Ret ((on_sub (setStatus r W_Failed) s)\<lparr>ss_stream := emitError (deserialize_error e) (ss_stream s)\<rparr>)
          | Fail (UB u) \<Rightarrow> undefined_by u
          | No_fuel \<Rightarrow> No_fuel)
         (\<lambda>s. Ret (if write_failed (replays (sub s) r)
                   then on_sub (emit_replay r ReplayFinished) (on_sub (emit_replay r ReplayError) s) else s)))"

definition stream_writeDone :: "nat \<Rightarrow> stream_bidirect stream_session \<Rightarrow> stream_bidirect stream_session" where
  "stream_writeDone r s = on_writeDoneReady r (on_sub (setStatus r W_NotConnected) s)"

lemmas write_defs = stream_write_def Let_def on_sub_def setStatus_def on_writeReady_def appendToSend_def start_op_def
  write_failed_def emit_replay_def emitError_def writes_of_def parseQByteArray_def

subsection \<open>Properties\<close>

text \<open>A server that computes \<open>f\<close>: it decodes the request and encodes the result.\<close>

definition rpc_server :: "serializer_env \<Rightarrow> nat \<Rightarrow> nat \<Rightarrow> nat \<Rightarrow> nat \<Rightarrow> (message \<Rightarrow> message) \<Rightarrow> bytes \<Rightarrow> qgrpc_status \<times> bytes" where
  "rpc_server X n fuel acls rcls f request =
     (case deserialize X fuel acls (Message []) request of
        (m, Ret _) \<Rightarrow> (case serialize X n rcls (f m) of Ret data \<Rightarrow> (default_status, data)
          | _ \<Rightarrow> (mk_status Internal [], []))
      | _ \<Rightarrow> (mk_status InvalidArgument [], []))"

text \<open>
  C7. A remote call is a call of the function on the server: over the native channel, and over the HTTP/2 channel of a build
  whose \<open>size()\<close> has 32 bits, the typed synchronous call returns \<open>Ok\<close> and what the server's function makes of the
  argument, as it survives being sent, and emits no error. In a 64 bit build the HTTP/2 request has no usable length.
\<close>

theorem remote_call:
  assumes "transport \<in> {native_transport, http2_transport TYPE(32)}"
    and "c_channel c = Some \<lparr>ch_call = \<lambda>m s. transport (rpc_server X n fuel acls rcls f), ch_has_serializer = True\<rparr>"
    and "serialize X n acls arg = Ret abytes" "wt_message X n acls arg" "length abytes < 2147483600" "length abytes < fuel"
    and "serialize X n rcls (f (sent_message X n acls arg)) = Ret rbytes"
      "wt_message X n rcls (f (sent_message X n acls arg))" "length rbytes < 2147483600" "length rbytes < fuel"
  shows "typed_call X n fuel method acls arg rcls (Some old) c
    = Ret (default_status, Some (sent_message X n rcls (f (sent_message X n acls arg))), c)"
proof -
  have "rpc_server X n fuel acls rcls f abytes = (default_status, rbytes)"
    using deserialize_serialized [OF assms(3-6), of "Message []"] assms(7) by (simp add: rpc_server_def)
  then show ?thesis
    using assms native.typed_call_answered [of c "\<lambda>m s. rpc_server X n fuel acls rcls f" X n acls arg abytes]
      http2.typed_call_answered [of c "\<lambda>m s. rpc_server X n fuel acls rcls f" X n acls arg abytes]
    by auto
qed

definition sample_client :: client where
  "sample_client = (new_client ''svc'')\<lparr>c_channel := Some \<lparr>ch_call = \<lambda>m s. http2_transport TYPE(32) (rpc_server sample_env 2 34 0 0 (\<lambda>m. m)),
     ch_has_serializer = True\<rparr>\<rparr>"

lemma sample_echo:
  "serialize sample_env 2 0 (sent_message sample_env 2 0 sample_message) = Ret sample_bytes"
  "wt_message sample_env 2 0 (sent_message sample_env 2 0 sample_message)"
  unfolding sample_sent by code_simp+

theorem remote_call_witness:
  "typed_call sample_env 2 34 ''echo'' 0 sample_message 0 (Some (Message [])) sample_client
    = Ret (default_status, Some (sent_message sample_env 2 0 (sent_message sample_env 2 0 sample_message)), sample_client)"
  by (rule remote_call [where f = "\<lambda>m. m" and transport = "http2_transport TYPE(32)" and abytes = sample_bytes and rbytes = sample_bytes])
    (simp_all add: sample_client_def sample_serialized sample_wt sample_echo length_sample)

text \<open>
  C23. The open streams of a client: in every history there is at most one server stream per method and argument
  and one bidirectional stream per method, and these are exactly the objects connected to the client.
\<close>

theorem one_active_stream:
  assumes "client_history service c"
  shows "distinct (map (\<lambda>i. (st_method (c_objects c i), st_arg (c_objects c i))) (activeStreams c))
    \<and> distinct (map (\<lambda>i. st_method (c_objects c i)) (activeStreamsBidirect c))
    \<and> c_connected c = set (activeStreams c) \<union> set (activeStreamsBidirect c)"
  using client_history_inv [OF assms] by (simp add: client_inv_def stream_key_def)

definition busy_client :: client where
  "busy_client = snd (client_stream ''watch'' [2] None (snd (client_stream ''watch'' [1] (Some 7)
     ((new_client ''svc'')\<lparr>c_channel := Some \<lparr>ch_call = \<lambda>m s a. Ret (default_status, []), ch_has_serializer = True\<rparr>\<rparr>))))"

lemma busy_client_history: "client_history ''svc'' busy_client"
  unfolding busy_client_def
  by (intro client_history.streams client_history.attaches [OF client_history.begins, where t = True])
    (simp add: attachChannel_def new_client_def)

theorem one_active_stream_witness:
  "distinct (map (\<lambda>i. (st_method (c_objects busy_client i), st_arg (c_objects busy_client i))) (activeStreams busy_client))
    \<and> distinct (map (\<lambda>i. st_method (c_objects busy_client i)) (activeStreamsBidirect busy_client))
    \<and> c_connected busy_client = set (activeStreams busy_client) \<union> set (activeStreamsBidirect busy_client)"
  by (rule one_active_stream [OF busy_client_history])

text \<open>
  C25. Attaching a channel is safe only while the client has no server stream open: the loop that aborts the
  streams erases from the vector it runs over. Bidirectional streams are left on the old channel.
\<close>

theorem attachChannel_invalidates:
  assumes "client_history service c"
  shows "attachChannel True ch c =
    (if activeStreams c = [] then Ret (c\<lparr>c_channel := Some ch\<rparr>) else undefined_by Invalid_iterator)"
  by (rule attachChannel_result [OF client_history_inv [OF assms]])

theorem attachChannel_invalidates_witness:
  "attachChannel True \<lparr>ch_call = \<lambda>m s a. Ret (default_status, []), ch_has_serializer = True\<rparr> busy_client
    = (if activeStreams busy_client = []
       then Ret (busy_client\<lparr>c_channel := Some \<lparr>ch_call = \<lambda>m s a. Ret (default_status, []), ch_has_serializer = True\<rparr>\<rparr>)
       else undefined_by Invalid_iterator)"
  by (rule attachChannel_invalidates [OF busy_client_history])

text \<open>
  A server stream that failed and is then aborted is started again after a second when the user still holds
  it, although it is not one of the client's active streams any more.
\<close>

theorem aborted_stream_restarted:
  assumes "client_history service c" "i \<in> set (activeStreams c)" "i \<in> c_held c"
  shows "let c' = stream_restart i (stream_finished i (stream_error i st c))
    in i \<notin> set (activeStreams c') \<and> i \<notin> c_connected c' \<and> c_started c' = c_started c @ [i]"
proof -
  have inv: "client_inv c" by (rule client_history_inv [OF assms(1)])
  then have "i \<in> c_connected c" using assms(2) by (auto simp: client_inv_def)
  moreover have "client_inv (stream_error i st c)" using inv by (simp add: stream_error_def client_error_def client_inv_def)
  moreover have "distinct (activeStreams c)" using inv by (auto simp: client_inv_def distinct_map)
  ultimately show ?thesis
    using client_inv_finished [of "stream_error i st c" i] assms(2,3)
    by (simp add: stream_error_def client_error_def stream_restart_def Let_def)
qed

theorem aborted_stream_restarted_witness:
  "let c' = stream_restart 0 (stream_finished 0 (stream_error 0 no_channel busy_client))
    in 0 \<notin> set (activeStreams c') \<and> 0 \<notin> c_connected c' \<and> c_started c' = c_started busy_client @ [0]"
  by (rule aborted_stream_restarted [OF busy_client_history])
    (simp_all add: busy_client_def client_stream_def start_stream_def new_client_def new_stream_def stream_eq_def Let_def)

text \<open>
  C24. Every write is accounted for: while the stream is connected its replay is in process and its message is
  behind all earlier ones; when the value cannot be serialized or the stream is not connected, the replay is
  failed and reported at once and nothing is sent.
\<close>

theorem write_accounted:
  assumes "m_inProcess (sub s) \<or> m_sendQueue (sub s) = []"
  shows "(case serialized of
      Ret data \<Rightarrow> \<exists>s'. stream_write serialized r s = Ret s' \<and>
        (if ss_writeConnection s
         then replays (sub s') r = W_InProcess \<and> writes_of (sub s') = writes_of (sub s) @ [data]
           \<and> replay_signals (sub s') = replay_signals (sub s)
         else replays (sub s') r = W_NotConnected \<and> writes_of (sub s') = writes_of (sub s)
           \<and> replay_signals (sub s') = replay_signals (sub s) @ [(r, ReplayError), (r, ReplayFinished)])
    | Fail (Exn e) \<Rightarrow> \<exists>s'. stream_write serialized r s = Ret s' \<and>
        replays (sub s') r = W_Failed \<and> writes_of (sub s') = writes_of (sub s)
           \<and> replay_signals (sub s') = replay_signals (sub s) @ [(r, ReplayError), (r, ReplayFinished)]
           \<and> op_signals (ss_stream s') = op_signals (ss_stream s) @ [OpError (deserialize_error e)]
    | Fail (UB u) \<Rightarrow> stream_write serialized r s = undefined_by u
    | No_fuel \<Rightarrow> stream_write serialized r s = No_fuel)"
proof -
  have open_write: "ss_writeConnection s \<Longrightarrow> serialized = Ret data \<Longrightarrow> \<exists>s'. stream_write serialized r s = Ret s' \<and>
      replays (sub s') r = W_InProcess \<and> writes_of (sub s') = writes_of (sub s) @ [data]
        \<and> replay_signals (sub s') = replay_signals (sub s)" for data
    using assms by (auto simp: write_defs)
  have closed_write: "\<not> ss_writeConnection s \<Longrightarrow> serialized = Ret data \<Longrightarrow> \<exists>s'. stream_write serialized r s = Ret s' \<and>
      replays (sub s') r = W_NotConnected \<and> writes_of (sub s') = writes_of (sub s)
        \<and> replay_signals (sub s') = replay_signals (sub s) @ [(r, ReplayError), (r, ReplayFinished)]" for data
    by (simp add: write_defs)
  show ?thesis
    using open_write closed_write
    by (cases "ss_writeConnection s") (auto simp: write_defs split: outcome.splits failure.splits)
qed

theorem write_accounted_witness:
  "\<exists>s'. stream_write (Ret [1, 2]) 0 (new_session (bidi_startReader new_stream_bidirect) True) = Ret s'
    \<and> replays (sub s') 0 = W_InProcess
    \<and> writes_of (sub s') = writes_of (bidi_startReader new_stream_bidirect) @ [[1, 2]]"
proof -
  have "m_inProcess (sub (new_session (bidi_startReader new_stream_bidirect) True))"
    by (simp add: new_session_def bidi_startReader_def start_op_def)
  from write_accounted [OF disjI1, OF this, of "Ret [1, 2]" 0] show ?thesis
    by (auto simp: new_session_def)
qed

end
