(* ===== verification/GeneratorUtils.thy ===== *)
theory GeneratorUtils
  imports QtPrelude
begin

section \<open>String helpers and options of the code generator\<close>

text \<open>
  The functions of \<open>src/generator/utils.h\<close> on \<open>std::string\<close>, here \<open>string\<close>, and the options the generator reads
  from its environment (\<open>generatoroptions.cpp\<close>). A search returns \<open>None\<close> for \<open>npos\<close>. \<open>std::toupper\<close> and
  \<open>std::tolower\<close> are those of the C locale.
\<close>

subsection \<open>utils.h\<close>

text \<open>The loop over \<open>std::getline\<close>: a delimiter at the end of the text does not give another token.\<close>

function getline_loop :: "char \<Rightarrow> string \<Rightarrow> string list" where
  "getline_loop delim [] = []"
| "getline_loop delim (c # cs) =
     takeWhile (\<lambda>x. x \<noteq> delim) (c # cs) #
     (case dropWhile (\<lambda>x. x \<noteq> delim) (c # cs) of [] \<Rightarrow> [] | _ # rest \<Rightarrow> getline_loop delim rest)"
  by pat_completeness auto
termination
proof (relation "measure (length \<circ> snd)")
  fix delim c cs x rest
  assume "dropWhile (\<lambda>x. x \<noteq> delim) (c # cs) = x # rest"
  then have "length (x # rest) \<le> length (c # cs)"
    by (metis length_dropWhile_le)
  then show "((delim, rest), delim, c # cs) \<in> measure (length \<circ> snd)" by simp
qed simp

definition split :: "string \<Rightarrow> char \<Rightarrow> string list" where
  "split str delim = (if length str \<le> 0 then [] else getline_loop delim str)"

definition find_from :: "string \<Rightarrow> string \<Rightarrow> nat \<Rightarrow> nat option" where
  "find_from s pat pos = find (\<lambda>i. take (length pat) (drop i s) = pat) [pos..<Suc (length s)]"

definition replace_at :: "string \<Rightarrow> nat \<Rightarrow> string \<Rightarrow> string \<Rightarrow> string" where
  "replace_at s p pat by_what = take p s @ by_what @ drop (p + length pat) s"

partial_function (option) replace_loop :: "string \<Rightarrow> string \<Rightarrow> string \<Rightarrow> nat option \<Rightarrow> string option" where
  "replace_loop s pat by_what pos =
     (if pos = None then Some s
      else replace_loop (replace_at s (the pos) pat by_what) pat by_what
             (find_from (replace_at s (the pos) pat by_what) pat (the pos + length by_what)))"

definition replace :: "string \<Rightarrow> string \<Rightarrow> string \<Rightarrow> string option" where
  "replace s pat by_what = replace_loop s pat by_what (find_from s pat 0)"

definition toupper :: "char \<Rightarrow> char" where
  "toupper c = (let n = of_char c :: nat in if 97 \<le> n \<and> n \<le> 122 then char_of (n - 32) else c)"

definition tolower_char :: "char \<Rightarrow> char" where
  "tolower_char c = (let n = of_char c :: nat in if 65 \<le> n \<and> n \<le> 90 then char_of (n + 32) else c)"

definition tolower :: "string \<Rightarrow> string" where
  "tolower s = map tolower_char s"

definition rfind :: "string \<Rightarrow> char \<Rightarrow> nat option" where
  "rfind s c = find (\<lambda>i. s ! i = c) (rev [0..<length s])"

text \<open>\<open>resize(npos)\<close> throws \<open>std::length_error\<close>.\<close>

definition removeFileSuffix :: "string \<Rightarrow> string outcome" where
  "removeFileSuffix fileName =
     (case rfind fileName (CHR ''.'') of
        None \<Rightarrow> throw Length_error
      | Some index \<Rightarrow> Ret (take index fileName))"

definition extractFileBasename :: "string \<Rightarrow> string outcome" where
  "extractFileBasename fileName =
     (case rfind fileName (CHR ''.'') of
        None \<Rightarrow> throw Length_error
      | Some index \<Rightarrow>
          let fileName = take index fileName
          in case rfind fileName (CHR ''/'') of
               Some index \<Rightarrow> Ret (take (length fileName - 1) (drop (index + 1) fileName))
             | None \<Rightarrow> Ret fileName)"

text \<open>On the empty string the terminating null character is read and written back.\<close>

fun upperCaseName :: "string \<Rightarrow> string" where
  "upperCaseName [] = []"
| "upperCaseName (c # cs) = toupper c # cs"

fun lowerCaseName :: "string \<Rightarrow> string" where
  "lowerCaseName [] = []"
| "lowerCaseName (c # cs) = tolower_char c # cs"

definition whitespace :: string where
  "whitespace = [CHR '' '', CHR 0x09, CHR 0x0A, CHR 0x0D, CHR 0x0C, CHR 0x0B]"

text \<open>\<open>find_last_not_of\<close> returns \<open>npos\<close> for a blank text, and \<open>npos + 1\<close> is zero.\<close>

definition rtrim :: "string \<Rightarrow> string" where
  "rtrim s = take (case find (\<lambda>i. s ! i \<notin> set whitespace) (rev [0..<length s]) of None \<Rightarrow> 0 | Some i \<Rightarrow> i + 1) s"

definition ltrim :: "string \<Rightarrow> string" where
  "ltrim s = (case find (\<lambda>i. s ! i \<notin> set whitespace) [0..<length s] of None \<Rightarrow> [] | Some i \<Rightarrow> drop i s)"

definition trim :: "string \<Rightarrow> string" where
  "trim s = ltrim (rtrim s)"

subsection \<open>generatoroptions.cpp\<close>

record generator_options =
  mIsMulti :: bool
  mHasQml :: bool
  mGenerateComments :: bool
  mIsFolder :: bool
  mGenerateFieldEnum :: bool
  mExtraNamespace :: string

definition default_options :: generator_options where
  "default_options = \<lparr>mIsMulti = False, mHasQml = False, mGenerateComments = False, mIsFolder = False,
     mGenerateFieldEnum = False, mExtraNamespace = []\<rparr>"

definition unquote :: "string \<Rightarrow> string" where
  "unquote s =
     (if length s > 1 \<and> s ! 0 = CHR 0x22 \<and> s ! (length s - 1) = CHR 0x22
      then take (length s - 2) (drop 1 s) else s)"

text \<open>One option of the list; the value of \<open>EXTRA_NAMESPACE\<close> is looked for in the whole text \<open>options\<close>.\<close>

definition parse_option :: "string \<Rightarrow> string \<Rightarrow> generator_options \<Rightarrow> generator_options" where
  "parse_option options option g =
     (if option = ''MULTI'' then g\<lparr>mIsMulti := True\<rparr>
      else if option = ''QML'' then g\<lparr>mHasQml := True\<rparr>
      else if option = ''COMMENTS'' then g\<lparr>mGenerateComments := True\<rparr>
      else if option = ''FOLDER'' then g\<lparr>mIsFolder := True\<rparr>
      else if option = ''FIELDENUM'' then g\<lparr>mGenerateFieldEnum := True\<rparr>
      else if find_from option ''EXTRA_NAMESPACE'' 0 = Some 0 then
        let compositeOption = split options (CHR ''='')
        in if length compositeOption = 2 then g\<lparr>mExtraNamespace := unquote (compositeOption ! 1)\<rparr> else g
      else g)"

definition parseFromEnv :: "string \<Rightarrow> generator_options \<Rightarrow> generator_options" where
  "parseFromEnv options g = fold (parse_option options) (split options (CHR '':'')) g"

text \<open>Joining with a separator, the counterpart of \<open>split\<close> (\<open>common::getNamespacesString\<close>).\<close>

definition getNamespacesString :: "string list \<Rightarrow> string \<Rightarrow> string" where
  "getNamespacesString namespacesList separator =
     (let namespaces = fold (\<lambda>part acc. acc @ part @ separator) namespacesList []
      in if namespaces \<noteq> [] then take (length namespaces - length separator) namespaces else namespaces)"


subsection \<open>Splitting and joining\<close>

lemma fold_join: "fold (\<lambda>part acc. acc @ part @ sep) xs acc = acc @ concat (map (\<lambda>p. p @ sep) xs)"
  by (induction xs arbitrary: acc) auto

lemma getNamespacesString_simps [simp]:
  "getNamespacesString [] sep = []"
  "getNamespacesString [x] sep = x"
  "getNamespacesString (x # y # ys) sep = x @ sep @ getNamespacesString (y # ys) sep"
  unfolding getNamespacesString_def fold_join by (auto simp: Let_def)

lemma getNamespacesString_snoc:
  "xs \<noteq> [] \<Longrightarrow> getNamespacesString (xs @ [y]) sep = getNamespacesString xs sep @ sep @ y"
  by (induction xs rule: induct_list012) auto

lemma getNamespacesString_Nil_iff:
  "sep \<noteq> [] \<Longrightarrow> getNamespacesString xs sep = [] \<longleftrightarrow> xs = [] \<or> xs = [[]]"
  by (induction xs rule: induct_list012) auto

lemma split_Nil [simp]: "split [] d = []"
  by (simp add: split_def)

lemma split_eq: "split s d = getline_loop d s"
  by (cases s) (simp_all add: split_def)

lemma split_last: "d \<notin> set x \<Longrightarrow> x \<noteq> [] \<Longrightarrow> split x d = [x]"
  unfolding split_eq
proof (cases x)
  case (Cons c cs)
  assume "d \<notin> set x"
  then have "takeWhile (\<lambda>y. y \<noteq> d) x = x" and "dropWhile (\<lambda>y. y \<noteq> d) x = []"
    by (auto intro: takeWhile_eq_all_conv [THEN iffD2])
  with Cons show "getline_loop d x = [x]" by simp
qed simp

lemma split_step: "d \<notin> set x \<Longrightarrow> split (x @ d # rest) d = x # split rest d"
  unfolding split_eq
proof -
  assume "d \<notin> set x"
  then have "takeWhile (\<lambda>y. y \<noteq> d) (x @ d # rest) = x" and "dropWhile (\<lambda>y. y \<noteq> d) (x @ d # rest) = d # rest"
    by (simp_all add: takeWhile_append dropWhile_append3)
       (metis dropWhile_append2 takeWhile_append2)+
  moreover obtain c cs where "x @ d # rest = c # cs" by (cases x) auto
  ultimately show "getline_loop d (x @ d # rest) = x # getline_loop d rest" by simp
qed

lemma split_join:
  "(\<And>x. x \<in> set xs \<Longrightarrow> d \<notin> set x) \<Longrightarrow> xs \<noteq> [] \<Longrightarrow> last xs \<noteq> [] \<Longrightarrow>
     split (getNamespacesString xs [d]) d = xs"
  by (induction xs rule: induct_list012) (simp_all add: split_last split_step)

lemma join_split:
  "s = [] \<or> last s \<noteq> d \<Longrightarrow> getNamespacesString (split s d) sep = concat (map (\<lambda>x. if x = d then sep else [x]) s)"
proof (induction "length s" arbitrary: s rule: less_induct)
  case less
  have plain: "concat (map (\<lambda>x. if x = d then sep else [x]) y) = y" if "d \<notin> set y" for y
    using that by (induction y) auto
  show ?case
  proof (cases "d \<in> set s")
    case False
    then show ?thesis by (cases "s = []") (simp_all add: split_last plain)
  next
    case True
    then obtain x rest where s: "s = x @ d # rest" and x: "d \<notin> set x"
      by (metis split_list_first)
    with less.prems have rest: "rest \<noteq> []" "last rest \<noteq> d" by (auto split: if_splits)
    then obtain c cs where "split rest d = c # cs"
      by (cases rest) (simp_all add: split_def)
    moreover have "getNamespacesString (split rest d) sep = concat (map (\<lambda>x. if x = d then sep else [x]) rest)"
      using less.hyps [of rest] rest s by simp
    ultimately show ?thesis by (simp add: s x split_step plain)
  qed
qed

subsection \<open>Replacing\<close>

text \<open>The reference: occurrences from left to right that do not overlap.\<close>

fun subst_all :: "string \<Rightarrow> string \<Rightarrow> string \<Rightarrow> string" where
  "subst_all pat by_what [] = []"
| "subst_all pat by_what (c # cs) =
     (if take (length pat) (c # cs) = pat then by_what @ subst_all pat by_what (drop (length pat - 1) cs)
      else c # subst_all pat by_what cs)"

lemma find_from_step:
  "find_from (pre @ rest) pat (length pre) =
     (if take (length pat) rest = pat then Some (length pre)
      else if rest = [] then None else find_from (pre @ rest) pat (Suc (length pre)))"
proof -
  have "[length pre..<Suc (length (pre @ rest))] = length pre # [Suc (length pre)..<Suc (length (pre @ rest))]"
    by (simp add: upt_rec)
  then show ?thesis by (auto simp: find_from_def)
qed

lemma replace_loop_subst:
  assumes "pat \<noteq> []"
  shows "replace_loop (pre @ rest) pat by_what (find_from (pre @ rest) pat (length pre))
    = Some (pre @ subst_all pat by_what rest)"
  using assms
proof (induction pat by_what rest arbitrary: pre rule: subst_all.induct)
  case (1 pat by_what)
  then show ?case by (subst replace_loop.simps) (simp add: find_from_def)
next
  case (2 pat by_what c cs)
  show ?case
  proof (cases "take (length pat) (c # cs) = pat")
    case True
    then have pos: "find_from (pre @ c # cs) pat (length pre) = Some (length pre)"
      by (subst find_from_step) simp
    have "drop (length pat) (c # cs) = drop (length pat - 1) cs"
      using 2(3) by (cases pat) auto
    moreover have "replace_loop ((pre @ by_what) @ drop (length pat - 1) cs) pat by_what
        (find_from ((pre @ by_what) @ drop (length pat - 1) cs) pat (length (pre @ by_what)))
      = Some ((pre @ by_what) @ subst_all pat by_what (drop (length pat - 1) cs))"
      using 2(1) [OF True 2(3)] by blast
    ultimately show ?thesis
      unfolding pos by (subst replace_loop.simps) (simp add: True replace_at_def)
  next
    case False
    then have "find_from (pre @ c # cs) pat (length pre) = find_from ((pre @ [c]) @ cs) pat (length (pre @ [c]))"
      by (subst find_from_step) simp
    with 2(2) [OF False 2(3), of "pre @ [c]"] False show ?thesis by simp
  qed
qed

lemma replace_subst: "pat \<noteq> [] \<Longrightarrow> replace s pat by_what = Some (subst_all pat by_what s)"
  using replace_loop_subst [of pat "[]" s] by (simp add: replace_def)

lemma subst_all_char: "subst_all [c] by_what s = concat (map (\<lambda>x. if x = c then by_what else [x]) s)"
  by (induction s) auto

lemma replace_char_join:
  "s = [] \<or> last s \<noteq> d \<Longrightarrow> replace s [d] sep = Some (getNamespacesString (split s d) sep)"
  by (simp add: replace_subst subst_all_char join_split)

subsection \<open>Trimming\<close>

lemma find_map: "find P (map f xs) = map_option f (find (\<lambda>x. P (f x)) xs)"
  by (induction xs) auto

lemma find_Cons_upt:
  "find P [0..<length (c # cs)] = (if P 0 then Some 0 else map_option Suc (find (\<lambda>i. P (Suc i)) [0..<length cs]))"
proof -
  have "[0..<length (c # cs)] = 0 # map Suc [0..<length cs]"
    by (simp add: upt_conv_Cons map_Suc_upt del: upt_Suc)
  then show ?thesis by (simp add: find_map del: upt_Suc)
qed

lemma find_dropWhile:
  "(case find (\<lambda>i. P (s ! i)) [0..<length s] of None \<Rightarrow> [] | Some i \<Rightarrow> drop i s) = dropWhile (\<lambda>x. \<not> P x) s"
proof (induction s)
  case (Cons c cs)
  then show ?case unfolding find_Cons_upt by (simp split: option.splits)
qed simp

text \<open>A search from the end, on a text extended at its end.\<close>

lemma find_rev_snoc:
  "find (\<lambda>i. P ((s @ [c]) ! i)) (rev [0..<length (s @ [c])])
     = (if P c then Some (length s) else find (\<lambda>i. P (s ! i)) (rev [0..<length s]))"
proof -
  have "find (\<lambda>i. P ((s @ [c]) ! i)) (rev [0..<length s]) = find (\<lambda>i. P (s ! i)) (rev [0..<length s])"
    by (rule find_cong) (simp_all add: nth_append)
  then show ?thesis by simp
qed

lemma find_SomeD: "find P xs = Some x \<Longrightarrow> x \<in> set xs \<and> P x"
  by (induction xs) (auto split: if_splits)

lemma find_rev_bound: "find P (rev [0..<n]) = Some i \<Longrightarrow> i < n"
  by (auto dest!: find_SomeD)

lemma rtrim_eq: "rtrim s = rev (dropWhile (\<lambda>x. x \<in> set whitespace) (rev s))"
proof (induction s rule: rev_induct)
  case (snoc c s)
  have "find (\<lambda>i. (s @ [c]) ! i \<notin> set whitespace) (rev [0..<length (s @ [c])])
    = (if c \<notin> set whitespace then Some (length s) else find (\<lambda>i. s ! i \<notin> set whitespace) (rev [0..<length s]))"
    by (rule find_rev_snoc)
  with snoc show ?case
    by (auto simp: rtrim_def take_Suc_conv_app_nth split: option.splits dest: find_rev_bound)
qed (simp add: rtrim_def)

lemma ltrim_eq: "ltrim s = dropWhile (\<lambda>x. x \<in> set whitespace) s"
  using find_dropWhile [where P = "\<lambda>x. x \<notin> set whitespace"] by (simp add: ltrim_def)

lemma trim_strips:
  obtains pre post where "s = pre @ trim s @ post" "set pre \<subseteq> set whitespace" "set post \<subseteq> set whitespace"
proof
  let ?W = "\<lambda>x. x \<in> set whitespace"
  have r: "s = rtrim s @ rev (takeWhile ?W (rev s))"
    unfolding rtrim_eq by (metis rev_append rev_rev_ident takeWhile_dropWhile_id)
  have "rtrim s = takeWhile ?W (rtrim s) @ trim s"
    unfolding trim_def ltrim_eq by simp
  with r show "s = takeWhile ?W (rtrim s) @ trim s @ rev (takeWhile ?W (rev s))"
    by (metis append.assoc)
qed (auto dest: set_takeWhileD)

lemma trim_first: "trim s \<noteq> [] \<Longrightarrow> hd (trim s) \<notin> set whitespace"
  unfolding trim_def ltrim_eq by (metis hd_dropWhile)

lemma trim_last: "trim s \<noteq> [] \<Longrightarrow> last (trim s) \<notin> set whitespace"
proof -
  let ?W = "\<lambda>x. x \<in> set whitespace"
  assume ne: "trim s \<noteq> []"
  have "rtrim s = takeWhile ?W (rtrim s) @ trim s"
    unfolding trim_def ltrim_eq by simp
  with ne have "last (trim s) = last (rtrim s)" and "rtrim s \<noteq> []"
    by (metis last_appendR, metis append_is_Nil_conv)
  then show ?thesis
    unfolding rtrim_eq by (metis hd_dropWhile last_rev rev_is_Nil_conv)
qed

subsection \<open>File names\<close>

lemma rfind_last: "c \<notin> set post \<Longrightarrow> rfind (pre @ c # post) c = Some (length pre)"
proof (induction post rule: rev_induct)
  case Nil
  then show ?case using find_rev_snoc [of "\<lambda>x. x = c" pre c] by (simp add: rfind_def)
next
  case (snoc x post)
  then have "rfind ((pre @ c # post) @ [x]) c = rfind (pre @ c # post) c"
    unfolding rfind_def find_rev_snoc [of "\<lambda>x. x = c"] by auto
  with snoc show ?case by simp
qed

lemma rfind_None: "c \<notin> set s \<Longrightarrow> rfind s c = None"
  by (auto simp: rfind_def find_None_iff)

lemma extractFileBasename_path:
  assumes "CHR ''/'' \<notin> set base" "CHR ''.'' \<notin> set suffix"
  shows "extractFileBasename (dir @ ''/'' @ base @ ''.'' @ suffix) = Ret base"
    and "extractFileBasename (base @ ''.'' @ suffix) = Ret base"
proof -
  have "rfind ((dir @ ''/'' @ base) @ CHR ''.'' # suffix) (CHR ''.'') = Some (length (dir @ ''/'' @ base))"
    by (rule rfind_last) (fact assms)
  moreover have "rfind (dir @ CHR ''/'' # base) (CHR ''/'') = Some (length dir)"
    by (rule rfind_last) (fact assms)
  ultimately show "extractFileBasename (dir @ ''/'' @ base @ ''.'' @ suffix) = Ret base"
    by (simp add: extractFileBasename_def)
  have "rfind (base @ CHR ''.'' # suffix) (CHR ''.'') = Some (length base)"
    by (rule rfind_last) (fact assms)
  then show "extractFileBasename (base @ ''.'' @ suffix) = Ret base"
    by (simp add: extractFileBasename_def rfind_None assms)
qed

lemma removeFileSuffix_path:
  "CHR ''.'' \<notin> set suffix \<Longrightarrow> removeFileSuffix (path @ ''.'' @ suffix) = Ret path"
  using rfind_last [of "CHR ''.''" suffix path] by (simp add: removeFileSuffix_def)

lemma removeFileSuffix_throws: "CHR ''.'' \<notin> set path \<Longrightarrow> removeFileSuffix path = throw Length_error"
  by (simp add: removeFileSuffix_def rfind_None)

subsection \<open>Options\<close>

definition names_extra :: "string \<Rightarrow> bool" where
  "names_extra opt \<longleftrightarrow> find_from opt ''EXTRA_NAMESPACE'' 0 = Some 0"

lemma find_from_Some_0: "find_from s pat 0 = Some 0 \<longleftrightarrow> take (length pat) s = pat"
  using find_from_step [of "[]" s pat] by (auto simp: find_from_def dest!: find_SomeD)

lemma names_extra_prefix: "names_extra opt \<longleftrightarrow> take 15 opt = ''EXTRA_NAMESPACE''"
proof -
  have "length ''EXTRA_NAMESPACE'' = 15" by simp
  then show ?thesis unfolding names_extra_def find_from_Some_0 by (rule arg_cong)
qed

lemma parse_option_flags:
  "mIsMulti (parse_option s opt g) = (mIsMulti g \<or> opt = ''MULTI'')"
  "mHasQml (parse_option s opt g) = (mHasQml g \<or> opt = ''QML'')"
  "mGenerateComments (parse_option s opt g) = (mGenerateComments g \<or> opt = ''COMMENTS'')"
  "mIsFolder (parse_option s opt g) = (mIsFolder g \<or> opt = ''FOLDER'')"
  "mGenerateFieldEnum (parse_option s opt g) = (mGenerateFieldEnum g \<or> opt = ''FIELDENUM'')"
  by (auto simp: parse_option_def Let_def)

lemma parse_option_extra:
  "mExtraNamespace (parse_option s opt g) =
     (if names_extra opt \<and> length (split s (CHR ''='')) = 2 then unquote (split s (CHR ''='') ! 1)
      else mExtraNamespace g)"
  by (auto simp: parse_option_def names_extra_prefix Let_def names_extra_def [symmetric])

lemma parse_options_flags:
  "mIsMulti (fold (parse_option s) os g) = (mIsMulti g \<or> ''MULTI'' \<in> set os)"
  "mHasQml (fold (parse_option s) os g) = (mHasQml g \<or> ''QML'' \<in> set os)"
  "mGenerateComments (fold (parse_option s) os g) = (mGenerateComments g \<or> ''COMMENTS'' \<in> set os)"
  "mIsFolder (fold (parse_option s) os g) = (mIsFolder g \<or> ''FOLDER'' \<in> set os)"
  "mGenerateFieldEnum (fold (parse_option s) os g) = (mGenerateFieldEnum g \<or> ''FIELDENUM'' \<in> set os)"
  by (induction os arbitrary: g) (auto simp: parse_option_flags)

lemma parse_options_extra:
  "mExtraNamespace (fold (parse_option s) os g) =
     (if (\<exists>opt \<in> set os. names_extra opt) \<and> length (split s (CHR ''='')) = 2
      then unquote (split s (CHR ''='') ! 1) else mExtraNamespace g)"
  by (induction os arbitrary: g) (auto simp: parse_option_extra)

text \<open>
  The options of the generator: each flag is set exactly when its name is one of the colon separated options.
  The extra namespace is whatever follows the only equality sign of the whole text, without quotes around it:
  an option behind it becomes part of the name, and a second equality sign drops it.
\<close>

theorem options_parsed:
  "(let g = parseFromEnv options default_options; opts = split options (CHR '':'')
    in mIsMulti g = (''MULTI'' \<in> set opts) \<and> mHasQml g = (''QML'' \<in> set opts)
       \<and> mGenerateComments g = (''COMMENTS'' \<in> set opts) \<and> mIsFolder g = (''FOLDER'' \<in> set opts)
       \<and> mGenerateFieldEnum g = (''FIELDENUM'' \<in> set opts)
       \<and> mExtraNamespace g =
           (if (\<exists>opt. opt \<in> set opts \<and> take 15 opt = ''EXTRA_NAMESPACE'') \<and> length (split options (CHR ''='')) = 2
            then unquote (split options (CHR ''='') ! 1) else []))
   \<and> mExtraNamespace (parseFromEnv ''QML:EXTRA_NAMESPACE=Ns'' default_options) = ''Ns''
   \<and> mExtraNamespace (parseFromEnv ''EXTRA_NAMESPACE=Ns:QML'' default_options) = ''Ns:QML''"
proof -
  have "mExtraNamespace (parseFromEnv ''QML:EXTRA_NAMESPACE=Ns'' default_options) = ''Ns''"
    and "mExtraNamespace (parseFromEnv ''EXTRA_NAMESPACE=Ns:QML'' default_options) = ''Ns:QML''"
    by (simp_all add: parseFromEnv_def parse_option_extra names_extra_prefix split_def unquote_def)
  then show ?thesis
    by (simp add: parseFromEnv_def parse_options_flags parse_options_extra names_extra_prefix default_options_def Let_def)
       blast
qed

end
