(* ===== verification/GeneratorTemplates.thy ===== *)
theory GeneratorTemplates
  imports QtPrelude
begin

section \<open>Templates of the generated code\<close>

text \<open>
  The string constants of \<open>src/generator/templates.cpp\<close> that the generator prints, with their names and their
  text. \<open>\<newline>\<close> stands for the line feed the source writes as \<open>\n\<close>. At the end, the variables each of them refers to
  and the blocks it opens or closes, as facts for the proofs about the printers.
\<close>

named_theorems template_facts \<open>variables and blocks of the templates\<close>

definition ProtoSufix :: string where \<open>
  ProtoSufix =
    ''_proto''\<close>

definition DefaultProtobufIncludesTemplate :: string where \<open>
  DefaultProtobufIncludesTemplate =
    ''#include <QMetaType>\<newline>''
    @ ''#include <QList>\<newline>''
    @ ''#include <QProtobufObject>\<newline>''
    @ ''#include <QProtobufLazyMessagePointer>\<newline>''
    @ ''#include <QSharedPointer>\<newline>''
    @ ''\<newline>''
    @ ''#include <memory>\<newline>''
    @ ''#include <unordered_map>\<newline>''
    @ ''\<newline>''\<close>

definition QmlProtobufIncludesTemplate :: string where \<open>
  QmlProtobufIncludesTemplate =
    ''#include <QtQml/QQmlListProperty>\<newline>''
    @ ''#include <QQmlListPropertyConstructor>\<newline>\<newline>''\<close>

definition DisclaimerTemplate :: string where \<open>
  DisclaimerTemplate =
    ''/* This file is autogenerated. DO NOT CHANGE. All changes will be lost */\<newline>\<newline>''\<close>

definition PreambleTemplate :: string where \<open>
  PreambleTemplate =
    ''#pragma once\<newline>\<newline>''
    @ ''#include <QObject>\<newline>''\<close>

definition InternalIncludeTemplate :: string where \<open>
  InternalIncludeTemplate =
    ''#include "$include$.h"\<newline>''\<close>

definition ExternalIncludeTemplate :: string where \<open>
  ExternalIncludeTemplate =
    ''#include <$include$>\<newline>''\<close>

definition GlobalEnumIncludeTemplate :: string where \<open>
  GlobalEnumIncludeTemplate =
    ''#include <globalenums.h>\<newline>''\<close>

definition ManualRegistrationDeclaration :: string where \<open>
  ManualRegistrationDeclaration =
    ''static void registerTypes();\<newline>''\<close>

definition ManualRegistrationComplexTypeDefinition :: string where \<open>
  ManualRegistrationComplexTypeDefinition =
    ''void $type$::registerTypes()\<newline>{\<newline>''
    @ ''    qRegisterMetaType<$type$>("$full_type$");\<newline>''
    @ ''    qRegisterMetaType<$type$*>("$full_type$*");\<newline>''
    @ ''    qRegisterMetaType<$list_type$>("$full_list_type$");\<newline>''\<close>

definition ManualRegistrationGlobalEnumDefinition :: string where \<open>
  ManualRegistrationGlobalEnumDefinition =
    ''void $enum_gadget$::registerTypes()\<newline>{\<newline>''\<close>

definition ComplexGlobalEnumFieldRegistrationTemplate :: string where \<open>
  ComplexGlobalEnumFieldRegistrationTemplate =
    ''qRegisterMetaType<$type$>("$full_type$");\<newline>''\<close>

definition ComplexListTypeUsingTemplate :: string where \<open>
  ComplexListTypeUsingTemplate =
    ''using $classname$Repeated = QList<QSharedPointer<$classname$>>;\<newline>''\<close>

definition MapTypeUsingTemplate :: string where \<open>
  MapTypeUsingTemplate =
    ''using $type$ = QMap<$key_type$, $value_type$>;\<newline>''\<close>

definition MessageMapTypeUsingTemplate :: string where \<open>
  MessageMapTypeUsingTemplate =
    ''using $type$ = QMap<$key_type$, QSharedPointer<$value_type$>>;\<newline>''\<close>

definition NestedMessageUsingTemplate :: string where \<open>
  NestedMessageUsingTemplate =
    ''using $type$ = $scope_namespaces$::$type$;\<newline>''
    @ ''using $list_type$ = $scope_namespaces$::$list_type$;\<newline>''\<close>

definition EnumTypeRepeatedTemplate :: string where \<open>
  EnumTypeRepeatedTemplate =
    ''using $list_type$ = QList<$type$>;\<newline>''\<close>

definition NamespaceTemplate :: string where \<open>
  NamespaceTemplate =
    ''namespace $namespace$ {\<newline>''\<close>

definition UsingNamespaceTemplate :: string where \<open>
  UsingNamespaceTemplate =
    ''using namespace $namespace$;\<newline>''\<close>

definition ClassDeclarationTemplate :: string where \<open>
  ClassDeclarationTemplate =
    ''\<newline>class $classname$ : public QObject\<newline>''
    @ ''{\<newline>''
    @ ''    Q_OBJECT\<newline>''\<close>

definition ProtoClassForwardDeclarationTemplate :: string where \<open>
  ProtoClassForwardDeclarationTemplate =
    ''class $classname$;\<newline>''\<close>

definition ProtoClassDeclarationBeginTemplate :: string where \<open>
  ProtoClassDeclarationBeginTemplate =
    ''\<newline>class $classname$ : public QObject\<newline>''
    @ ''{\<newline>''
    @ ''    Q_OBJECT\<newline>''
    @ ''    Q_PROTOBUF_OBJECT\<newline>''
    @ ''    Q_DECLARE_PROTOBUF_SERIALIZERS($classname$)\<newline>''\<close>

definition PropertyTemplate :: string where \<open>
  PropertyTemplate =
    ''Q_PROPERTY($property_type$ $property_name$ READ $property_name$ WRITE set$property_name_cap$ NOTIFY $property_name$Changed SCRIPTABLE $scriptable$)\<newline>''\<close>

definition RepeatedPropertyTemplate :: string where \<open>
  RepeatedPropertyTemplate =
    ''Q_PROPERTY($property_list_type$ $property_name$ READ $property_name$ WRITE set$property_name_cap$ NOTIFY $property_name$Changed SCRIPTABLE $scriptable$)\<newline>''\<close>

definition RepeatedMessagePropertyTemplate :: string where \<open>
  RepeatedMessagePropertyTemplate =
    ''Q_PROPERTY($property_list_type$ $property_name$Data READ $property_name$ WRITE set$property_name_cap$ NOTIFY $property_name$Changed SCRIPTABLE $scriptable$)\<newline>''\<close>

definition NonScriptablePropertyTemplate :: string where \<open>
  NonScriptablePropertyTemplate =
    ''Q_PROPERTY($property_type$ $property_name$_p READ $property_name$ WRITE set$property_name_cap$ NOTIFY $property_name$Changed SCRIPTABLE false)\<newline>''\<close>

definition NonScriptableAliasPropertyTemplate :: string where \<open>
  NonScriptableAliasPropertyTemplate =
    ''Q_PROPERTY($qml_alias_type$ $property_name$ READ $property_name$_p WRITE set$property_name_cap$_p NOTIFY $property_name$Changed SCRIPTABLE true)\<newline>''\<close>

definition MessagePropertyTemplate :: string where \<open>
  MessagePropertyTemplate =
    ''Q_PROPERTY($property_type$ *$property_name$ READ $property_name$_p WRITE set$property_name_cap$_p NOTIFY $property_name$Changed)\<newline>''\<close>

definition QmlListPropertyTemplate :: string where \<open>
  QmlListPropertyTemplate =
    ''Q_PROPERTY(QQmlListProperty<$property_type$> $property_name$ READ $property_name$_l NOTIFY $property_name$Changed)\<newline>''\<close>

definition ConstructorParameterTemplate :: string where \<open>
  ConstructorParameterTemplate =
    ''$scope_type$ $property_name$,''\<close>

definition ConstructorMessageParameterTemplate :: string where \<open>
  ConstructorMessageParameterTemplate =
    ''const $scope_type$ &$property_name$,''\<close>

definition ConstructorRepeatedParameterTemplate :: string where \<open>
  ConstructorRepeatedParameterTemplate =
    ''const $scope_list_type$ &$property_name$,''\<close>

definition ProtoConstructorBeginTemplate :: string where \<open>
  ProtoConstructorBeginTemplate =
    ''$classname$(''\<close>

definition ProtoConstructorEndTemplate :: string where \<open>
  ProtoConstructorEndTemplate =
    ''QObject *parent = nullptr);\<newline>''\<close>

definition MemberTemplate :: string where \<open>
  MemberTemplate =
    ''$scope_type$ m_$property_name$;\<newline>''\<close>

definition ListMemberTemplate :: string where \<open>
  ListMemberTemplate =
    ''$scope_list_type$ m_$property_name$;\<newline>''\<close>

definition ComplexMemberTemplate :: string where \<open>
  ComplexMemberTemplate =
    ''QProtobufLazyMessagePointer<$scope_type$> m_$property_name$;\<newline>''\<close>

definition PublicBlockTemplate :: string where \<open>
  PublicBlockTemplate =
    ''\<newline>public:\<newline>''\<close>

definition PrivateBlockTemplate :: string where \<open>
  PrivateBlockTemplate =
    ''\<newline>private:\<newline>''\<close>

definition EnumDefinitionTemplate :: string where \<open>
  EnumDefinitionTemplate =
    ''enum $type$ {\<newline>''\<close>

definition EnumFieldTemplate :: string where \<open>
  EnumFieldTemplate =
    ''$enumvalue$ = $value$,\<newline>''\<close>

definition ProtoConstructorDefinitionBeginTemplate :: string where \<open>
  ProtoConstructorDefinitionBeginTemplate =
    ''$type$::$type$(''\<close>

definition ProtoConstructorDefinitionEndTemplate :: string where \<open>
  ProtoConstructorDefinitionEndTemplate =
    ''QObject *parent) : QObject(parent)''\<close>

definition QObjectConstructorTemplate :: string where \<open>
  QObjectConstructorTemplate =
    ''explicit $classname$(QObject *parent = nullptr);\<newline>''\<close>

definition ConstructorHeaderTemplate :: string where \<open>
  ConstructorHeaderTemplate =
    ''$classname$() {}\<newline>''\<close>

definition CopyConstructorDeclarationTemplate :: string where \<open>
  CopyConstructorDeclarationTemplate =
    ''$classname$(const $classname$ &other);\<newline>''\<close>

definition MoveConstructorDeclarationTemplate :: string where \<open>
  MoveConstructorDeclarationTemplate =
    ''$classname$($classname$ &&other);\<newline>''\<close>

definition CopyConstructorDefinitionTemplate :: string where \<open>
  CopyConstructorDefinitionTemplate =
    ''$classname$::$classname$(const $classname$ &other) : QObject()''\<close>

definition MoveConstructorDefinitionTemplate :: string where \<open>
  MoveConstructorDefinitionTemplate =
    ''$classname$::$classname$($classname$ &&other) : QObject()''\<close>

definition EmptyCopyConstructorDefinitionTemplate :: string where \<open>
  EmptyCopyConstructorDefinitionTemplate =
    ''$classname$::$classname$(const $classname$ &) : QObject()''\<close>

definition EmptyMoveConstructorDefinitionTemplate :: string where \<open>
  EmptyMoveConstructorDefinitionTemplate =
    ''$classname$::$classname$($classname$ &&) : QObject()''\<close>

definition DeletedCopyConstructorTemplate :: string where \<open>
  DeletedCopyConstructorTemplate =
    ''$classname$(const $classname$ &) = delete;\<newline>''\<close>

definition DeletedMoveConstructorTemplate :: string where \<open>
  DeletedMoveConstructorTemplate =
    ''$classname$($classname$ &&) = delete;\<newline>''\<close>

definition CopyFieldTemplate :: string where \<open>
  CopyFieldTemplate =
    ''set$property_name_cap$(other.m_$property_name$);\<newline>''\<close>

definition CopyComplexFieldTemplate :: string where \<open>
  CopyComplexFieldTemplate =
    ''if (m_$property_name$ != other.m_$property_name$) {\<newline>''
    @ ''    *m_$property_name$ = *other.m_$property_name$;\<newline>''
    @ ''}\<newline>''\<close>

definition AssignComplexFieldTemplate :: string where \<open>
  AssignComplexFieldTemplate =
    ''if (m_$property_name$ != other.m_$property_name$) {\<newline>''
    @ ''    *m_$property_name$ = *other.m_$property_name$;\<newline>''
    @ ''    $property_name$Changed();\<newline>''
    @ ''}\<newline>''\<close>

definition MoveMessageFieldTemplate :: string where \<open>
  MoveMessageFieldTemplate =
    ''if (m_$property_name$ != other.m_$property_name$) {\<newline>''
    @ ''    *m_$property_name$ = std::move(*other.m_$property_name$);\<newline>''
    @ ''}\<newline>''\<close>

definition MoveAssignMessageFieldTemplate :: string where \<open>
  MoveAssignMessageFieldTemplate =
    ''if (m_$property_name$ != other.m_$property_name$) {\<newline>''
    @ ''    *m_$property_name$ = std::move(*other.m_$property_name$);\<newline>''
    @ ''    $property_name$Changed();\<newline>''
    @ ''    other.$property_name$Changed();\<newline>''
    @ ''}\<newline>''\<close>

definition MoveComplexFieldTemplate :: string where \<open>
  MoveComplexFieldTemplate =
    ''if (m_$property_name$ != other.m_$property_name$) {\<newline>''
    @ ''    m_$property_name$ = std::move(other.m_$property_name$);\<newline>''
    @ ''    $property_name$Changed();\<newline>''
    @ ''    other.$property_name$Changed();\<newline>''
    @ ''}''\<close>

definition MoveComplexFieldConstructorTemplate :: string where \<open>
  MoveComplexFieldConstructorTemplate =
    ''m_$property_name$ = std::move(other.m_$property_name$);\<newline>''
    @ ''other.$property_name$Changed();\<newline>''\<close>

definition MoveFieldTemplate :: string where \<open>
  MoveFieldTemplate =
    ''set$property_name_cap$(std::exchange(other.m_$property_name$, 0));\<newline>''
    @ ''other.$property_name$Changed();\<newline>''\<close>

definition EnumMoveFieldTemplate :: string where \<open>
  EnumMoveFieldTemplate =
    ''m_$property_name$ = other.m_$property_name$;\<newline>''\<close>

definition AssignmentOperatorDeclarationTemplate :: string where \<open>
  AssignmentOperatorDeclarationTemplate =
    ''$classname$ &operator =(const $classname$ &other);\<newline>''\<close>

definition AssignmentOperatorDefinitionTemplate :: string where \<open>
  AssignmentOperatorDefinitionTemplate =
    ''$classname$ &$classname$::operator =(const $classname$ &other)\<newline>{\<newline>''\<close>

definition EmptyAssignmentOperatorDefinitionTemplate :: string where \<open>
  EmptyAssignmentOperatorDefinitionTemplate =
    ''$classname$ &$classname$::operator =(const $classname$ &)\<newline>{\<newline>''\<close>

definition AssignmentOperatorReturnTemplate :: string where \<open>
  AssignmentOperatorReturnTemplate =
    ''return *this;\<newline>''\<close>

definition MoveAssignmentOperatorDeclarationTemplate :: string where \<open>
  MoveAssignmentOperatorDeclarationTemplate =
    ''$classname$ &operator =($classname$ &&other);\<newline>''\<close>

definition MoveAssignmentOperatorDefinitionTemplate :: string where \<open>
  MoveAssignmentOperatorDefinitionTemplate =
    ''$classname$ &$classname$::operator =($classname$ &&other)\<newline>{\<newline>''\<close>

definition EmptyMoveAssignmentOperatorDefinitionTemplate :: string where \<open>
  EmptyMoveAssignmentOperatorDefinitionTemplate =
    ''$classname$ &$classname$::operator =($classname$ &&)\<newline>{\<newline>''\<close>

definition EqualOperatorDeclarationTemplate :: string where \<open>
  EqualOperatorDeclarationTemplate =
    ''bool operator ==(const $classname$ &other) const;\<newline>''\<close>

definition EqualOperatorDefinitionTemplate :: string where \<open>
  EqualOperatorDefinitionTemplate =
    ''bool $classname$::operator ==(const $classname$ &other) const\<newline>{\<newline>''
    @ ''    return ''\<close>

definition EmptyEqualOperatorDefinitionTemplate :: string where \<open>
  EmptyEqualOperatorDefinitionTemplate =
    ''bool $classname$::operator ==(const $classname$ &) const\<newline>{\<newline>''
    @ ''    return true;\<newline>''
    @ ''}\<newline>\<newline>''\<close>

definition EqualOperatorPropertyTemplate :: string where \<open>
  EqualOperatorPropertyTemplate =
    ''m_$property_name$ == other.m_$property_name$''\<close>

definition EqualOperatorMessagePropertyTemplate :: string where \<open>
  EqualOperatorMessagePropertyTemplate =
    ''(m_$property_name$ == other.m_$property_name$\<newline>''
    @ ''    || *m_$property_name$ == *other.m_$property_name$)\<newline>''\<close>

definition EqualOperatorRepeatedPropertyTemplate :: string where \<open>
  EqualOperatorRepeatedPropertyTemplate =
    ''QtProtobuf::repeatedValueCompare(m_$property_name$, other.m_$property_name$)''\<close>

definition NotEqualOperatorDeclarationTemplate :: string where \<open>
  NotEqualOperatorDeclarationTemplate =
    ''bool operator !=(const $classname$ &other) const;\<newline>''\<close>

definition NotEqualOperatorDefinitionTemplate :: string where \<open>
  NotEqualOperatorDefinitionTemplate =
    ''bool $classname$::operator !=(const $classname$ &other) const\<newline>{\<newline>''
    @ ''    return !this->operator ==(other);\<newline>''
    @ ''}\<newline>\<newline>''\<close>

definition GetterPrivateMessageDeclarationTemplate :: string where \<open>
  GetterPrivateMessageDeclarationTemplate =
    ''$getter_type$ *$property_name$_p() const;\<newline>''\<close>

definition GetterPrivateMessageDefinitionTemplate :: string where \<open>
  GetterPrivateMessageDefinitionTemplate =
    ''$getter_type$ *$classname$::$property_name$_p() const\<newline>{\<newline>''
    @ ''    return m_$property_name$.get();\<newline>''
    @ ''}\<newline>\<newline>''\<close>

definition GetterMessageDeclarationTemplate :: string where \<open>
  GetterMessageDeclarationTemplate =
    ''$getter_type$ &$property_name$() const;\<newline>''\<close>

definition GetterMessageDefinitionTemplate :: string where \<open>
  GetterMessageDefinitionTemplate =
    ''$getter_type$ &$classname$::$property_name$() const\<newline>{\<newline>''
    @ ''    return *m_$property_name$;\<newline>''
    @ ''}\<newline>\<newline>''\<close>

definition GetterTemplate :: string where \<open>
  GetterTemplate =
    ''$getter_type$ $property_name$() const {\<newline>''
    @ ''    return m_$property_name$;\<newline>''
    @ ''}\<newline>\<newline>''\<close>

definition NonScriptableGetterTemplate :: string where \<open>
  NonScriptableGetterTemplate =
    ''$qml_alias_type$ $property_name$_p() const {\<newline>''
    @ ''    return m_$property_name$;\<newline>''
    @ ''}\<newline>\<newline>''\<close>

definition GetterContainerExtraTemplate :: string where \<open>
  GetterContainerExtraTemplate =
    ''$getter_type$ &$property_name$() {\<newline>''
    @ ''    return m_$property_name$;\<newline>''
    @ ''}\<newline>\<newline>''\<close>

definition GetterQmlListDeclarationTemplate :: string where \<open>
  GetterQmlListDeclarationTemplate =
    ''QQmlListProperty<$scope_type$> $property_name$_l();\<newline>''\<close>

definition GetterQmlListDefinitionTemplate :: string where \<open>
  GetterQmlListDefinitionTemplate =
    ''QQmlListProperty<$full_type$> $classname$::$property_name$_l()\<newline>{\<newline>''
    @ ''    return QtProtobuf::constructQmlListProperty<$scope_type$>(this, &m_$property_name$);\<newline>''
    @ ''}\<newline>\<newline>''\<close>

definition SetterPrivateTemplateDeclarationMessageType :: string where \<open>
  SetterPrivateTemplateDeclarationMessageType =
    ''void set$property_name_cap$_p($setter_type$ *$property_name$);\<newline>''\<close>

definition SetterPrivateTemplateDefinitionMessageType :: string where \<open>
  SetterPrivateTemplateDefinitionMessageType =
    ''void $classname$::set$property_name_cap$_p($setter_type$ *$property_name$)\<newline>{\<newline>''
    @ ''    if (m_$property_name$.get() != $property_name$) {\<newline>''
    @ ''        m_$property_name$.reset($property_name$);\<newline>''
    @ ''        $property_name$Changed();\<newline>''
    @ ''    }\<newline>''
    @ ''}\<newline>\<newline>''\<close>

definition SetterTemplateDeclarationMessageType :: string where \<open>
  SetterTemplateDeclarationMessageType =
    ''void set$property_name_cap$(const $setter_type$ &$property_name$);\<newline>''\<close>

definition SetterTemplateDefinitionMessageType :: string where \<open>
  SetterTemplateDefinitionMessageType =
    ''void $classname$::set$property_name_cap$(const $setter_type$ &$property_name$)\<newline>{\<newline>''
    @ ''    if (*m_$property_name$ != $property_name$) {\<newline>''
    @ ''        *m_$property_name$ = $property_name$;\<newline>''
    @ ''        $property_name$Changed();\<newline>''
    @ ''    }\<newline>''
    @ ''}\<newline>\<newline>''\<close>

definition SetterTemplateDeclarationComplexType :: string where \<open>
  SetterTemplateDeclarationComplexType =
    ''void set$property_name_cap$(const $setter_type$ &$property_name$);\<newline>''\<close>

definition SetterTemplateDefinitionComplexType :: string where \<open>
  SetterTemplateDefinitionComplexType =
    ''void $classname$::set$property_name_cap$(const $setter_type$ &$property_name$)\<newline>{\<newline>''
    @ ''    if (m_$property_name$ != $property_name$) {\<newline>''
    @ ''        m_$property_name$ = $property_name$;\<newline>''
    @ ''        $property_name$Changed();\<newline>''
    @ ''    }\<newline>''
    @ ''}\<newline>\<newline>''\<close>

definition SetterTemplate :: string where \<open>
  SetterTemplate =
    ''void set$property_name_cap$(const $setter_type$ &$property_name$) {\<newline>''
    @ ''    if (m_$property_name$ != $property_name$) {\<newline>''
    @ ''        m_$property_name$ = $property_name$;\<newline>''
    @ ''        $property_name$Changed();\<newline>''
    @ ''    }\<newline>''
    @ ''}\<newline>\<newline>''\<close>

definition NonScriptableSetterTemplate :: string where \<open>
  NonScriptableSetterTemplate =
    ''void set$property_name_cap$_p(const $qml_alias_type$ &$property_name$) {\<newline>''
    @ ''    if (m_$property_name$ != $property_name$) {\<newline>''
    @ ''        m_$property_name$ = $property_name$;\<newline>''
    @ ''        $property_name$Changed();\<newline>''
    @ ''    }\<newline>''
    @ ''}\<newline>\<newline>''\<close>

definition SignalsBlockTemplate :: string where \<open>
  SignalsBlockTemplate =
    ''\<newline>signals:\<newline>''\<close>

definition SignalTemplate :: string where \<open>
  SignalTemplate =
    ''void $property_name$Changed();\<newline>''\<close>

definition FieldsOrderingContainerTemplate :: string where \<open>
  FieldsOrderingContainerTemplate =
    ''const QtProtobuf::QProtobufMetaObject $type$::protobufMetaObject = QtProtobuf::QProtobufMetaObject($type$::staticMetaObject, $type$::propertyOrdering);\<newline>''
    @ ''const QtProtobuf::QProtobufPropertyOrdering $type$::propertyOrdering = {''\<close>

definition FieldOrderTemplate :: string where \<open>
  FieldOrderTemplate =
    ''{$field_number$, {$property_number$, "$json_name$"}}''\<close>

definition SimpleBlockEnclosureTemplate :: string where \<open>
  SimpleBlockEnclosureTemplate =
    ''}\<newline>''\<close>

definition SemicolonBlockEnclosureTemplate :: string where \<open>
  SemicolonBlockEnclosureTemplate =
    ''};\<newline>''\<close>

definition PropertyInitializerTemplate :: string where \<open>
  PropertyInitializerTemplate =
    ''\<newline>    , m_$property_name$($property_name$)''\<close>

definition PropertyDefaultInitializerTemplate :: string where \<open>
  PropertyDefaultInitializerTemplate =
    ''\<newline>    , m_$property_name$($initializer$)''\<close>

definition MessagePropertyInitializerTemplate :: string where \<open>
  MessagePropertyInitializerTemplate =
    ''\<newline>    , m_$property_name$(new $scope_type$($property_name$))''\<close>

definition MessagePropertyDefaultInitializerTemplate :: string where \<open>
  MessagePropertyDefaultInitializerTemplate =
    ''\<newline>    , m_$property_name$(nullptr)''\<close>

definition ConstructorContentTemplate :: string where \<open>
  ConstructorContentTemplate =
    ''\<newline>{\<newline>}\<newline>''\<close>

definition DeclareMetaTypeTemplate :: string where \<open>
  DeclareMetaTypeTemplate =
    ''Q_DECLARE_METATYPE($full_type$)\<newline>''\<close>

definition DeclareMetaTypeListTemplate :: string where \<open>
  DeclareMetaTypeListTemplate =
    ''Q_DECLARE_METATYPE($full_list_type$)\<newline>''\<close>

definition DeclareComplexListTypeTemplate :: string where \<open>
  DeclareComplexListTypeTemplate =
    ''Q_DECLARE_METATYPE($full_list_type$)\<newline>''\<close>

definition DeclareComplexQmlListTypeTemplate :: string where \<open>
  DeclareComplexQmlListTypeTemplate =
    ''Q_DECLARE_METATYPE(QQmlListProperty<$full_type$>)\<newline>''\<close>

definition DeclareMetaTypeMapTemplate :: string where \<open>
  DeclareMetaTypeMapTemplate =
    ''#ifndef Q_PROTOBUF_MAP_$key_type_underscore$_$value_type_underscore$\<newline>''
    @ ''#define Q_PROTOBUF_MAP_$key_type_underscore$_$value_type_underscore$\<newline>''
    @ ''Q_DECLARE_METATYPE($full_type$)\<newline>''
    @ ''#endif\<newline>''\<close>

definition RegisterLocalEnumTemplate :: string where \<open>
  RegisterLocalEnumTemplate =
    ''qRegisterProtobufEnumType<$scope_type$>();\<newline>''
    @ ''qRegisterMetaType<$scope_type$>("$type$");\<newline>''
    @ ''qRegisterMetaType<$scope_type$>("$full_type$");\<newline>''
    @ ''qRegisterMetaType<$scope_list_type$>("$full_list_type$");\<newline>''\<close>

definition RegisterMapTemplate :: string where \<open>
  RegisterMapTemplate =
    ''qRegisterMetaType<$scope_type$>("$full_type$");\<newline>''
    @ ''qRegisterMetaType<$scope_type$>("$full_list_type$");\<newline>''
    @ ''qRegisterProtobufMapType<$key_type$, $value_type$>();\<newline>''\<close>

definition RegisterGlobalEnumMetaTypeTemplate :: string where \<open>
  RegisterGlobalEnumMetaTypeTemplate =
    ''qRegisterMetaType<$full_type$>("$full_type$");\<newline>''\<close>

definition RegisterQmlListPropertyMetaTypeTemplate :: string where \<open>
  RegisterQmlListPropertyMetaTypeTemplate =
    ''qRegisterMetaType<QQmlListProperty<$full_type$>>("QQmlListProperty<$full_type$>");\<newline>''\<close>

definition QEnumTemplate :: string where \<open>
  QEnumTemplate =
    ''Q_ENUM($type$)\<newline>''\<close>

definition ClassDefinitionTemplate :: string where \<open>
  ClassDefinitionTemplate =
    ''\<newline>class $classname$ : public $parent_class$\<newline>''
    @ ''{\<newline>''\<close>

definition QObjectMacro :: string where \<open>
  QObjectMacro =
    ''Q_OBJECT''\<close>

definition ClientMethodDeclarationSyncTemplate :: string where \<open>
  ClientMethodDeclarationSyncTemplate =
    ''QtProtobuf::QGrpcStatus $method_name$(const $param_type$ &$param_name$, const QPointer<$return_type$> &$return_name$);\<newline>''\<close>

definition ClientMethodDeclarationAsyncTemplate :: string where \<open>
  ClientMethodDeclarationAsyncTemplate =
    ''QtProtobuf::QGrpcCallReplyShared $method_name$(const $param_type$ &$param_name$);\<newline>''\<close>

definition ClientMethodDeclarationAsync2Template :: string where \<open>
  ClientMethodDeclarationAsync2Template =
    ''Q_INVOKABLE void $method_name$(const $param_type$ &$param_name$, const QObject *context, const std::function<void(QtProtobuf::QGrpcCallReplyShared)> &callback);\<newline>''\<close>

definition ClientMethodDeclarationQmlTemplate :: string where \<open>
  ClientMethodDeclarationQmlTemplate =
    ''Q_INVOKABLE void $method_name$($param_type$ *$param_name$, const QJSValue &callback, const QJSValue &errorCallback);\<newline>''\<close>

definition ClientMethodDeclarationQml2Template :: string where \<open>
  ClientMethodDeclarationQml2Template =
    ''Q_INVOKABLE void $method_name$($param_type$ *$param_name$, $return_type$ *$return_name$, const QJSValue &errorCallback);\<newline>''\<close>

definition ClientConstructorDefinitionTemplate :: string where \<open>
  ClientConstructorDefinitionTemplate =
    ''\<newline>$classname$::$classname$(QObject *parent) : $parent_class$("$service_name$", parent)\<newline>''
    @ ''{\<newline>''
    @ ''}\<newline>''\<close>

definition ClientMethodDefinitionSyncTemplate :: string where \<open>
  ClientMethodDefinitionSyncTemplate =
    ''\<newline>QtProtobuf::QGrpcStatus $classname$::$method_name$(const $param_type$ &$param_name$, const QPointer<$return_type$> &$return_name$)\<newline>''
    @ ''{\<newline>''
    @ ''    return call("$method_name$", $param_name$, $return_name$);\<newline>''
    @ ''}\<newline>''\<close>

definition ClientMethodDefinitionAsyncTemplate :: string where \<open>
  ClientMethodDefinitionAsyncTemplate =
    ''\<newline>QtProtobuf::QGrpcCallReplyShared $classname$::$method_name$(const $param_type$ &$param_name$)\<newline>''
    @ ''{\<newline>''
    @ ''    return call("$method_name$", $param_name$);\<newline>''
    @ ''}\<newline>''\<close>

definition ClientMethodDefinitionAsync2Template :: string where \<open>
  ClientMethodDefinitionAsync2Template =
    ''\<newline>void $classname$::$method_name$(const $param_type$ &$param_name$, const QObject *context, const std::function<void(QGrpcCallReplyShared)> &callback)\<newline>''
    @ ''{\<newline>''
    @ ''    QtProtobuf::QGrpcCallReplyShared reply = call("$method_name$", $param_name$);\<newline>''
    @ ''    QObject::connect(reply.get(), &QtProtobuf::QGrpcCallReply::finished, context, [reply, callback]() mutable {\<newline>''
    @ ''        callback(reply);\<newline>''
    @ ''        reply.reset();\<newline>''
    @ ''    });\<newline>''
    @ ''}\<newline>''\<close>

definition ClientMethodDefinitionQmlTemplate :: string where \<open>
  ClientMethodDefinitionQmlTemplate =
    ''\<newline>void $classname$::$method_name$($param_type$ *$param_name$, const QJSValue &callback, const QJSValue &errorCallback)\<newline>''
    @ ''{\<newline>''
    @ ''    if (!callback.isCallable()) {\<newline>''
    @ ''        qProtoWarning() << "Unable to call $classname$::$method_name$, callback is not callable";\<newline>''
    @ ''        return;\<newline>''
    @ ''    }\<newline>\<newline>''
    @ ''    if (arg == nullptr) {\<newline>''
    @ ''        qProtoWarning() << "Invalid argument provided for method $classname$::$method_name$, argument of type '$param_type$ *' expected";\<newline>''
    @ ''        return;\<newline>''
    @ ''    }\<newline>\<newline>''
    @ ''    QJSEngine *jsEngine = qjsEngine(this);\<newline>''
    @ ''    if (jsEngine == nullptr) {\<newline>''
    @ ''        qProtoWarning() << "Unable to call $classname$::$method_name$, it's only callable from JS engine context";\<newline>''
    @ ''        return;\<newline>''
    @ ''    }\<newline>\<newline>''
    @ ''    QtProtobuf::QGrpcCallReplyShared reply = call("$method_name$", *$param_name$);\<newline>''
    @ ''    reply->subscribe(jsEngine, [this, reply, callback, jsEngine]() {\<newline>''
    @ ''        auto result = new $return_type$(reply->read<$return_type$>());\<newline>''
    @ ''        qmlEngine(this)->setObjectOwnership(result, QQmlEngine::JavaScriptOwnership);\<newline>''
    @ ''        QJSValue(callback).call(QJSValueList{jsEngine->toScriptValue(result)});\<newline>''
    @ ''    }, [errorCallback, jsEngine](const QGrpcStatus &status) {\<newline>''
    @ ''        QJSValue(errorCallback).call(QJSValueList{jsEngine->toScriptValue(status)});\<newline>''
    @ ''    });\<newline>''
    @ ''}\<newline>''\<close>

definition ClientMethodDefinitionQml2Template :: string where \<open>
  ClientMethodDefinitionQml2Template =
    ''\<newline>void $classname$::$method_name$($param_type$ *$param_name$, $return_type$ *$return_name$, const QJSValue &errorCallback)\<newline>''
    @ ''{\<newline>''
    @ ''    if ($return_name$ == nullptr) {\<newline>''
    @ ''        qProtoWarning() << "Invalid argument provided for method $classname$::$method_name$, argument of type '$return_type$ *' expected";\<newline>''
    @ ''        return;\<newline>''
    @ ''    }\<newline>\<newline>''
    @ ''    QPointer<$return_type$> safeReturn($return_name$);\<newline>\<newline>''
    @ ''    if ($param_name$ == nullptr) {\<newline>''
    @ ''        qProtoWarning() << "Invalid argument provided for method $classname$::$method_name$, argument of type '$param_type$ *' expected";\<newline>''
    @ ''        return;\<newline>''
    @ ''    }\<newline>\<newline>''
    @ ''    QJSEngine *jsEngine = qjsEngine(this);\<newline>''
    @ ''    if (jsEngine == nullptr) {\<newline>''
    @ ''        qProtoWarning() << "Unable to call $classname$::$method_name$, it's only callable from JS engine context";\<newline>''
    @ ''        return;\<newline>''
    @ ''    }\<newline>\<newline>''
    @ ''    QtProtobuf::QGrpcCallReplyShared reply = call("$method_name$", *$param_name$);\<newline>''
    @ ''    reply->subscribe(jsEngine, [this, reply, jsEngine, safeReturn]() {\<newline>''
    @ ''        if (safeReturn.isNull()) {\<newline>''
    @ ''            qProtoWarning() << "Return value is destroyed. Ignore call result";\<newline>''
    @ ''            return;\<newline>''
    @ ''        }\<newline>''
    @ ''        *safeReturn = $return_type$(reply->read<$return_type$>());\<newline>''
    @ ''    }, [errorCallback, jsEngine](const QGrpcStatus &status) {\<newline>''
    @ ''        QJSValue(errorCallback).call(QJSValueList{jsEngine->toScriptValue(status)});\<newline>''
    @ ''    });\<newline>''
    @ ''}\<newline>''\<close>

definition RegisterEnumSerializersTemplate :: string where \<open>
  RegisterEnumSerializersTemplate =
    ''qRegisterProtobufEnumType<$full_type$>();\<newline>''\<close>

definition RegistrarTemplate :: string where \<open>
  RegistrarTemplate =
    ''static QtProtobuf::ProtoTypeRegistrar<$classname$> ProtoTypeRegistrar$classname$(qRegisterProtobufType<$classname$>);\<newline>''\<close>

definition EnumRegistrarTemplate :: string where \<open>
  EnumRegistrarTemplate =
    ''static QtProtobuf::ProtoTypeRegistrar<$enum_gadget$> ProtoTypeRegistrar$enum_gadget$($enum_gadget$::registerTypes);\<newline>''\<close>

definition QmlRegisterTypeTemplate :: string where \<open>
  QmlRegisterTypeTemplate =
    ''qmlRegisterType<$scope_type$>("$qml_package$", 1, 0, "$type$");\<newline>''\<close>

definition QmlRegisterEnumTypeTemplate :: string where \<open>
  QmlRegisterEnumTypeTemplate =
    ''qmlRegisterUncreatableType<$enum_gadget$>("$qml_package$", 1, 0, "$type$", "$full_type$ Could not be created from qml context");\<newline>''\<close>

definition ClientMethodServerStreamDeclarationTemplate :: string where \<open>
  ClientMethodServerStreamDeclarationTemplate =
    ''QtProtobuf::QGrpcStreamShared stream$method_name_upper$(const $param_type$ &$param_name$);\<newline>''\<close>

definition ClientMethodServerStream2DeclarationTemplate :: string where \<open>
  ClientMethodServerStream2DeclarationTemplate =
    ''QtProtobuf::QGrpcStreamShared stream$method_name_upper$(const $param_type$ &$param_name$, const QPointer<$return_type$> &$return_name$);\<newline>''\<close>

definition ClientMethodServerStream2DeclarationTemplate2 :: string where \<open>
  ClientMethodServerStream2DeclarationTemplate2 =
    ''QtProtobuf::QGrpcStreamBidirectShared stream$method_name_upper$();\<newline>''\<close>

definition ClientMethodServerStreamQmlDeclarationTemplate :: string where \<open>
  ClientMethodServerStreamQmlDeclarationTemplate =
    ''Q_INVOKABLE QtProtobuf::QGrpcStreamShared qmlStream$method_name_upper$_p($param_type$ *$param_name$, $return_type$ *$return_name$);\<newline>''\<close>

definition ClientMethodServerStreamDefinitionTemplate :: string where \<open>
  ClientMethodServerStreamDefinitionTemplate =
    ''QtProtobuf::QGrpcStreamShared $classname$::stream$method_name_upper$(const $param_type$ &$param_name$)\<newline>''
    @ ''{\<newline>''
    @ ''    return stream("$method_name$", $param_name$);\<newline>''
    @ ''}\<newline>''\<close>

definition ClientMethodServerStream2DefinitionTemplate :: string where \<open>
  ClientMethodServerStream2DefinitionTemplate =
    ''QtProtobuf::QGrpcStreamShared $classname$::stream$method_name_upper$(const $param_type$ &$param_name$, const QPointer<$return_type$> &$return_name$)\<newline>''
    @ ''{\<newline>''
    @ ''    return stream("$method_name$", $param_name$, $return_name$);\<newline>''
    @ ''}\<newline>''\<close>

definition ClientMethodServerStreamQmlDefinitionTemplate :: string where \<open>
  ClientMethodServerStreamQmlDefinitionTemplate =
    ''QtProtobuf::QGrpcStreamShared $classname$::qmlStream$method_name_upper$_p($param_type$ *$param_name$, $return_type$ *$return_name$)\<newline>''
    @ ''{\<newline>''
    @ ''    return stream("$method_name$", *$param_name$, QPointer<$return_type$>($return_name$));\<newline>''
    @ ''}\<newline>''\<close>

definition ClientMethodServerStream2DefinitionTemplate2 :: string where \<open>
  ClientMethodServerStream2DefinitionTemplate2 =
    ''QtProtobuf::QGrpcStreamBidirectShared $classname$::stream$method_name_upper$()\<newline>''
    @ ''{\<newline>''
    @ ''    return stream("$method_name$");\<newline>''
    @ ''}\<newline>''\<close>

definition ListSuffix :: string where \<open>
  ListSuffix =
    ''Repeated''\<close>

definition ProtoFileSuffix :: string where \<open>
  ProtoFileSuffix =
    ''.qpb''\<close>

definition GrpcFileSuffix :: string where \<open>
  GrpcFileSuffix =
    ''_grpc''\<close>

definition EnumClassSuffix :: string where \<open>
  EnumClassSuffix =
    ''Gadget''\<close>

definition QtProtobufNamespace :: string where \<open>
  QtProtobufNamespace =
    ''QtProtobuf''\<close>

definition QtProtobufNestedNamespace :: string where \<open>
  QtProtobufNestedNamespace =
    ''_QtProtobufNested''\<close>

definition QtProtobufFieldEnum :: string where \<open>
  QtProtobufFieldEnum =
    ''QtProtobufFieldEnum''\<close>

definition FieldEnumTemplate :: string where \<open>
  FieldEnumTemplate =
    ''enum QtProtobufFieldEnum {\<newline>''\<close>

definition FieldNumberTemplate :: string where \<open>
  FieldNumberTemplate =
    ''$property_name_cap$ProtoFieldNumber = $number$,\<newline>''\<close>

definition ListOfQmlExeptions :: "string list" where
  "ListOfQmlExeptions = [''id'', ''property'', ''import'']"

subsection \<open>Variables and blocks\<close>

text \<open>
  A text given to \<open>io::Printer::Print\<close> refers to variables by their name between two dollar signs;
  an empty name stands for a dollar sign. A name that is not closed, and a name without a value, end
  the generator with a fatal error. \<open>scan_vars\<close> runs over a text, \<open>Some name\<close> inside a name.
\<close>

fun scan_vars :: "string option \<Rightarrow> string \<Rightarrow> string list option" where
  "scan_vars None [] = Some []"
| "scan_vars (Some name) [] = None"
| "scan_vars None (c # cs) = (if c = CHR ''$'' then scan_vars (Some []) cs else scan_vars None cs)"
| "scan_vars (Some name) (c # cs) =
     (if c = CHR ''$'' then map_option (Cons (rev name)) (scan_vars None cs) else scan_vars (Some (c # name)) cs)"

definition template_vars :: "string \<Rightarrow> string list option" where
  "template_vars t = scan_vars None t"

text \<open>The number of blocks a text opens, less those it closes.\<close>

fun template_braces :: "string \<Rightarrow> int" where
  "template_braces [] = 0"
| "template_braces (c # cs) =
     (if c = CHR ''{'' then 1 else if c = CHR ''}'' then - 1 else 0) + template_braces cs"

text \<open>What a text declares, by its beginning: a property of the metaobject, a class, the registrar of a class,
  the getter of a list for QML.\<close>

datatype text_kind = PropertyText | ClassText | RegistrarText | QmlListText | OtherText

definition text_kind :: "string \<Rightarrow> text_kind" where
  "text_kind t =
     (if take 11 t = ''Q_PROPERTY('' then PropertyText
      else if take 7 t = ''\<newline>class '' then ClassText
      else if take 38 t = ''static QtProtobuf::ProtoTypeRegistrar<'' then RegistrarText
      else if take 17 t = ''QQmlListProperty<'' then QmlListText
      else OtherText)"

lemma DefaultProtobufIncludesTemplate_facts [template_facts]:
  "template_vars DefaultProtobufIncludesTemplate = Some []" "template_braces DefaultProtobufIncludesTemplate = 0" "text_kind DefaultProtobufIncludesTemplate = OtherText"
  by (code_simp, code_simp, code_simp)

lemma QmlProtobufIncludesTemplate_facts [template_facts]:
  "template_vars QmlProtobufIncludesTemplate = Some []" "template_braces QmlProtobufIncludesTemplate = 0" "text_kind QmlProtobufIncludesTemplate = OtherText"
  by (code_simp, code_simp, code_simp)

lemma DisclaimerTemplate_facts [template_facts]:
  "template_vars DisclaimerTemplate = Some []" "template_braces DisclaimerTemplate = 0" "text_kind DisclaimerTemplate = OtherText"
  by (code_simp, code_simp, code_simp)

lemma PreambleTemplate_facts [template_facts]:
  "template_vars PreambleTemplate = Some []" "template_braces PreambleTemplate = 0" "text_kind PreambleTemplate = OtherText"
  by (code_simp, code_simp, code_simp)

lemma InternalIncludeTemplate_facts [template_facts]:
  "template_vars InternalIncludeTemplate = Some [''include'']" "template_braces InternalIncludeTemplate = 0" "text_kind InternalIncludeTemplate = OtherText"
  by (code_simp, code_simp, code_simp)

lemma ExternalIncludeTemplate_facts [template_facts]:
  "template_vars ExternalIncludeTemplate = Some [''include'']" "template_braces ExternalIncludeTemplate = 0" "text_kind ExternalIncludeTemplate = OtherText"
  by (code_simp, code_simp, code_simp)

lemma GlobalEnumIncludeTemplate_facts [template_facts]:
  "template_vars GlobalEnumIncludeTemplate = Some []" "template_braces GlobalEnumIncludeTemplate = 0" "text_kind GlobalEnumIncludeTemplate = OtherText"
  by (code_simp, code_simp, code_simp)

lemma ManualRegistrationDeclaration_facts [template_facts]:
  "template_vars ManualRegistrationDeclaration = Some []" "template_braces ManualRegistrationDeclaration = 0" "text_kind ManualRegistrationDeclaration = OtherText"
  by (code_simp, code_simp, code_simp)

lemma ManualRegistrationComplexTypeDefinition_facts [template_facts]:
  "template_vars ManualRegistrationComplexTypeDefinition = Some [''type'', ''type'', ''full_type'', ''type'', ''full_type'', ''list_type'', ''full_list_type'']" "template_braces ManualRegistrationComplexTypeDefinition = 1" "text_kind ManualRegistrationComplexTypeDefinition = OtherText"
  by (code_simp, code_simp, code_simp)

lemma ManualRegistrationGlobalEnumDefinition_facts [template_facts]:
  "template_vars ManualRegistrationGlobalEnumDefinition = Some [''enum_gadget'']" "template_braces ManualRegistrationGlobalEnumDefinition = 1" "text_kind ManualRegistrationGlobalEnumDefinition = OtherText"
  by (code_simp, code_simp, code_simp)

lemma ComplexGlobalEnumFieldRegistrationTemplate_facts [template_facts]:
  "template_vars ComplexGlobalEnumFieldRegistrationTemplate = Some [''type'', ''full_type'']" "template_braces ComplexGlobalEnumFieldRegistrationTemplate = 0" "text_kind ComplexGlobalEnumFieldRegistrationTemplate = OtherText"
  by (code_simp, code_simp, code_simp)

lemma ComplexListTypeUsingTemplate_facts [template_facts]:
  "template_vars ComplexListTypeUsingTemplate = Some [''classname'', ''classname'']" "template_braces ComplexListTypeUsingTemplate = 0" "text_kind ComplexListTypeUsingTemplate = OtherText"
  by (code_simp, code_simp, code_simp)

lemma MapTypeUsingTemplate_facts [template_facts]:
  "template_vars MapTypeUsingTemplate = Some [''type'', ''key_type'', ''value_type'']" "template_braces MapTypeUsingTemplate = 0" "text_kind MapTypeUsingTemplate = OtherText"
  by (code_simp, code_simp, code_simp)

lemma MessageMapTypeUsingTemplate_facts [template_facts]:
  "template_vars MessageMapTypeUsingTemplate = Some [''type'', ''key_type'', ''value_type'']" "template_braces MessageMapTypeUsingTemplate = 0" "text_kind MessageMapTypeUsingTemplate = OtherText"
  by (code_simp, code_simp, code_simp)

lemma NestedMessageUsingTemplate_facts [template_facts]:
  "template_vars NestedMessageUsingTemplate = Some [''type'', ''scope_namespaces'', ''type'', ''list_type'', ''scope_namespaces'', ''list_type'']" "template_braces NestedMessageUsingTemplate = 0" "text_kind NestedMessageUsingTemplate = OtherText"
  by (code_simp, code_simp, code_simp)

lemma EnumTypeRepeatedTemplate_facts [template_facts]:
  "template_vars EnumTypeRepeatedTemplate = Some [''list_type'', ''type'']" "template_braces EnumTypeRepeatedTemplate = 0" "text_kind EnumTypeRepeatedTemplate = OtherText"
  by (code_simp, code_simp, code_simp)

lemma NamespaceTemplate_facts [template_facts]:
  "template_vars NamespaceTemplate = Some [''namespace'']" "template_braces NamespaceTemplate = 1" "text_kind NamespaceTemplate = OtherText"
  by (code_simp, code_simp, code_simp)

lemma UsingNamespaceTemplate_facts [template_facts]:
  "template_vars UsingNamespaceTemplate = Some [''namespace'']" "template_braces UsingNamespaceTemplate = 0" "text_kind UsingNamespaceTemplate = OtherText"
  by (code_simp, code_simp, code_simp)

lemma ClassDeclarationTemplate_facts [template_facts]:
  "template_vars ClassDeclarationTemplate = Some [''classname'']" "template_braces ClassDeclarationTemplate = 1" "text_kind ClassDeclarationTemplate = ClassText"
  by (code_simp, code_simp, code_simp)

lemma ProtoClassForwardDeclarationTemplate_facts [template_facts]:
  "template_vars ProtoClassForwardDeclarationTemplate = Some [''classname'']" "template_braces ProtoClassForwardDeclarationTemplate = 0" "text_kind ProtoClassForwardDeclarationTemplate = OtherText"
  by (code_simp, code_simp, code_simp)

lemma ProtoClassDeclarationBeginTemplate_facts [template_facts]:
  "template_vars ProtoClassDeclarationBeginTemplate = Some [''classname'', ''classname'']" "template_braces ProtoClassDeclarationBeginTemplate = 1" "text_kind ProtoClassDeclarationBeginTemplate = ClassText"
  by (code_simp, code_simp, code_simp)

lemma PropertyTemplate_facts [template_facts]:
  "template_vars PropertyTemplate = Some [''property_type'', ''property_name'', ''property_name'', ''property_name_cap'', ''property_name'', ''scriptable'']" "template_braces PropertyTemplate = 0" "text_kind PropertyTemplate = PropertyText"
  by (code_simp, code_simp, code_simp)

lemma RepeatedPropertyTemplate_facts [template_facts]:
  "template_vars RepeatedPropertyTemplate = Some [''property_list_type'', ''property_name'', ''property_name'', ''property_name_cap'', ''property_name'', ''scriptable'']" "template_braces RepeatedPropertyTemplate = 0" "text_kind RepeatedPropertyTemplate = PropertyText"
  by (code_simp, code_simp, code_simp)

lemma RepeatedMessagePropertyTemplate_facts [template_facts]:
  "template_vars RepeatedMessagePropertyTemplate = Some [''property_list_type'', ''property_name'', ''property_name'', ''property_name_cap'', ''property_name'', ''scriptable'']" "template_braces RepeatedMessagePropertyTemplate = 0" "text_kind RepeatedMessagePropertyTemplate = PropertyText"
  by (code_simp, code_simp, code_simp)

lemma NonScriptablePropertyTemplate_facts [template_facts]:
  "template_vars NonScriptablePropertyTemplate = Some [''property_type'', ''property_name'', ''property_name'', ''property_name_cap'', ''property_name'']" "template_braces NonScriptablePropertyTemplate = 0" "text_kind NonScriptablePropertyTemplate = PropertyText"
  by (code_simp, code_simp, code_simp)

lemma NonScriptableAliasPropertyTemplate_facts [template_facts]:
  "template_vars NonScriptableAliasPropertyTemplate = Some [''qml_alias_type'', ''property_name'', ''property_name'', ''property_name_cap'', ''property_name'']" "template_braces NonScriptableAliasPropertyTemplate = 0" "text_kind NonScriptableAliasPropertyTemplate = PropertyText"
  by (code_simp, code_simp, code_simp)

lemma MessagePropertyTemplate_facts [template_facts]:
  "template_vars MessagePropertyTemplate = Some [''property_type'', ''property_name'', ''property_name'', ''property_name_cap'', ''property_name'']" "template_braces MessagePropertyTemplate = 0" "text_kind MessagePropertyTemplate = PropertyText"
  by (code_simp, code_simp, code_simp)

lemma QmlListPropertyTemplate_facts [template_facts]:
  "template_vars QmlListPropertyTemplate = Some [''property_type'', ''property_name'', ''property_name'', ''property_name'']" "template_braces QmlListPropertyTemplate = 0" "text_kind QmlListPropertyTemplate = PropertyText"
  by (code_simp, code_simp, code_simp)

lemma ConstructorParameterTemplate_facts [template_facts]:
  "template_vars ConstructorParameterTemplate = Some [''scope_type'', ''property_name'']" "template_braces ConstructorParameterTemplate = 0" "text_kind ConstructorParameterTemplate = OtherText"
  by (code_simp, code_simp, code_simp)

lemma ConstructorMessageParameterTemplate_facts [template_facts]:
  "template_vars ConstructorMessageParameterTemplate = Some [''scope_type'', ''property_name'']" "template_braces ConstructorMessageParameterTemplate = 0" "text_kind ConstructorMessageParameterTemplate = OtherText"
  by (code_simp, code_simp, code_simp)

lemma ConstructorRepeatedParameterTemplate_facts [template_facts]:
  "template_vars ConstructorRepeatedParameterTemplate = Some [''scope_list_type'', ''property_name'']" "template_braces ConstructorRepeatedParameterTemplate = 0" "text_kind ConstructorRepeatedParameterTemplate = OtherText"
  by (code_simp, code_simp, code_simp)

lemma ProtoConstructorBeginTemplate_facts [template_facts]:
  "template_vars ProtoConstructorBeginTemplate = Some [''classname'']" "template_braces ProtoConstructorBeginTemplate = 0" "text_kind ProtoConstructorBeginTemplate = OtherText"
  by (code_simp, code_simp, code_simp)

lemma ProtoConstructorEndTemplate_facts [template_facts]:
  "template_vars ProtoConstructorEndTemplate = Some []" "template_braces ProtoConstructorEndTemplate = 0" "text_kind ProtoConstructorEndTemplate = OtherText"
  by (code_simp, code_simp, code_simp)

lemma MemberTemplate_facts [template_facts]:
  "template_vars MemberTemplate = Some [''scope_type'', ''property_name'']" "template_braces MemberTemplate = 0" "text_kind MemberTemplate = OtherText"
  by (code_simp, code_simp, code_simp)

lemma ListMemberTemplate_facts [template_facts]:
  "template_vars ListMemberTemplate = Some [''scope_list_type'', ''property_name'']" "template_braces ListMemberTemplate = 0" "text_kind ListMemberTemplate = OtherText"
  by (code_simp, code_simp, code_simp)

lemma ComplexMemberTemplate_facts [template_facts]:
  "template_vars ComplexMemberTemplate = Some [''scope_type'', ''property_name'']" "template_braces ComplexMemberTemplate = 0" "text_kind ComplexMemberTemplate = OtherText"
  by (code_simp, code_simp, code_simp)

lemma PublicBlockTemplate_facts [template_facts]:
  "template_vars PublicBlockTemplate = Some []" "template_braces PublicBlockTemplate = 0" "text_kind PublicBlockTemplate = OtherText"
  by (code_simp, code_simp, code_simp)

lemma PrivateBlockTemplate_facts [template_facts]:
  "template_vars PrivateBlockTemplate = Some []" "template_braces PrivateBlockTemplate = 0" "text_kind PrivateBlockTemplate = OtherText"
  by (code_simp, code_simp, code_simp)

lemma EnumDefinitionTemplate_facts [template_facts]:
  "template_vars EnumDefinitionTemplate = Some [''type'']" "template_braces EnumDefinitionTemplate = 1" "text_kind EnumDefinitionTemplate = OtherText"
  by (code_simp, code_simp, code_simp)

lemma EnumFieldTemplate_facts [template_facts]:
  "template_vars EnumFieldTemplate = Some [''enumvalue'', ''value'']" "template_braces EnumFieldTemplate = 0" "text_kind EnumFieldTemplate = OtherText"
  by (code_simp, code_simp, code_simp)

lemma ProtoConstructorDefinitionBeginTemplate_facts [template_facts]:
  "template_vars ProtoConstructorDefinitionBeginTemplate = Some [''type'', ''type'']" "template_braces ProtoConstructorDefinitionBeginTemplate = 0" "text_kind ProtoConstructorDefinitionBeginTemplate = OtherText"
  by (code_simp, code_simp, code_simp)

lemma ProtoConstructorDefinitionEndTemplate_facts [template_facts]:
  "template_vars ProtoConstructorDefinitionEndTemplate = Some []" "template_braces ProtoConstructorDefinitionEndTemplate = 0" "text_kind ProtoConstructorDefinitionEndTemplate = OtherText"
  by (code_simp, code_simp, code_simp)

lemma QObjectConstructorTemplate_facts [template_facts]:
  "template_vars QObjectConstructorTemplate = Some [''classname'']" "template_braces QObjectConstructorTemplate = 0" "text_kind QObjectConstructorTemplate = OtherText"
  by (code_simp, code_simp, code_simp)

lemma ConstructorHeaderTemplate_facts [template_facts]:
  "template_vars ConstructorHeaderTemplate = Some [''classname'']" "template_braces ConstructorHeaderTemplate = 0" "text_kind ConstructorHeaderTemplate = OtherText"
  by (code_simp, code_simp, code_simp)

lemma CopyConstructorDeclarationTemplate_facts [template_facts]:
  "template_vars CopyConstructorDeclarationTemplate = Some [''classname'', ''classname'']" "template_braces CopyConstructorDeclarationTemplate = 0" "text_kind CopyConstructorDeclarationTemplate = OtherText"
  by (code_simp, code_simp, code_simp)

lemma MoveConstructorDeclarationTemplate_facts [template_facts]:
  "template_vars MoveConstructorDeclarationTemplate = Some [''classname'', ''classname'']" "template_braces MoveConstructorDeclarationTemplate = 0" "text_kind MoveConstructorDeclarationTemplate = OtherText"
  by (code_simp, code_simp, code_simp)

lemma CopyConstructorDefinitionTemplate_facts [template_facts]:
  "template_vars CopyConstructorDefinitionTemplate = Some [''classname'', ''classname'', ''classname'']" "template_braces CopyConstructorDefinitionTemplate = 0" "text_kind CopyConstructorDefinitionTemplate = OtherText"
  by (code_simp, code_simp, code_simp)

lemma MoveConstructorDefinitionTemplate_facts [template_facts]:
  "template_vars MoveConstructorDefinitionTemplate = Some [''classname'', ''classname'', ''classname'']" "template_braces MoveConstructorDefinitionTemplate = 0" "text_kind MoveConstructorDefinitionTemplate = OtherText"
  by (code_simp, code_simp, code_simp)

lemma EmptyCopyConstructorDefinitionTemplate_facts [template_facts]:
  "template_vars EmptyCopyConstructorDefinitionTemplate = Some [''classname'', ''classname'', ''classname'']" "template_braces EmptyCopyConstructorDefinitionTemplate = 0" "text_kind EmptyCopyConstructorDefinitionTemplate = OtherText"
  by (code_simp, code_simp, code_simp)

lemma EmptyMoveConstructorDefinitionTemplate_facts [template_facts]:
  "template_vars EmptyMoveConstructorDefinitionTemplate = Some [''classname'', ''classname'', ''classname'']" "template_braces EmptyMoveConstructorDefinitionTemplate = 0" "text_kind EmptyMoveConstructorDefinitionTemplate = OtherText"
  by (code_simp, code_simp, code_simp)

lemma DeletedCopyConstructorTemplate_facts [template_facts]:
  "template_vars DeletedCopyConstructorTemplate = Some [''classname'', ''classname'']" "template_braces DeletedCopyConstructorTemplate = 0" "text_kind DeletedCopyConstructorTemplate = OtherText"
  by (code_simp, code_simp, code_simp)

lemma DeletedMoveConstructorTemplate_facts [template_facts]:
  "template_vars DeletedMoveConstructorTemplate = Some [''classname'', ''classname'']" "template_braces DeletedMoveConstructorTemplate = 0" "text_kind DeletedMoveConstructorTemplate = OtherText"
  by (code_simp, code_simp, code_simp)

lemma CopyFieldTemplate_facts [template_facts]:
  "template_vars CopyFieldTemplate = Some [''property_name_cap'', ''property_name'']" "template_braces CopyFieldTemplate = 0" "text_kind CopyFieldTemplate = OtherText"
  by (code_simp, code_simp, code_simp)

lemma CopyComplexFieldTemplate_facts [template_facts]:
  "template_vars CopyComplexFieldTemplate = Some [''property_name'', ''property_name'', ''property_name'', ''property_name'']" "template_braces CopyComplexFieldTemplate = 0" "text_kind CopyComplexFieldTemplate = OtherText"
  by (code_simp, code_simp, code_simp)

lemma AssignComplexFieldTemplate_facts [template_facts]:
  "template_vars AssignComplexFieldTemplate = Some [''property_name'', ''property_name'', ''property_name'', ''property_name'', ''property_name'']" "template_braces AssignComplexFieldTemplate = 0" "text_kind AssignComplexFieldTemplate = OtherText"
  by (code_simp, code_simp, code_simp)

lemma MoveMessageFieldTemplate_facts [template_facts]:
  "template_vars MoveMessageFieldTemplate = Some [''property_name'', ''property_name'', ''property_name'', ''property_name'']" "template_braces MoveMessageFieldTemplate = 0" "text_kind MoveMessageFieldTemplate = OtherText"
  by (code_simp, code_simp, code_simp)

lemma MoveAssignMessageFieldTemplate_facts [template_facts]:
  "template_vars MoveAssignMessageFieldTemplate = Some [''property_name'', ''property_name'', ''property_name'', ''property_name'', ''property_name'', ''property_name'']" "template_braces MoveAssignMessageFieldTemplate = 0" "text_kind MoveAssignMessageFieldTemplate = OtherText"
  by (code_simp, code_simp, code_simp)

lemma MoveComplexFieldTemplate_facts [template_facts]:
  "template_vars MoveComplexFieldTemplate = Some [''property_name'', ''property_name'', ''property_name'', ''property_name'', ''property_name'', ''property_name'']" "template_braces MoveComplexFieldTemplate = 0" "text_kind MoveComplexFieldTemplate = OtherText"
  by (code_simp, code_simp, code_simp)

lemma MoveComplexFieldConstructorTemplate_facts [template_facts]:
  "template_vars MoveComplexFieldConstructorTemplate = Some [''property_name'', ''property_name'', ''property_name'']" "template_braces MoveComplexFieldConstructorTemplate = 0" "text_kind MoveComplexFieldConstructorTemplate = OtherText"
  by (code_simp, code_simp, code_simp)

lemma MoveFieldTemplate_facts [template_facts]:
  "template_vars MoveFieldTemplate = Some [''property_name_cap'', ''property_name'', ''property_name'']" "template_braces MoveFieldTemplate = 0" "text_kind MoveFieldTemplate = OtherText"
  by (code_simp, code_simp, code_simp)

lemma EnumMoveFieldTemplate_facts [template_facts]:
  "template_vars EnumMoveFieldTemplate = Some [''property_name'', ''property_name'']" "template_braces EnumMoveFieldTemplate = 0" "text_kind EnumMoveFieldTemplate = OtherText"
  by (code_simp, code_simp, code_simp)

lemma AssignmentOperatorDeclarationTemplate_facts [template_facts]:
  "template_vars AssignmentOperatorDeclarationTemplate = Some [''classname'', ''classname'']" "template_braces AssignmentOperatorDeclarationTemplate = 0" "text_kind AssignmentOperatorDeclarationTemplate = OtherText"
  by (code_simp, code_simp, code_simp)

lemma AssignmentOperatorDefinitionTemplate_facts [template_facts]:
  "template_vars AssignmentOperatorDefinitionTemplate = Some [''classname'', ''classname'', ''classname'']" "template_braces AssignmentOperatorDefinitionTemplate = 1" "text_kind AssignmentOperatorDefinitionTemplate = OtherText"
  by (code_simp, code_simp, code_simp)

lemma EmptyAssignmentOperatorDefinitionTemplate_facts [template_facts]:
  "template_vars EmptyAssignmentOperatorDefinitionTemplate = Some [''classname'', ''classname'', ''classname'']" "template_braces EmptyAssignmentOperatorDefinitionTemplate = 1" "text_kind EmptyAssignmentOperatorDefinitionTemplate = OtherText"
  by (code_simp, code_simp, code_simp)

lemma AssignmentOperatorReturnTemplate_facts [template_facts]:
  "template_vars AssignmentOperatorReturnTemplate = Some []" "template_braces AssignmentOperatorReturnTemplate = 0" "text_kind AssignmentOperatorReturnTemplate = OtherText"
  by (code_simp, code_simp, code_simp)

lemma MoveAssignmentOperatorDeclarationTemplate_facts [template_facts]:
  "template_vars MoveAssignmentOperatorDeclarationTemplate = Some [''classname'', ''classname'']" "template_braces MoveAssignmentOperatorDeclarationTemplate = 0" "text_kind MoveAssignmentOperatorDeclarationTemplate = OtherText"
  by (code_simp, code_simp, code_simp)

lemma MoveAssignmentOperatorDefinitionTemplate_facts [template_facts]:
  "template_vars MoveAssignmentOperatorDefinitionTemplate = Some [''classname'', ''classname'', ''classname'']" "template_braces MoveAssignmentOperatorDefinitionTemplate = 1" "text_kind MoveAssignmentOperatorDefinitionTemplate = OtherText"
  by (code_simp, code_simp, code_simp)

lemma EmptyMoveAssignmentOperatorDefinitionTemplate_facts [template_facts]:
  "template_vars EmptyMoveAssignmentOperatorDefinitionTemplate = Some [''classname'', ''classname'', ''classname'']" "template_braces EmptyMoveAssignmentOperatorDefinitionTemplate = 1" "text_kind EmptyMoveAssignmentOperatorDefinitionTemplate = OtherText"
  by (code_simp, code_simp, code_simp)

lemma EqualOperatorDeclarationTemplate_facts [template_facts]:
  "template_vars EqualOperatorDeclarationTemplate = Some [''classname'']" "template_braces EqualOperatorDeclarationTemplate = 0" "text_kind EqualOperatorDeclarationTemplate = OtherText"
  by (code_simp, code_simp, code_simp)

lemma EqualOperatorDefinitionTemplate_facts [template_facts]:
  "template_vars EqualOperatorDefinitionTemplate = Some [''classname'', ''classname'']" "template_braces EqualOperatorDefinitionTemplate = 1" "text_kind EqualOperatorDefinitionTemplate = OtherText"
  by (code_simp, code_simp, code_simp)

lemma EmptyEqualOperatorDefinitionTemplate_facts [template_facts]:
  "template_vars EmptyEqualOperatorDefinitionTemplate = Some [''classname'', ''classname'']" "template_braces EmptyEqualOperatorDefinitionTemplate = 0" "text_kind EmptyEqualOperatorDefinitionTemplate = OtherText"
  by (code_simp, code_simp, code_simp)

lemma EqualOperatorPropertyTemplate_facts [template_facts]:
  "template_vars EqualOperatorPropertyTemplate = Some [''property_name'', ''property_name'']" "template_braces EqualOperatorPropertyTemplate = 0" "text_kind EqualOperatorPropertyTemplate = OtherText"
  by (code_simp, code_simp, code_simp)

lemma EqualOperatorMessagePropertyTemplate_facts [template_facts]:
  "template_vars EqualOperatorMessagePropertyTemplate = Some [''property_name'', ''property_name'', ''property_name'', ''property_name'']" "template_braces EqualOperatorMessagePropertyTemplate = 0" "text_kind EqualOperatorMessagePropertyTemplate = OtherText"
  by (code_simp, code_simp, code_simp)

lemma EqualOperatorRepeatedPropertyTemplate_facts [template_facts]:
  "template_vars EqualOperatorRepeatedPropertyTemplate = Some [''property_name'', ''property_name'']" "template_braces EqualOperatorRepeatedPropertyTemplate = 0" "text_kind EqualOperatorRepeatedPropertyTemplate = OtherText"
  by (code_simp, code_simp, code_simp)

lemma NotEqualOperatorDeclarationTemplate_facts [template_facts]:
  "template_vars NotEqualOperatorDeclarationTemplate = Some [''classname'']" "template_braces NotEqualOperatorDeclarationTemplate = 0" "text_kind NotEqualOperatorDeclarationTemplate = OtherText"
  by (code_simp, code_simp, code_simp)

lemma NotEqualOperatorDefinitionTemplate_facts [template_facts]:
  "template_vars NotEqualOperatorDefinitionTemplate = Some [''classname'', ''classname'']" "template_braces NotEqualOperatorDefinitionTemplate = 0" "text_kind NotEqualOperatorDefinitionTemplate = OtherText"
  by (code_simp, code_simp, code_simp)

lemma GetterPrivateMessageDeclarationTemplate_facts [template_facts]:
  "template_vars GetterPrivateMessageDeclarationTemplate = Some [''getter_type'', ''property_name'']" "template_braces GetterPrivateMessageDeclarationTemplate = 0" "text_kind GetterPrivateMessageDeclarationTemplate = OtherText"
  by (code_simp, code_simp, code_simp)

lemma GetterPrivateMessageDefinitionTemplate_facts [template_facts]:
  "template_vars GetterPrivateMessageDefinitionTemplate = Some [''getter_type'', ''classname'', ''property_name'', ''property_name'']" "template_braces GetterPrivateMessageDefinitionTemplate = 0" "text_kind GetterPrivateMessageDefinitionTemplate = OtherText"
  by (code_simp, code_simp, code_simp)

lemma GetterMessageDeclarationTemplate_facts [template_facts]:
  "template_vars GetterMessageDeclarationTemplate = Some [''getter_type'', ''property_name'']" "template_braces GetterMessageDeclarationTemplate = 0" "text_kind GetterMessageDeclarationTemplate = OtherText"
  by (code_simp, code_simp, code_simp)

lemma GetterMessageDefinitionTemplate_facts [template_facts]:
  "template_vars GetterMessageDefinitionTemplate = Some [''getter_type'', ''classname'', ''property_name'', ''property_name'']" "template_braces GetterMessageDefinitionTemplate = 0" "text_kind GetterMessageDefinitionTemplate = OtherText"
  by (code_simp, code_simp, code_simp)

lemma GetterTemplate_facts [template_facts]:
  "template_vars GetterTemplate = Some [''getter_type'', ''property_name'', ''property_name'']" "template_braces GetterTemplate = 0" "text_kind GetterTemplate = OtherText"
  by (code_simp, code_simp, code_simp)

lemma NonScriptableGetterTemplate_facts [template_facts]:
  "template_vars NonScriptableGetterTemplate = Some [''qml_alias_type'', ''property_name'', ''property_name'']" "template_braces NonScriptableGetterTemplate = 0" "text_kind NonScriptableGetterTemplate = OtherText"
  by (code_simp, code_simp, code_simp)

lemma GetterContainerExtraTemplate_facts [template_facts]:
  "template_vars GetterContainerExtraTemplate = Some [''getter_type'', ''property_name'', ''property_name'']" "template_braces GetterContainerExtraTemplate = 0" "text_kind GetterContainerExtraTemplate = OtherText"
  by (code_simp, code_simp, code_simp)

lemma GetterQmlListDeclarationTemplate_facts [template_facts]:
  "template_vars GetterQmlListDeclarationTemplate = Some [''scope_type'', ''property_name'']" "template_braces GetterQmlListDeclarationTemplate = 0" "text_kind GetterQmlListDeclarationTemplate = QmlListText"
  by (code_simp, code_simp, code_simp)

lemma GetterQmlListDefinitionTemplate_facts [template_facts]:
  "template_vars GetterQmlListDefinitionTemplate = Some [''full_type'', ''classname'', ''property_name'', ''scope_type'', ''property_name'']" "template_braces GetterQmlListDefinitionTemplate = 0" "text_kind GetterQmlListDefinitionTemplate = QmlListText"
  by (code_simp, code_simp, code_simp)

lemma SetterPrivateTemplateDeclarationMessageType_facts [template_facts]:
  "template_vars SetterPrivateTemplateDeclarationMessageType = Some [''property_name_cap'', ''setter_type'', ''property_name'']" "template_braces SetterPrivateTemplateDeclarationMessageType = 0" "text_kind SetterPrivateTemplateDeclarationMessageType = OtherText"
  by (code_simp, code_simp, code_simp)

lemma SetterPrivateTemplateDefinitionMessageType_facts [template_facts]:
  "template_vars SetterPrivateTemplateDefinitionMessageType = Some [''classname'', ''property_name_cap'', ''setter_type'', ''property_name'', ''property_name'', ''property_name'', ''property_name'', ''property_name'', ''property_name'']" "template_braces SetterPrivateTemplateDefinitionMessageType = 0" "text_kind SetterPrivateTemplateDefinitionMessageType = OtherText"
  by (code_simp, code_simp, code_simp)

lemma SetterTemplateDeclarationMessageType_facts [template_facts]:
  "template_vars SetterTemplateDeclarationMessageType = Some [''property_name_cap'', ''setter_type'', ''property_name'']" "template_braces SetterTemplateDeclarationMessageType = 0" "text_kind SetterTemplateDeclarationMessageType = OtherText"
  by (code_simp, code_simp, code_simp)

lemma SetterTemplateDefinitionMessageType_facts [template_facts]:
  "template_vars SetterTemplateDefinitionMessageType = Some [''classname'', ''property_name_cap'', ''setter_type'', ''property_name'', ''property_name'', ''property_name'', ''property_name'', ''property_name'', ''property_name'']" "template_braces SetterTemplateDefinitionMessageType = 0" "text_kind SetterTemplateDefinitionMessageType = OtherText"
  by (code_simp, code_simp, code_simp)

lemma SetterTemplateDeclarationComplexType_facts [template_facts]:
  "template_vars SetterTemplateDeclarationComplexType = Some [''property_name_cap'', ''setter_type'', ''property_name'']" "template_braces SetterTemplateDeclarationComplexType = 0" "text_kind SetterTemplateDeclarationComplexType = OtherText"
  by (code_simp, code_simp, code_simp)

lemma SetterTemplateDefinitionComplexType_facts [template_facts]:
  "template_vars SetterTemplateDefinitionComplexType = Some [''classname'', ''property_name_cap'', ''setter_type'', ''property_name'', ''property_name'', ''property_name'', ''property_name'', ''property_name'', ''property_name'']" "template_braces SetterTemplateDefinitionComplexType = 0" "text_kind SetterTemplateDefinitionComplexType = OtherText"
  by (code_simp, code_simp, code_simp)

lemma SetterTemplate_facts [template_facts]:
  "template_vars SetterTemplate = Some [''property_name_cap'', ''setter_type'', ''property_name'', ''property_name'', ''property_name'', ''property_name'', ''property_name'', ''property_name'']" "template_braces SetterTemplate = 0" "text_kind SetterTemplate = OtherText"
  by (code_simp, code_simp, code_simp)

lemma NonScriptableSetterTemplate_facts [template_facts]:
  "template_vars NonScriptableSetterTemplate = Some [''property_name_cap'', ''qml_alias_type'', ''property_name'', ''property_name'', ''property_name'', ''property_name'', ''property_name'', ''property_name'']" "template_braces NonScriptableSetterTemplate = 0" "text_kind NonScriptableSetterTemplate = OtherText"
  by (code_simp, code_simp, code_simp)

lemma SignalsBlockTemplate_facts [template_facts]:
  "template_vars SignalsBlockTemplate = Some []" "template_braces SignalsBlockTemplate = 0" "text_kind SignalsBlockTemplate = OtherText"
  by (code_simp, code_simp, code_simp)

lemma SignalTemplate_facts [template_facts]:
  "template_vars SignalTemplate = Some [''property_name'']" "template_braces SignalTemplate = 0" "text_kind SignalTemplate = OtherText"
  by (code_simp, code_simp, code_simp)

lemma FieldsOrderingContainerTemplate_facts [template_facts]:
  "template_vars FieldsOrderingContainerTemplate = Some [''type'', ''type'', ''type'', ''type'']" "template_braces FieldsOrderingContainerTemplate = 1" "text_kind FieldsOrderingContainerTemplate = OtherText"
  by (code_simp, code_simp, code_simp)

lemma FieldOrderTemplate_facts [template_facts]:
  "template_vars FieldOrderTemplate = Some [''field_number'', ''property_number'', ''json_name'']" "template_braces FieldOrderTemplate = 0" "text_kind FieldOrderTemplate = OtherText"
  by (code_simp, code_simp, code_simp)

lemma SimpleBlockEnclosureTemplate_facts [template_facts]:
  "template_vars SimpleBlockEnclosureTemplate = Some []" "template_braces SimpleBlockEnclosureTemplate = - 1" "text_kind SimpleBlockEnclosureTemplate = OtherText"
  by (code_simp, code_simp, code_simp)

lemma SemicolonBlockEnclosureTemplate_facts [template_facts]:
  "template_vars SemicolonBlockEnclosureTemplate = Some []" "template_braces SemicolonBlockEnclosureTemplate = - 1" "text_kind SemicolonBlockEnclosureTemplate = OtherText"
  by (code_simp, code_simp, code_simp)

lemma PropertyInitializerTemplate_facts [template_facts]:
  "template_vars PropertyInitializerTemplate = Some [''property_name'', ''property_name'']" "template_braces PropertyInitializerTemplate = 0" "text_kind PropertyInitializerTemplate = OtherText"
  by (code_simp, code_simp, code_simp)

lemma PropertyDefaultInitializerTemplate_facts [template_facts]:
  "template_vars PropertyDefaultInitializerTemplate = Some [''property_name'', ''initializer'']" "template_braces PropertyDefaultInitializerTemplate = 0" "text_kind PropertyDefaultInitializerTemplate = OtherText"
  by (code_simp, code_simp, code_simp)

lemma MessagePropertyInitializerTemplate_facts [template_facts]:
  "template_vars MessagePropertyInitializerTemplate = Some [''property_name'', ''scope_type'', ''property_name'']" "template_braces MessagePropertyInitializerTemplate = 0" "text_kind MessagePropertyInitializerTemplate = OtherText"
  by (code_simp, code_simp, code_simp)

lemma MessagePropertyDefaultInitializerTemplate_facts [template_facts]:
  "template_vars MessagePropertyDefaultInitializerTemplate = Some [''property_name'']" "template_braces MessagePropertyDefaultInitializerTemplate = 0" "text_kind MessagePropertyDefaultInitializerTemplate = OtherText"
  by (code_simp, code_simp, code_simp)

lemma ConstructorContentTemplate_facts [template_facts]:
  "template_vars ConstructorContentTemplate = Some []" "template_braces ConstructorContentTemplate = 0" "text_kind ConstructorContentTemplate = OtherText"
  by (code_simp, code_simp, code_simp)

lemma DeclareMetaTypeTemplate_facts [template_facts]:
  "template_vars DeclareMetaTypeTemplate = Some [''full_type'']" "template_braces DeclareMetaTypeTemplate = 0" "text_kind DeclareMetaTypeTemplate = OtherText"
  by (code_simp, code_simp, code_simp)

lemma DeclareMetaTypeListTemplate_facts [template_facts]:
  "template_vars DeclareMetaTypeListTemplate = Some [''full_list_type'']" "template_braces DeclareMetaTypeListTemplate = 0" "text_kind DeclareMetaTypeListTemplate = OtherText"
  by (code_simp, code_simp, code_simp)

lemma DeclareComplexListTypeTemplate_facts [template_facts]:
  "template_vars DeclareComplexListTypeTemplate = Some [''full_list_type'']" "template_braces DeclareComplexListTypeTemplate = 0" "text_kind DeclareComplexListTypeTemplate = OtherText"
  by (code_simp, code_simp, code_simp)

lemma DeclareComplexQmlListTypeTemplate_facts [template_facts]:
  "template_vars DeclareComplexQmlListTypeTemplate = Some [''full_type'']" "template_braces DeclareComplexQmlListTypeTemplate = 0" "text_kind DeclareComplexQmlListTypeTemplate = OtherText"
  by (code_simp, code_simp, code_simp)

lemma DeclareMetaTypeMapTemplate_facts [template_facts]:
  "template_vars DeclareMetaTypeMapTemplate = Some [''key_type_underscore'', ''value_type_underscore'', ''key_type_underscore'', ''value_type_underscore'', ''full_type'']" "template_braces DeclareMetaTypeMapTemplate = 0" "text_kind DeclareMetaTypeMapTemplate = OtherText"
  by (code_simp, code_simp, code_simp)

lemma RegisterLocalEnumTemplate_facts [template_facts]:
  "template_vars RegisterLocalEnumTemplate = Some [''scope_type'', ''scope_type'', ''type'', ''scope_type'', ''full_type'', ''scope_list_type'', ''full_list_type'']" "template_braces RegisterLocalEnumTemplate = 0" "text_kind RegisterLocalEnumTemplate = OtherText"
  by (code_simp, code_simp, code_simp)

lemma RegisterMapTemplate_facts [template_facts]:
  "template_vars RegisterMapTemplate = Some [''scope_type'', ''full_type'', ''scope_type'', ''full_list_type'', ''key_type'', ''value_type'']" "template_braces RegisterMapTemplate = 0" "text_kind RegisterMapTemplate = OtherText"
  by (code_simp, code_simp, code_simp)

lemma RegisterGlobalEnumMetaTypeTemplate_facts [template_facts]:
  "template_vars RegisterGlobalEnumMetaTypeTemplate = Some [''full_type'', ''full_type'']" "template_braces RegisterGlobalEnumMetaTypeTemplate = 0" "text_kind RegisterGlobalEnumMetaTypeTemplate = OtherText"
  by (code_simp, code_simp, code_simp)

lemma RegisterQmlListPropertyMetaTypeTemplate_facts [template_facts]:
  "template_vars RegisterQmlListPropertyMetaTypeTemplate = Some [''full_type'', ''full_type'']" "template_braces RegisterQmlListPropertyMetaTypeTemplate = 0" "text_kind RegisterQmlListPropertyMetaTypeTemplate = OtherText"
  by (code_simp, code_simp, code_simp)

lemma QEnumTemplate_facts [template_facts]:
  "template_vars QEnumTemplate = Some [''type'']" "template_braces QEnumTemplate = 0" "text_kind QEnumTemplate = OtherText"
  by (code_simp, code_simp, code_simp)

lemma ClassDefinitionTemplate_facts [template_facts]:
  "template_vars ClassDefinitionTemplate = Some [''classname'', ''parent_class'']" "template_braces ClassDefinitionTemplate = 1" "text_kind ClassDefinitionTemplate = ClassText"
  by (code_simp, code_simp, code_simp)

lemma QObjectMacro_facts [template_facts]:
  "template_vars QObjectMacro = Some []" "template_braces QObjectMacro = 0" "text_kind QObjectMacro = OtherText"
  by (code_simp, code_simp, code_simp)

lemma ClientMethodDeclarationSyncTemplate_facts [template_facts]:
  "template_vars ClientMethodDeclarationSyncTemplate = Some [''method_name'', ''param_type'', ''param_name'', ''return_type'', ''return_name'']" "template_braces ClientMethodDeclarationSyncTemplate = 0" "text_kind ClientMethodDeclarationSyncTemplate = OtherText"
  by (code_simp, code_simp, code_simp)

lemma ClientMethodDeclarationAsyncTemplate_facts [template_facts]:
  "template_vars ClientMethodDeclarationAsyncTemplate = Some [''method_name'', ''param_type'', ''param_name'']" "template_braces ClientMethodDeclarationAsyncTemplate = 0" "text_kind ClientMethodDeclarationAsyncTemplate = OtherText"
  by (code_simp, code_simp, code_simp)

lemma ClientMethodDeclarationAsync2Template_facts [template_facts]:
  "template_vars ClientMethodDeclarationAsync2Template = Some [''method_name'', ''param_type'', ''param_name'']" "template_braces ClientMethodDeclarationAsync2Template = 0" "text_kind ClientMethodDeclarationAsync2Template = OtherText"
  by (code_simp, code_simp, code_simp)

lemma ClientMethodDeclarationQmlTemplate_facts [template_facts]:
  "template_vars ClientMethodDeclarationQmlTemplate = Some [''method_name'', ''param_type'', ''param_name'']" "template_braces ClientMethodDeclarationQmlTemplate = 0" "text_kind ClientMethodDeclarationQmlTemplate = OtherText"
  by (code_simp, code_simp, code_simp)

lemma ClientMethodDeclarationQml2Template_facts [template_facts]:
  "template_vars ClientMethodDeclarationQml2Template = Some [''method_name'', ''param_type'', ''param_name'', ''return_type'', ''return_name'']" "template_braces ClientMethodDeclarationQml2Template = 0" "text_kind ClientMethodDeclarationQml2Template = OtherText"
  by (code_simp, code_simp, code_simp)

lemma ClientConstructorDefinitionTemplate_facts [template_facts]:
  "template_vars ClientConstructorDefinitionTemplate = Some [''classname'', ''classname'', ''parent_class'', ''service_name'']" "template_braces ClientConstructorDefinitionTemplate = 0" "text_kind ClientConstructorDefinitionTemplate = OtherText"
  by (code_simp, code_simp, code_simp)

lemma ClientMethodDefinitionSyncTemplate_facts [template_facts]:
  "template_vars ClientMethodDefinitionSyncTemplate = Some [''classname'', ''method_name'', ''param_type'', ''param_name'', ''return_type'', ''return_name'', ''method_name'', ''param_name'', ''return_name'']" "template_braces ClientMethodDefinitionSyncTemplate = 0" "text_kind ClientMethodDefinitionSyncTemplate = OtherText"
  by (code_simp, code_simp, code_simp)

lemma ClientMethodDefinitionAsyncTemplate_facts [template_facts]:
  "template_vars ClientMethodDefinitionAsyncTemplate = Some [''classname'', ''method_name'', ''param_type'', ''param_name'', ''method_name'', ''param_name'']" "template_braces ClientMethodDefinitionAsyncTemplate = 0" "text_kind ClientMethodDefinitionAsyncTemplate = OtherText"
  by (code_simp, code_simp, code_simp)

lemma ClientMethodDefinitionAsync2Template_facts [template_facts]:
  "template_vars ClientMethodDefinitionAsync2Template = Some [''classname'', ''method_name'', ''param_type'', ''param_name'', ''method_name'', ''param_name'']" "template_braces ClientMethodDefinitionAsync2Template = 0" "text_kind ClientMethodDefinitionAsync2Template = OtherText"
  by (code_simp, code_simp, code_simp)

lemma ClientMethodDefinitionQmlTemplate_facts [template_facts]:
  "template_vars ClientMethodDefinitionQmlTemplate = Some [''classname'', ''method_name'', ''param_type'', ''param_name'', ''classname'', ''method_name'', ''classname'', ''method_name'', ''param_type'', ''classname'', ''method_name'', ''method_name'', ''param_name'', ''return_type'', ''return_type'']" "template_braces ClientMethodDefinitionQmlTemplate = 0" "text_kind ClientMethodDefinitionQmlTemplate = OtherText"
  by (code_simp, code_simp, code_simp)

lemma ClientMethodDefinitionQml2Template_facts [template_facts]:
  "template_vars ClientMethodDefinitionQml2Template = Some [''classname'', ''method_name'', ''param_type'', ''param_name'', ''return_type'', ''return_name'', ''return_name'', ''classname'', ''method_name'', ''return_type'', ''return_type'', ''return_name'', ''param_name'', ''classname'', ''method_name'', ''param_type'', ''classname'', ''method_name'', ''method_name'', ''param_name'', ''return_type'', ''return_type'']" "template_braces ClientMethodDefinitionQml2Template = 0" "text_kind ClientMethodDefinitionQml2Template = OtherText"
  by (code_simp, code_simp, code_simp)

lemma RegisterEnumSerializersTemplate_facts [template_facts]:
  "template_vars RegisterEnumSerializersTemplate = Some [''full_type'']" "template_braces RegisterEnumSerializersTemplate = 0" "text_kind RegisterEnumSerializersTemplate = OtherText"
  by (code_simp, code_simp, code_simp)

lemma RegistrarTemplate_facts [template_facts]:
  "template_vars RegistrarTemplate = Some [''classname'', ''classname'', ''classname'']" "template_braces RegistrarTemplate = 0" "text_kind RegistrarTemplate = RegistrarText"
  by (code_simp, code_simp, code_simp)

lemma EnumRegistrarTemplate_facts [template_facts]:
  "template_vars EnumRegistrarTemplate = Some [''enum_gadget'', ''enum_gadget'', ''enum_gadget'']" "template_braces EnumRegistrarTemplate = 0" "text_kind EnumRegistrarTemplate = RegistrarText"
  by (code_simp, code_simp, code_simp)

lemma QmlRegisterTypeTemplate_facts [template_facts]:
  "template_vars QmlRegisterTypeTemplate = Some [''scope_type'', ''qml_package'', ''type'']" "template_braces QmlRegisterTypeTemplate = 0" "text_kind QmlRegisterTypeTemplate = OtherText"
  by (code_simp, code_simp, code_simp)

lemma QmlRegisterEnumTypeTemplate_facts [template_facts]:
  "template_vars QmlRegisterEnumTypeTemplate = Some [''enum_gadget'', ''qml_package'', ''type'', ''full_type'']" "template_braces QmlRegisterEnumTypeTemplate = 0" "text_kind QmlRegisterEnumTypeTemplate = OtherText"
  by (code_simp, code_simp, code_simp)

lemma ClientMethodServerStreamDeclarationTemplate_facts [template_facts]:
  "template_vars ClientMethodServerStreamDeclarationTemplate = Some [''method_name_upper'', ''param_type'', ''param_name'']" "template_braces ClientMethodServerStreamDeclarationTemplate = 0" "text_kind ClientMethodServerStreamDeclarationTemplate = OtherText"
  by (code_simp, code_simp, code_simp)

lemma ClientMethodServerStream2DeclarationTemplate_facts [template_facts]:
  "template_vars ClientMethodServerStream2DeclarationTemplate = Some [''method_name_upper'', ''param_type'', ''param_name'', ''return_type'', ''return_name'']" "template_braces ClientMethodServerStream2DeclarationTemplate = 0" "text_kind ClientMethodServerStream2DeclarationTemplate = OtherText"
  by (code_simp, code_simp, code_simp)

lemma ClientMethodServerStream2DeclarationTemplate2_facts [template_facts]:
  "template_vars ClientMethodServerStream2DeclarationTemplate2 = Some [''method_name_upper'']" "template_braces ClientMethodServerStream2DeclarationTemplate2 = 0" "text_kind ClientMethodServerStream2DeclarationTemplate2 = OtherText"
  by (code_simp, code_simp, code_simp)

lemma ClientMethodServerStreamQmlDeclarationTemplate_facts [template_facts]:
  "template_vars ClientMethodServerStreamQmlDeclarationTemplate = Some [''method_name_upper'', ''param_type'', ''param_name'', ''return_type'', ''return_name'']" "template_braces ClientMethodServerStreamQmlDeclarationTemplate = 0" "text_kind ClientMethodServerStreamQmlDeclarationTemplate = OtherText"
  by (code_simp, code_simp, code_simp)

lemma ClientMethodServerStreamDefinitionTemplate_facts [template_facts]:
  "template_vars ClientMethodServerStreamDefinitionTemplate = Some [''classname'', ''method_name_upper'', ''param_type'', ''param_name'', ''method_name'', ''param_name'']" "template_braces ClientMethodServerStreamDefinitionTemplate = 0" "text_kind ClientMethodServerStreamDefinitionTemplate = OtherText"
  by (code_simp, code_simp, code_simp)

lemma ClientMethodServerStream2DefinitionTemplate_facts [template_facts]:
  "template_vars ClientMethodServerStream2DefinitionTemplate = Some [''classname'', ''method_name_upper'', ''param_type'', ''param_name'', ''return_type'', ''return_name'', ''method_name'', ''param_name'', ''return_name'']" "template_braces ClientMethodServerStream2DefinitionTemplate = 0" "text_kind ClientMethodServerStream2DefinitionTemplate = OtherText"
  by (code_simp, code_simp, code_simp)

lemma ClientMethodServerStreamQmlDefinitionTemplate_facts [template_facts]:
  "template_vars ClientMethodServerStreamQmlDefinitionTemplate = Some [''classname'', ''method_name_upper'', ''param_type'', ''param_name'', ''return_type'', ''return_name'', ''method_name'', ''param_name'', ''return_type'', ''return_name'']" "template_braces ClientMethodServerStreamQmlDefinitionTemplate = 0" "text_kind ClientMethodServerStreamQmlDefinitionTemplate = OtherText"
  by (code_simp, code_simp, code_simp)

lemma ClientMethodServerStream2DefinitionTemplate2_facts [template_facts]:
  "template_vars ClientMethodServerStream2DefinitionTemplate2 = Some [''classname'', ''method_name_upper'', ''method_name'']" "template_braces ClientMethodServerStream2DefinitionTemplate2 = 0" "text_kind ClientMethodServerStream2DefinitionTemplate2 = OtherText"
  by (code_simp, code_simp, code_simp)

lemma FieldEnumTemplate_facts [template_facts]:
  "template_vars FieldEnumTemplate = Some []" "template_braces FieldEnumTemplate = 1" "text_kind FieldEnumTemplate = OtherText"
  by (code_simp, code_simp, code_simp)

lemma FieldNumberTemplate_facts [template_facts]:
  "template_vars FieldNumberTemplate = Some [''property_name_cap'', ''number'']" "template_braces FieldNumberTemplate = 0" "text_kind FieldNumberTemplate = OtherText"
  by (code_simp, code_simp, code_simp)

end
