(* ===== verification/GeneratorCommon.thy ===== *)
theory GeneratorCommon
  imports GeneratorUtils GeneratorTemplates
begin

section \<open>Descriptors and the names of the generated code\<close>

text \<open>
  \<open>src/generator/generatorcommon.cpp\<close> and \<open>generatorcommon.h\<close>: what the generator calls a type, a property or a method of a
  proto file, and which messages it visits.

  The descriptors are those of the protobuf library. Messages and files have an identity (\<open>d_id\<close>, \<open>file_id\<close>), which
  is what a comparison of pointers compares; \<open>msg\<close> and \<open>files\<close> of the pool follow a pointer. A message holds
  its nested messages, a map field the two fields of its entry message, and a field of message or enumeration
  type that type. Groups do not occur: the generator refuses files that are not of proto3.
\<close>

type_synonym msg_id = nat
type_synonym file_id = nat

record EnumDescriptor =
  e_name :: string
  e_full_name :: string
  e_file :: file_id
  e_values :: "(string \<times> int) list"

datatype field_type = TYPE_DOUBLE | TYPE_FLOAT | TYPE_INT64 | TYPE_UINT64 | TYPE_INT32 | TYPE_FIXED64 | TYPE_FIXED32
  | TYPE_BOOL | TYPE_STRING | TYPE_MESSAGE msg_id | TYPE_BYTES | TYPE_UINT32 | TYPE_ENUM EnumDescriptor
  | TYPE_SFIXED32 | TYPE_SFIXED64 | TYPE_SINT32 | TYPE_SINT64

datatype FieldDescriptor = Field
  (camelcase_name: string) (json_name: string) (field_number: int) (f_type: field_type) (is_repeated: bool)
  (f_file: file_id) (f_comments: string) (map_entry: "(FieldDescriptor \<times> FieldDescriptor) option")

abbreviation is_map :: "FieldDescriptor \<Rightarrow> bool" where
  "is_map f \<equiv> map_entry f \<noteq> None"

definition message_type :: "FieldDescriptor \<Rightarrow> msg_id option" where
  "message_type f = (case f_type f of TYPE_MESSAGE m \<Rightarrow> Some m | _ \<Rightarrow> None)"

definition is_message :: "FieldDescriptor \<Rightarrow> bool" where
  "is_message f = (case f_type f of TYPE_MESSAGE m \<Rightarrow> True | _ \<Rightarrow> False)"

datatype Descriptor = MessageDescriptor
  (d_id: msg_id) (d_name: string) (d_full_name: string) (d_file: file_id) (containing_type: "msg_id option")
  (d_fields: "FieldDescriptor list") (nested_types: "Descriptor list") (d_enums: "EnumDescriptor list")
  (d_comments: string)

record MethodDescriptor =
  m_name :: string
  input_type :: msg_id
  output_type :: msg_id
  server_streaming :: bool

record ServiceDescriptor =
  s_name :: string
  s_full_name :: string
  s_file :: file_id
  s_methods :: "MethodDescriptor list"

record FileDescriptor =
  file_name :: string
  package :: string
  syntax_proto3 :: bool
  message_types :: "Descriptor list"
  enum_types :: "EnumDescriptor list"
  services :: "ServiceDescriptor list"
  dependencies :: "file_id list"

record pool =
  msg :: "msg_id \<Rightarrow> Descriptor"
  files :: "file_id \<Rightarrow> FileDescriptor"

text \<open>\<open>std::map<std::string, std::string>\<close>; \<open>at\<close> is \<open>operator []\<close>, which gives an empty string for a missing key.\<close>

type_synonym type_map = "string \<Rightarrow> string option"

definition at :: "type_map \<Rightarrow> string \<Rightarrow> string" where
  "at m k = (case m k of None \<Rightarrow> [] | Some v \<Rightarrow> v)"

subsection \<open>Namespaces\<close>

text \<open>\<open>getNamespaces\<close> of a descriptor with this full name; a null pointer has no namespaces.\<close>

definition getNamespaces :: "string \<Rightarrow> string list" where
  "getNamespaces full_name =
     (let namespacesList = split full_name (CHR ''.'')
      in if namespacesList \<noteq> [] then butlast namespacesList else namespacesList)"

definition getNamespaces_opt :: "Descriptor option \<Rightarrow> string list" where
  "getNamespaces_opt type = (case type of None \<Rightarrow> [] | Some t \<Rightarrow> getNamespaces (d_full_name t))"

definition getNestedNamespaces :: "pool \<Rightarrow> Descriptor \<Rightarrow> string list" where
  "getNestedNamespaces P type =
     (let namespaces = getNamespaces (d_full_name type);
          pkg = split (package (files P (d_file type))) (CHR ''.'')
      in map (\<lambda>i. if length pkg \<le> i then namespaces ! i @ QtProtobufNestedNamespace else namespaces ! i)
           [0..<length namespaces])"

definition getScopeNamespacesString :: "string \<Rightarrow> string \<Rightarrow> string" where
  "getScopeNamespacesString original scope =
     (if scope = [] then original
      else if original = scope then []
      else if find_from original (scope @ ''::'') 0 = Some 0 then drop (length scope + 2) original
      else original)"

definition add_extra :: "generator_options \<Rightarrow> string list \<Rightarrow> string list" where
  "add_extra g namespaceList = (if mExtraNamespace g \<noteq> [] then mExtraNamespace g # namespaceList else namespaceList)"

definition qualify :: "string \<Rightarrow> string \<Rightarrow> string" where
  "qualify namespaces name = (if namespaces = [] then name else namespaces @ ''::'' @ name)"

subsection \<open>Nested messages\<close>

text \<open>The calls of the callback, as the list of their results.\<close>

definition iterateMessages :: "FileDescriptor \<Rightarrow> (Descriptor \<Rightarrow> 'a list) \<Rightarrow> 'a list" where
  "iterateMessages file callback = concat (map callback (message_types file))"

text \<open>The loop over the fields ends at the first one that is not a map and has the nested message as its type.\<close>

fun uses_nested :: "Descriptor \<Rightarrow> FieldDescriptor list \<Rightarrow> bool" where
  "uses_nested nestedMessage [] = False"
| "uses_nested nestedMessage (field # fs) =
     (if \<not> is_map field \<and> message_type field = Some (d_id nestedMessage) then True
      else uses_nested nestedMessage fs)"

definition iterateNestedMessages :: "Descriptor \<Rightarrow> (Descriptor \<Rightarrow> 'a list) \<Rightarrow> 'a list" where
  "iterateNestedMessages message callback =
     concat (map (\<lambda>nestedMessage.
         if length (d_fields message) \<le> 0 then callback nestedMessage
         else if uses_nested nestedMessage (d_fields message) then callback nestedMessage else [])
       (nested_types message))"

definition hasNestedMessages :: "Descriptor \<Rightarrow> bool" where
  "hasNestedMessages message =
     (if length (nested_types message) > 0 \<and> length (d_fields message) \<le> 0 then True
      else list_ex (\<lambda>nestedMessage. uses_nested nestedMessage (d_fields message)) (nested_types message))"

definition isNested :: "pool \<Rightarrow> Descriptor \<Rightarrow> bool" where
  "isNested P message =
     (case containing_type message of
        None \<Rightarrow> False
      | Some c \<Rightarrow>
          case find (\<lambda>field. message_type field = Some (d_id message)) (d_fields (msg P c)) of
            Some field \<Rightarrow> \<not> is_map field
          | None \<Rightarrow> True)"

definition isNestedOf :: "Descriptor \<Rightarrow> Descriptor \<Rightarrow> bool" where
  "isNestedOf message containing = (containing_type message = Some (d_id containing))"

partial_function (option) findHighestMessage :: "pool \<Rightarrow> Descriptor \<Rightarrow> Descriptor option" where
  "findHighestMessage P message =
     (if containing_type message \<noteq> None then findHighestMessage P (msg P (the (containing_type message)))
      else Some message)"

subsection \<open>Enumerations\<close>

datatype EnumVisibility = GLOBAL_ENUM | LOCAL_ENUM | NEIGHBOR_ENUM

definition isLocalEnum :: "EnumDescriptor \<Rightarrow> Descriptor option \<Rightarrow> bool" where
  "isLocalEnum type scope =
     (case scope of
        None \<Rightarrow> False
      | Some s \<Rightarrow> list_ex (\<lambda>scopeEnum. e_full_name scopeEnum = e_full_name type) (d_enums s))"

definition enumVisibility :: "pool \<Rightarrow> EnumDescriptor \<Rightarrow> Descriptor option \<Rightarrow> EnumVisibility" where
  "enumVisibility P type scope =
     (if isLocalEnum type scope then LOCAL_ENUM
      else if list_ex (\<lambda>m. list_ex (\<lambda>e. e_full_name type = e_full_name e) (d_enums m))
                (message_types (files P (e_file type)))
      then NEIGHBOR_ENUM else GLOBAL_ENUM)"

subsection \<open>Type maps\<close>

definition produceQtTypeMap :: "Descriptor \<Rightarrow> Descriptor option \<Rightarrow> type_map" where
  "produceQtTypeMap type scope =
     (let namespaceList = getNamespaces (d_full_name type);
          namespaces = getNamespacesString namespaceList ''::'';
          scopeNamespaces = getScopeNamespacesString namespaces (getNamespacesString (getNamespaces_opt scope) ''::'');
          qmlPackage = getNamespacesString namespaceList ''.'';
          name = d_name type;
          fullName = name;
          scopeName = name;
          listName = ''QList<'' @ ListSuffix @ ''>'';
          fullListName = listName;
          scopeListName = listName
      in [''type'' \<mapsto> name, ''full_type'' \<mapsto> fullName, ''scope_type'' \<mapsto> scopeName, ''list_type'' \<mapsto> listName,
          ''full_list_type'' \<mapsto> fullListName, ''scope_list_type'' \<mapsto> scopeListName, ''namespaces'' \<mapsto> namespaces,
          ''scope_namespaces'' \<mapsto> scopeNamespaces, ''qml_package'' \<mapsto> qmlPackage, ''property_type'' \<mapsto> fullName,
          ''property_list_type'' \<mapsto> fullListName, ''getter_type'' \<mapsto> scopeName, ''setter_type'' \<mapsto> scopeName])"

definition produceMessageTypeMap :: "pool \<Rightarrow> generator_options \<Rightarrow> Descriptor \<Rightarrow> Descriptor option \<Rightarrow> type_map" where
  "produceMessageTypeMap P g type scope =
     (let namespaceList = add_extra g (getNamespaces (d_full_name type));
          nestedNamespaceList = (if isNested P type then getNestedNamespaces P type else namespaceList);
          namespaces = getNamespacesString namespaceList ''::'';
          scopeNamespaces = getScopeNamespacesString (getNamespacesString nestedNamespaceList ''::'')
            (getNamespacesString (getNamespaces_opt scope) ''::'');
          qmlPackage = getNamespacesString namespaceList ''.'';
          name = upperCaseName (d_name type);
          fullName = qualify namespaces name;
          scopeName = qualify scopeNamespaces name;
          listName = name @ ListSuffix;
          fullListName = qualify namespaces listName;
          scopeListName = qualify scopeNamespaces listName
      in [''classname'' \<mapsto> name, ''type'' \<mapsto> name, ''full_type'' \<mapsto> fullName, ''scope_type'' \<mapsto> scopeName,
          ''list_type'' \<mapsto> listName, ''full_list_type'' \<mapsto> fullListName, ''scope_list_type'' \<mapsto> scopeListName,
          ''namespaces'' \<mapsto> namespaces, ''scope_namespaces'' \<mapsto> scopeNamespaces, ''qml_package'' \<mapsto> qmlPackage,
          ''property_type'' \<mapsto> fullName, ''property_list_type'' \<mapsto> fullListName, ''getter_type'' \<mapsto> scopeName,
          ''setter_type'' \<mapsto> scopeName])"

definition produceEnumTypeMap :: "pool \<Rightarrow> generator_options \<Rightarrow> EnumDescriptor \<Rightarrow> Descriptor option \<Rightarrow> type_map" where
  "produceEnumTypeMap P g type scope =
     (let visibility = enumVisibility P type scope;
          namespaceList = add_extra g (getNamespaces (e_full_name type));
          name = upperCaseName (e_name type);
          qmlPackage = getNamespacesString namespaceList ''.'';
          enumGadget = (case scope of None \<Rightarrow> [] | Some s \<Rightarrow> upperCaseName (d_name s));
          enumGadget = (if visibility = GLOBAL_ENUM then name @ EnumClassSuffix else enumGadget);
          namespaceList = (if visibility = GLOBAL_ENUM then namespaceList @ [enumGadget] else namespaceList);
          namespaces = getNamespacesString namespaceList ''::'';
          scopeNamespaces = getScopeNamespacesString namespaces (getNamespacesString (getNamespaces_opt scope) ''::'');
          fullName = qualify namespaces name;
          scopeName = qualify scopeNamespaces name;
          listName = name @ ListSuffix;
          fullListName = qualify namespaces listName;
          scopeListName = qualify scopeNamespaces listName;
          propertyType = (if visibility = LOCAL_ENUM then name else fullName)
      in [''classname'' \<mapsto> enumGadget, ''type'' \<mapsto> name, ''full_type'' \<mapsto> fullName, ''scope_type'' \<mapsto> scopeName,
          ''list_type'' \<mapsto> listName, ''full_list_type'' \<mapsto> fullListName, ''scope_list_type'' \<mapsto> scopeListName,
          ''namespaces'' \<mapsto> namespaces, ''scope_namespaces'' \<mapsto> scopeNamespaces, ''qml_package'' \<mapsto> qmlPackage,
          ''property_type'' \<mapsto> propertyType, ''property_list_type'' \<mapsto> fullListName, ''getter_type'' \<mapsto> scopeName,
          ''setter_type'' \<mapsto> scopeName, ''enum_gadget'' \<mapsto> enumGadget])"

definition TypeReflection :: "field_type \<Rightarrow> string option" where
  "TypeReflection type =
     (case type of
        TYPE_DOUBLE \<Rightarrow> Some ''double'' | TYPE_FLOAT \<Rightarrow> Some ''float'' | TYPE_INT64 \<Rightarrow> Some ''int64''
      | TYPE_UINT64 \<Rightarrow> Some ''uint64'' | TYPE_INT32 \<Rightarrow> Some ''int32'' | TYPE_FIXED64 \<Rightarrow> Some ''fixed64''
      | TYPE_FIXED32 \<Rightarrow> Some ''fixed32'' | TYPE_BOOL \<Rightarrow> Some ''bool'' | TYPE_STRING \<Rightarrow> Some ''QString''
      | TYPE_BYTES \<Rightarrow> Some ''QByteArray'' | TYPE_UINT32 \<Rightarrow> Some ''uint32'' | TYPE_SFIXED32 \<Rightarrow> Some ''sfixed32''
      | TYPE_SFIXED64 \<Rightarrow> Some ''sfixed64'' | TYPE_SINT32 \<Rightarrow> Some ''sint32'' | TYPE_SINT64 \<Rightarrow> Some ''sint64''
      | _ \<Rightarrow> None)"

definition produceSimpleTypeMap :: "field_type \<Rightarrow> type_map" where
  "produceSimpleTypeMap type =
     (let namespaces = (if type \<notin> {TYPE_STRING, TYPE_BYTES, TYPE_BOOL, TYPE_FLOAT, TYPE_DOUBLE}
                        then QtProtobufNamespace else []);
          qmlPackage = QtProtobufNamespace;
          name = (case TypeReflection type of Some n \<Rightarrow> n | None \<Rightarrow> []);
          fullName = qualify namespaces name;
          scopeName = fullName;
          listName = (if type \<in> {TYPE_FLOAT, TYPE_DOUBLE, TYPE_BOOL} then upperCaseName name else name) @ ''List'';
          fullListName = (if type \<notin> {TYPE_STRING, TYPE_BYTES} then QtProtobufNamespace @ ''::'' @ listName else listName);
          scopeListName = fullListName;
          qmlAliasType = (if type \<in> {TYPE_INT32, TYPE_SFIXED32} then ''int''
                          else if type = TYPE_FIXED32 then ''unsigned int'' else fullName);
          getterType = (if type \<in> {TYPE_INT32, TYPE_FIXED32, TYPE_SFIXED32, TYPE_INT64, TYPE_FIXED64, TYPE_SFIXED64}
                        then ''const '' @ fullName else fullName)
      in [''type'' \<mapsto> name, ''full_type'' \<mapsto> fullName, ''scope_type'' \<mapsto> scopeName, ''list_type'' \<mapsto> listName,
          ''full_list_type'' \<mapsto> fullListName, ''scope_list_type'' \<mapsto> scopeListName, ''namespaces'' \<mapsto> namespaces,
          ''scope_namespaces'' \<mapsto> namespaces, ''qml_package'' \<mapsto> qmlPackage, ''property_type'' \<mapsto> fullName,
          ''qml_alias_type'' \<mapsto> qmlAliasType, ''property_list_type'' \<mapsto> fullListName, ''getter_type'' \<mapsto> getterType,
          ''setter_type'' \<mapsto> fullName])"

definition isQtType :: "pool \<Rightarrow> FieldDescriptor \<Rightarrow> bool" where
  "isQtType P field =
     (let namespaces = getNamespaces_opt (map_option (msg P) (message_type field))
      in length namespaces = 1 \<and> namespaces ! 0 = ''QtProtobuf'' \<and> package (files P (f_file field)) \<noteq> ''QtProtobuf'')"

definition isPureMessage :: "pool \<Rightarrow> FieldDescriptor \<Rightarrow> bool" where
  "isPureMessage P field \<longleftrightarrow> is_message field \<and> \<not> is_map field \<and> \<not> is_repeated field \<and> \<not> isQtType P field"

definition produceTypeMap :: "pool \<Rightarrow> generator_options \<Rightarrow> FieldDescriptor \<Rightarrow> Descriptor option \<Rightarrow> type_map" where
  "produceTypeMap P g field scope =
     (case f_type field of
        TYPE_MESSAGE m \<Rightarrow>
          if isQtType P field then produceQtTypeMap (msg P m) None else produceMessageTypeMap P g (msg P m) scope
      | TYPE_ENUM e \<Rightarrow> produceEnumTypeMap P g e scope
      | type \<Rightarrow> produceSimpleTypeMap type)"

subsection \<open>Property maps\<close>

definition qualifiedName :: "string \<Rightarrow> string" where
  "qualifiedName name = (if name \<in> set ListOfQmlExeptions then name @ ProtoSufix else name)"

text \<open>\<open>std::to_string\<close>\<close>

fun nat_to_string :: "nat \<Rightarrow> string" where
  "nat_to_string n = (if n < 10 then [char_of (48 + n)] else nat_to_string (n div 10) @ [char_of (48 + n mod 10)])"

declare nat_to_string.simps [simp del]

definition to_string :: "int \<Rightarrow> string" where
  "to_string i = (if i < 0 then ''-'' @ nat_to_string (nat (- i)) else nat_to_string (nat i))"

definition scriptable :: "FieldDescriptor \<Rightarrow> string" where
  "scriptable field =
     (if \<not> is_map field \<and> \<not> is_repeated field
         \<and> f_type field \<in> {TYPE_INT64, TYPE_SINT64, TYPE_FIXED64, TYPE_SFIXED64}
      then ''false'' else ''true'')"

definition propertyName :: "FieldDescriptor \<Rightarrow> string" where
  "propertyName field = qualifiedName (lowerCaseName (camelcase_name field))"

definition property_entries :: "pool \<Rightarrow> generator_options \<Rightarrow> FieldDescriptor \<Rightarrow> Descriptor \<Rightarrow> type_map" where
  "property_entries P g field scope =
     (produceTypeMap P g field (Some scope))
       (''property_name'' \<mapsto> propertyName field,
        ''property_name_cap'' \<mapsto> upperCaseName (propertyName field),
        ''scriptable'' \<mapsto> scriptable field,
        ''key_type'' \<mapsto> [], ''value_type'' \<mapsto> [],
        ''classname'' \<mapsto> at (produceMessageTypeMap P g scope None) ''classname'',
        ''number'' \<mapsto> to_string (field_number field))"

fun producePropertyMap :: "pool \<Rightarrow> generator_options \<Rightarrow> FieldDescriptor \<Rightarrow> Descriptor \<Rightarrow> type_map" where
  "producePropertyMap P g (Field cn jn n t r fl cm (Some (k, v))) scope =
     (let propertyMap = property_entries P g (Field cn jn n t r fl cm (Some (k, v))) scope;
          keyMap = producePropertyMap P g k scope;
          valueMap = producePropertyMap P g v scope
      in propertyMap(''key_type'' \<mapsto> at keyMap ''scope_type'', ''value_type'' \<mapsto> at valueMap ''scope_type'',
           ''value_list_type'' \<mapsto> at valueMap ''scope_list_type''))"
| "producePropertyMap P g (Field cn jn n t r fl cm None) scope =
     (let propertyMap = property_entries P g (Field cn jn n t r fl cm None) scope
      in if r then propertyMap(''getter_type'' \<mapsto> at propertyMap ''scope_list_type'',
                     ''setter_type'' \<mapsto> at propertyMap ''scope_list_type'')
         else propertyMap)"

definition hasQmlAlias :: "generator_options \<Rightarrow> FieldDescriptor \<Rightarrow> bool" where
  "hasQmlAlias g field \<longleftrightarrow> \<not> is_map field \<and> \<not> is_repeated field
     \<and> f_type field \<in> {TYPE_INT32, TYPE_SFIXED32, TYPE_FIXED32} \<and> mHasQml g"

definition iterateMessageFields :: "pool \<Rightarrow> generator_options \<Rightarrow> Descriptor \<Rightarrow>
    (FieldDescriptor \<Rightarrow> type_map \<Rightarrow> 'a list) \<Rightarrow> 'a list" where
  "iterateMessageFields P g message callback =
     concat (map (\<lambda>field. callback field (producePropertyMap P g field message)) (d_fields message))"

text \<open>The texts replaced here are not empty, so that the loop of \<open>replace\<close> ends.\<close>

definition replaced :: "string \<Rightarrow> string \<Rightarrow> string \<Rightarrow> string" where
  "replaced s pat by_what = (case replace s pat by_what of Some t \<Rightarrow> t | None \<Rightarrow> s)"

definition produceMethodMap :: "pool \<Rightarrow> MethodDescriptor \<Rightarrow> string \<Rightarrow> type_map" where
  "produceMethodMap P method scope =
     (let inputTypeName = replaced (d_full_name (msg P (input_type method))) ''.'' ''::'';
          outputTypeName = replaced (d_full_name (msg P (output_type method))) ''.'' ''::'';
          methodName = m_name method;
          methodNameUpper = upperCaseName (m_name method)
      in [''classname'' \<mapsto> scope, ''return_type'' \<mapsto> outputTypeName, ''method_name'' \<mapsto> methodName,
          ''method_name_upper'' \<mapsto> methodNameUpper, ''param_type'' \<mapsto> inputTypeName, ''param_name'' \<mapsto> ''arg'',
          ''return_name'' \<mapsto> ''ret''])"

end
