(* ===== verification/GeneratorPrinters.thy ===== *)
theory GeneratorPrinters
  imports GeneratorCommon
begin

section \<open>Printers of enumerations and clients\<close>

text \<open>
  The base classes of the printers (\<open>baseprinter.h\<close>, \<open>baseprinter.cpp\<close>, \<open>descriptorprinterbase.h\<close>,
  \<open>servicedeclarationprinterbase.cpp\<close>), and the printers of global enumerations and of gRPC clients. A printer is a function to the
  sequence of its calls of \<open>google::protobuf::io::Printer\<close>: \<open>Print vars text\<close>, \<open>Indent\<close> and \<open>Outdent\<close>. The pool of
  descriptors \<open>P\<close> and the options \<open>g\<close> are parameters. Sets without an order are iterated in the order of a
  parameter \<open>order\<close>.
\<close>

datatype print_call = Print (p_vars: type_map) (p_text: string) | Indent_call | Outdent_call

definition print_text :: "string \<Rightarrow> print_call list" where
  "print_text t = [Print Map.empty t]"

definition print :: "type_map \<Rightarrow> string \<Rightarrow> print_call list" where
  "print vars t = [Print vars t]"

definition newline :: string where "newline = ''\<newline>''"

subsection \<open>BasePrinter\<close>

definition Indent :: "print_call list" where "Indent = [Indent_call, Indent_call]"

definition Outdent :: "print_call list" where "Outdent = [Outdent_call, Outdent_call]"

definition printPublicBlock :: "print_call list" where "printPublicBlock = print_text PublicBlockTemplate"

definition printPrivateBlock :: "print_call list" where "printPrivateBlock = print_text PrivateBlockTemplate"

definition printSignalsBlock :: "print_call list" where "printSignalsBlock = print_text SignalsBlockTemplate"

definition c_str :: "string \<Rightarrow> string" where
  "c_str s = takeWhile (\<lambda>c. c \<noteq> CHR 0x00) s"

text \<open>The comments of a descriptor are its \<open>leading_comments\<close>; \<open>comment_text\<close> is what they begin with.\<close>

definition comment_text :: "string \<Rightarrow> string" where
  "comment_text leading_comments =
     (if leading_comments ! 0 \<noteq> CHR ''!'' \<and> leading_comments ! 0 \<noteq> CHR ''*'' \<and> leading_comments ! 0 \<noteq> CHR '' ''
      then (if find_from leading_comments newline 0 \<noteq> None then newline else []) @ '' '' @ leading_comments
      else leading_comments)"

definition printComments :: "generator_options \<Rightarrow> string \<Rightarrow> print_call list" where
  "printComments g leading_comments =
     (if \<not> mGenerateComments g then []
      else
        let leading_comments = trim leading_comments
        in if length leading_comments > 0 then
             let isSingleLine = (find_from leading_comments newline 0 = None);
                 leading_comments = comment_text leading_comments
             in print_text ''\<newline>/*'' @
                (if isSingleLine then print_text (c_str leading_comments)
                 else let leading_comments = replaced leading_comments newline (newline @ '' *'')
                      in print_text (c_str leading_comments) @
                         (if leading_comments ! (length leading_comments - 1) \<noteq> CHR 0x0A then print_text newline else []))
                @ print_text '' */''
           else [])"

subsection \<open>DescriptorPrinterBase\<close>

text \<open>The descriptor comes in with its full name.\<close>

definition encloseClass :: "print_call list" where
  "encloseClass = print_text SemicolonBlockEnclosureTemplate @ print_text newline"

definition printNamespaces :: "generator_options \<Rightarrow> string \<Rightarrow> print_call list" where
  "printNamespaces g full_name =
     (let namespaces = add_extra g (getNamespaces full_name)
      in print_text newline @ concat (map (\<lambda>ns. print [''namespace'' \<mapsto> ns] NamespaceTemplate) namespaces))"

definition encloseNamespaces :: "generator_options \<Rightarrow> string \<Rightarrow> print_call list" where
  "encloseNamespaces g full_name =
     (let namespacesSize = length (getNamespaces full_name) + (if mExtraNamespace g \<noteq> [] then 1 else 0)
      in print_text newline @ concat (map (\<lambda>i. print_text SimpleBlockEnclosureTemplate) [0..<namespacesSize])
         @ print_text newline)"

subsection \<open>Enumerations\<close>

definition enum_values :: "EnumDescriptor \<Rightarrow> print_call list" where
  "enum_values e =
     concat (map (\<lambda>(name, number).
         print [''enumvalue'' \<mapsto> upperCaseName name, ''value'' \<mapsto> to_string number] EnumFieldTemplate) (e_values e))"

definition printEnumClass :: "pool \<Rightarrow> generator_options \<Rightarrow> EnumDescriptor \<Rightarrow> print_call list" where
  "printEnumClass P g e = print (produceEnumTypeMap P g e None) ClassDeclarationTemplate"

definition enum_printConstructor :: "pool \<Rightarrow> generator_options \<Rightarrow> EnumDescriptor \<Rightarrow> print_call list" where
  "enum_printConstructor P g e =
     (let mTypeMap = produceEnumTypeMap P g e None
      in Indent
         @ print mTypeMap ConstructorHeaderTemplate
         @ print mTypeMap DeletedCopyConstructorTemplate
         @ print mTypeMap DeletedMoveConstructorTemplate
         @ Outdent)"

definition startEnum :: "pool \<Rightarrow> generator_options \<Rightarrow> EnumDescriptor \<Rightarrow> print_call list" where
  "startEnum P g e =
     printNamespaces g (e_full_name e)
     @ printEnumClass P g e
     @ printPublicBlock
     @ Indent @ print (produceEnumTypeMap P g e None) ManualRegistrationDeclaration @ Outdent
     @ printPrivateBlock
     @ enum_printConstructor P g e"

definition printEnum :: "pool \<Rightarrow> generator_options \<Rightarrow> EnumDescriptor \<Rightarrow> print_call list" where
  "printEnum P g e =
     (let typeMap = produceEnumTypeMap P g e None
      in printPublicBlock
         @ Indent @ print typeMap EnumDefinitionTemplate
         @ Indent @ enum_values e @ Outdent
         @ print_text SemicolonBlockEnclosureTemplate
         @ print typeMap QEnumTemplate
         @ print typeMap EnumTypeRepeatedTemplate
         @ Outdent)"

definition encloseEnum :: "generator_options \<Rightarrow> EnumDescriptor \<Rightarrow> print_call list" where
  "encloseEnum g e = encloseClass @ encloseNamespaces g (e_full_name e)"

definition printMetatype :: "pool \<Rightarrow> generator_options \<Rightarrow> EnumDescriptor \<Rightarrow> print_call list" where
  "printMetatype P g e = print (produceEnumTypeMap P g e None) DeclareMetaTypeListTemplate"

definition EnumDeclarationPrinter_run :: "pool \<Rightarrow> generator_options \<Rightarrow> EnumDescriptor \<Rightarrow> print_call list" where
  "EnumDeclarationPrinter_run P g e = startEnum P g e @ printEnum P g e @ encloseEnum g e @ printMetatype P g e"

definition enum_printRegisterBody :: "pool \<Rightarrow> generator_options \<Rightarrow> EnumDescriptor \<Rightarrow> print_call list" where
  "enum_printRegisterBody P g e =
     (let typeMap = produceEnumTypeMap P g e None
      in print typeMap EnumRegistrarTemplate
         @ print typeMap ManualRegistrationGlobalEnumDefinition
         @ Indent
         @ (if mHasQml g then print typeMap QmlRegisterEnumTypeTemplate else [])
         @ print typeMap ComplexGlobalEnumFieldRegistrationTemplate
         @ print typeMap RegisterGlobalEnumMetaTypeTemplate
         @ print typeMap RegisterEnumSerializersTemplate
         @ Outdent
         @ print_text SimpleBlockEnclosureTemplate)"

definition EnumDefinitionPrinter_run :: "pool \<Rightarrow> generator_options \<Rightarrow> EnumDescriptor \<Rightarrow> print_call list" where
  "EnumDefinitionPrinter_run P g e =
     printNamespaces g (e_full_name e) @ enum_printRegisterBody P g e @ encloseNamespaces g (e_full_name e)"

subsection \<open>Clients\<close>

definition clientName :: "ServiceDescriptor \<Rightarrow> string" where
  "clientName service = upperCaseName (s_name service) @ ''Client''"

definition printIncludes :: "pool \<Rightarrow> (string set \<Rightarrow> string list) \<Rightarrow> ServiceDescriptor \<Rightarrow> print_call list" where
  "printIncludes P order service =
     (let includeSet = set (concat (map (\<lambda>method.
            [tolower (d_name (msg P (input_type method))), tolower (d_name (msg P (output_type method)))])
            (s_methods service)))
      in concat (map (\<lambda>type. print [''include'' \<mapsto> type] InternalIncludeTemplate) (order includeSet)))"

definition printClientIncludes :: "(string set \<Rightarrow> string list) \<Rightarrow> print_call list" where
  "printClientIncludes order =
     (let includeSet = {''QAbstractGrpcClient'', ''QGrpcCallReply'', ''QGrpcStream'', ''QGrpcStreamBidirect''}
      in concat (map (\<lambda>type. print [''include'' \<mapsto> type] ExternalIncludeTemplate) (order includeSet)))"

definition printClientClass :: "ServiceDescriptor \<Rightarrow> print_call list" where
  "printClientClass service =
     print [''classname'' \<mapsto> clientName service, ''parent_class'' \<mapsto> ''QtProtobuf::QAbstractGrpcClient''] ClassDefinitionTemplate
     @ Indent @ print_text QObjectMacro @ print_text newline @ Outdent"

definition client_printConstructor :: "ServiceDescriptor \<Rightarrow> print_call list" where
  "client_printConstructor service =
     Indent @ print [''classname'' \<mapsto> clientName service] QObjectConstructorTemplate @ Outdent"

definition printClientMethodDeclaration :: "pool \<Rightarrow> generator_options \<Rightarrow> ServiceDescriptor \<Rightarrow> MethodDescriptor \<Rightarrow>
    print_call list" where
  "printClientMethodDeclaration P g service method =
     (let parameters = produceMethodMap P method (clientName service)
      in (if server_streaming method
          then print parameters ClientMethodServerStreamDeclarationTemplate
               @ print parameters ClientMethodServerStream2DeclarationTemplate
               @ print parameters ClientMethodServerStream2DeclarationTemplate2
          else print parameters ClientMethodDeclarationSyncTemplate
               @ print parameters ClientMethodDeclarationAsyncTemplate
               @ print parameters ClientMethodDeclarationAsync2Template
               @ (if mHasQml g
                  then print parameters ClientMethodDeclarationQmlTemplate
                       @ print parameters ClientMethodDeclarationQml2Template
                  else []))
         @ print_text newline)"

definition printClientMethodsDeclaration :: "pool \<Rightarrow> generator_options \<Rightarrow> ServiceDescriptor \<Rightarrow> print_call list" where
  "printClientMethodsDeclaration P g service =
     Indent @ concat (map (printClientMethodDeclaration P g service) (s_methods service)) @ Outdent
     @ printPrivateBlock
     @ Indent
     @ concat (map (\<lambda>method.
         let parameters = produceMethodMap P method (clientName service)
         in if server_streaming method
            then (if mHasQml g then print parameters ClientMethodServerStreamQmlDeclarationTemplate else [])
            else []) (s_methods service))
     @ Outdent
     @ print_text newline"

definition ClientDeclarationPrinter_run :: "pool \<Rightarrow> generator_options \<Rightarrow> ServiceDescriptor \<Rightarrow> print_call list" where
  "ClientDeclarationPrinter_run P g service =
     printNamespaces g (s_full_name service)
     @ printClientClass service
     @ printPublicBlock
     @ client_printConstructor service
     @ printClientMethodsDeclaration P g service
     @ encloseClass
     @ encloseNamespaces g (s_full_name service)"

definition printMethods :: "pool \<Rightarrow> generator_options \<Rightarrow> ServiceDescriptor \<Rightarrow> print_call list" where
  "printMethods P g service =
     concat (map (\<lambda>method.
       let parameters = produceMethodMap P method (clientName service)
       in if server_streaming method
          then print parameters ClientMethodServerStreamDefinitionTemplate
               @ print parameters ClientMethodServerStream2DefinitionTemplate
               @ print parameters ClientMethodServerStream2DefinitionTemplate2
               @ (if mHasQml g then print parameters ClientMethodServerStreamQmlDefinitionTemplate else [])
          else print parameters ClientMethodDefinitionSyncTemplate
               @ print parameters ClientMethodDefinitionAsyncTemplate
               @ print parameters ClientMethodDefinitionAsync2Template
               @ (if mHasQml g
                  then print parameters ClientMethodDefinitionQmlTemplate
                       @ print parameters ClientMethodDefinitionQml2Template
                  else [])) (s_methods service))"

definition client_def_printConstructor :: "ServiceDescriptor \<Rightarrow> print_call list" where
  "client_def_printConstructor service =
     print [''classname'' \<mapsto> clientName service, ''parent_class'' \<mapsto> ''QAbstractGrpcClient'',
            ''service_name'' \<mapsto> s_full_name service] ClientConstructorDefinitionTemplate"

definition ClientDefinitionPrinter_run :: "pool \<Rightarrow> generator_options \<Rightarrow> ServiceDescriptor \<Rightarrow> print_call list" where
  "ClientDefinitionPrinter_run P g service =
     printNamespaces g (s_full_name service)
     @ client_def_printConstructor service
     @ printMethods P g service
     @ encloseNamespaces g (s_full_name service)"

end
