(* ===== verification/MessagePrinters.thy ===== *)
theory MessagePrinters
  imports GeneratorPrinters
begin

section \<open>Printers of messages\<close>

text \<open>
  \<open>messagedeclarationprinter.cpp\<close>, the class of a message, and \<open>messagedefinitionprinter.cpp\<close>, its members. The functions of
  the first have the prefix \<open>decl\<close>, those of the second \<open>def\<close>; \<open>mTypeMap\<close> is what their constructors compute.
\<close>

definition mTypeMap :: "pool \<Rightarrow> generator_options \<Rightarrow> Descriptor \<Rightarrow> type_map" where
  "mTypeMap P g d = produceMessageTypeMap P g d None"

lemma nested_size: "x \<in> set (nested_types d) \<Longrightarrow> size x < size d"
  by (cases d) (auto dest: size_list_estimation' [where f = size, rotated, OF order_refl])

lemma iterateNestedMessages_cong [fundef_cong]:
  "d = d' \<Longrightarrow> (\<And>x. x \<in> set (nested_types d') \<Longrightarrow> f x = h x) \<Longrightarrow> iterateNestedMessages d f = iterateNestedMessages d' h"
  by (auto simp: iterateNestedMessages_def intro!: arg_cong [where f = concat] map_cong)

subsection \<open>Declaration\<close>

definition nested_namespace :: "pool \<Rightarrow> generator_options \<Rightarrow> Descriptor \<Rightarrow> print_call list" where
  "nested_namespace P g d =
     print [''namespace'' \<mapsto> at (mTypeMap P g d) ''classname'' @ QtProtobufNestedNamespace] NamespaceTemplate"

function printClassForwardDeclarationPrivate :: "pool \<Rightarrow> generator_options \<Rightarrow> Descriptor \<Rightarrow> print_call list" where
  "printClassForwardDeclarationPrivate P g d =
     (if hasNestedMessages d
      then nested_namespace P g d
           @ iterateNestedMessages d (\<lambda>nestedMessage. printClassForwardDeclarationPrivate P g nestedMessage)
           @ print_text SimpleBlockEnclosureTemplate
      else [])
     @ print (mTypeMap P g d) ProtoClassForwardDeclarationTemplate
     @ print (mTypeMap P g d) ComplexListTypeUsingTemplate"
  by pat_completeness auto
termination by (relation "measure (\<lambda>(P, g, d). size d)") (auto simp: nested_size)

definition printClassForwardDeclaration :: "pool \<Rightarrow> generator_options \<Rightarrow> Descriptor \<Rightarrow> print_call list" where
  "printClassForwardDeclaration P g d =
     printNamespaces g (d_full_name d) @ printClassForwardDeclarationPrivate P g d @ encloseNamespaces g (d_full_name d)"

definition parameter_template :: "FieldDescriptor \<Rightarrow> string" where
  "parameter_template field =
     (if is_repeated field \<and> \<not> is_map field then ConstructorRepeatedParameterTemplate
      else if f_type field = TYPE_BYTES \<or> f_type field = TYPE_STRING \<or> is_message field \<or> is_map field
      then ConstructorMessageParameterTemplate
      else ConstructorParameterTemplate)"

definition decl_printConstructor :: "pool \<Rightarrow> generator_options \<Rightarrow> Descriptor \<Rightarrow> nat \<Rightarrow> print_call list" where
  "decl_printConstructor P g d fieldCount =
     print (mTypeMap P g d) ProtoConstructorBeginTemplate
     @ concat (map (\<lambda>field. print (producePropertyMap P g field d) (parameter_template field))
         (take fieldCount (d_fields d)))
     @ print (mTypeMap P g d) ProtoConstructorEndTemplate"

definition decl_printConstructors :: "pool \<Rightarrow> generator_options \<Rightarrow> Descriptor \<Rightarrow> print_call list" where
  "decl_printConstructors P g d =
     concat (map (decl_printConstructor P g d) [0..<Suc (length (d_fields d))])
     @ (if d_full_name d = ''google.protobuf.Timestamp''
        then print_text (''Timestamp(const QDateTime &datetime, QObject *parent = nullptr);\<newline>''
                         @ ''operator QDateTime() const;\<newline>'')
        else [])"

definition decl_printDestructor :: "pool \<Rightarrow> generator_options \<Rightarrow> Descriptor \<Rightarrow> print_call list" where
  "decl_printDestructor P g d = print (mTypeMap P g d) ''virtual ~$classname$();\<newline>''"

definition decl_printCopyFunctionality :: "pool \<Rightarrow> generator_options \<Rightarrow> Descriptor \<Rightarrow> print_call list" where
  "decl_printCopyFunctionality P g d =
     print (mTypeMap P g d) CopyConstructorDeclarationTemplate
     @ print (mTypeMap P g d) AssignmentOperatorDeclarationTemplate"

definition decl_printMoveSemantic :: "pool \<Rightarrow> generator_options \<Rightarrow> Descriptor \<Rightarrow> print_call list" where
  "decl_printMoveSemantic P g d =
     print (mTypeMap P g d) MoveConstructorDeclarationTemplate
     @ print (mTypeMap P g d) MoveAssignmentOperatorDeclarationTemplate"

definition decl_printComparisonOperators :: "pool \<Rightarrow> generator_options \<Rightarrow> Descriptor \<Rightarrow> print_call list" where
  "decl_printComparisonOperators P g d =
     print (mTypeMap P g d) EqualOperatorDeclarationTemplate
     @ print (mTypeMap P g d) NotEqualOperatorDeclarationTemplate"

definition printMaps :: "pool \<Rightarrow> generator_options \<Rightarrow> Descriptor \<Rightarrow> print_call list" where
  "printMaps P g d =
     Indent
     @ concat (map (\<lambda>field.
         case map_entry field of
           Some (k, v) \<Rightarrow>
             print (producePropertyMap P g field d)
               (if is_message v then MessageMapTypeUsingTemplate else MapTypeUsingTemplate)
         | None \<Rightarrow> []) (d_fields d))
     @ Outdent"

definition printNested :: "pool \<Rightarrow> generator_options \<Rightarrow> Descriptor \<Rightarrow> print_call list" where
  "printNested P g d =
     Indent
     @ iterateNestedMessages d (\<lambda>nestedMessage.
         print (produceMessageTypeMap P g nestedMessage (Some d)) NestedMessageUsingTemplate)
     @ Outdent"

definition printFieldEnum :: "pool \<Rightarrow> generator_options \<Rightarrow> Descriptor \<Rightarrow> print_call list" where
  "printFieldEnum P g d =
     Indent @ print_text FieldEnumTemplate
     @ Indent
     @ iterateMessageFields P g d (\<lambda>field propertyMap. print propertyMap FieldNumberTemplate)
     @ Outdent
     @ print_text SemicolonBlockEnclosureTemplate
     @ Outdent"

definition printQEnum :: "pool \<Rightarrow> generator_options \<Rightarrow> Descriptor \<Rightarrow> EnumDescriptor \<Rightarrow> print_call list" where
  "printQEnum P g d enumDescr =
     (let typeMap = produceEnumTypeMap P g enumDescr (Some d)
      in print typeMap EnumDefinitionTemplate
         @ Indent @ enum_values enumDescr @ Outdent
         @ print_text SemicolonBlockEnclosureTemplate
         @ print typeMap QEnumTemplate)"

definition printQEnums :: "pool \<Rightarrow> generator_options \<Rightarrow> Descriptor \<Rightarrow> print_call list" where
  "printQEnums P g d =
     (if mGenerateFieldEnum g
      then printFieldEnum P g d
           @ Indent @ print [''type'' \<mapsto> QtProtobufFieldEnum] QEnumTemplate @ Outdent @ print_text newline
      else [])
     @ (if length (d_enums d) \<le> 0 then []
        else Indent
             @ concat (map (printQEnum P g d) (d_enums d))
             @ concat (map (\<lambda>enumDescr.
                 print (produceEnumTypeMap P g enumDescr (Some d)) EnumTypeRepeatedTemplate) (d_enums d))
             @ Outdent)"

definition property_template :: "pool \<Rightarrow> generator_options \<Rightarrow> FieldDescriptor \<Rightarrow> string" where
  "property_template P g field =
     (if isPureMessage P field then MessagePropertyTemplate
      else if hasQmlAlias g field then NonScriptablePropertyTemplate
      else if is_repeated field \<and> \<not> is_map field
      then (if is_message field then RepeatedMessagePropertyTemplate else RepeatedPropertyTemplate)
      else PropertyTemplate)"

definition printProperties :: "pool \<Rightarrow> generator_options \<Rightarrow> Descriptor \<Rightarrow> print_call list" where
  "printProperties P g d =
     Indent
     @ concat (map (\<lambda>field. print (producePropertyMap P g field d) (property_template P g field)) (d_fields d))
     @ concat (map (\<lambda>field.
         if is_message field \<and> is_repeated field \<and> \<not> is_map field \<and> mHasQml g
         then print (producePropertyMap P g field d) QmlListPropertyTemplate
         else if hasQmlAlias g field
         then print (producePropertyMap P g field d) NonScriptableAliasPropertyTemplate
         else []) (d_fields d))
     @ Outdent"

definition decl_printGetters :: "pool \<Rightarrow> generator_options \<Rightarrow> Descriptor \<Rightarrow> print_call list" where
  "decl_printGetters P g d =
     Indent
     @ iterateMessageFields P g d (\<lambda>field propertyMap.
         printComments g (f_comments field)
         @ print_text newline
         @ (if isPureMessage P field then print propertyMap GetterMessageDeclarationTemplate
            else print propertyMap GetterTemplate)
         @ (if is_repeated field
            then print propertyMap GetterContainerExtraTemplate
                 @ (if is_message field \<and> \<not> is_map field \<and> mHasQml g
                    then print propertyMap GetterQmlListDeclarationTemplate else [])
            else []))
     @ Outdent"

definition printSetters :: "pool \<Rightarrow> generator_options \<Rightarrow> Descriptor \<Rightarrow> print_call list" where
  "printSetters P g d =
     Indent
     @ iterateMessageFields P g d (\<lambda>field propertyMap.
         case f_type field of
           TYPE_MESSAGE m \<Rightarrow>
             if \<not> is_map field \<and> \<not> is_repeated field \<and> \<not> isQtType P field
             then print propertyMap SetterTemplateDeclarationMessageType
             else print propertyMap SetterTemplateDeclarationComplexType
         | TYPE_STRING \<Rightarrow> print propertyMap SetterTemplateDeclarationComplexType
         | TYPE_BYTES \<Rightarrow> print propertyMap SetterTemplateDeclarationComplexType
         | _ \<Rightarrow> print propertyMap SetterTemplate)
     @ Outdent"

definition printPrivateGetters :: "pool \<Rightarrow> generator_options \<Rightarrow> Descriptor \<Rightarrow> print_call list" where
  "printPrivateGetters P g d =
     Indent
     @ iterateMessageFields P g d (\<lambda>field propertyMap.
         if isPureMessage P field then print propertyMap GetterPrivateMessageDeclarationTemplate else [])
     @ Outdent"

definition printPrivateSetters :: "pool \<Rightarrow> generator_options \<Rightarrow> Descriptor \<Rightarrow> print_call list" where
  "printPrivateSetters P g d =
     Indent
     @ iterateMessageFields P g d (\<lambda>field propertyMap.
         if isPureMessage P field then print propertyMap SetterPrivateTemplateDeclarationMessageType else [])
     @ Outdent"

definition printSignals :: "pool \<Rightarrow> generator_options \<Rightarrow> Descriptor \<Rightarrow> print_call list" where
  "printSignals P g d =
     Indent
     @ concat (map (\<lambda>field. print (producePropertyMap P g field d) SignalTemplate) (d_fields d))
     @ Outdent"

definition printPrivateMethods :: "pool \<Rightarrow> generator_options \<Rightarrow> Descriptor \<Rightarrow> print_call list" where
  "printPrivateMethods P g d =
     Indent
     @ iterateMessageFields P g d (\<lambda>field propertyMap.
         if hasQmlAlias g field
         then print propertyMap NonScriptableGetterTemplate @ print propertyMap NonScriptableSetterTemplate else [])
     @ Outdent"

definition printClassMembers :: "pool \<Rightarrow> generator_options \<Rightarrow> Descriptor \<Rightarrow> print_call list" where
  "printClassMembers P g d =
     Indent
     @ iterateMessageFields P g d (\<lambda>field propertyMap.
         if isPureMessage P field then print propertyMap ComplexMemberTemplate
         else if is_repeated field \<and> \<not> is_map field then print propertyMap ListMemberTemplate
         else print propertyMap MemberTemplate)
     @ Outdent"

definition printClassBody :: "pool \<Rightarrow> generator_options \<Rightarrow> Descriptor \<Rightarrow> print_call list" where
  "printClassBody P g d =
     printProperties P g d
     @ printPublicBlock
     @ printQEnums P g d
     @ printNested P g d
     @ printMaps P g d
     @ Indent
     @ decl_printConstructors P g d
     @ decl_printDestructor P g d
     @ decl_printCopyFunctionality P g d
     @ decl_printMoveSemantic P g d
     @ decl_printComparisonOperators P g d
     @ Outdent
     @ decl_printGetters P g d
     @ printSetters P g d
     @ Indent
     @ print (mTypeMap P g d) ManualRegistrationDeclaration
     @ Outdent
     @ printSignalsBlock
     @ printSignals P g d
     @ printPrivateBlock
     @ printPrivateGetters P g d
     @ printPrivateSetters P g d
     @ printPrivateMethods P g d
     @ printPrivateBlock
     @ printClassMembers P g d"

function printClassDeclarationPrivate :: "pool \<Rightarrow> generator_options \<Rightarrow> Descriptor \<Rightarrow> print_call list" where
  "printClassDeclarationPrivate P g d =
     nested_namespace P g d
     @ iterateNestedMessages d (\<lambda>nestedMessage. printClassDeclarationPrivate P g nestedMessage)
     @ print_text SimpleBlockEnclosureTemplate
     @ printComments g (d_comments d)
     @ print (mTypeMap P g d) ProtoClassDeclarationBeginTemplate
     @ printClassBody P g d
     @ encloseClass
     @ print (mTypeMap P g d) ComplexListTypeUsingTemplate"
  by pat_completeness auto
termination by (relation "measure (\<lambda>(P, g, d). size d)") (auto simp: nested_size)

text \<open>Both guards of a map's metatype are made from the key type.\<close>

definition map_metatype :: "type_map \<Rightarrow> print_call list" where
  "map_metatype propertyMap =
     (let propertyMap = propertyMap(''key_type_underscore'' \<mapsto> at propertyMap ''key_type'');
          propertyMap = propertyMap(''key_type_underscore'' \<mapsto> replaced (at propertyMap ''key_type_underscore'') ''::'' ''_'');
          propertyMap = propertyMap(''value_type_underscore'' \<mapsto> at propertyMap ''key_type'');
          propertyMap = propertyMap(''value_type_underscore'' \<mapsto> replaced (at propertyMap ''value_type_underscore'') ''::'' ''_'')
      in print propertyMap DeclareMetaTypeMapTemplate)"

definition is_local_enum_field :: "FieldDescriptor \<Rightarrow> Descriptor \<Rightarrow> bool" where
  "is_local_enum_field field d =
     (case f_type field of TYPE_ENUM e \<Rightarrow> isLocalEnum e (Some d) | _ \<Rightarrow> False)"

function printMetaTypesDeclaration :: "pool \<Rightarrow> generator_options \<Rightarrow> Descriptor \<Rightarrow> print_call list" where
  "printMetaTypesDeclaration P g d =
     print (mTypeMap P g d) DeclareMetaTypeTemplate
     @ print (mTypeMap P g d) DeclareComplexListTypeTemplate
     @ (if mHasQml g then print (mTypeMap P g d) DeclareComplexQmlListTypeTemplate else [])
     @ iterateMessageFields P g d (\<lambda>field propertyMap.
         if is_local_enum_field field d
         then print propertyMap DeclareMetaTypeTemplate @ print propertyMap DeclareMetaTypeListTemplate
         else if is_map field then map_metatype propertyMap
         else [])
     @ iterateNestedMessages d (\<lambda>nestedMessage. printMetaTypesDeclaration P g nestedMessage)"
  by pat_completeness auto
termination by (relation "measure (\<lambda>(P, g, d). size d)") (auto simp: nested_size)

definition printClassDeclaration :: "pool \<Rightarrow> generator_options \<Rightarrow> Descriptor \<Rightarrow> print_call list" where
  "printClassDeclaration P g d =
     printNamespaces g (d_full_name d)
     @ printClassDeclarationPrivate P g d
     @ encloseNamespaces g (d_full_name d)
     @ printMetaTypesDeclaration P g d"

declare printClassForwardDeclarationPrivate.simps [simp del] printClassDeclarationPrivate.simps [simp del]
  printMetaTypesDeclaration.simps [simp del]

subsection \<open>Definition\<close>

definition def_printDestructor :: "pool \<Rightarrow> generator_options \<Rightarrow> Descriptor \<Rightarrow> print_call list" where
  "def_printDestructor P g d =
     print (mTypeMap P g d) RegistrarTemplate
     @ print (mTypeMap P g d) (''$classname$::~$classname$()\<newline>'' @ ''{}\<newline>\<newline>'')"

definition printFieldsOrdering :: "pool \<Rightarrow> generator_options \<Rightarrow> Descriptor \<Rightarrow> print_call list" where
  "printFieldsOrdering P g d =
     print [''type'' \<mapsto> at (mTypeMap P g d) ''classname''] FieldsOrderingContainerTemplate
     @ Indent
     @ concat (map (\<lambda>i.
         (if i \<noteq> 0 then print_text ''\<newline>,'' else [])
         @ print [''field_number'' \<mapsto> to_string (field_number (d_fields d ! i)),
                  ''property_number'' \<mapsto> to_string (int i + 1),
                  ''json_name'' \<mapsto> json_name (d_fields d ! i)] FieldOrderTemplate) [0..<length (d_fields d)])
     @ Outdent
     @ print_text SemicolonBlockEnclosureTemplate
     @ print_text newline"

definition def_printRegisterBody :: "pool \<Rightarrow> generator_options \<Rightarrow> Descriptor \<Rightarrow> print_call list" where
  "def_printRegisterBody P g d =
     print (mTypeMap P g d) ManualRegistrationComplexTypeDefinition
     @ Indent
     @ (if mHasQml g
        then print (mTypeMap P g d) RegisterQmlListPropertyMetaTypeTemplate
             @ print (mTypeMap P g d) QmlRegisterTypeTemplate
        else [])
     @ iterateMessageFields P g d (\<lambda>field propertyMap.
         if is_local_enum_field field d then print propertyMap RegisterLocalEnumTemplate
         else if is_map field then print propertyMap RegisterMapTemplate
         else [])
     @ Outdent
     @ print_text SimpleBlockEnclosureTemplate"

definition def_printConstructor :: "pool \<Rightarrow> generator_options \<Rightarrow> Descriptor \<Rightarrow> nat \<Rightarrow> print_call list" where
  "def_printConstructor P g d fieldCount =
     concat (map (\<lambda>field. print (producePropertyMap P g field d) (parameter_template field))
       (take fieldCount (d_fields d)))"

text \<open>An enumeration of proto3 has at least one value.\<close>

definition initializer :: "FieldDescriptor \<Rightarrow> type_map \<Rightarrow> string" where
  "initializer field propertyMap =
     (if \<not> is_repeated field \<and> \<not> is_map field then
        case f_type field of
          TYPE_DOUBLE \<Rightarrow> ''0.0'' | TYPE_FLOAT \<Rightarrow> ''0.0''
        | TYPE_FIXED32 \<Rightarrow> ''0'' | TYPE_FIXED64 \<Rightarrow> ''0'' | TYPE_INT32 \<Rightarrow> ''0'' | TYPE_INT64 \<Rightarrow> ''0''
        | TYPE_SINT32 \<Rightarrow> ''0'' | TYPE_SINT64 \<Rightarrow> ''0'' | TYPE_UINT32 \<Rightarrow> ''0'' | TYPE_UINT64 \<Rightarrow> ''0''
        | TYPE_BOOL \<Rightarrow> ''false''
        | TYPE_ENUM e \<Rightarrow> at propertyMap ''scope_type'' @ ''::'' @ fst (e_values e ! 0)
        | _ \<Rightarrow> []
      else [])"

definition printInitializationList :: "pool \<Rightarrow> generator_options \<Rightarrow> Descriptor \<Rightarrow> nat \<Rightarrow> print_call list" where
  "printInitializationList P g d fieldCount =
     concat (map (\<lambda>i.
       let field = d_fields d ! i;
           propertyMap = producePropertyMap P g field d;
           propertyMap = propertyMap(''initializer'' \<mapsto> initializer field propertyMap)
       in if isPureMessage P field
          then (if i < fieldCount then print propertyMap MessagePropertyInitializerTemplate
                else print propertyMap MessagePropertyDefaultInitializerTemplate)
          else (if i < fieldCount then print propertyMap PropertyInitializerTemplate
                else if at propertyMap ''initializer'' \<noteq> [] then print propertyMap PropertyDefaultInitializerTemplate
                else [])) [0..<length (d_fields d)])"

definition def_printConstructors :: "pool \<Rightarrow> generator_options \<Rightarrow> Descriptor \<Rightarrow> print_call list" where
  "def_printConstructors P g d =
     concat (map (\<lambda>i.
       print (mTypeMap P g d) ProtoConstructorDefinitionBeginTemplate
       @ def_printConstructor P g d i
       @ print (mTypeMap P g d) ProtoConstructorDefinitionEndTemplate
       @ printInitializationList P g d i
       @ print_text ConstructorContentTemplate) [0..<Suc (length (d_fields d))])
     @ (if d_full_name d = ''google.protobuf.Timestamp''
        then print_text (''Timestamp::Timestamp(const QDateTime &datetime, QObject *parent) : QObject(parent)\<newline>''
                         @ '', m_seconds(datetime.toMSecsSinceEpoch() / 1000)\<newline>''
                         @ '', m_nanos((datetime.toMSecsSinceEpoch() % 1000) * 1000)\<newline>''
                         @ ''{}\<newline>''
                         @ ''Timestamp::operator QDateTime() const\<newline>''
                         @ ''{\<newline>''
                         @ ''    return QDateTime::fromMSecsSinceEpoch(m_seconds * 1000 + m_nanos / 1000);\<newline>''
                         @ ''}\<newline>'')
        else [])"

definition message_initializers :: "pool \<Rightarrow> generator_options \<Rightarrow> Descriptor \<Rightarrow> print_call list" where
  "message_initializers P g d =
     iterateMessageFields P g d (\<lambda>field propertyMap.
       if isPureMessage P field then print propertyMap MessagePropertyDefaultInitializerTemplate else [])"

definition def_printCopyFunctionality :: "pool \<Rightarrow> generator_options \<Rightarrow> Descriptor \<Rightarrow> print_call list" where
  "def_printCopyFunctionality P g d =
     (let constructorTemplate =
            (if length (d_fields d) \<le> 0 then EmptyCopyConstructorDefinitionTemplate else CopyConstructorDefinitionTemplate);
          assignmentOperatorTemplate =
            (if length (d_fields d) \<le> 0 then EmptyAssignmentOperatorDefinitionTemplate
             else AssignmentOperatorDefinitionTemplate)
      in print (mTypeMap P g d) constructorTemplate
         @ message_initializers P g d
         @ print_text ''\<newline>{\<newline>''
         @ Indent
         @ iterateMessageFields P g d (\<lambda>field propertyMap.
             if isPureMessage P field then print propertyMap CopyComplexFieldTemplate
             else print propertyMap CopyFieldTemplate)
         @ Outdent
         @ print_text SimpleBlockEnclosureTemplate
         @ print (mTypeMap P g d) assignmentOperatorTemplate
         @ Indent
         @ iterateMessageFields P g d (\<lambda>field propertyMap.
             if isPureMessage P field then print propertyMap AssignComplexFieldTemplate
             else print propertyMap CopyFieldTemplate)
         @ print_text AssignmentOperatorReturnTemplate
         @ Outdent
         @ print_text SimpleBlockEnclosureTemplate)"

definition move_field :: "pool \<Rightarrow> string \<Rightarrow> string \<Rightarrow> FieldDescriptor \<Rightarrow> type_map \<Rightarrow> print_call list" where
  "move_field P messageTemplate complexTemplate field propertyMap =
     (if is_message field \<or> f_type field = TYPE_STRING \<or> f_type field = TYPE_BYTES \<or> is_repeated field
      then (if isPureMessage P field then print propertyMap messageTemplate else print propertyMap complexTemplate)
      else (case f_type field of
              TYPE_ENUM e \<Rightarrow> print propertyMap EnumMoveFieldTemplate
            | _ \<Rightarrow> print propertyMap MoveFieldTemplate))"

definition def_printMoveSemantic :: "pool \<Rightarrow> generator_options \<Rightarrow> Descriptor \<Rightarrow> print_call list" where
  "def_printMoveSemantic P g d =
     (let constructorTemplate =
            (if length (d_fields d) \<le> 0 then EmptyMoveConstructorDefinitionTemplate else MoveConstructorDefinitionTemplate);
          assignmentOperatorTemplate =
            (if length (d_fields d) \<le> 0 then EmptyMoveAssignmentOperatorDefinitionTemplate
             else MoveAssignmentOperatorDefinitionTemplate)
      in print (mTypeMap P g d) constructorTemplate
         @ message_initializers P g d
         @ print_text ''\<newline>{\<newline>''
         @ Indent
         @ iterateMessageFields P g d (move_field P MoveMessageFieldTemplate MoveComplexFieldConstructorTemplate)
         @ Outdent
         @ print_text SimpleBlockEnclosureTemplate
         @ print (mTypeMap P g d) assignmentOperatorTemplate
         @ Indent
         @ iterateMessageFields P g d (move_field P MoveAssignMessageFieldTemplate MoveComplexFieldTemplate)
         @ print_text AssignmentOperatorReturnTemplate
         @ Outdent
         @ print_text SimpleBlockEnclosureTemplate)"

text \<open>\<open>isFirst\<close> is true for the first field only.\<close>

definition equal_template :: "pool \<Rightarrow> FieldDescriptor \<Rightarrow> string" where
  "equal_template P field =
     (if isPureMessage P field then EqualOperatorMessagePropertyTemplate
      else if is_message field \<and> is_repeated field then EqualOperatorRepeatedPropertyTemplate
      else EqualOperatorPropertyTemplate)"

definition def_printComparisonOperators :: "pool \<Rightarrow> generator_options \<Rightarrow> Descriptor \<Rightarrow> print_call list" where
  "def_printComparisonOperators P g d =
     (if length (d_fields d) \<le> 0
      then print (mTypeMap P g d) EmptyEqualOperatorDefinitionTemplate
           @ print (mTypeMap P g d) NotEqualOperatorDefinitionTemplate
      else
        print (mTypeMap P g d) EqualOperatorDefinitionTemplate
        @ (case d_fields d of
             [] \<Rightarrow> []
           | first # rest \<Rightarrow>
               Indent @ Indent
               @ print (producePropertyMap P g first d) (equal_template P first)
               @ concat (map (\<lambda>field. print_text ''\<newline>&& ''
                   @ print (producePropertyMap P g field d) (equal_template P field)) rest)
               @ Outdent @ Outdent)
        @ print_text '';\<newline>''
        @ print_text SimpleBlockEnclosureTemplate
        @ print (mTypeMap P g d) NotEqualOperatorDefinitionTemplate)"

definition def_printGetters :: "pool \<Rightarrow> generator_options \<Rightarrow> Descriptor \<Rightarrow> print_call list" where
  "def_printGetters P g d =
     iterateMessageFields P g d (\<lambda>field propertyMap.
       (if isPureMessage P field
        then print propertyMap GetterPrivateMessageDefinitionTemplate
             @ print propertyMap GetterMessageDefinitionTemplate
        else [])
       @ (if is_repeated field
          then (if is_message field \<and> \<not> is_map field \<and> \<not> isQtType P field \<and> mHasQml g
                then print propertyMap GetterQmlListDefinitionTemplate else [])
          else []))
     @ iterateMessageFields P g d (\<lambda>field propertyMap.
         case f_type field of
           TYPE_MESSAGE m \<Rightarrow>
             if \<not> is_map field \<and> \<not> is_repeated field \<and> \<not> isQtType P field
             then print propertyMap SetterPrivateTemplateDefinitionMessageType
                  @ print propertyMap SetterTemplateDefinitionMessageType
             else print propertyMap SetterTemplateDefinitionComplexType
         | TYPE_STRING \<Rightarrow> print propertyMap SetterTemplateDefinitionComplexType
         | TYPE_BYTES \<Rightarrow> print propertyMap SetterTemplateDefinitionComplexType
         | _ \<Rightarrow> [])"

function printClassDefinitionPrivate :: "pool \<Rightarrow> generator_options \<Rightarrow> Descriptor \<Rightarrow> print_call list" where
  "printClassDefinitionPrivate P g d =
     (if hasNestedMessages d
      then nested_namespace P g d
           @ iterateNestedMessages d (\<lambda>nestedMessage. printClassDefinitionPrivate P g nestedMessage)
           @ print_text SimpleBlockEnclosureTemplate
      else [])
     @ def_printDestructor P g d
     @ printFieldsOrdering P g d
     @ def_printRegisterBody P g d
     @ def_printConstructors P g d
     @ def_printCopyFunctionality P g d
     @ def_printMoveSemantic P g d
     @ def_printComparisonOperators P g d
     @ def_printGetters P g d"
  by pat_completeness auto
termination by (relation "measure (\<lambda>(P, g, d). size d)") (auto simp: nested_size)

declare printClassDefinitionPrivate.simps [simp del]

definition printClassDefinition :: "pool \<Rightarrow> generator_options \<Rightarrow> Descriptor \<Rightarrow> print_call list" where
  "printClassDefinition P g d =
     printNamespaces g (d_full_name d) @ printClassDefinitionPrivate P g d @ encloseNamespaces g (d_full_name d)"

end
