(* ===== verification/GeneratorProperties.thy ===== *)
theory GeneratorProperties
  imports MessagePrinters
begin

section \<open>What the generator prints\<close>

text \<open>
  Properties of the printers: no call of the library fails, blocks and indentation are closed, the table of
  the serializer agrees with the properties of the class, and every class that is declared is defined.
\<close>

subsection \<open>Calls the library accepts\<close>

text \<open>A call fails when its text refers to a variable without a value, or does not close the name of one.\<close>

fun closed_call :: "print_call \<Rightarrow> bool" where
  "closed_call (Print vars t) = (case template_vars t of None \<Rightarrow> False | Some vs \<Rightarrow> set vs \<subseteq> insert [] (dom vars))"
| "closed_call Indent_call = True"
| "closed_call Outdent_call = True"

definition closed_calls :: "print_call list \<Rightarrow> bool" where
  "closed_calls cs = list_all closed_call cs"

text \<open>\<open>Outdent\<close> must close an \<open>Indent\<close>; the state is the number of open blocks and of open indentations.\<close>

fun print_step :: "nat \<times> nat \<Rightarrow> print_call \<Rightarrow> (nat \<times> nat) option" where
  "print_step (b, i) (Print vars t) =
     (if int b + template_braces t < 0 then None else Some (nat (int b + template_braces t), i))"
| "print_step (b, i) Indent_call = Some (b, Suc i)"
| "print_step (b, i) Outdent_call = (if i = 0 then None else Some (b, i - 1))"

fun run_calls :: "nat \<times> nat \<Rightarrow> print_call list \<Rightarrow> (nat \<times> nat) option" where
  "run_calls s [] = Some s"
| "run_calls s (c # cs) = (case print_step s c of None \<Rightarrow> None | Some s' \<Rightarrow> run_calls s' cs)"

definition neutral :: "print_call list \<Rightarrow> bool" where
  "neutral cs \<longleftrightarrow> (\<forall>s. run_calls s cs = Some s)"

lemma run_append: "run_calls s (xs @ ys) = Option.bind (run_calls s xs) (\<lambda>s'. run_calls s' ys)"
  by (induction xs arbitrary: s) (auto split: option.splits)

lemma neutral_run: "neutral cs \<Longrightarrow> run_calls s cs = Some s"
  by (cases s) (simp add: neutral_def)

lemma run_print [simp]:
  "template_braces t = 0 \<Longrightarrow> run_calls s (print v t) = Some s"
  "template_braces t = 1 \<Longrightarrow> run_calls (b, i) (print v t) = Some (Suc b, i)"
  "template_braces t = - 1 \<Longrightarrow> run_calls (Suc b, i) (print v t) = Some (b, i)"
  "template_braces t = 0 \<Longrightarrow> run_calls s (print_text t) = Some s"
  "template_braces t = 1 \<Longrightarrow> run_calls (b, i) (print_text t) = Some (Suc b, i)"
  "template_braces t = - 1 \<Longrightarrow> run_calls (Suc b, i) (print_text t) = Some (b, i)"
  by (cases s; simp add: print_def print_text_def nat_add_distrib)+

lemma run_Indent [simp]:
  "run_calls (b, i) Indent = Some (b, Suc (Suc i))"
  "run_calls (b, Suc (Suc i)) Outdent = Some (b, i)"
  by (simp_all add: Indent_def Outdent_def)

text \<open>
  The printers are built from empty output, concatenation and the iterations over fields and messages. What is closed
  under the first two holds of an iteration when it holds of every callback.
\<close>

locale call_property =
  fixes ok :: "print_call list \<Rightarrow> bool"
  assumes ok_Nil: "ok []"
    and ok_append: "ok xs \<Longrightarrow> ok ys \<Longrightarrow> ok (xs @ ys)"
begin

lemma ok_concat: "(\<And>k. k \<in> set ks \<Longrightarrow> ok (f k)) \<Longrightarrow> ok (concat (map f ks))"
  by (induction ks) (simp_all add: ok_Nil ok_append)

lemma ok_fields:
  "(\<And>field. field \<in> set (d_fields d) \<Longrightarrow> ok (f field (producePropertyMap P g field d))) \<Longrightarrow>
     ok (iterateMessageFields P g d f)"
  by (simp add: iterateMessageFields_def ok_concat)

lemma ok_nested: "(\<And>n. n \<in> set (nested_types d) \<Longrightarrow> ok (f n)) \<Longrightarrow> ok (iterateNestedMessages d f)"
  unfolding iterateNestedMessages_def by (rule ok_concat) (simp add: ok_Nil)

lemma ok_messages: "(\<And>m. m \<in> set (message_types file) \<Longrightarrow> ok (f m)) \<Longrightarrow> ok (iterateMessages file f)"
  by (simp add: iterateMessages_def ok_concat)

end

interpretation balanced: call_property neutral
  by unfold_locales (simp_all add: neutral_def run_append)

lemma neutral_print [simp]:
  "template_braces t = 0 \<Longrightarrow> neutral (print v t)" "template_braces t = 0 \<Longrightarrow> neutral (print_text t)"
  by (simp_all add: neutral_def)

lemmas neutral_simps [simp] = balanced.ok_Nil balanced.ok_append balanced.ok_concat balanced.ok_fields balanced.ok_nested
  balanced.ok_messages

lemma closed_print [simp]:
  "closed_calls (print v t) = closed_call (Print v t)"
  "closed_calls (print_text t) = closed_call (Print Map.empty t)"
  "closed_calls Indent" "closed_calls Outdent" "closed_calls []"
  "closed_calls (xs @ ys) \<longleftrightarrow> closed_calls xs \<and> closed_calls ys"
  "closed_calls (concat (map f ks)) \<longleftrightarrow> (\<forall>k \<in> set ks. closed_calls (f k))"
  by (auto simp: closed_calls_def print_def print_text_def Indent_def Outdent_def list_all_iff)

declare closed_call.simps(1) [simp del]

lemma closed_call_vars [simp]:
  "template_vars t = Some vs \<Longrightarrow> closed_call (Print vars t) \<longleftrightarrow> set vs \<subseteq> insert [] (dom vars)"
  by (simp add: closed_call.simps)

interpretation defined_vars: call_property closed_calls
  by unfold_locales simp_all

lemmas closed_iterate [simp] = defined_vars.ok_fields defined_vars.ok_nested defined_vars.ok_messages

subsection \<open>The keys of the maps\<close>

definition type_keys :: "string set" where
  "type_keys = {''type'', ''full_type'', ''scope_type'', ''list_type'', ''full_list_type'', ''scope_list_type'',
     ''namespaces'', ''scope_namespaces'', ''qml_package'', ''property_type'', ''property_list_type'', ''getter_type'',
     ''setter_type''}"

definition property_keys :: "string set" where
  "property_keys = type_keys \<union> {''property_name'', ''property_name_cap'', ''scriptable'', ''key_type'', ''value_type'',
     ''classname'', ''number''}"

lemma message_keys: "insert ''classname'' type_keys \<subseteq> dom (produceMessageTypeMap P g d scope)"
  by (simp add: produceMessageTypeMap_def type_keys_def Let_def)

lemma enum_keys: "insert ''enum_gadget'' (insert ''classname'' type_keys) \<subseteq> dom (produceEnumTypeMap P g e scope)"
  by (simp add: produceEnumTypeMap_def type_keys_def Let_def)

lemma simple_keys: "insert ''qml_alias_type'' type_keys \<subseteq> dom (produceSimpleTypeMap t)"
  by (simp add: produceSimpleTypeMap_def type_keys_def Let_def)

lemma qt_keys: "type_keys \<subseteq> dom (produceQtTypeMap d scope)"
  by (simp add: produceQtTypeMap_def type_keys_def Let_def)

lemma produceTypeMap_keys: "type_keys \<subseteq> dom (produceTypeMap P g field scope)"
proof -
  have "type_keys \<subseteq> dom (produceSimpleTypeMap t)" for t using simple_keys by blast
  moreover have "type_keys \<subseteq> dom (produceEnumTypeMap P g e scope)" for e using enum_keys by blast
  moreover have "type_keys \<subseteq> dom (produceMessageTypeMap P g d scope)" for d using message_keys by blast
  ultimately show ?thesis
    using qt_keys by (simp add: produceTypeMap_def split: field_type.splits)
qed

lemma property_entries_keys: "property_keys \<subseteq> dom (property_entries P g field d)"
  using produceTypeMap_keys [of P g field "Some d"] by (auto simp: property_entries_def property_keys_def)

lemma producePropertyMap_dom: "dom (property_entries P g field d) \<subseteq> dom (producePropertyMap P g field d)"
  by (cases "(P, g, field, d)" rule: producePropertyMap.cases) (auto simp: Let_def)

lemma producePropertyMap_keys: "property_keys \<subseteq> dom (producePropertyMap P g field d)"
  using property_entries_keys producePropertyMap_dom by blast

lemma alias_key: "hasQmlAlias g field \<Longrightarrow> ''qml_alias_type'' \<in> dom (producePropertyMap P g field d)"
proof -
  assume "hasQmlAlias g field"
  then have "produceTypeMap P g field (Some d) = produceSimpleTypeMap (f_type field)"
    by (auto simp: hasQmlAlias_def produceTypeMap_def split: field_type.splits)
  then have "''qml_alias_type'' \<in> dom (property_entries P g field d)"
    using simple_keys [of "f_type field"] by (auto simp: property_entries_def)
  then show ?thesis using producePropertyMap_dom by blast
qed

lemmas key_simps [simp] =
  message_keys [unfolded type_keys_def, simplified]
  enum_keys [unfolded type_keys_def, simplified]
  producePropertyMap_keys [unfolded property_keys_def type_keys_def, simplified]
  alias_key

subsection \<open>Comments\<close>

definition plain_text :: "string \<Rightarrow> bool" where
  "plain_text s \<longleftrightarrow> CHR ''$'' \<notin> set s \<and> CHR ''{'' \<notin> set s \<and> CHR ''}'' \<notin> set s"

text \<open>Comments of a message, its fields and its nested messages that are copied, and are plain text.\<close>

fun plain_comments :: "Descriptor \<Rightarrow> bool" where
  "plain_comments (MessageDescriptor i n fn fl c fs ns es cm) \<longleftrightarrow>
     plain_text cm \<and> (\<forall>f \<in> set fs. plain_text (f_comments f)) \<and> (\<forall>m \<in> set ns. plain_comments m)"

lemma plain_commentsD:
  "plain_comments d \<Longrightarrow> plain_text (d_comments d)"
  "plain_comments d \<Longrightarrow> f \<in> set (d_fields d) \<Longrightarrow> plain_text (f_comments f)"
  "plain_comments d \<Longrightarrow> m \<in> set (nested_types d) \<Longrightarrow> plain_comments m"
  by (cases d; simp)+

lemma plain_subset: "plain_text s \<Longrightarrow> set t \<subseteq> set s \<union> {CHR '' '', CHR ''*'', CHR 0x0A} \<Longrightarrow> plain_text t"
  by (auto simp: plain_text_def)

lemma plain_text_facts:
  assumes "plain_text s"
  shows "template_vars s = Some []" "template_braces s = 0"
proof -
  have "scan_vars None s = Some []" using assms by (induction s) (auto simp: plain_text_def)
  then show "template_vars s = Some []" by (simp add: template_vars_def)
  show "template_braces s = 0" using assms by (induction s) (auto simp: plain_text_def)
qed

lemma set_trim: "set (trim s) \<subseteq> set s"
  unfolding trim_def ltrim_eq rtrim_eq by (auto dest!: set_dropWhileD)

lemma set_subst_all: "set (subst_all pat by_what s) \<subseteq> set by_what \<union> set s"
  by (induction pat by_what s rule: subst_all.induct) (auto dest: in_set_dropD)

lemma set_replaced: "pat \<noteq> [] \<Longrightarrow> set (replaced s pat by_what) \<subseteq> set by_what \<union> set s"
  using set_subst_all by (auto simp: replaced_def replace_subst)

lemma set_c_str: "set (c_str s) \<subseteq> set s"
  by (auto simp: c_str_def dest: set_takeWhileD)

lemma plain_parts:
  assumes "plain_text s"
  shows "plain_text (trim s)" "plain_text (c_str s)" "plain_text (newline @ s)" "plain_text ('' '' @ s)"
    "plain_text (CHR '' '' # s)" "plain_text (replaced s newline (newline @ '' *''))"
proof -
  show "plain_text (trim s)" using assms set_trim by (rule plain_subset [OF _ subset_trans]) blast
  show "plain_text (c_str s)" using assms set_c_str by (rule plain_subset [OF _ subset_trans]) blast
  show "plain_text (newline @ s)" "plain_text ('' '' @ s)" "plain_text (CHR '' '' # s)"
    using assms by (auto simp: newline_def plain_text_def)
  show "plain_text (replaced s newline (newline @ '' *''))"
    using assms set_replaced [of newline s "newline @ '' *''"] by (rule plain_subset [OF _ subset_trans]) (auto simp: newline_def)
qed

text \<open>The text of a comment begins with a blank, an exclamation mark, a star or a line feed and a blank.\<close>

definition comment_start :: "string \<Rightarrow> bool" where
  "comment_start t \<longleftrightarrow> take 1 t \<in> {[], '' '', ''!'', ''*''} \<or> take 2 t = ''\<newline> ''"

lemma comment_start_kind: "comment_start t \<Longrightarrow> text_kind t = OtherText"
proof -
  assume start: "comment_start t"
  consider "t = []" | c where "t = [c]" | c e cs where "t = c # e # cs"
    by (metis list.exhaust)
  then show ?thesis
    using start by cases (auto simp: comment_start_def text_kind_def)
qed

lemma comment_start_c_str: "comment_start t \<Longrightarrow> comment_start (c_str t)"
proof -
  assume start: "comment_start t"
  consider "t = []" | c where "t = [c]" | c e cs where "t = c # e # cs"
    by (metis list.exhaust)
  then show ?thesis
    using start by cases (auto simp: comment_start_def c_str_def)
qed

lemma replaced_newline: "replaced s newline by_what = concat (map (\<lambda>x. if x = CHR 0x0A then by_what else [x]) s)"
  using subst_all_char [of "CHR 0x0A"] by (simp add: replaced_def replace_subst newline_def)

text \<open>The text that is printed for a comment, when there is one.\<close>

lemma printComments_calls:
  assumes "c \<in> set (printComments g s)"
  shows "\<exists>t. c = Print Map.empty t \<and> text_kind t = OtherText \<and> (plain_text s \<longrightarrow> plain_text t)"
proof -
  let ?tr = "trim s"
  define single where "single = (find_from ?tr newline 0 = None)"
  define body where "body = c_str (if single then comment_text ?tr else replaced (comment_text ?tr) newline (newline @ '' *''))"
  have ne: "?tr \<noteq> []" and c: "c \<in> set (print_text ''\<newline>/*'' @ print_text body @ print_text newline @ print_text '' */'')"
    using assms by (auto simp: printComments_def Let_def single_def body_def split: if_splits)
  have "comment_start (if single then comment_text ?tr else replaced (comment_text ?tr) newline (newline @ '' *''))"
    using ne by (cases ?tr) (auto simp: comment_start_def comment_text_def single_def replaced_newline [unfolded newline_def] newline_def)
  then have "text_kind body = OtherText"
    unfolding body_def by (intro comment_start_kind comment_start_c_str)
  moreover have "plain_text s \<longrightarrow> plain_text body"
    by (auto simp: body_def comment_text_def plain_parts)
  moreover have "text_kind ''\<newline>/*'' = OtherText" "text_kind newline = OtherText" "text_kind '' */'' = OtherText"
    by (simp_all add: text_kind_def newline_def)
  moreover have "plain_text ''\<newline>/*''" "plain_text newline" "plain_text '' */''"
    by (simp_all add: plain_text_def newline_def)
  ultimately show ?thesis using c by (auto simp: print_text_def)
qed

lemma plain_calls_facts:
  assumes "\<And>c. c \<in> set cs \<Longrightarrow> \<exists>t. c = Print Map.empty t \<and> plain_text t"
  shows "neutral cs" "closed_calls cs"
proof -
  show "neutral cs"
    unfolding neutral_def
  proof
    show "run_calls s cs = Some s" for s
      using assms by (induction cs) (cases s; force simp: plain_text_facts)+
  qed
  show "closed_calls cs" using assms by (force simp: closed_calls_def list_all_iff plain_text_facts)
qed

lemma printComments_plain [simp]:
  assumes "\<not> mGenerateComments g \<or> plain_text s"
  shows "neutral (printComments g s)" "closed_calls (printComments g s)"
proof -
  have "\<exists>t. c = Print Map.empty t \<and> plain_text t" if "c \<in> set (printComments g s)" for c
    using printComments_calls [OF that] assms that by (auto simp: printComments_def)
  then show "neutral (printComments g s)" "closed_calls (printComments g s)"
    by (rule plain_calls_facts; blast)+
qed

lemma neutralI: "(\<And>b i. run_calls (b, i) cs = Some (b, i)) \<Longrightarrow> neutral cs"
  by (auto simp: neutral_def)

lemma literal_facts [template_facts]:
  "template_vars newline = Some []" "template_braces newline = 0" "text_kind newline = OtherText"
  "template_vars ''\<newline>,'' = Some []" "template_braces ''\<newline>,'' = 0" "text_kind ''\<newline>,'' = OtherText"
  "template_vars '';\<newline>'' = Some []" "template_braces '';\<newline>'' = 0" "text_kind '';\<newline>'' = OtherText"
  "template_vars ''\<newline>&& '' = Some []" "template_braces ''\<newline>&& '' = 0" "text_kind ''\<newline>&& '' = OtherText"
  "template_vars ''\<newline>{\<newline>'' = Some []" "template_braces ''\<newline>{\<newline>'' = 1" "text_kind ''\<newline>{\<newline>'' = OtherText"
  "template_vars ''virtual ~$classname$();\<newline>'' = Some [''classname'']"
  "template_braces ''virtual ~$classname$();\<newline>'' = 0" "text_kind ''virtual ~$classname$();\<newline>'' = OtherText"
  by (simp_all add: template_vars_def newline_def text_kind_def)

lemmas printer_run = run_append neutral_run template_facts Let_def

lemma printBlocks_ok [simp]:
  "neutral printPublicBlock" "closed_calls printPublicBlock" "neutral printPrivateBlock" "closed_calls printPrivateBlock"
  "neutral printSignalsBlock" "closed_calls printSignalsBlock"
  by (simp_all add: printPublicBlock_def printPrivateBlock_def printSignalsBlock_def template_facts)

lemma mTypeMap_keys [simp]: "k \<in> dom (produceMessageTypeMap P g d None) \<Longrightarrow> k \<in> dom (mTypeMap P g d)"
  by (simp add: mTypeMap_def)

subsection \<open>Namespaces are closed\<close>

lemma printNamespaces_run:
  "run_calls (b, i) (printNamespaces g fn) = Some (b + length (add_extra g (getNamespaces fn)), i)"
proof -
  have "run_calls (b, i) (concat (map (\<lambda>ns. print [''namespace'' \<mapsto> ns] NamespaceTemplate) nss)) = Some (b + length nss, i)"
    for b i nss
    by (induction nss arbitrary: b) (simp_all add: run_append template_facts)
  then show ?thesis by (simp add: printNamespaces_def printer_run)
qed

lemma encloseNamespaces_run:
  "run_calls (b + length (add_extra g (getNamespaces fn)), i) (encloseNamespaces g fn) = Some (b, i)"
proof -
  have "run_calls (b + n, i) (concat (map (\<lambda>k. print_text SimpleBlockEnclosureTemplate) [0..<n])) = Some (b, i)"
    for n b i
    by (induction n arbitrary: b) (simp_all add: run_append template_facts flip: add_Suc)
  moreover have "length (getNamespaces fn) + (if mExtraNamespace g \<noteq> [] then 1 else 0) = length (add_extra g (getNamespaces fn))"
    by (simp add: add_extra_def)
  ultimately show ?thesis by (simp only: encloseNamespaces_def Let_def) (simp add: run_append template_facts del: upt_Suc)
qed

lemma namespaces_closed [simp]:
  "closed_calls (printNamespaces g fn)" "closed_calls (encloseNamespaces g fn)"
  by (simp_all add: printNamespaces_def encloseNamespaces_def template_facts Let_def)

lemma enclosed_neutral:
  "neutral cs \<Longrightarrow> neutral (printNamespaces g fn @ cs @ encloseNamespaces g fn)"
  by (rule neutralI) (simp add: run_append neutral_run printNamespaces_run encloseNamespaces_run)

lemma enum_values_ok [simp]: "neutral (enum_values e)" "closed_calls (enum_values e)"
  by (simp_all add: enum_values_def template_facts split: prod.split)

subsection \<open>The parts of a class\<close>

lemma chosen_template_ok [simp]:
  "template_braces (property_template P g f) = 0" "template_braces (parameter_template f) = 0"
  "template_braces (equal_template P f) = 0"
  "closed_call (Print (producePropertyMap P g f d) (property_template P g f))"
  "closed_call (Print (producePropertyMap P g f d) (parameter_template f))"
  "closed_call (Print (producePropertyMap P g f d) (equal_template P f))"
  by (simp_all add: property_template_def parameter_template_def equal_template_def template_facts)

lemma decl_printDestructor_ok [simp]: "neutral (decl_printDestructor P g d)" "closed_calls (decl_printDestructor P g d)"
  by (rule neutralI, simp add: decl_printDestructor_def printer_run split: option.split prod.split field_type.split) (simp add: decl_printDestructor_def template_facts split: option.split prod.split field_type.split)

lemma decl_printCopyFunctionality_ok [simp]: "neutral (decl_printCopyFunctionality P g d)" "closed_calls (decl_printCopyFunctionality P g d)"
  by (rule neutralI, simp add: decl_printCopyFunctionality_def printer_run split: option.split prod.split field_type.split) (simp add: decl_printCopyFunctionality_def template_facts split: option.split prod.split field_type.split)

lemma decl_printMoveSemantic_ok [simp]: "neutral (decl_printMoveSemantic P g d)" "closed_calls (decl_printMoveSemantic P g d)"
  by (rule neutralI, simp add: decl_printMoveSemantic_def printer_run split: option.split prod.split field_type.split) (simp add: decl_printMoveSemantic_def template_facts split: option.split prod.split field_type.split)

lemma decl_printComparisonOperators_ok [simp]: "neutral (decl_printComparisonOperators P g d)" "closed_calls (decl_printComparisonOperators P g d)"
  by (rule neutralI, simp add: decl_printComparisonOperators_def printer_run split: option.split prod.split field_type.split) (simp add: decl_printComparisonOperators_def template_facts split: option.split prod.split field_type.split)

lemma printMaps_ok [simp]: "neutral (printMaps P g d)" "closed_calls (printMaps P g d)"
  by (rule neutralI, simp add: printMaps_def printer_run split: option.split prod.split field_type.split) (simp add: printMaps_def template_facts split: option.split prod.split field_type.split)

lemma printNested_ok [simp]: "neutral (printNested P g d)" "closed_calls (printNested P g d)"
  by (rule neutralI, simp add: printNested_def printer_run split: option.split prod.split field_type.split) (simp add: printNested_def template_facts split: option.split prod.split field_type.split)

lemma printFieldEnum_ok [simp]: "neutral (printFieldEnum P g d)" "closed_calls (printFieldEnum P g d)"
  by (rule neutralI, simp add: printFieldEnum_def printer_run split: option.split prod.split field_type.split) (simp add: printFieldEnum_def template_facts split: option.split prod.split field_type.split)

lemma printQEnum_ok [simp]: "neutral (printQEnum P g d e)" "closed_calls (printQEnum P g d e)"
  by (rule neutralI, simp add: printQEnum_def printer_run) (simp add: printQEnum_def template_facts Let_def)

lemma printQEnums_ok [simp]: "neutral (printQEnums P g d)" "closed_calls (printQEnums P g d)"
  by (rule neutralI, simp add: printQEnums_def printer_run split: option.split prod.split field_type.split) (simp add: printQEnums_def template_facts split: option.split prod.split field_type.split)

lemma printProperties_ok [simp]: "neutral (printProperties P g d)" "closed_calls (printProperties P g d)"
  by (rule neutralI, simp add: printProperties_def printer_run split: option.split prod.split field_type.split) (simp add: printProperties_def template_facts split: option.split prod.split field_type.split)

lemma printSetters_ok [simp]: "neutral (printSetters P g d)" "closed_calls (printSetters P g d)"
  by (rule neutralI, simp add: printSetters_def printer_run split: option.split prod.split field_type.split) (simp add: printSetters_def template_facts split: option.split prod.split field_type.split)

lemma printPrivateGetters_ok [simp]: "neutral (printPrivateGetters P g d)" "closed_calls (printPrivateGetters P g d)"
  by (rule neutralI, simp add: printPrivateGetters_def printer_run split: option.split prod.split field_type.split) (simp add: printPrivateGetters_def template_facts split: option.split prod.split field_type.split)

lemma printPrivateSetters_ok [simp]: "neutral (printPrivateSetters P g d)" "closed_calls (printPrivateSetters P g d)"
  by (rule neutralI, simp add: printPrivateSetters_def printer_run split: option.split prod.split field_type.split) (simp add: printPrivateSetters_def template_facts split: option.split prod.split field_type.split)

lemma printSignals_ok [simp]: "neutral (printSignals P g d)" "closed_calls (printSignals P g d)"
  by (rule neutralI, simp add: printSignals_def printer_run split: option.split prod.split field_type.split) (simp add: printSignals_def template_facts split: option.split prod.split field_type.split)

lemma printPrivateMethods_ok [simp]: "neutral (printPrivateMethods P g d)" "closed_calls (printPrivateMethods P g d)"
  by (rule neutralI, simp add: printPrivateMethods_def printer_run split: option.split prod.split field_type.split) (simp add: printPrivateMethods_def template_facts split: option.split prod.split field_type.split)

lemma printClassMembers_ok [simp]: "neutral (printClassMembers P g d)" "closed_calls (printClassMembers P g d)"
  by (rule neutralI, simp add: printClassMembers_def printer_run split: option.split prod.split field_type.split) (simp add: printClassMembers_def template_facts split: option.split prod.split field_type.split)

lemma decl_printConstructor_ok [simp]: "neutral (decl_printConstructor P g d n)" "closed_calls (decl_printConstructor P g d n)"
  by (rule neutralI, simp add: decl_printConstructor_def printer_run) (simp add: decl_printConstructor_def template_facts)

lemma decl_printConstructors_ok [simp]: "neutral (decl_printConstructors P g d)" "closed_calls (decl_printConstructors P g d)"
  by (simp_all add: decl_printConstructors_def template_vars_def del: upt_Suc)

lemma decl_printGetters_ok [simp]:
  assumes "\<not> mGenerateComments g \<or> plain_comments d"
  shows "neutral (decl_printGetters P g d)" "closed_calls (decl_printGetters P g d)"
proof -
  have "\<not> mGenerateComments g \<or> plain_text (f_comments f)" if "f \<in> set (d_fields d)" for f
    using assms that plain_commentsD(2) by blast
  then have c: "neutral (printComments g (f_comments f))" "closed_calls (printComments g (f_comments f))"
    if "f \<in> set (d_fields d)" for f
    using that by simp_all
  show "neutral (decl_printGetters P g d)"
    by (rule neutralI) (simp add: decl_printGetters_def printer_run c)
  show "closed_calls (decl_printGetters P g d)"
    by (simp add: decl_printGetters_def template_facts c)
qed

lemma printClassBody_ok [simp]:
  assumes "\<not> mGenerateComments g \<or> plain_comments d"
  shows "neutral (printClassBody P g d)" "closed_calls (printClassBody P g d)"
proof -
  show "neutral (printClassBody P g d)"
    by (rule neutralI) (simp add: printClassBody_def printer_run decl_printGetters_ok [OF assms])
  show "closed_calls (printClassBody P g d)"
    by (simp add: printClassBody_def template_facts decl_printGetters_ok [OF assms])
qed

subsection \<open>Classes\<close>

lemma nested_namespace_ok [simp]:
  "run_calls (b, i) (nested_namespace P g d) = Some (Suc b, i)" "closed_calls (nested_namespace P g d)"
  by (simp_all add: nested_namespace_def template_facts)

lemma encloseClass_ok [simp]:
  "run_calls (Suc b, i) encloseClass = Some (b, i)" "closed_calls encloseClass"
  by (simp_all add: encloseClass_def template_facts run_append)

lemma printClassDeclarationPrivate_ok:
  "\<not> mGenerateComments g \<or> plain_comments d \<Longrightarrow>
     neutral (printClassDeclarationPrivate P g d) \<and> closed_calls (printClassDeclarationPrivate P g d)"
proof (induction P g d rule: printClassDeclarationPrivate.induct)
  case (1 P g d)
  have comments: "\<not> mGenerateComments g \<or> plain_text (d_comments d)"
    using 1(2) plain_commentsD(1) by blast
  have "neutral (printClassDeclarationPrivate P g n) \<and> closed_calls (printClassDeclarationPrivate P g n)"
    if "n \<in> set (nested_types d)" for n
    using 1(1) [OF that] 1(2) plain_commentsD(3) [OF _ that] by blast
  then have nested: "neutral (iterateNestedMessages d (printClassDeclarationPrivate P g))"
    "closed_calls (iterateNestedMessages d (printClassDeclarationPrivate P g))"
    by simp_all
  have "neutral (printClassDeclarationPrivate P g d)"
    by (rule neutralI, subst printClassDeclarationPrivate.simps)
      (simp add: printer_run nested printComments_plain [OF comments] printClassBody_ok [OF 1(2)])
  moreover have "closed_calls (printClassDeclarationPrivate P g d)"
    by (subst printClassDeclarationPrivate.simps)
      (simp add: template_facts nested printComments_plain [OF comments] printClassBody_ok [OF 1(2)])
  ultimately show ?case ..
qed

lemma map_metatype_ok [simp]:
  "neutral (map_metatype (producePropertyMap P g f d))" "closed_calls (map_metatype (producePropertyMap P g f d))"
  by (simp_all add: map_metatype_def template_facts Let_def)

lemma printMetaTypesDeclaration_ok:
  "neutral (printMetaTypesDeclaration P g d) \<and> closed_calls (printMetaTypesDeclaration P g d)"
proof (induction P g d rule: printMetaTypesDeclaration.induct)
  case (1 P g d)
  then have nested: "neutral (iterateNestedMessages d (printMetaTypesDeclaration P g))"
    "closed_calls (iterateNestedMessages d (printMetaTypesDeclaration P g))"
    by simp_all
  show ?case
    by (subst (1 2) printMetaTypesDeclaration.simps) (simp add: template_facts nested)
qed

lemma printClassForwardDeclarationPrivate_ok:
  "neutral (printClassForwardDeclarationPrivate P g d) \<and> closed_calls (printClassForwardDeclarationPrivate P g d)"
proof (induction P g d rule: printClassForwardDeclarationPrivate.induct)
  case (1 P g d)
  then have nested: "neutral (iterateNestedMessages d (printClassForwardDeclarationPrivate P g))"
    "closed_calls (iterateNestedMessages d (printClassForwardDeclarationPrivate P g))"
    if "hasNestedMessages d" using that by simp_all
  have "neutral (printClassForwardDeclarationPrivate P g d)"
    by (rule neutralI, subst printClassForwardDeclarationPrivate.simps) (simp add: printer_run nested)
  moreover have "closed_calls (printClassForwardDeclarationPrivate P g d)"
    by (subst printClassForwardDeclarationPrivate.simps) (simp add: template_facts nested)
  ultimately show ?case ..
qed

lemma class_declaration_ok:
  assumes "\<not> mGenerateComments g \<or> plain_comments d"
  shows "neutral (printClassDeclaration P g d)" "closed_calls (printClassDeclaration P g d)"
    "neutral (printClassForwardDeclaration P g d)" "closed_calls (printClassForwardDeclaration P g d)"
proof -
  have "neutral (printNamespaces g (d_full_name d) @ printClassDeclarationPrivate P g d @ encloseNamespaces g (d_full_name d))"
    using printClassDeclarationPrivate_ok [OF assms] by (simp add: enclosed_neutral)
  with printMetaTypesDeclaration_ok [of P g d] show "neutral (printClassDeclaration P g d)"
    unfolding printClassDeclaration_def by (metis append.assoc balanced.ok_append)
  show "neutral (printClassForwardDeclaration P g d)"
    using printClassForwardDeclarationPrivate_ok [of P g d] by (simp add: printClassForwardDeclaration_def enclosed_neutral)
  show "closed_calls (printClassDeclaration P g d)" "closed_calls (printClassForwardDeclaration P g d)"
    using printClassDeclarationPrivate_ok [OF assms, of P] printMetaTypesDeclaration_ok [of P g d]
      printClassForwardDeclarationPrivate_ok [of P g d]
    by (simp_all add: printClassDeclaration_def printClassForwardDeclaration_def)
qed

subsection \<open>The definition of a class\<close>

lemma destructor_text [template_facts]:
  "template_vars (''$classname$::~$classname$()\<newline>'' @ ''{}\<newline>\<newline>'') = Some [''classname'', ''classname'']"
  "template_braces (''$classname$::~$classname$()\<newline>'' @ ''{}\<newline>\<newline>'') = 0"
  "text_kind (''$classname$::~$classname$()\<newline>'' @ ''{}\<newline>\<newline>'') = OtherText"
  by (simp_all add: template_vars_def text_kind_def)

lemma def_printDestructor_ok [simp]: "neutral (def_printDestructor P g d)" "closed_calls (def_printDestructor P g d)"
  unfolding def_printDestructor_def
  by (simp_all del: append.simps add: template_facts)

lemma printFieldsOrdering_ok [simp]: "neutral (printFieldsOrdering P g d)" "closed_calls (printFieldsOrdering P g d)"
  by (rule neutralI, simp add: printFieldsOrdering_def printer_run) (simp add: printFieldsOrdering_def template_facts)

lemma def_printRegisterBody_ok [simp]: "neutral (def_printRegisterBody P g d)" "closed_calls (def_printRegisterBody P g d)"
  by (rule neutralI, simp add: def_printRegisterBody_def printer_run) (simp add: def_printRegisterBody_def template_facts)

lemma printInitializationList_ok [simp]:
  "neutral (printInitializationList P g d n)" "closed_calls (printInitializationList P g d n)"
  by (simp_all add: printInitializationList_def template_facts Let_def)

lemma message_initializers_ok [simp]: "neutral (message_initializers P g d)" "closed_calls (message_initializers P g d)"
  by (simp_all add: message_initializers_def template_facts)

lemma def_printConstructor_ok [simp]: "neutral (def_printConstructor P g d n)" "closed_calls (def_printConstructor P g d n)"
  by (simp_all add: def_printConstructor_def)

lemma def_printConstructors_ok [simp]: "neutral (def_printConstructors P g d)" "closed_calls (def_printConstructors P g d)"
  by (simp_all add: def_printConstructors_def template_facts template_vars_def [of "CHR ''T'' # s" for s] del: upt_Suc)

lemma def_printCopyFunctionality_ok [simp]:
  "neutral (def_printCopyFunctionality P g d)" "closed_calls (def_printCopyFunctionality P g d)"
  by (rule neutralI, simp add: def_printCopyFunctionality_def printer_run)
    (simp add: def_printCopyFunctionality_def template_facts Let_def)

lemma move_field_ok [simp]:
  assumes "template_braces m = 0" "template_braces c = 0"
    "template_vars m = Some vs" "set vs \<subseteq> property_keys" "template_vars c = Some ws" "set ws \<subseteq> property_keys"
  shows "neutral (move_field P m c f (producePropertyMap P g f d))" "closed_calls (move_field P m c f (producePropertyMap P g f d))"
proof -
  have "set vs \<subseteq> dom (producePropertyMap P g f d)" "set ws \<subseteq> dom (producePropertyMap P g f d)"
    using assms producePropertyMap_keys [of P g f d] by blast+
  then show "neutral (move_field P m c f (producePropertyMap P g f d))" "closed_calls (move_field P m c f (producePropertyMap P g f d))"
    using assms by (auto simp: move_field_def template_facts split: field_type.split)
qed

lemma def_printMoveSemantic_ok [simp]:
  "neutral (def_printMoveSemantic P g d)" "closed_calls (def_printMoveSemantic P g d)"
proof -
  have moves: "neutral (iterateMessageFields P g d (move_field P MoveMessageFieldTemplate MoveComplexFieldConstructorTemplate))"
    "closed_calls (iterateMessageFields P g d (move_field P MoveMessageFieldTemplate MoveComplexFieldConstructorTemplate))"
    "neutral (iterateMessageFields P g d (move_field P MoveAssignMessageFieldTemplate MoveComplexFieldTemplate))"
    "closed_calls (iterateMessageFields P g d (move_field P MoveAssignMessageFieldTemplate MoveComplexFieldTemplate))"
    by (simp_all add: template_facts property_keys_def type_keys_def)
  show "neutral (def_printMoveSemantic P g d)"
    by (rule neutralI) (simp add: def_printMoveSemantic_def printer_run moves)
  show "closed_calls (def_printMoveSemantic P g d)"
    by (simp add: def_printMoveSemantic_def template_facts Let_def moves)
qed

lemma def_printComparisonOperators_ok [simp]:
  "neutral (def_printComparisonOperators P g d)" "closed_calls (def_printComparisonOperators P g d)"
  by (rule neutralI, simp add: def_printComparisonOperators_def printer_run split: list.split)
    (simp add: def_printComparisonOperators_def template_facts split: list.split)

lemma def_printGetters_ok [simp]: "neutral (def_printGetters P g d)" "closed_calls (def_printGetters P g d)"
  by (simp_all add: def_printGetters_def template_facts split: field_type.split)

lemma printClassDefinitionPrivate_ok:
  "neutral (printClassDefinitionPrivate P g d) \<and> closed_calls (printClassDefinitionPrivate P g d)"
proof (induction P g d rule: printClassDefinitionPrivate.induct)
  case (1 P g d)
  then have nested: "neutral (iterateNestedMessages d (printClassDefinitionPrivate P g))"
    "closed_calls (iterateNestedMessages d (printClassDefinitionPrivate P g))"
    if "hasNestedMessages d" using that by simp_all
  have "neutral (printClassDefinitionPrivate P g d)"
    by (rule neutralI, subst printClassDefinitionPrivate.simps) (simp add: printer_run nested)
  moreover have "closed_calls (printClassDefinitionPrivate P g d)"
    by (subst printClassDefinitionPrivate.simps) (simp add: template_facts nested)
  ultimately show ?case ..
qed

lemma class_definition_ok: "neutral (printClassDefinition P g d)" "closed_calls (printClassDefinition P g d)"
  using printClassDefinitionPrivate_ok [of P g d] by (simp_all add: printClassDefinition_def enclosed_neutral)

subsection \<open>Enumerations and clients\<close>

lemma enum_parts_ok [simp]:
  "neutral (printEnum P g e)" "closed_calls (printEnum P g e)"
  "neutral (enum_printConstructor P g e)" "closed_calls (enum_printConstructor P g e)"
  "neutral (enum_printRegisterBody P g e)" "closed_calls (enum_printRegisterBody P g e)"
  by (rule neutralI, simp add: printEnum_def printer_run, simp add: printEnum_def template_facts Let_def,
      rule neutralI, simp add: enum_printConstructor_def printer_run, simp add: enum_printConstructor_def template_facts Let_def,
      rule neutralI, simp add: enum_printRegisterBody_def printer_run, simp add: enum_printRegisterBody_def template_facts Let_def)

lemma startEnum_run:
  "run_calls (b, i) (startEnum P g e) = Some (Suc (b + length (add_extra g (getNamespaces (e_full_name e)))), i)"
  by (simp add: startEnum_def printEnumClass_def printer_run printNamespaces_run)

lemma enum_printers_ok:
  "neutral (EnumDeclarationPrinter_run P g e)" "closed_calls (EnumDeclarationPrinter_run P g e)"
  "neutral (EnumDefinitionPrinter_run P g e)" "closed_calls (EnumDefinitionPrinter_run P g e)"
proof -
  show "neutral (EnumDeclarationPrinter_run P g e)"
    by (rule neutralI)
      (simp add: EnumDeclarationPrinter_run_def encloseEnum_def printMetatype_def printer_run startEnum_run encloseNamespaces_run)
  show "neutral (EnumDefinitionPrinter_run P g e)"
    by (simp add: EnumDefinitionPrinter_run_def enclosed_neutral)
  show "closed_calls (EnumDeclarationPrinter_run P g e)" "closed_calls (EnumDefinitionPrinter_run P g e)"
    by (simp_all add: EnumDeclarationPrinter_run_def EnumDefinitionPrinter_run_def startEnum_def printEnumClass_def
        encloseEnum_def printMetatype_def template_facts)
qed

lemma method_keys [simp]:
  "{''classname'', ''return_type'', ''method_name'', ''method_name_upper'', ''param_type'', ''param_name'', ''return_name''}
     \<subseteq> dom (produceMethodMap P m scope)"
  by (simp add: produceMethodMap_def Let_def)

lemmas method_key_simps [simp] = method_keys [simplified]

lemma client_parts_ok [simp]:
  "neutral (printClientMethodDeclaration P g s m)" "closed_calls (printClientMethodDeclaration P g s m)"
  "neutral (printMethods P g s)" "closed_calls (printMethods P g s)"
  by (simp_all add: printClientMethodDeclaration_def printMethods_def template_facts Let_def)

lemma printClientMethodsDeclaration_ok [simp]:
  "neutral (printClientMethodsDeclaration P g s)" "closed_calls (printClientMethodsDeclaration P g s)"
  by (rule neutralI, simp add: printClientMethodsDeclaration_def printer_run)
    (simp add: printClientMethodsDeclaration_def template_facts Let_def)

lemma client_printers_ok:
  "neutral (ClientDeclarationPrinter_run P g s)" "closed_calls (ClientDeclarationPrinter_run P g s)"
  "neutral (ClientDefinitionPrinter_run P g s)" "closed_calls (ClientDefinitionPrinter_run P g s)"
proof -
  show "neutral (ClientDeclarationPrinter_run P g s)"
    by (rule neutralI)
      (simp add: ClientDeclarationPrinter_run_def printClientClass_def client_printConstructor_def printer_run
        printNamespaces_run encloseNamespaces_run)
  show "neutral (ClientDefinitionPrinter_run P g s)"
    unfolding ClientDefinitionPrinter_run_def client_def_printConstructor_def using enclosed_neutral [of "print v t @ cs" for v t cs]
    by (simp add: template_facts)
  show "closed_calls (ClientDeclarationPrinter_run P g s)" "closed_calls (ClientDefinitionPrinter_run P g s)"
    by (simp_all add: ClientDeclarationPrinter_run_def ClientDefinitionPrinter_run_def client_def_printConstructor_def printClientClass_def
        client_printConstructor_def template_facts)
qed

subsection \<open>What is declared where\<close>

text \<open>The values of a variable in the calls whose text declares something of a kind.\<close>

definition declared :: "text_kind \<Rightarrow> string \<Rightarrow> print_call list \<Rightarrow> string list" where
  "declared k var cs =
     concat (map (\<lambda>c. case c of Print vars t \<Rightarrow> if text_kind t = k then [at vars var] else [] | _ \<Rightarrow> []) cs)"

definition other_calls :: "print_call list \<Rightarrow> bool" where
  "other_calls cs = list_all (\<lambda>c. case c of Print vars t \<Rightarrow> text_kind t = OtherText | _ \<Rightarrow> True) cs"

lemma other_calls_simps [simp]:
  "other_calls []" "other_calls Indent" "other_calls Outdent"
  "other_calls (print v t) \<longleftrightarrow> text_kind t = OtherText"
  "other_calls (print_text t) \<longleftrightarrow> text_kind t = OtherText"
  "other_calls (xs @ ys) \<longleftrightarrow> other_calls xs \<and> other_calls ys"
  "other_calls (concat (map f ks)) \<longleftrightarrow> (\<forall>k \<in> set ks. other_calls (f k))"
  by (auto simp: other_calls_def print_def print_text_def Indent_def Outdent_def list_all_iff)

interpretation plain_kind: call_property other_calls
  by unfold_locales simp_all

lemmas other_iterate [simp] = plain_kind.ok_fields plain_kind.ok_nested

lemma declared_append [simp]: "declared k var (xs @ ys) = declared k var xs @ declared k var ys"
  by (simp add: declared_def)

lemma declared_other [simp]: "k \<noteq> OtherText \<Longrightarrow> other_calls cs \<Longrightarrow> declared k var cs = []"
  by (auto simp: declared_def other_calls_def list_all_iff split: print_call.split)

lemma declared_print [simp]:
  "declared k var (print v t) = (if text_kind t = k then [at v var] else [])"
  "declared k var [] = []"
  by (simp_all add: declared_def print_def)

lemma declared_concat: "declared k var (concat (map f ks)) = concat (map (\<lambda>x. declared k var (f x)) ks)"
  by (induction ks) (simp_all add: declared_def)

lemma declared_nested:
  "declared k var (iterateNestedMessages d f) = iterateNestedMessages d (\<lambda>n. declared k var (f n))"
  by (auto simp: iterateNestedMessages_def declared_concat intro!: arg_cong [where f = concat])

lemma printComments_other [simp]: "other_calls (printComments g s)"
  by (auto simp: other_calls_def list_all_iff dest!: printComments_calls split: print_call.split)

lemma chosen_template_other [simp]:
  "text_kind (parameter_template f) = OtherText" "text_kind (equal_template P f) = OtherText"
  "text_kind (property_template P g f) = PropertyText"
  by (simp_all add: parameter_template_def equal_template_def property_template_def template_facts)

lemma blocks_other [simp]:
  "other_calls printPublicBlock" "other_calls printPrivateBlock" "other_calls printSignalsBlock"
  "other_calls encloseClass" "other_calls (nested_namespace P g d)" "other_calls (enum_values e)"
  by (simp_all add: printPublicBlock_def printPrivateBlock_def printSignalsBlock_def encloseClass_def
      nested_namespace_def enum_values_def template_facts split: prod.split)

lemma class_parts_other [simp]:
  "other_calls (printQEnum P g d e)" "other_calls (printFieldEnum P g d)"
  "other_calls (printNested P g d)" "other_calls (printMaps P g d)" "other_calls (decl_printDestructor P g d)"
  "other_calls (decl_printCopyFunctionality P g d)" "other_calls (decl_printMoveSemantic P g d)"
  "other_calls (decl_printComparisonOperators P g d)"
  "other_calls (printSetters P g d)" "other_calls (printSignals P g d)" "other_calls (printPrivateGetters P g d)"
  "other_calls (printPrivateSetters P g d)" "other_calls (printPrivateMethods P g d)"
  "other_calls (printClassMembers P g d)" "other_calls (decl_printConstructor P g d n)"
  unfolding printQEnum_def printFieldEnum_def printNested_def printMaps_def decl_printDestructor_def
    decl_printCopyFunctionality_def decl_printMoveSemantic_def decl_printComparisonOperators_def
    printSetters_def printSignals_def printPrivateGetters_def printPrivateSetters_def
    printPrivateMethods_def printClassMembers_def decl_printConstructor_def
  by (simp_all add: template_facts Let_def split: option.split prod.split field_type.split)

lemma declared_fields:
  "declared k var (iterateMessageFields P g d f)
     = concat (map (\<lambda>x. declared k var (f x (producePropertyMap P g x d))) (d_fields d))"
  by (simp add: iterateMessageFields_def declared_concat)

lemma getters_declared [simp]:
  assumes "k \<noteq> OtherText" "k \<noteq> QmlListText"
  shows "declared k var (decl_printGetters P g d) = []" "declared k var (def_printGetters P g d) = []"
  using assms by (simp_all add: decl_printGetters_def def_printGetters_def declared_fields template_facts split: field_type.split)

lemma class_lists_other [simp]: "other_calls (printQEnums P g d)" "other_calls (decl_printConstructors P g d)"
  by (simp_all add: printQEnums_def decl_printConstructors_def template_facts text_kind_def [of "CHR ''T'' # s" for s] del: upt_Suc)

lemma property_name_at [simp]:
  "at (producePropertyMap P g f d) ''property_name'' = propertyName f"
  by (cases "(P, g, f, d)" rule: producePropertyMap.cases) (auto simp: property_entries_def at_def Let_def)

definition qml_properties :: "generator_options \<Rightarrow> Descriptor \<Rightarrow> string list" where
  "qml_properties g d =
     concat (map (\<lambda>f. if is_message f \<and> is_repeated f \<and> \<not> is_map f \<and> mHasQml g \<or> hasQmlAlias g f
       then [propertyName f] else []) (d_fields d))"

lemma printProperties_declared:
  "declared PropertyText ''property_name'' (printProperties P g d)
     = map propertyName (d_fields d) @ qml_properties g d"
proof -
  have "concat (map (\<lambda>f. [propertyName f]) fs) = map propertyName fs" for fs by (induction fs) simp_all
  then show ?thesis
    by (simp add: printProperties_def declared_concat qml_properties_def template_facts cong: if_cong)
      (auto intro!: arg_cong [where f = concat] simp: template_facts)
qed

lemma printClassBody_declared:
  "declared PropertyText ''property_name'' (printClassBody P g d) = map propertyName (d_fields d) @ qml_properties g d"
  by (simp add: printClassBody_def printProperties_declared template_facts)

text \<open>The entries of the table \<open>propertyOrdering\<close>: field number, index of the property, name in JSON.\<close>

definition ordering_entries :: "print_call list \<Rightarrow> (string \<times> string \<times> string) list" where
  "ordering_entries cs =
     concat (map (\<lambda>c. case c of
        Print vars t \<Rightarrow> if t = FieldOrderTemplate then [(at vars ''field_number'', at vars ''property_number'', at vars ''json_name'')] else []
      | _ \<Rightarrow> []) cs)"

lemma ordering_simps [simp]:
  "ordering_entries (xs @ ys) = ordering_entries xs @ ordering_entries ys"
  "ordering_entries (print v t) =
     (if t = FieldOrderTemplate then [(at v ''field_number'', at v ''property_number'', at v ''json_name'')] else [])"
  "ordering_entries (print_text t) = (if t = FieldOrderTemplate then [([], [], [])] else [])"
  "ordering_entries Indent = []" "ordering_entries Outdent = []" "ordering_entries [] = []"
  by (simp_all add: ordering_entries_def print_def print_text_def Indent_def Outdent_def at_def)

lemma ordering_concat: "ordering_entries (concat (map f ks)) = concat (map (\<lambda>x. ordering_entries (f x)) ks)"
  by (induction ks) (simp_all add: ordering_entries_def)

lemma not_FieldOrder [simp]:
  "FieldsOrderingContainerTemplate \<noteq> FieldOrderTemplate" "''\<newline>,'' \<noteq> FieldOrderTemplate"
  "SemicolonBlockEnclosureTemplate \<noteq> FieldOrderTemplate" "newline \<noteq> FieldOrderTemplate"
  by (simp_all add: FieldsOrderingContainerTemplate_def FieldOrderTemplate_def SemicolonBlockEnclosureTemplate_def newline_def)

lemma printFieldsOrdering_entries:
  "ordering_entries (printFieldsOrdering P g d) =
     map (\<lambda>i. (to_string (field_number (d_fields d ! i)), to_string (int i + 1), json_name (d_fields d ! i)))
       [0..<length (d_fields d)]"
proof -
  have "concat (map (\<lambda>i. [h i]) is) = map h is" for h :: "nat \<Rightarrow> string \<times> string \<times> string" and "is"
    by (induction "is") simp_all
  then show ?thesis
    by (simp add: printFieldsOrdering_def ordering_concat at_def if_distrib [of ordering_entries] cong: if_cong)
qed

subsection \<open>Classes declared and defined\<close>

text \<open>The classes made for a message: those of the nested messages that are visited, then its own.\<close>

function generated_classes :: "Descriptor \<Rightarrow> string list" where
  "generated_classes d = iterateNestedMessages d (\<lambda>n. generated_classes n) @ [upperCaseName (d_name d)]"
  by pat_completeness auto
termination by (relation "measure size") (auto simp: nested_size)

declare generated_classes.simps [simp del]

lemma classname_at [simp]: "at (mTypeMap P g d) ''classname'' = upperCaseName (d_name d)"
  by (simp add: mTypeMap_def produceMessageTypeMap_def at_def Let_def)

lemma printProperties_no_class: "declared ClassText var (printProperties P g d) = []"
  by (simp add: printProperties_def declared_concat template_facts)

lemma printClassBody_no_class: "declared ClassText var (printClassBody P g d) = []"
  by (simp add: printClassBody_def printProperties_no_class template_facts)

lemma declared_classes: "declared ClassText ''classname'' (printClassDeclarationPrivate P g d) = generated_classes d"
proof (induction P g d rule: printClassDeclarationPrivate.induct)
  case (1 P g d)
  then have "iterateNestedMessages d (\<lambda>n. declared ClassText ''classname'' (printClassDeclarationPrivate P g n))
    = iterateNestedMessages d generated_classes"
    by (intro iterateNestedMessages_cong) simp_all
  then show ?case
    by (subst printClassDeclarationPrivate.simps, subst generated_classes.simps)
      (simp add: declared_nested printClassBody_no_class template_facts)
qed

lemma definition_parts_other [simp]:
  "other_calls (printFieldsOrdering P g d)" "other_calls (def_printRegisterBody P g d)"
  "other_calls (printInitializationList P g d n)" "other_calls (message_initializers P g d)"
  "other_calls (def_printConstructor P g d n)" "other_calls (def_printComparisonOperators P g d)"
  unfolding printFieldsOrdering_def def_printRegisterBody_def printInitializationList_def message_initializers_def
    def_printConstructor_def def_printComparisonOperators_def
  by (simp_all add: template_facts Let_def split: list.split field_type.split)

lemma definition_lists_other [simp]:
  "other_calls (def_printConstructors P g d)" "other_calls (def_printCopyFunctionality P g d)"
  "other_calls (def_printMoveSemantic P g d)"
  unfolding def_printConstructors_def def_printCopyFunctionality_def def_printMoveSemantic_def move_field_def
  by (simp_all add: template_facts Let_def text_kind_def [of "CHR ''T'' # s" for s] split: field_type.split del: upt_Suc)

lemma hasNested_iterate: "hasNestedMessages d \<longleftrightarrow> iterateNestedMessages d (\<lambda>n. [n]) \<noteq> []"
  by (auto simp: hasNestedMessages_def iterateNestedMessages_def list_ex_iff ex_in_conv)

lemma not_hasNested_iterate: "\<not> hasNestedMessages d \<Longrightarrow> iterateNestedMessages d f = []"
  by (auto simp: hasNestedMessages_def iterateNestedMessages_def list_ex_iff split: if_splits)

lemma defined_classes: "declared RegistrarText ''classname'' (printClassDefinitionPrivate P g d) = generated_classes d"
proof (induction P g d rule: printClassDefinitionPrivate.induct)
  case (1 P g d)
  then have "iterateNestedMessages d (\<lambda>n. declared RegistrarText ''classname'' (printClassDefinitionPrivate P g n))
    = iterateNestedMessages d generated_classes" if "hasNestedMessages d"
    using that by (intro iterateNestedMessages_cong) simp_all
  then show ?case
    by (subst printClassDefinitionPrivate.simps, subst generated_classes.simps)
      (simp add: declared_nested not_hasNested_iterate def_printDestructor_def template_facts text_kind_def [of "CHR ''$'' # s" for s])
qed

end
