(* ===== verification/FileGenerators.thy ===== *)
theory FileGenerators
  imports MessagePrinters
begin

section \<open>The files of the generator\<close>

text \<open>
  \<open>generatorbase.cpp\<close>, \<open>singlefilegenerator.cpp\<close>, \<open>multifilegenerator.cpp\<close> and \<open>main.cpp\<close>: which files are
  written for a proto file and what they include. A file is its name and the calls of its printer. A loop up the
  containing messages that does not end is \<open>None\<close>; \<open>order\<close> lists a \<open>std::set\<close> in its order.
\<close>

type_synonym generated = "(string \<times> print_call list) list"

subsection \<open>GeneratorBase\<close>

definition generateBaseName :: "generator_options \<Rightarrow> FileDescriptor \<Rightarrow> string \<Rightarrow> string" where
  "generateBaseName g file name =
     (let packages = split (package file) (CHR ''.'')
      in if mIsFolder g then concat (map (\<lambda>p. p @ ''/'') packages) @ name else name)"

definition printDisclaimer :: "print_call list" where "printDisclaimer = print_text DisclaimerTemplate"

definition printPreamble :: "print_call list" where "printPreamble = print_text PreambleTemplate"

definition printQtProtobufUsingNamespace :: "print_call list" where
  "printQtProtobufUsingNamespace = print [''namespace'' \<mapsto> ''QtProtobuf''] UsingNamespaceTemplate"

definition base_printNamespaces :: "string list \<Rightarrow> print_call list" where
  "base_printNamespaces namespaces =
     print_text newline @ concat (map (\<lambda>ns. print [''namespace'' \<mapsto> ns] NamespaceTemplate) namespaces)"

definition package_path :: "pool \<Rightarrow> file_id \<Rightarrow> Descriptor \<Rightarrow> string" where
  "package_path P type_file message =
     (let fieldPackage = package (files P type_file)
      in if fieldPackage \<noteq> package (files P (d_file message))
         then concat (map (\<lambda>p. p @ ''/'') (split fieldPackage (CHR ''.''))) else [])"

text \<open>
  The include a field asks for: its name and its template. \<open>Some None\<close> is an early return; a text without a
  template has both empty. The owner of an enumeration is the part before its name; \<open>at\<close> throws without one.
\<close>

definition field_include :: "pool \<Rightarrow> Descriptor \<Rightarrow> FieldDescriptor \<Rightarrow> (string \<times> string) option outcome" where
  "field_include P message field =
     (case f_type field of
        TYPE_MESSAGE m \<Rightarrow>
          if is_map field then Ret (Some (''QMap'', ExternalIncludeTemplate))
          else if isQtType P field then Ret (Some (d_name (msg P m), ExternalIncludeTemplate))
          else if \<not> isNested P (msg P m)
          then Ret (Some (package_path P (d_file (msg P m)) message @ tolower (d_name (msg P m)), InternalIncludeTemplate))
          else if \<not> isNestedOf (msg P m) message
          then (case findHighestMessage P (msg P m) of
                  None \<Rightarrow> No_fuel
                | Some containingMessage \<Rightarrow>
                    if d_id containingMessage \<noteq> d_id message
                    then Ret (Some (package_path P (d_file containingMessage) message @ tolower (d_name containingMessage),
                           InternalIncludeTemplate))
                    else Ret (Some ([], [])))
          else Ret (Some ([], []))
      | TYPE_BYTES \<Rightarrow> Ret (Some (''QByteArray'', ExternalIncludeTemplate))
      | TYPE_STRING \<Rightarrow> Ret (Some (''QString'', ExternalIncludeTemplate))
      | TYPE_ENUM e \<Rightarrow>
          (case enumVisibility P e (Some message) of
             GLOBAL_ENUM \<Rightarrow> Ret (Some ([], GlobalEnumIncludeTemplate))
           | NEIGHBOR_ENUM \<Rightarrow>
               let parts = split (e_full_name e) (CHR ''.'')
               in if length parts < 2 then throw Out_of_range
                  else Ret (Some (tolower (parts ! (length parts - 2)), InternalIncludeTemplate))
           | LOCAL_ENUM \<Rightarrow> Ret None)
      | _ \<Rightarrow> Ret None)"

definition add_include :: "(string \<times> string) option \<Rightarrow> string set \<Rightarrow> print_call list \<times> string set" where
  "add_include inc existingIncludes =
     (case inc of
        None \<Rightarrow> ([], existingIncludes)
      | Some (newInclude, includeTemplate) \<Rightarrow>
          if newInclude \<notin> existingIncludes
          then (print [''include'' \<mapsto> newInclude] includeTemplate, insert newInclude existingIncludes)
          else ([], existingIncludes))"

text \<open>The includes of the key and of the value of a map come first.\<close>

fun printInclude :: "pool \<Rightarrow> Descriptor \<Rightarrow> FieldDescriptor \<Rightarrow> string set \<Rightarrow> (print_call list \<times> string set) outcome" where
  "printInclude P message (Field cn jn n t r fl cm (Some (k, v))) existing =
     and_then (printInclude P message k existing) (\<lambda>(cs1, existing).
     and_then (printInclude P message v existing) (\<lambda>(cs2, existing).
     and_then (field_include P message (Field cn jn n t r fl cm (Some (k, v)))) (\<lambda>inc.
       let (cs3, existing) = add_include inc existing in Ret (cs1 @ cs2 @ cs3, existing))))"
| "printInclude P message (Field cn jn n t r fl cm None) existing =
     and_then (field_include P message (Field cn jn n t r fl cm None)) (\<lambda>inc. Ret (add_include inc existing))"

fun printIncludes_of :: "pool \<Rightarrow> Descriptor \<Rightarrow> FieldDescriptor list \<Rightarrow> string set \<Rightarrow> (print_call list \<times> string set) outcome" where
  "printIncludes_of P message [] existing = Ret ([], existing)"
| "printIncludes_of P message (f # fs) existing =
     and_then (printInclude P message f existing) (\<lambda>(cs, existing).
     and_then (printIncludes_of P message fs existing) (\<lambda>(cs', existing). Ret (cs @ cs', existing)))"

subsection \<open>MultiFileGenerator\<close>

definition pure_dependencies :: "pool \<Rightarrow> Descriptor \<Rightarrow> Descriptor list" where
  "pure_dependencies P message =
     concat (map (\<lambda>field. case f_type field of
         TYPE_MESSAGE m \<Rightarrow> if isPureMessage P field then [msg P m] else []
       | _ \<Rightarrow> []) (d_fields message))"

function findNestedDependency :: "pool \<Rightarrow> Descriptor \<Rightarrow> Descriptor list" where
  "findNestedDependency P message =
     iterateNestedMessages message (\<lambda>nested. pure_dependencies P nested @ findNestedDependency P nested)"
  by pat_completeness auto
termination by (relation "measure (\<lambda>(P, d). size d)") (auto simp: nested_size)

declare findNestedDependency.simps [simp del]

fun print_dependencies :: "pool \<Rightarrow> Descriptor \<Rightarrow> Descriptor list \<Rightarrow> string set \<Rightarrow> print_call list outcome" where
  "print_dependencies P message [] existing = Ret []"
| "print_dependencies P message (dependency # ds) existing =
     (case findHighestMessage P dependency of
        None \<Rightarrow> No_fuel
      | Some parentType \<Rightarrow>
          let newInclude = package_path P (d_file dependency) message @ tolower (d_name parentType);
              (cs, existing) = add_include (Some (newInclude, InternalIncludeTemplate)) existing
          in and_then (print_dependencies P message ds existing) (\<lambda>cs'. Ret (cs @ cs')))"

definition forward_declare :: "pool \<Rightarrow> Descriptor \<Rightarrow> Descriptor \<Rightarrow> print_call list" where
  "forward_declare P message dependency =
     (if \<not> isNestedOf dependency message
      then let namespaces = (if isNested P dependency then getNestedNamespaces P dependency
                             else getNamespaces (d_full_name dependency))
           in base_printNamespaces namespaces
              @ print [''classname'' \<mapsto> upperCaseName (d_name dependency)] ProtoClassForwardDeclarationTemplate
              @ print_text newline
              @ concat (map (\<lambda>i. print_text SimpleBlockEnclosureTemplate) [0..<length namespaces])
              @ print_text newline
      else [])"

definition qml_include :: "generator_options \<Rightarrow> string list \<Rightarrow> print_call list" where
  "qml_include g names =
     (if mHasQml g then concat (map (\<lambda>n. print [''include'' \<mapsto> n] ExternalIncludeTemplate) names) else [])"

definition default_includes :: "generator_options \<Rightarrow> print_call list" where
  "default_includes g =
     printDisclaimer @ printPreamble @ print_text DefaultProtobufIncludesTemplate
     @ (if mHasQml g then print_text QmlProtobufIncludesTemplate else [])"

definition multi_message :: "pool \<Rightarrow> generator_options \<Rightarrow> FileDescriptor \<Rightarrow> Descriptor \<Rightarrow> generated outcome" where
  "multi_message P g file message =
     (let baseFilename = generateBaseName g file (tolower (d_name message));
          deps = findNestedDependency P message @ pure_dependencies P message
      in and_then (printIncludes_of P message (d_fields message) {}) (\<lambda>(includes, existing).
         and_then (print_dependencies P message deps existing) (\<lambda>dep_includes.
           Ret [(baseFilename @ ''.h'',
                 default_includes g @ includes @ dep_includes
                 @ concat (map (forward_declare P message) deps)
                 @ printClassDeclaration P g message),
                (baseFilename @ ''.cpp'',
                 printDisclaimer
                 @ print [''include'' \<mapsto> tolower (d_name message)] InternalIncludeTemplate
                 @ qml_include g [''QQmlEngine'']
                 @ printClassDefinition P g message)])))"

definition multi_service :: "pool \<Rightarrow> generator_options \<Rightarrow> (string set \<Rightarrow> string list) \<Rightarrow> FileDescriptor \<Rightarrow>
    ServiceDescriptor \<Rightarrow> generated" where
  "multi_service P g order file service =
     (let baseFilename = generateBaseName g file (tolower (s_name service))
      in [(baseFilename @ ''client.h'',
           printDisclaimer @ printPreamble
           @ printIncludes P order service @ printClientIncludes order
           @ ClientDeclarationPrinter_run P g service),
          (baseFilename @ ''client.cpp'',
           printDisclaimer
           @ print [''include'' \<mapsto> tolower (s_name service)] InternalIncludeTemplate
           @ qml_include g [''QQmlEngine'', ''QJSEngine'', ''QJSValue'']
           @ printQtProtobufUsingNamespace
           @ ClientDefinitionPrinter_run P g service)])"

text \<open>\<open>Ret (False, fs)\<close> is the error for a file that is not of proto3.\<close>

fun multi_messages :: "pool \<Rightarrow> generator_options \<Rightarrow> FileDescriptor \<Rightarrow> Descriptor list \<Rightarrow> generated outcome" where
  "multi_messages P g file [] = Ret []"
| "multi_messages P g file (d # ds) =
     and_then (multi_message P g file d) (\<lambda>fs. and_then (multi_messages P g file ds) (\<lambda>fs'. Ret (fs @ fs')))"

definition multi_Generate :: "pool \<Rightarrow> generator_options \<Rightarrow> (string set \<Rightarrow> string list) \<Rightarrow> FileDescriptor \<Rightarrow>
    (bool \<times> generated) outcome" where
  "multi_Generate P g order file =
     (if \<not> syntax_proto3 file then Ret (False, [])
      else and_then (multi_messages P g file (message_types file)) (\<lambda>fs.
             Ret (True, fs @ concat (map (multi_service P g order file) (services file)))))"

definition multi_globalenums :: "pool \<Rightarrow> generator_options \<Rightarrow> FileDescriptor list \<Rightarrow> generated" where
  "multi_globalenums P g fs =
     [(''globalenums.h'',
       printDisclaimer @ printPreamble @ print_text DefaultProtobufIncludesTemplate
       @ concat (map (\<lambda>file. concat (map (EnumDeclarationPrinter_run P g) (enum_types file))) fs)),
      (''globalenums.cpp'',
       printDisclaimer @ print [''include'' \<mapsto> ''globalenums''] InternalIncludeTemplate
       @ qml_include g [''QQmlEngine'']
       @ concat (map (\<lambda>file. concat (map (EnumDefinitionPrinter_run P g) (enum_types file))) fs))]"

subsection \<open>SingleFileGenerator\<close>

definition qt_type_fields :: "pool \<Rightarrow> FileDescriptor \<Rightarrow> string list" where
  "qt_type_fields P file =
     iterateMessages file (\<lambda>message.
       concat (map (\<lambda>field. case f_type field of
           TYPE_MESSAGE m \<Rightarrow>
             if \<not> is_map field \<and> \<not> is_repeated field \<and> isQtType P field then [d_name (msg P m)] else []
         | _ \<Rightarrow> []) (d_fields message)))"

fun proto_includes :: "string list \<Rightarrow> string set outcome" where
  "proto_includes [] = Ret {}"
| "proto_includes (n # ns) =
     and_then (removeFileSuffix n) (\<lambda>s. and_then (proto_includes ns) (\<lambda>ss. Ret (insert (s @ ProtoFileSuffix) ss)))"

definition print_include_sets :: "(string set \<Rightarrow> string list) \<Rightarrow> string set \<Rightarrow> string set \<Rightarrow> print_call list" where
  "print_include_sets order externalIncludes internalIncludes =
     concat (map (\<lambda>i. print [''include'' \<mapsto> i] ExternalIncludeTemplate) (order externalIncludes))
     @ concat (map (\<lambda>i. print [''include'' \<mapsto> i] InternalIncludeTemplate) (order internalIncludes))"

definition GenerateMessages :: "pool \<Rightarrow> generator_options \<Rightarrow> (string set \<Rightarrow> string list) \<Rightarrow> FileDescriptor \<Rightarrow>
    generated outcome" where
  "GenerateMessages P g order file =
     (if length (message_types file) \<le> 0 \<and> length (enum_types file) \<le> 0 then Ret []
      else
        and_then (extractFileBasename (file_name file)) (\<lambda>name.
        let basename = generateBaseName g file name;
            qtTypes = qt_type_fields P file;
            timestamp = iterateMessages file (\<lambda>m. if d_full_name m = ''google.protobuf.Timestamp'' then [''QDateTime''] else []);
            externalIncludes = {''QByteArray'', ''QString''} \<union> set qtTypes \<union> set timestamp
              \<union> (if qtTypes \<noteq> [] then {''QtProtobufQtTypes''} else {});
            deps = filter (\<lambda>n. n \<noteq> ''QtProtobuf/QtCore.proto'' \<and> n \<noteq> ''QtProtobuf/QtGui.proto'')
              (map (\<lambda>f. file_name (files P f)) (dependencies file))
        in and_then (proto_includes deps) (\<lambda>internalIncludes.
           Ret [(basename @ ProtoFileSuffix @ ''.h'',
                 default_includes g
                 @ print_include_sets order externalIncludes internalIncludes
                 @ concat (map (EnumDeclarationPrinter_run P g) (enum_types file))
                 @ iterateMessages file (printClassForwardDeclaration P g)
                 @ iterateMessages file (printClassDeclaration P g)),
                (basename @ ProtoFileSuffix @ ''.cpp'',
                 printDisclaimer
                 @ print [''include'' \<mapsto> basename @ ProtoFileSuffix] InternalIncludeTemplate
                 @ qml_include g [''QQmlEngine'']
                 @ printQtProtobufUsingNamespace
                 @ concat (map (EnumDefinitionPrinter_run P g) (enum_types file))
                 @ iterateMessages file (printClassDefinition P g))])))"

definition foreign_types :: "pool \<Rightarrow> FileDescriptor \<Rightarrow> string list" where
  "foreign_types P file =
     concat (map (\<lambda>service. concat (map (\<lambda>method.
       (let i = msg P (input_type method) in if d_file i \<noteq> s_file service then [file_name (files P (d_file i))] else [])
       @ (let r = msg P (output_type method) in if d_file r \<noteq> s_file service then [file_name (files P (d_file r))] else []))
       (s_methods service))) (services file))"

definition GenerateServices :: "pool \<Rightarrow> generator_options \<Rightarrow> (string set \<Rightarrow> string list) \<Rightarrow> FileDescriptor \<Rightarrow>
    generated outcome" where
  "GenerateServices P g order file =
     (if length (services file) \<le> 0 then Ret []
      else
        and_then (extractFileBasename (file_name file)) (\<lambda>name.
        let basename = generateBaseName g file name;
            externalIncludes = {''QAbstractGrpcClient'', ''QGrpcCallReply'', ''QGrpcStream'', ''QGrpcStreamBidirect''}
        in and_then (proto_includes (foreign_types P file)) (\<lambda>foreign.
           let internalIncludes = foreign \<union> (if length (message_types file) > 0 then {basename @ ProtoFileSuffix} else {})
           in Ret [(basename @ GrpcFileSuffix @ ProtoFileSuffix @ ''.h'',
                    default_includes g
                    @ print_include_sets order externalIncludes internalIncludes
                    @ concat (map (ClientDeclarationPrinter_run P g) (services file))),
                   (basename @ GrpcFileSuffix @ ProtoFileSuffix @ ''.cpp'',
                    printDisclaimer
                    @ print [''include'' \<mapsto> basename @ GrpcFileSuffix @ ProtoFileSuffix] InternalIncludeTemplate
                    @ qml_include g [''QQmlEngine'', ''QJSEngine'', ''QJSValue'']
                    @ printQtProtobufUsingNamespace
                    @ concat (map (ClientDefinitionPrinter_run P g) (services file)))])))"

definition single_Generate :: "pool \<Rightarrow> generator_options \<Rightarrow> (string set \<Rightarrow> string list) \<Rightarrow> FileDescriptor \<Rightarrow>
    (bool \<times> generated) outcome" where
  "single_Generate P g order file =
     (if \<not> syntax_proto3 file then Ret (False, [])
      else and_then (GenerateMessages P g order file) (\<lambda>fs.
           and_then (GenerateServices P g order file) (\<lambda>fs'. Ret (True, fs @ fs'))))"

subsection \<open>The program\<close>

text \<open>
  \<open>main\<close> chooses the generator; \<open>PluginMain\<close> calls \<open>GenerateAll\<close>, whose default calls \<open>Generate\<close> for each file and
  stops at the first that fails.
\<close>

fun generate_files :: "(FileDescriptor \<Rightarrow> (bool \<times> generated) outcome) \<Rightarrow> FileDescriptor list \<Rightarrow> (bool \<times> generated) outcome" where
  "generate_files gen [] = Ret (True, [])"
| "generate_files gen (f # fs) =
     and_then (gen f) (\<lambda>(ok, out).
       if ok then and_then (generate_files gen fs) (\<lambda>(ok', out'). Ret (ok', out @ out')) else Ret (False, out))"

definition generator_main :: "string option \<Rightarrow> pool \<Rightarrow> (string set \<Rightarrow> string list) \<Rightarrow> FileDescriptor list \<Rightarrow>
    (bool \<times> generated) outcome" where
  "generator_main options P order fs =
     (let g = (case options of Some o' \<Rightarrow> parseFromEnv o' default_options | None \<Rightarrow> default_options)
      in if mIsMulti g
         then and_then (generate_files (multi_Generate P g order) fs) (\<lambda>(ok, out).
                Ret (ok, multi_globalenums P g fs @ out))
         else generate_files (single_Generate P g order) fs)"

end
