(* ===== verification/GeneratorResults.thy ===== *)
theory GeneratorResults
  imports GeneratorProperties FileGenerators
begin

section \<open>Properties of the code generator\<close>

text \<open>
  The properties of the generator as a whole, on the lemmas about its printers, with a small proto file as
  the concrete input.
\<close>

subsection \<open>A proto file\<close>

text \<open>
  Package \<open>demo\<close>: a message \<open>Point\<close> with an integer, a nested message, a list of strings and a map, a service that returns
  it, and a global enumeration.
\<close>

definition plain_field :: "string \<Rightarrow> int \<Rightarrow> field_type \<Rightarrow> FieldDescriptor" where
  "plain_field name n t = Field name name n t False 0 '' the value '' None"

definition demo_color :: EnumDescriptor where
  "demo_color = \<lparr>e_name = ''Color'', e_full_name = ''demo.Color'', e_file = 0, e_values = [(''Red'', 0), (''Blue'', 1)]\<rparr>"

definition demo_tag :: Descriptor where
  "demo_tag = MessageDescriptor 1 ''Tag'' ''demo.Point.Tag'' 0 (Some 0) [plain_field ''label'' 1 TYPE_STRING] [] [] ''''"

definition demo_unused :: Descriptor where
  "demo_unused = MessageDescriptor 2 ''Extra'' ''demo.Point.Extra'' 0 (Some 0) [] [] [] ''''"

definition demo_point :: Descriptor where
  "demo_point = MessageDescriptor 0 ''Point'' ''demo.Point'' 0 None
     [plain_field ''x'' 1 TYPE_INT32, plain_field ''tag'' 4 (TYPE_MESSAGE 1),
      Field ''names'' ''names'' 2 TYPE_STRING True 0 [] None, plain_field ''color'' 7 (TYPE_ENUM demo_color)]
     [demo_tag, demo_unused] [] '' A point. ''"

definition demo_service :: ServiceDescriptor where
  "demo_service = \<lparr>s_name = ''Points'', s_full_name = ''demo.Points'', s_file = 0,
     s_methods = [\<lparr>m_name = ''get'', input_type = 1, output_type = 0, server_streaming = False\<rparr>]\<rparr>"

definition demo_file :: FileDescriptor where
  "demo_file = \<lparr>file_name = ''demo.proto'', package = ''demo'', syntax_proto3 = True, message_types = [demo_point],
     enum_types = [demo_color], services = [demo_service], dependencies = []\<rparr>"

definition demo_pool :: pool where
  "demo_pool = \<lparr>msg = (\<lambda>i. if i = 0 then demo_point else if i = 1 then demo_tag else demo_unused), files = (\<lambda>_. demo_file)\<rparr>"

definition demo_options :: generator_options where
  "demo_options = default_options\<lparr>mHasQml := True, mGenerateComments := True\<rparr>"

lemmas demo_defs = demo_color_def demo_tag_def demo_unused_def demo_point_def demo_service_def demo_file_def demo_pool_def
  demo_options_def default_options_def plain_field_def

subsection \<open>The generated files\<close>

definition accepted_calls :: "print_call list \<Rightarrow> bool" where
  "accepted_calls cs \<longleftrightarrow> closed_calls cs \<and> run_calls (0, 0) cs = Some (0, 0)"

lemma accepted_neutral: "neutral cs \<Longrightarrow> closed_calls cs \<Longrightarrow> accepted_calls cs"
  by (simp add: accepted_calls_def neutral_def)

lemma file_parts_ok [simp]:
  "neutral (default_includes g)" "closed_calls (default_includes g)"
  "neutral printDisclaimer" "closed_calls printDisclaimer"
  "neutral printQtProtobufUsingNamespace" "closed_calls printQtProtobufUsingNamespace"
  "neutral (qml_include g ns)" "closed_calls (qml_include g ns)"
  "neutral (print_include_sets order A B)" "closed_calls (print_include_sets order A B)"
  by (simp_all add: default_includes_def printDisclaimer_def printPreamble_def printQtProtobufUsingNamespace_def
      qml_include_def print_include_sets_def template_facts)

lemma removeFileSuffix_dot: "CHR ''.'' \<in> set n \<Longrightarrow> \<exists>s. removeFileSuffix n = Ret s"
  by (metis append_Cons append_Nil removeFileSuffix_path split_list_last)

lemma extractFileBasename_dot: "CHR ''.'' \<in> set n \<Longrightarrow> \<exists>s. extractFileBasename n = Ret s"
  using removeFileSuffix_dot [of n] unfolding removeFileSuffix_def extractFileBasename_def
  by (auto simp: Let_def split: option.splits)

lemma proto_includes_dot: "(\<And>n. n \<in> set ns \<Longrightarrow> CHR ''.'' \<in> set n) \<Longrightarrow> \<exists>s. proto_includes ns = Ret s"
proof (induction ns)
  case (Cons n ns)
  then show ?case using removeFileSuffix_dot [of n] by auto
qed simp

lemma GenerateMessages_ok:
  assumes "CHR ''.'' \<in> set (file_name file)" "\<And>f. f \<in> set (dependencies file) \<Longrightarrow> CHR ''.'' \<in> set (file_name (files P f))"
    and plain: "\<And>m. m \<in> set (message_types file) \<Longrightarrow> \<not> mGenerateComments g \<or> plain_comments m"
  shows "\<exists>fs. GenerateMessages P g order file = Ret fs \<and> (\<forall>(n, cs) \<in> set fs. accepted_calls cs)"
proof (cases "message_types file = [] \<and> enum_types file = []")
  case False
  obtain name where "extractFileBasename (file_name file) = Ret name"
    using extractFileBasename_dot assms(1) by blast
  moreover have "\<exists>s. proto_includes (filter Q (map (\<lambda>f. file_name (files P f)) (dependencies file))) = Ret s" for Q
    by (rule proto_includes_dot) (use assms(2) in auto)
  then obtain deps where "proto_includes (filter (\<lambda>n. n \<noteq> ''QtProtobuf/QtCore.proto'' \<and> n \<noteq> ''QtProtobuf/QtGui.proto'')
      (map (\<lambda>f. file_name (files P f)) (dependencies file))) = Ret deps"
    by blast
  ultimately show ?thesis
    using False class_declaration_ok [OF plain] class_definition_ok enum_printers_ok
    by (auto simp: GenerateMessages_def Let_def template_facts intro!: accepted_neutral)
qed (simp add: GenerateMessages_def)

lemma GenerateServices_ok:
  assumes "CHR ''.'' \<in> set (file_name file)" "\<And>n. n \<in> set (foreign_types P file) \<Longrightarrow> CHR ''.'' \<in> set n"
  shows "\<exists>fs. GenerateServices P g order file = Ret fs \<and> (\<forall>(n, cs) \<in> set fs. accepted_calls cs)"
proof (cases "services file = []")
  case False
  obtain name where "extractFileBasename (file_name file) = Ret name"
    using extractFileBasename_dot assms(1) by blast
  moreover obtain deps where "proto_includes (foreign_types P file) = Ret deps"
    using proto_includes_dot assms(2) by blast
  ultimately show ?thesis
    using False client_printers_ok
    by (auto simp: GenerateServices_def Let_def template_facts intro!: accepted_neutral)
qed (simp add: GenerateServices_def)

text \<open>
  C3. For a file of proto3 the single-file generator succeeds, whatever its messages, enumerations and services are,
  as long as file names have a suffix: in every file it writes, each variable of each template has a value, every
  block that is opened is closed and the indentation ends where it began. Comments that are copied must be free of
  dollar signs and braces. A file of another syntax is refused with an error.
\<close>

theorem single_generate_accepted:
  assumes "\<And>n. n \<in> {file_name file} \<union> set (map (\<lambda>f. file_name (files P f)) (dependencies file)) \<union> set (foreign_types P file)
      \<Longrightarrow> CHR ''.'' \<in> set n"
    and "\<And>m. m \<in> set (message_types file) \<Longrightarrow> \<not> mGenerateComments g \<or> plain_comments m"
  shows "\<exists>fs. single_Generate P g order file = Ret (syntax_proto3 file, fs) \<and> (\<forall>(n, cs) \<in> set fs. accepted_calls cs)"
proof (cases "syntax_proto3 file")
  case True
  have "\<exists>fs. GenerateMessages P g order file = Ret fs \<and> (\<forall>(n, cs) \<in> set fs. accepted_calls cs)"
    by (rule GenerateMessages_ok) (use assms in auto)
  moreover have "\<exists>fs. GenerateServices P g order file = Ret fs \<and> (\<forall>(n, cs) \<in> set fs. accepted_calls cs)"
    by (rule GenerateServices_ok) (use assms in auto)
  ultimately show ?thesis using True by (auto simp: single_Generate_def)
qed (simp add: single_Generate_def)

theorem single_generate_accepted_witness:
  "\<exists>fs. single_Generate demo_pool demo_options (\<lambda>_. []) demo_file = Ret (syntax_proto3 demo_file, fs)
     \<and> (\<forall>(n, cs) \<in> set fs. accepted_calls cs)"
  by (rule single_generate_accepted) (auto simp: demo_defs foreign_types_def plain_text_def)

subsection \<open>Comments with a dollar sign\<close>

lemma scan_vars_odd:
  "scan_vars None s = None \<longleftrightarrow> odd (count_list s (CHR ''$''))"
  "scan_vars (Some n) s = None \<longleftrightarrow> even (count_list s (CHR ''$''))"
  by (induction s arbitrary: n) auto

lemma count_list_notin: "x \<notin> set xs \<Longrightarrow> count_list xs x = 0"
  by (induction xs) auto

lemma count_trim: "count_list (trim s) (CHR ''$'') = count_list s (CHR ''$'')"
proof -
  obtain pre post where "s = pre @ trim s @ post" "set pre \<subseteq> set whitespace" "set post \<subseteq> set whitespace"
    by (rule trim_strips)
  moreover have "CHR ''$'' \<notin> set whitespace" by (simp add: whitespace_def)
  ultimately have "count_list pre (CHR ''$'') = 0" "count_list post (CHR ''$'') = 0" by (auto intro!: count_list_notin)
  with \<open>s = pre @ trim s @ post\<close> show ?thesis by (metis add_0 add_0_right count_list_append)
qed

lemma count_replaced:
  "count_list (replaced s newline (newline @ '' *'')) (CHR ''$'') = count_list s (CHR ''$'')"
  unfolding replaced_newline by (induction s) (auto simp: newline_def)

lemma c_str_id: "CHR 0x00 \<notin> set s \<Longrightarrow> c_str s = s"
  by (auto simp: c_str_def takeWhile_eq_all_conv)

lemma printComments_odd:
  assumes "mGenerateComments g" "CHR 0x00 \<notin> set s" "odd (count_list s (CHR ''$''))"
  shows "\<not> closed_calls (printComments g s)"
proof -
  let ?t = "comment_text (trim s)"
  have "trim s \<noteq> []" using assms(3) count_trim [of s] by auto
  have zero: "CHR 0x00 \<notin> set ?t"
    using assms(2) set_trim [of s] by (auto simp: comment_text_def newline_def)
  then have zero': "CHR 0x00 \<notin> set (replaced ?t newline (newline @ '' *''))"
    using set_replaced [of newline ?t "newline @ '' *''"] by (auto simp: newline_def)
  have "count_list ?t (CHR ''$'') = count_list s (CHR ''$'')"
    using count_trim by (simp add: comment_text_def newline_def)
  then have "\<not> closed_call (Print Map.empty (c_str ?t))"
    "\<not> closed_call (Print Map.empty (c_str (replaced ?t newline (newline @ '' *''))))"
    unfolding c_str_id [OF zero] c_str_id [OF zero'] closed_call.simps template_vars_def
    using assms(3) scan_vars_odd(1) [of ?t] scan_vars_odd(1) [of "replaced ?t newline (newline @ '' *'')"]
    by (auto simp: count_replaced split: option.split)
  then show ?thesis
    using assms(1) \<open>trim s \<noteq> []\<close> unfolding printComments_def Let_def by auto
qed

text \<open>
  A comment is printed as a template: with an odd number of dollar signs in the comment of a message, and copying
  of comments turned on, the declaration of the class makes a call the library refuses.
\<close>

theorem comment_dollar_refused:
  assumes "mGenerateComments g" "CHR 0x00 \<notin> set (d_comments d)" "odd (count_list (d_comments d) (CHR ''$''))"
  shows "\<not> closed_calls (printClassDeclaration P g d)"
  using printComments_odd [OF assms]
  by (simp add: printClassDeclaration_def printClassDeclarationPrivate.simps [of P g d])

theorem comment_dollar_refused_witness:
  "\<not> closed_calls (printClassDeclaration demo_pool demo_options
       (MessageDescriptor 5 ''Price'' ''demo.Price'' 0 None [] [] [] ''In $.''))"
  by (rule comment_dollar_refused) (simp_all add: demo_options_def)

subsection \<open>Properties, fields and classes\<close>

text \<open>
  C4. The table the serializer works with agrees with the class it is made for. The entry of the i-th field carries
  its number, the index i and its JSON name, and the property with index i of the class, counted after
  \<open>objectName\<close>, is the property of that field; the extra properties for QML come behind all of them.
\<close>

theorem property_table_matches:
  "ordering_entries (printFieldsOrdering P g d)
     = map (\<lambda>(i, f). (to_string (field_number f), to_string (int i), json_name f)) (zip [1..<Suc (length (d_fields d))] (d_fields d))
   \<and> map (\<lambda>i. (''objectName'' # declared PropertyText ''property_name'' (printClassBody P g d)) ! i)
       [1..<Suc (length (d_fields d))] = map propertyName (d_fields d)"
  by (auto simp: printFieldsOrdering_entries printClassBody_declared nth_append add.commute intro!: nth_equalityI [where 'a = string] nth_equalityI [where 'a = "string \<times> string \<times> string"] simp del: upt_Suc)

text \<open>
  C17. The classes the header declares for a message are those the source file defines, in the same order: the
  nested messages that are visited, innermost first, and the message itself.
\<close>

theorem declared_classes_defined:
  "declared ClassText ''classname'' (printClassDeclarationPrivate P g d) = generated_classes d
   \<and> declared RegistrarText ''classname'' (printClassDefinitionPrivate P g d) = generated_classes d
   \<and> generated_classes demo_point = [''Tag'', ''Point'']"
proof -
  have "generated_classes demo_tag = [''Tag'']"
    by (subst generated_classes.simps) (simp add: iterateNestedMessages_def demo_tag_def toupper_def)
  then have "generated_classes demo_point = [''Tag'', ''Point'']"
    by (simp add: generated_classes.simps [of demo_point] iterateNestedMessages_def)
      (simp add: demo_defs message_type_def toupper_def)
  then show ?thesis by (simp add: declared_classes defined_classes)
qed

lemma uses_nested_iff: "uses_nested n fs \<longleftrightarrow> (\<exists>f \<in> set fs. \<not> is_map f \<and> message_type f = Some (d_id n))"
  by (induction fs) (simp_all, blast)

text \<open>
  A message nested in one that has fields, none of them of its type, is nested for the naming of types and
  yet not visited: no class is made for it, although a field of another message may refer to it.
\<close>

theorem unused_nested_not_generated:
  assumes "msg P (d_id d) = d" "n \<in> set (nested_types d)" "containing_type n = Some (d_id d)" "d_fields d \<noteq> []"
    and "\<And>f. f \<in> set (d_fields d) \<Longrightarrow> message_type f \<noteq> Some (d_id n)"
  shows "isNested P n \<and> n \<notin> set (iterateNestedMessages d (\<lambda>m. [m]))"
proof -
  have "find (\<lambda>f. message_type f = Some (d_id n)) (d_fields d) = None"
    using assms(5) by (simp add: find_None_iff)
  then have "isNested P n" using assms(1,3) by (simp add: isNested_def)
  moreover have "n \<notin> set (iterateNestedMessages d (\<lambda>m. [m]))"
    using assms(4,5) by (auto simp: iterateNestedMessages_def uses_nested_iff)
  ultimately show ?thesis ..
qed

theorem unused_nested_not_generated_witness:
  "isNested demo_pool demo_unused \<and> demo_unused \<notin> set (iterateNestedMessages demo_point (\<lambda>m. [m]))"
  by (rule unused_nested_not_generated) (auto simp: demo_defs message_type_def)

subsection \<open>Names of types\<close>

lemma getNamespaces_join:
  assumes "\<And>p. p \<in> set (ns @ [name]) \<Longrightarrow> p \<noteq> [] \<and> CHR ''.'' \<notin> set p"
  shows "split (getNamespacesString (ns @ [name]) ''.'') (CHR ''.'') = ns @ [name]"
    and "getNamespaces (getNamespacesString (ns @ [name]) ''.'') = ns"
proof -
  show "split (getNamespacesString (ns @ [name]) ''.'') (CHR ''.'') = ns @ [name]"
    using assms by (intro split_join) auto
  then show "getNamespaces (getNamespacesString (ns @ [name]) ''.'') = ns"
    by (simp add: getNamespaces_def)
qed

lemma qualify_join:
  assumes "\<And>p. p \<in> set ns \<Longrightarrow> p \<noteq> []"
  shows "qualify (getNamespacesString ns ''::'') name = getNamespacesString (ns @ [name]) ''::''"
  using assms by (cases "ns = []") (auto simp: qualify_def getNamespacesString_snoc getNamespacesString_Nil_iff)

lemma replaced_join:
  assumes "\<And>p. p \<in> set (ns @ [name]) \<Longrightarrow> p \<noteq> [] \<and> CHR ''.'' \<notin> set p"
  shows "replaced (getNamespacesString (ns @ [name]) ''.'') ''.'' ''::'' = getNamespacesString (ns @ [name]) ''::''"
proof -
  have "name \<noteq> []" "CHR ''.'' \<notin> set name" using assms [of name] by auto
  then have "name \<noteq> [] \<and> last name \<noteq> CHR ''.''" by (metis last_in_set)
  then have "last (getNamespacesString (ns @ [name]) ''.'') \<noteq> CHR ''.''"
    by (cases "ns = []") (auto simp: getNamespacesString_snoc)
  then have "replace (getNamespacesString (ns @ [name]) ''.'') [CHR ''.''] ''::''
      = Some (getNamespacesString (split (getNamespacesString (ns @ [name]) ''.'') (CHR ''.'')) ''::'')"
    by (intro replace_char_join) simp
  with getNamespaces_join(1) [OF assms] show ?thesis by (simp add: replaced_def)
qed

lemma join_inject: "getNamespacesString (ns @ [a]) sep = getNamespacesString (ns @ [b]) sep \<longleftrightarrow> a = b"
  by (cases "ns = []") (auto simp: getNamespacesString_snoc)

text \<open>
  The class the methods of a client take as their argument is the class that is generated for the message
  exactly when the name of the message begins with a capital letter: the class is capitalised, the type in the
  methods is not.
\<close>

theorem client_type_generated:
  assumes "m = msg P (input_type method)" "d_full_name m = getNamespacesString (ns @ [d_name m]) ''.''"
    and "\<And>p. p \<in> set (ns @ [d_name m]) \<Longrightarrow> p \<noteq> [] \<and> CHR ''.'' \<notin> set p" and "mExtraNamespace g = []"
  shows "at (produceMethodMap P method scope) ''param_type'' = at (produceMessageTypeMap P g m None) ''full_type''
    \<longleftrightarrow> upperCaseName (d_name m) = d_name m"
proof -
  have "at (produceMethodMap P method scope) ''param_type'' = getNamespacesString (ns @ [d_name m]) ''::''"
    using assms(1,2) replaced_join [OF assms(3)] by (simp add: produceMethodMap_def at_def Let_def)
  moreover have "at (produceMessageTypeMap P g m None) ''full_type'' = getNamespacesString (ns @ [upperCaseName (d_name m)]) ''::''"
    using assms(2,4) getNamespaces_join(2) [OF assms(3)] assms(3)
    by (simp add: produceMessageTypeMap_def at_def Let_def add_extra_def qualify_join)
  ultimately show ?thesis by (auto simp: join_inject)
qed

theorem client_type_generated_witness:
  "at (produceMethodMap demo_pool \<lparr>m_name = ''get'', input_type = 1, output_type = 0, server_streaming = False\<rparr> []) ''param_type''
     = at (produceMessageTypeMap demo_pool demo_options demo_tag None) ''full_type'' \<longleftrightarrow> upperCaseName (d_name demo_tag) = d_name demo_tag"
  by (rule client_type_generated [where ns = "[''demo'', ''Point'']"]) (auto simp: demo_defs)

subsection \<open>Lists for QML\<close>

definition qml_list :: "FieldDescriptor \<Rightarrow> bool" where
  "qml_list f \<longleftrightarrow> is_message f \<and> is_repeated f \<and> \<not> is_map f"

lemma concat_map_Nil [simp]: "concat (map (\<lambda>x. []) xs) = []"
  by (induction xs) simp_all

lemma concat_filter: "concat (map (\<lambda>x. if Q x then [h x] else []) xs) = map h (filter Q xs)"
  by (induction xs) auto

text \<open>
  With QML turned on, the header declares a list getter for every field that repeats a message; the source file
  defines it only for those whose type is not one of the Qt types. A repeated Qt type leaves its getter undefined.
\<close>

theorem qml_getters_declared_defined:
  "declared QmlListText ''property_name'' (decl_printGetters P g d)
     = (if mHasQml g then map propertyName (filter qml_list (d_fields d)) else [])
   \<and> declared QmlListText ''property_name'' (def_printGetters P g d)
     = (if mHasQml g then map propertyName (filter (\<lambda>f. qml_list f \<and> \<not> isQtType P f) (d_fields d)) else [])"
proof -
  have "declared QmlListText ''property_name'' (decl_printGetters P g d)
    = concat (map (\<lambda>f. if mHasQml g \<and> qml_list f then [propertyName f] else []) (d_fields d))"
    by (auto simp: decl_printGetters_def declared_fields template_facts qml_list_def intro!: arg_cong [where f = concat])
  moreover have "declared QmlListText ''property_name'' (def_printGetters P g d)
    = concat (map (\<lambda>f. if mHasQml g \<and> qml_list f \<and> \<not> isQtType P f then [propertyName f] else []) (d_fields d))"
    by (auto simp: def_printGetters_def declared_fields template_facts qml_list_def intro!: arg_cong [where f = concat]
        split: field_type.split)
  ultimately show ?thesis by (cases "mHasQml g") (simp_all add: concat_filter)
qed

subsection \<open>Includes of the multi-file generator\<close>

definition included :: "print_call list \<Rightarrow> string list" where
  "included cs = concat (map (\<lambda>c. case c of Print vars t \<Rightarrow> [at vars ''include''] | _ \<Rightarrow> []) cs)"

definition adds_includes :: "string set \<Rightarrow> print_call list \<times> string set \<Rightarrow> bool" where
  "adds_includes existing r \<longleftrightarrow>
     existing \<subseteq> snd r \<and> set (included (fst r)) = snd r - existing \<and> distinct (included (fst r))"

lemma adds_trans:
  "adds_includes a (cs, b) \<Longrightarrow> adds_includes b (cs', c) \<Longrightarrow> adds_includes a (cs @ cs', c)"
  by (auto simp: adds_includes_def included_def)

lemma add_include_adds: "adds_includes existing (add_include inc existing)"
  by (auto simp: adds_includes_def add_include_def included_def print_def at_def split: option.split)

lemma printInclude_adds: "printInclude P d f existing = Ret r \<Longrightarrow> adds_includes existing r"
proof (induction P d f existing arbitrary: r rule: printInclude.induct)
  case (1 P d cn jn n t rp fl cm k v existing)
  from 1(3) obtain cs1 e1 cs2 e2 inc cs3 e3 where k: "printInclude P d k existing = Ret (cs1, e1)"
    and v: "printInclude P d v e1 = Ret (cs2, e2)" and inc: "add_include inc e2 = (cs3, e3)" and r: "r = (cs1 @ cs2 @ cs3, e3)"
    by (auto simp: and_then_Ret_iff split: prod.splits) (metis prod.collapse)
  from v have "adds_includes e1 (cs2, e2)" using 1(2) [OF k refl] by blast
  moreover have "adds_includes e2 (cs3, e3)" using add_include_adds [of e2 inc] inc by simp
  ultimately show ?case unfolding r using 1(1) [OF k] by (auto intro: adds_trans)
next
  case 2
  then show ?case using add_include_adds by (auto simp: and_then_Ret_iff)
qed

lemma printIncludes_of_adds: "printIncludes_of P d fs existing = Ret r \<Longrightarrow> adds_includes existing r"
proof (induction P d fs existing arbitrary: r rule: printIncludes_of.induct)
  case (1 P d existing)
  then show ?case by (auto simp: adds_includes_def included_def)
next
  case (2 P d f fs existing)
  then obtain cs e cs' e' where "printInclude P d f existing = Ret (cs, e)" "adds_includes e (cs', e')" "r = (cs @ cs', e')"
    by (auto simp: and_then_Ret_iff)
  then show ?case using printInclude_adds adds_trans by blast
qed

text \<open>
  The header of a message includes each file its fields ask for once: what is printed for the fields is a list
  without repetitions of exactly the names that were new.
\<close>

theorem includes_printed_once:
  assumes "printIncludes_of P d fs existing = Ret (cs, existing')"
  shows "existing \<subseteq> existing' \<and> set (included cs) = existing' - existing \<and> distinct (included cs)"
  using printIncludes_of_adds [OF assms] by (simp add: adds_includes_def)

theorem includes_printed_once_witness:
  "{} \<subseteq> {''QString'', ''QByteArray''} \<and> set (included (print [''include'' \<mapsto> ''QString''] ExternalIncludeTemplate
       @ print [''include'' \<mapsto> ''QByteArray''] ExternalIncludeTemplate)) = {''QString'', ''QByteArray''} - {}
   \<and> distinct (included (print [''include'' \<mapsto> ''QString''] ExternalIncludeTemplate
       @ print [''include'' \<mapsto> ''QByteArray''] ExternalIncludeTemplate))"
  by (rule includes_printed_once [of demo_pool demo_tag
        "[plain_field ''a'' 1 TYPE_STRING, plain_field ''b'' 2 TYPE_BYTES, plain_field ''c'' 3 TYPE_STRING]"])
    (auto simp: plain_field_def field_include_def add_include_def print_def)

text \<open>
  A field whose type is a message nested in its own leaves the empty name among the includes, and the include of
  global enumerations has the empty name too: behind such a field it is not printed, in front of it it is.
\<close>

theorem global_enum_include_lost:
  assumes "map_entry f = None" "f_type f = TYPE_MESSAGE m" "\<not> isQtType P f" "isNested P (msg P m)" "isNestedOf (msg P m) d"
    and "map_entry h = None" "f_type h = TYPE_ENUM e" "enumVisibility P e (Some d) = GLOBAL_ENUM"
  shows "printIncludes_of P d [f, h] {} = Ret ([Print [''include'' \<mapsto> []] []], {[]})
    \<and> printIncludes_of P d [h, f] {} = Ret ([Print [''include'' \<mapsto> []] GlobalEnumIncludeTemplate], {[]})"
proof -
  have "field_include P d f = Ret (Some ([], []))" "field_include P d h = Ret (Some ([], GlobalEnumIncludeTemplate))"
    using assms by (simp_all add: field_include_def)
  then have "printInclude P d f X = Ret (add_include (Some ([], [])) X)"
    "printInclude P d h X = Ret (add_include (Some ([], GlobalEnumIncludeTemplate)) X)" for X
    using assms(1,6) by (cases f; cases h; simp)+
  then show ?thesis by (simp add: add_include_def print_def)
qed

theorem global_enum_include_lost_witness:
  "printIncludes_of demo_pool demo_point [plain_field ''tag'' 4 (TYPE_MESSAGE 1), plain_field ''color'' 7 (TYPE_ENUM demo_color)] {}
     = Ret ([Print [''include'' \<mapsto> []] []], {[]})
   \<and> printIncludes_of demo_pool demo_point [plain_field ''color'' 7 (TYPE_ENUM demo_color), plain_field ''tag'' 4 (TYPE_MESSAGE 1)] {}
     = Ret ([Print [''include'' \<mapsto> []] GlobalEnumIncludeTemplate], {[]})"
  by (rule global_enum_include_lost [where m = 1 and e = demo_color])
    (simp_all add: demo_defs isQtType_def isNested_def isNestedOf_def message_type_def getNamespaces_opt_def getNamespaces_def
      split_def enumVisibility_def isLocalEnum_def)

subsection \<open>The multi-file generator succeeds\<close>

lemma findHighestMessage_returns:
  fixes rank :: "msg_id \<Rightarrow> nat"
  assumes "\<And>i p. containing_type (msg P i) = Some p \<Longrightarrow> rank p < rank i"
  shows "\<exists>top. findHighestMessage P (msg P i) = Some top \<and> containing_type top = None"
proof (induction "rank i" arbitrary: i rule: less_induct)
  case less
  then show ?case
    using assms [of i] by (cases "containing_type (msg P i)") (auto simp: findHighestMessage.simps [of P "msg P i"])
qed

lemma enumVisibility_neighbor:
  assumes "enumVisibility P e scope = NEIGHBOR_ENUM"
  shows "\<exists>m e'. m \<in> set (message_types (files P (e_file e))) \<and> e' \<in> set (d_enums m) \<and> e_full_name e' = e_full_name e"
  using assms by (simp add: enumVisibility_def list_ex_iff split: if_splits) metis

lemma field_include_returns:
  fixes rank :: "msg_id \<Rightarrow> nat"
  assumes "\<And>i p. containing_type (msg P i) = Some p \<Longrightarrow> rank p < rank i"
    and "\<And>fl m e. m \<in> set (message_types (files P fl)) \<Longrightarrow> e \<in> set (d_enums m) \<Longrightarrow> 2 \<le> length (split (e_full_name e) (CHR ''.''))"
  shows "\<exists>r. field_include P d f = Ret r"
proof -
  have parts: "\<not> length (split (e_full_name e) (CHR ''.'')) < 2" if "enumVisibility P e (Some d) = NEIGHBOR_ENUM" for e
    using enumVisibility_neighbor [OF that] assms(2) by fastforce
  have top: "findHighestMessage P (msg P i) \<noteq> None" for i
    using findHighestMessage_returns [of P rank i] assms(1) by auto
  show ?thesis
    by (cases "f_type f") (auto simp: field_include_def Let_def top parts split: EnumVisibility.split option.split)
qed

text \<open>Includes are accepted as well: a text with the empty template refers to no variable.\<close>

lemma empty_template [template_facts]: "template_vars [] = Some []" "template_braces [] = 0"
  by (simp_all add: template_vars_def)

lemma field_include_template:
  "field_include P d f = Ret (Some (n, t)) \<Longrightarrow>
     t \<in> {[], ExternalIncludeTemplate, InternalIncludeTemplate, GlobalEnumIncludeTemplate}"
  by (cases "f_type f")
    (auto simp: field_include_def Let_def split: if_splits option.splits EnumVisibility.splits)

lemma add_include_ok:
  assumes "\<And>n t. inc = Some (n, t) \<Longrightarrow> t \<in> {[], ExternalIncludeTemplate, InternalIncludeTemplate, GlobalEnumIncludeTemplate}"
  shows "neutral (fst (add_include inc ex)) \<and> closed_calls (fst (add_include inc ex))"
  using assms by (cases inc) (auto simp: add_include_def template_facts)

lemma printInclude_ok:
  "printInclude P d f ex = Ret r \<Longrightarrow> neutral (fst r) \<and> closed_calls (fst r)"
proof (induction P d f ex arbitrary: r rule: printInclude.induct)
  case (1 P d cn jn n t rp fl cm k v ex)
  let ?f = "Field cn jn n t rp fl cm (Some (k, v))"
  from 1(3) obtain cs1 e1 cs2 e2 inc where k: "printInclude P d k ex = Ret (cs1, e1)"
    and v: "printInclude P d v e1 = Ret (cs2, e2)" and inc: "field_include P d ?f = Ret inc"
    and r: "fst r = cs1 @ cs2 @ fst (add_include inc e2)"
    by (auto simp: and_then_Ret_iff split: prod.splits) (metis fst_conv prod.collapse)
  moreover have "neutral (fst (add_include inc e2)) \<and> closed_calls (fst (add_include inc e2))"
    using inc by (intro add_include_ok field_include_template) simp
  ultimately show ?case using 1(1) [OF k] 1(2) [OF k refl v] by simp
next
  case (2 P d cn jn n t rp fl cm ex)
  then obtain inc where "field_include P d (Field cn jn n t rp fl cm None) = Ret inc" "r = add_include inc ex"
    by (auto simp: and_then_Ret_iff)
  then show ?case using add_include_ok [of inc ex] field_include_template by blast
qed

lemma printInclude_returns:
  assumes "\<And>f. \<exists>r. field_include P d f = Ret r"
  shows "\<exists>r. printInclude P d f ex = Ret r"
proof -
  have "\<forall>ex. \<exists>r. printInclude P d f ex = Ret r" for f
  proof (induction f)
    case (Field cn jn n t rp fl cm entry)
    have inc: "\<exists>r. field_include P d (Field cn jn n t rp fl cm e) = Ret r" for e
      using assms by blast
    show ?case
    proof (cases entry)
      case None
      then show ?thesis using inc [of None] by auto
    next
      case (Some kv)
      obtain k v where kv: "kv = (k, v)" by (cases kv)
      with Some Field have "\<forall>ex. \<exists>r. printInclude P d k ex = Ret r" "\<forall>ex. \<exists>r. printInclude P d v ex = Ret r" by auto
      then obtain rk rv ri where "printInclude P d k ex = Ret (rk ex)"
        "printInclude P d v ex = Ret (rv ex)" "field_include P d (Field cn jn n t rp fl cm entry) = Ret ri" for ex
        using inc [of entry] by metis
      then show ?thesis unfolding Some kv by (auto simp: case_prod_beta Let_def)
    qed
  qed
  then show ?thesis by blast
qed

lemma printIncludes_of_ok:
  assumes "\<And>f. \<exists>r. field_include P d f = Ret r"
  shows "\<exists>cs ex'. printIncludes_of P d fs ex = Ret (cs, ex') \<and> neutral cs \<and> closed_calls cs"
proof (induction fs arbitrary: ex)
  case (Cons f fs)
  obtain cs e where "printInclude P d f ex = Ret (cs, e)" using printInclude_returns [OF assms] by (metis prod.collapse)
  with printInclude_ok [of P d f ex "(cs, e)"] Cons [of e] show ?case by auto
qed simp

lemma print_dependencies_ok:
  assumes "\<And>i. \<exists>top. findHighestMessage P (msg P i) = Some top" and "\<And>x. x \<in> set ds \<Longrightarrow> \<exists>i. x = msg P i"
  shows "\<exists>cs. print_dependencies P d ds ex = Ret cs \<and> neutral cs \<and> closed_calls cs"
  using assms(2)
proof (induction ds arbitrary: ex)
  case (Cons x ds)
  then obtain top where top: "findHighestMessage P x = Some top" using assms(1) by force
  let ?inc = "Some (package_path P (d_file x) d @ tolower (d_name top), InternalIncludeTemplate)"
  have "neutral (fst (add_include ?inc ex)) \<and> closed_calls (fst (add_include ?inc ex))"
    by (intro add_include_ok) simp
  moreover obtain cs' where "print_dependencies P d ds (snd (add_include ?inc ex)) = Ret cs'" "neutral cs'" "closed_calls cs'"
    using Cons by force
  ultimately show ?case using top by (simp add: Let_def case_prod_beta)
qed simp

lemma pure_dependencies_msg: "x \<in> set (pure_dependencies P d) \<Longrightarrow> \<exists>i. x = msg P i"
  by (auto simp: pure_dependencies_def split: field_type.splits if_splits)

lemma nested_dependency_msg: "x \<in> set (findNestedDependency P d) \<Longrightarrow> \<exists>i. x = msg P i"
proof (induction P d rule: findNestedDependency.induct)
  case (1 P d)
  then show ?case
    by (subst (asm) (2) findNestedDependency.simps)
      (auto simp: iterateNestedMessages_def dest: pure_dependencies_msg split: if_splits)
qed

lemma forward_declare_ok [simp]: "neutral (forward_declare P d x)" "closed_calls (forward_declare P d x)"
proof -
  have opened: "run_calls (b, i) (base_printNamespaces nss) = Some (b + length nss, i)" for b i nss
  proof -
    have "run_calls (b, i) (concat (map (\<lambda>ns. print [''namespace'' \<mapsto> ns] NamespaceTemplate) nss)) = Some (b + length nss, i)" for b
      by (induction nss arbitrary: b) (simp_all add: run_append template_facts)
    then show ?thesis by (simp add: base_printNamespaces_def printer_run)
  qed
  have closed: "run_calls (b + n, i) (concat (map (\<lambda>k. print_text SimpleBlockEnclosureTemplate) [0..<n])) = Some (b, i)" for b i n
    by (induction n arbitrary: b) (simp_all add: run_append template_facts flip: add_Suc)
  show "neutral (forward_declare P d x)"
    by (rule neutralI) (simp add: forward_declare_def printer_run opened closed)
  show "closed_calls (forward_declare P d x)"
    by (simp add: forward_declare_def base_printNamespaces_def template_facts Let_def)
qed

lemma multi_message_ok:
  fixes rank :: "msg_id \<Rightarrow> nat"
  assumes rank: "\<And>i p. containing_type (msg P i) = Some p \<Longrightarrow> rank p < rank i"
    and enums: "\<And>fl m e. m \<in> set (message_types (files P fl)) \<Longrightarrow> e \<in> set (d_enums m) \<Longrightarrow> 2 \<le> length (split (e_full_name e) (CHR ''.''))"
    and plain: "\<not> mGenerateComments g \<or> plain_comments d"
  shows "\<exists>fs. multi_message P g file d = Ret fs \<and> (\<forall>(n, cs) \<in> set fs. accepted_calls cs)"
proof -
  have "\<exists>r. field_include P d f = Ret r" for f
    by (rule field_include_returns [of P rank]) (fact rank enums)+
  from printIncludes_of_ok [OF this] obtain cs ex where
    inc: "printIncludes_of P d (d_fields d) {} = Ret (cs, ex)" "neutral cs" "closed_calls cs" by blast
  have "\<exists>top. findHighestMessage P (msg P i) = Some top" for i
    using findHighestMessage_returns [of P rank i] rank by blast
  from print_dependencies_ok [OF this, of "findNestedDependency P d @ pure_dependencies P d" d ex]
  obtain cs' where "print_dependencies P d (findNestedDependency P d @ pure_dependencies P d) ex = Ret cs'"
    "neutral cs'" "closed_calls cs'"
    using nested_dependency_msg pure_dependencies_msg by fastforce
  with inc class_declaration_ok [OF plain, of P] class_definition_ok [of P g d] show ?thesis
    by (auto simp: multi_message_def Let_def template_facts intro!: accepted_neutral)
qed

lemma multi_messages_ok:
  assumes "\<And>d. d \<in> set ds \<Longrightarrow> \<exists>fs. multi_message P g file d = Ret fs \<and> (\<forall>(n, cs) \<in> set fs. accepted_calls cs)"
  shows "\<exists>fs. multi_messages P g file ds = Ret fs \<and> (\<forall>(n, cs) \<in> set fs. accepted_calls cs)"
  using assms
proof (induction ds)
  case (Cons d ds)
  then obtain fs fs' where "multi_message P g file d = Ret fs" "\<forall>(n, cs) \<in> set fs. accepted_calls cs"
    "multi_messages P g file ds = Ret fs'" "\<forall>(n, cs) \<in> set fs'. accepted_calls cs"
    by (metis list.set_intros)
  then show ?case by auto
qed simp

lemma multi_service_ok: "\<forall>(n, cs) \<in> set (multi_service P g order file service). accepted_calls cs"
proof -
  have "neutral (printIncludes P order service)" "closed_calls (printIncludes P order service)"
    "neutral (printClientIncludes order)" "closed_calls (printClientIncludes order)"
    "neutral printPreamble" "closed_calls printPreamble"
    by (simp_all add: printIncludes_def printClientIncludes_def printPreamble_def template_facts Let_def)
  with client_printers_ok show ?thesis
    by (auto simp: multi_service_def Let_def template_facts intro!: accepted_neutral)
qed

text \<open>
  C16. The multi-file generator, too, succeeds on a file of proto3 and makes only calls the library accepts: no loop
  up the containing messages runs for ever and no name of an owner is missing, provided that messages contain
  each other without a cycle and that enumerations declared in messages have a qualified name. Comments that are copied
  must be free of dollar signs and braces. A file of another syntax is refused with an error.
\<close>

theorem multi_generate_accepted:
  fixes rank :: "msg_id \<Rightarrow> nat"
  assumes "\<And>i p. containing_type (msg P i) = Some p \<Longrightarrow> rank p < rank i"
    and "\<And>fl m e. m \<in> set (message_types (files P fl)) \<Longrightarrow> e \<in> set (d_enums m) \<Longrightarrow> 2 \<le> length (split (e_full_name e) (CHR ''.''))"
    and "\<And>m. m \<in> set (message_types file) \<Longrightarrow> \<not> mGenerateComments g \<or> plain_comments m"
  shows "\<exists>fs. multi_Generate P g order file = Ret (syntax_proto3 file, fs) \<and> (\<forall>(n, cs) \<in> set fs. accepted_calls cs)"
proof (cases "syntax_proto3 file")
  case True
  have "\<exists>fs. multi_message P g file d = Ret fs \<and> (\<forall>(n, cs) \<in> set fs. accepted_calls cs)" if "d \<in> set (message_types file)" for d
    by (rule multi_message_ok [of P rank]) (fact assms(1) assms(2) assms(3) [OF that])+
  from multi_messages_ok [OF this] obtain fs where
    "multi_messages P g file (message_types file) = Ret fs" "\<forall>(n, cs) \<in> set fs. accepted_calls cs" by blast
  with True multi_service_ok show ?thesis by (fastforce simp: multi_Generate_def)
qed (simp add: multi_Generate_def)

theorem multi_generate_accepted_witness:
  "\<exists>fs. multi_Generate demo_pool demo_options (\<lambda>_. []) demo_file = Ret (syntax_proto3 demo_file, fs)
     \<and> (\<forall>(n, cs) \<in> set fs. accepted_calls cs)"
  by (rule multi_generate_accepted [where rank = "\<lambda>i. if i = 0 then 0 else 1"])
    (auto simp: demo_defs plain_text_def split: if_splits)

end
