(* ===== verification/GeneratedClasses.thy ===== *)
theory GeneratedClasses
  imports GeneratorResults WireProperties
begin

section \<open>Generated classes on the wire\<close>

text \<open>
  Where the generator and the serializer meet: the table \<open>propertyOrdering\<close> that \<open>printFieldsOrdering\<close> writes is the
  one \<open>serializeMessage\<close> and \<open>deserializeProperty\<close> look fields up in. \<open>table_read\<close> says that a meta object is what the
  compiler makes of the printed table. Qt counts the properties of a class from \<open>objectName\<close>; the model does not.
\<close>

text \<open>Numbers are printed without loss.\<close>

lemma nat_to_string_last: "last (nat_to_string n) = char_of (48 + n mod 10)" "nat_to_string n \<noteq> []"
  by (subst nat_to_string.simps; simp)+

lemma nat_to_string_butlast: "10 \<le> n \<Longrightarrow> butlast (nat_to_string n) = nat_to_string (n div 10)"
  by (subst nat_to_string.simps) (simp add: butlast_append)

lemma digit_eq: "(char_of (48 + i mod 10 :: nat) :: char) = char_of (48 + j mod 10 :: nat) \<longleftrightarrow> i mod 10 = j mod 10"
proof -
  have "of_char (char_of (48 + k mod 10 :: nat) :: char) = 48 + k mod 10" for k :: nat
    using mod_less_divisor [of 10 k] by simp
  then show ?thesis by (metis add_left_imp_eq)
qed

lemma nat_to_string_short: "length (nat_to_string n) = 1 \<longleftrightarrow> n < 10"
  using nat_to_string_last(2) [of "n div 10"] by (subst nat_to_string.simps) (cases "nat_to_string (n div 10)"; simp)

lemma nat_to_string_inject [simp]: "nat_to_string m = nat_to_string n \<longleftrightarrow> m = n"
proof
  show "nat_to_string m = nat_to_string n \<Longrightarrow> m = n"
  proof (induction m arbitrary: n rule: less_induct)
    case (less m)
    then have short: "m < 10 \<longleftrightarrow> n < 10" using nat_to_string_short by metis
    have ones: "m mod 10 = n mod 10"
      using less.prems digit_eq nat_to_string_last(1) by metis
    show ?case
    proof (cases "m < 10")
      case True
      then show ?thesis using short ones by simp
    next
      case False
      then have "nat_to_string (m div 10) = nat_to_string (n div 10)"
        using less.prems short nat_to_string_butlast by (metis not_less)
      then have "m div 10 = n div 10" using less.IH False by simp
      then show ?thesis using ones by (metis div_mod_decomp)
    qed
  qed
qed simp

lemma to_string_inject: "0 \<le> i \<Longrightarrow> 0 \<le> j \<Longrightarrow> to_string i = to_string j \<longleftrightarrow> i = j"
  by (simp add: to_string_def eq_nat_nat_iff)

text \<open>
  The fields of a message that the protobuf compiler accepts have different numbers below 2 to the 29. The meta object
  has one property for every field and the entries of the printed table, in any order.
\<close>

definition accepted_fields :: "Descriptor \<Rightarrow> bool" where
  "accepted_fields d \<longleftrightarrow> distinct (map field_number (d_fields d))
     \<and> (\<forall>f \<in> set (d_fields d). 0 < field_number f \<and> field_number f < 2 ^ 29)"

definition printed :: "int \<times> nat \<times> qstring \<Rightarrow> string \<times> string \<times> qstring" where
  "printed x = (case x of (n, p, j) \<Rightarrow> (to_string n, to_string (int p + 1), j))"

definition table_read :: "pool \<Rightarrow> generator_options \<Rightarrow> Descriptor \<Rightarrow> protobuf_metaobject \<Rightarrow> bool" where
  "table_read P g d M \<longleftrightarrow>
     length (staticMetaObject M) = length (d_fields d)
     \<and> distinct (propertyOrdering M) \<and> set (propertyOrdering M) \<subseteq> {x. 0 \<le> fst x}
     \<and> printed ` set (propertyOrdering M)
         = (\<lambda>(n, p, j). (n, p, qs j)) ` set (ordering_entries (printFieldsOrdering P g d))"

text \<open>A row of the table.\<close>

definition row :: "Descriptor \<Rightarrow> nat \<Rightarrow> int \<times> nat \<times> qstring" where
  "row d i = (field_number (d_fields d ! i), i, qs (json_name (d_fields d ! i)))"

lemma printed_inj: "inj_on printed {x. 0 \<le> fst x}"
  by (auto simp: inj_on_def printed_def to_string_inject split: prod.splits)

lemma row_sel: "fst (row d i) = field_number (d_fields d ! i)" "(\<lambda>(n, p, j). p) (row d i) = i"
  by (simp_all add: row_def)

lemma printed_entries:
  "(\<lambda>(n, p, j). (n, p, qs j)) ` set (ordering_entries (printFieldsOrdering P g d))
     = printed ` row d ` {..<length (d_fields d)}"
  by (auto simp: printFieldsOrdering_entries printed_def row_def image_image lessThan_atLeast0)

lemma row_nonneg: "accepted_fields d \<Longrightarrow> row d ` {..<length (d_fields d)} \<subseteq> {x. 0 \<le> fst x}"
  by (auto simp: accepted_fields_def row_def less_imp_le)

lemma table_rows:
  assumes "accepted_fields d"
  shows "table_read P g d M \<longleftrightarrow> length (staticMetaObject M) = length (d_fields d) \<and> distinct (propertyOrdering M)
    \<and> set (propertyOrdering M) = row d ` {..<length (d_fields d)}"
  unfolding table_read_def printed_entries
  using inj_on_image_eq_iff [OF printed_inj _ row_nonneg [OF assms], of "set (propertyOrdering M)"] row_nonneg [OF assms]
  by blast

text \<open>The class is well formed.\<close>

lemma generated_class_wf:
  assumes "table_read P g d M" "accepted_fields d"
  shows "wf_class M"
proof -
  note read = table_rows [OF assms(2), THEN iffD1, OF assms(1)]
  note rows = read [THEN conjunct2, THEN conjunct2]
  have len: "length (staticMetaObject M) = length (d_fields d)" and dist: "distinct (propertyOrdering M)"
    using read by simp_all
  have "inj_on (\<lambda>i. field_number (d_fields d ! i)) {..<length (d_fields d)}"
    using assms(2) by (auto simp: accepted_fields_def inj_on_def distinct_conv_nth)
  then have "distinct (map fst (propertyOrdering M))"
    using dist by (auto simp: distinct_map rows inj_on_def row_sel)
  moreover have "distinct (map (\<lambda>(n, p, j). p) (propertyOrdering M))"
    using dist by (auto simp: distinct_map rows inj_on_def row_sel)
  moreover have "\<forall>i \<in> set (map fst (propertyOrdering M)). 0 < i \<and> i < 2 ^ 29"
    using assms(2) by (auto simp: rows row_sel accepted_fields_def)
  moreover have "set (map (\<lambda>(n, p, j). p) (propertyOrdering M)) = set [0..<length (staticMetaObject M)]"
    by (simp add: rows image_image row_sel len lessThan_atLeast0)
  ultimately show ?thesis by (simp add: wf_class_def)
qed

text \<open>
  The classes of an environment are generated: class \<open>c\<close> from the message \<open>D c\<close>. A message is typed when its values
  have the types of the properties of their classes, down to the innermost messages.
\<close>

definition generated_env :: "pool \<Rightarrow> generator_options \<Rightarrow> (nat \<Rightarrow> Descriptor) \<Rightarrow> serializer_env \<Rightarrow> bool" where
  "generated_env P g D X \<longleftrightarrow> (\<forall>c. accepted_fields (D c) \<and> table_read P g (D c) (protobufMetaObject X c))"

fun typed_message :: "serializer_env \<Rightarrow> nat \<Rightarrow> nat \<Rightarrow> message \<Rightarrow> bool" where
  "typed_message X 0 c object \<longleftrightarrow> False"
| "typed_message X (Suc n) c object \<longleftrightarrow>
     (let ts = staticMetaObject (protobufMetaObject X c) in
      length (properties object) = length ts
      \<and> (\<forall>p \<in> set [0..<length ts]. wt_value X (typed_message X n) (ts ! p) (read_property X (ts ! p) (properties object ! p))))"

lemma typed_fits: "generated_env P g D X \<Longrightarrow> typed_message X n c m \<Longrightarrow> fits_message X n c m"
proof (induction n arbitrary: c m)
  case (Suc n)
  have "wf_class (protobufMetaObject X c)"
    using Suc.prems(1) generated_class_wf unfolding generated_env_def by blast
  then show ?case
    using Suc.prems(2) wt_value_mono [of "typed_message X n" "fits_message X n" X] Suc.IH [OF Suc.prems(1)]
    by (auto simp: Let_def)
qed simp

text \<open>
  C2. Messages of generated classes survive the wire: whatever the message descriptors of a schema are, as long as
  the fields of each message have different valid numbers, a typed message is serialized with the tables the
  generator prints for its classes, and deserializing the bytes with them gives the message that was sent.
\<close>

theorem generated_message_round_trip:
  assumes "generated_env P g D X" and "typed_message X n c m"
  shows "\<exists>bs. serialize X n c m = Ret bs \<and>
    (length bs < 2147483600 \<and> length bs < fuel \<longrightarrow>
       deserialize X fuel c object bs = (sent_message X n c m, Ret ()))"
  using fits_serialized [OF typed_fits [OF assms]] deserialize_serialized [OF _ fits_wt [OF typed_fits [OF assms]]]
  by blast

text \<open>The descriptors behind the sample schema.\<close>

definition sample_descriptor :: "nat \<Rightarrow> Descriptor" where
  "sample_descriptor c = MessageDescriptor c ''M'' ''m.M'' 0 None
     (map (\<lambda>n. Field ''f'' [] (int n) TYPE_INT32 False 0 [] None) [1..<(if c = 0 then 8 else 3)]) [] [] []"

lemma sample_rows:
  "set (propertyOrdering (sample_classes 0)) = set (map (row (sample_descriptor 0)) [0..<7])"
  "set (propertyOrdering (sample_classes 1)) = set (map (row (sample_descriptor 1)) [0..<2])"
  by code_simp+

lemma sample_generated: "generated_env P g sample_descriptor sample_env"
proof -
  have accepted: "accepted_fields (sample_descriptor c)" for c
    by (auto simp: accepted_fields_def sample_descriptor_def distinct_map inj_on_def)
  have other: "sample_classes c = sample_classes 1 \<and> row (sample_descriptor c) = row (sample_descriptor 1)" if "c \<noteq> 0" for c
    using that by (simp add: sample_classes_def row_def sample_descriptor_def fun_eq_iff)
  have "set (propertyOrdering (sample_classes c)) = row (sample_descriptor c) ` {..<if c = 0 then 7 else 2}" for c
    using sample_rows other [of c] by (cases "c = 0") (simp_all add: lessThan_atLeast0)
  then have "table_read P g (sample_descriptor c) (sample_classes c)" for c
    unfolding table_rows [OF accepted] by (simp add: sample_descriptor_def) (simp add: sample_classes_def)
  then show ?thesis using accepted by (simp add: generated_env_def sample_env_def)
qed

lemma sample_typed: "typed_message sample_env 2 0 sample_message"
  by code_simp

theorem generated_message_round_trip_witness:
  "deserialize sample_env 34 0 (Message []) sample_bytes = (sent_message sample_env 2 0 sample_message, Ret ())"
  using generated_message_round_trip [OF sample_generated [of undefined undefined] sample_typed, of 34 "Message []"]
    sample_serialized by (simp add: length_sample)

end
