(* ===== verification/MessagePointers.thy ===== *)
theory MessagePointers
  imports QtPrelude
begin

section \<open>Pointers to messages\<close>

text \<open>
  \<open>QProtobufLazyMessagePointer\<close> (\<open>qprotobuflazymessagepointer.h\<close>), the member of a generated class for a
  singular message field, and \<open>repeatedValueCompare\<close> (\<open>qtprotobuftypes.h\<close>), the comparison of its lists and
  maps of messages.

  A lazy pointer owns its object unless the QML engine does: the engine may destroy such an object at any time,
  and the pointer is told by the signal \<open>destroyed\<close>. \<open>objects\<close> are the objects that exist, \<open>js_owned\<close> those the
  engine owns, \<open>slots\<close> the lazy pointers that exist. \<open>m_destroyed\<close> is the object whose \<open>destroyed\<close> is connected
  to the lambda of the pointer. \<open>qml\<close> stands for \<open>QT_QML_LIB\<close>, \<open>dflt\<close> for a new \<open>T\<close>.
\<close>

record lazy_ptr =
  m_ptr :: "nat option"
  m_destroyed :: "nat option"

record 'v object_store =
  objects :: "nat \<Rightarrow> 'v option"
  next_object :: nat
  js_owned :: "nat \<Rightarrow> bool"
  slots :: "nat \<Rightarrow> lazy_ptr option"

definition empty_store :: "'v object_store" where
  "empty_store = \<lparr>objects = (\<lambda>_. None), next_object = 0, js_owned = (\<lambda>_. False), slots = (\<lambda>_. None)\<rparr>"

definition slot_of :: "nat \<Rightarrow> 'v object_store \<Rightarrow> lazy_ptr" where
  "slot_of i w = (case slots w i of Some p \<Rightarrow> p | None \<Rightarrow> \<lparr>m_ptr = None, m_destroyed = None\<rparr>)"

definition set_slot :: "nat \<Rightarrow> lazy_ptr option \<Rightarrow> 'v object_store \<Rightarrow> 'v object_store" where
  "set_slot i p w = w\<lparr>slots := (slots w)(i := p)\<rparr>"

text \<open>\<open>new\<close>, in C++ or by the engine.\<close>

definition new_object :: "bool \<Rightarrow> 'v \<Rightarrow> 'v object_store \<Rightarrow> nat \<times> 'v object_store" where
  "new_object js v w =
     (next_object w, w\<lparr>objects := (objects w)(next_object w \<mapsto> v), next_object := Suc (next_object w),
        js_owned := (js_owned w)(next_object w := js)\<rparr>)"

text \<open>The lambda of \<open>destroyed\<close>: disconnect and forget the object.\<close>

definition on_destroyed :: "nat \<Rightarrow> lazy_ptr \<Rightarrow> lazy_ptr" where
  "on_destroyed o' p = (if m_destroyed p = Some o' then p\<lparr>m_destroyed := None, m_ptr := None\<rparr> else p)"

text \<open>\<open>delete\<close>: the destructor of \<open>QObject\<close> emits \<open>destroyed\<close>.\<close>

definition delete_object :: "nat \<Rightarrow> 'v object_store \<Rightarrow> 'v object_store outcome" where
  "delete_object o' w =
     (if objects w o' = None then undefined_by Use_after_free
      else Ret (w\<lparr>objects := (objects w)(o' := None),
                  slots := (\<lambda>i. map_option (on_destroyed o') (slots w i))\<rparr>))"

definition delete_ptr :: "nat option \<Rightarrow> 'v object_store \<Rightarrow> 'v object_store outcome" where
  "delete_ptr p w = (case p of None \<Rightarrow> Ret w | Some o' \<Rightarrow> delete_object o' w)"

subsection \<open>Operations of a lazy pointer\<close>

definition lazy_new :: "nat \<Rightarrow> nat option \<Rightarrow> 'v object_store \<Rightarrow> 'v object_store" where
  "lazy_new i p w = set_slot i (Some \<lparr>m_ptr = p, m_destroyed = None\<rparr>) w"

text \<open>\<open>get\<close> and \<open>operator*\<close>: the first access makes the object.\<close>

definition lazy_get :: "'v \<Rightarrow> nat \<Rightarrow> 'v object_store \<Rightarrow> nat \<times> 'v object_store" where
  "lazy_get dflt i w =
     (case m_ptr (slot_of i w) of
        Some o' \<Rightarrow> (o', w)
      | None \<Rightarrow> let (o', w) = new_object False dflt w
               in (o', set_slot i (Some ((slot_of i w)\<lparr>m_ptr := Some o'\<rparr>)) w))"

definition lazy_is_set :: "nat \<Rightarrow> 'v object_store \<Rightarrow> bool" where
  "lazy_is_set i w \<longleftrightarrow> m_ptr (slot_of i w) \<noteq> None"

definition checkAndRelease :: "bool \<Rightarrow> nat \<Rightarrow> 'v object_store \<Rightarrow> 'v object_store outcome" where
  "checkAndRelease qml i w =
     (case m_ptr (slot_of i w) of
        None \<Rightarrow> Ret w
      | Some o' \<Rightarrow>
          if qml \<and> objects w o' = None then undefined_by Use_after_free
          else if qml \<longrightarrow> js_owned w o'
          then Ret (set_slot i (Some \<lparr>m_ptr = None, m_destroyed = None\<rparr>) w)
          else Ret w)"

text \<open>\<open>reset\<close>: connecting a null pointer gives no connection; \<open>unique_ptr::reset\<close> stores first, then deletes.\<close>

definition lazy_reset :: "bool \<Rightarrow> nat \<Rightarrow> nat option \<Rightarrow> 'v object_store \<Rightarrow> 'v object_store outcome" where
  "lazy_reset qml i p w =
     and_then (checkAndRelease qml i w) (\<lambda>w.
       let old = m_ptr (slot_of i w)
       in delete_ptr old (set_slot i (Some \<lparr>m_ptr = p, m_destroyed = p\<rparr>) w))"

text \<open>The destructor, followed by the one of \<open>unique_ptr\<close>.\<close>

definition lazy_destroy :: "bool \<Rightarrow> nat \<Rightarrow> 'v object_store \<Rightarrow> 'v object_store outcome" where
  "lazy_destroy qml i w =
     and_then (checkAndRelease qml i w) (\<lambda>w. delete_ptr (m_ptr (slot_of i w)) (set_slot i None w))"

text \<open>\<open>operator==\<close>; \<open>eq\<close> is the one of the message class.\<close>

definition object_value :: "nat \<Rightarrow> 'v object_store \<Rightarrow> 'v outcome" where
  "object_value o' w = (case objects w o' of Some v \<Rightarrow> Ret v | None \<Rightarrow> undefined_by Use_after_free)"

definition lazy_eq :: "('v \<Rightarrow> 'v \<Rightarrow> bool) \<Rightarrow> 'v \<Rightarrow> nat \<Rightarrow> nat \<Rightarrow> 'v object_store \<Rightarrow> bool outcome" where
  "lazy_eq eq dflt i other w =
     (case m_ptr (slot_of i w) of
        None \<Rightarrow> (case m_ptr (slot_of other w) of
            None \<Rightarrow> Ret True
          | Some q \<Rightarrow> and_then (object_value q w) (\<lambda>v. Ret (eq v dflt)))
      | Some p \<Rightarrow> (case m_ptr (slot_of other w) of
            None \<Rightarrow> and_then (object_value p w) (\<lambda>v. Ret (eq v dflt))
          | Some q \<Rightarrow> and_then (object_value p w) (\<lambda>v. and_then (object_value q w) (\<lambda>v'. Ret (eq v v')))))"

definition lazy_neq :: "('v \<Rightarrow> 'v \<Rightarrow> bool) \<Rightarrow> 'v \<Rightarrow> nat \<Rightarrow> nat \<Rightarrow> 'v object_store \<Rightarrow> bool outcome" where
  "lazy_neq eq dflt i other w = and_then (lazy_eq eq dflt i other w) (\<lambda>b. Ret (\<not> b))"

text \<open>The generated setter of a message field for QML, \<open>set<Field>_p\<close>.\<close>

definition set_field_p :: "bool \<Rightarrow> 'v \<Rightarrow> nat \<Rightarrow> nat option \<Rightarrow> 'v object_store \<Rightarrow> 'v object_store outcome" where
  "set_field_p qml dflt i p w =
     (let (o', w) = lazy_get dflt i w in if Some o' \<noteq> p then lazy_reset qml i p w else Ret w)"

subsection \<open>Ownership\<close>

text \<open>
  Programs that use lazy pointers: the state has besides the store the objects made with \<open>new\<close> whose owner is
  still the program. A pointer is given an object of the program or one of the engine.
\<close>

type_synonym 'v owners = "nat set \<times> 'v object_store"

definition may_give :: "nat option \<Rightarrow> 'v owners \<Rightarrow> bool" where
  "may_give p s = (case p of None \<Rightarrow> True
     | Some o' \<Rightarrow> objects (snd s) o' \<noteq> None \<and> (js_owned (snd s) o' \<or> o' \<in> fst s))"

datatype 'v ptr_op = NewObject bool 'v | NewPtr nat | NewPtrWith nat 'v | Get nat | Reset nat "nat option"
  | SetField nat "nat option" | Destroy nat | Collect nat

fun ptr_enabled :: "'v ptr_op \<Rightarrow> 'v owners \<Rightarrow> bool" where
  "ptr_enabled (NewObject js v) s = True"
| "ptr_enabled (NewPtr i) s = (slots (snd s) i = None)"
| "ptr_enabled (NewPtrWith i v) s = (slots (snd s) i = None)"
| "ptr_enabled (Get i) s = (slots (snd s) i \<noteq> None)"
| "ptr_enabled (Reset i p) s = (slots (snd s) i \<noteq> None \<and> may_give p s)"
| "ptr_enabled (SetField i p) s = (slots (snd s) i \<noteq> None \<and> may_give p s)"
| "ptr_enabled (Destroy i) s = (slots (snd s) i \<noteq> None)"
| "ptr_enabled (Collect o') s = (objects (snd s) o' \<noteq> None \<and> js_owned (snd s) o')"

fun ptr_run :: "bool \<Rightarrow> 'v \<Rightarrow> 'v ptr_op \<Rightarrow> 'v owners \<Rightarrow> 'v owners outcome" where
  "ptr_run qml dflt (NewObject js v) (E, w) =
     (let (o', w) = new_object js v w in Ret (if js then E else insert o' E, w))"
| "ptr_run qml dflt (NewPtr i) (E, w) = Ret (E, lazy_new i None w)"
| "ptr_run qml dflt (NewPtrWith i v) (E, w) =
     (let (o', w) = new_object False v w in Ret (E, lazy_new i (Some o') w))"
| "ptr_run qml dflt (Get i) (E, w) = Ret (E, snd (lazy_get dflt i w))"
| "ptr_run qml dflt (Reset i p) (E, w) = and_then (lazy_reset qml i p w) (\<lambda>w. Ret (E - set_option p, w))"
| "ptr_run qml dflt (SetField i p) (E, w) = and_then (set_field_p qml dflt i p w) (\<lambda>w. Ret (E - set_option p, w))"
| "ptr_run qml dflt (Destroy i) (E, w) = and_then (lazy_destroy qml i w) (\<lambda>w. Ret (E, w))"
| "ptr_run qml dflt (Collect o') (E, w) = and_then (delete_object o' w) (\<lambda>w. Ret (E, w))"

inductive ptr_reachable :: "bool \<Rightarrow> 'v \<Rightarrow> 'v owners \<Rightarrow> bool" for qml dflt where
  starts: "ptr_reachable qml dflt ({}, empty_store)"
| runs: "ptr_reachable qml dflt s \<Longrightarrow> ptr_enabled c s \<Longrightarrow> ptr_run qml dflt c s = Ret s' \<Longrightarrow> ptr_reachable qml dflt s'"

definition holds :: "'v object_store \<Rightarrow> nat \<Rightarrow> nat \<Rightarrow> bool" where
  "holds w i o' \<longleftrightarrow> m_ptr (slot_of i w) = Some o'"

definition ptr_inv :: "bool \<Rightarrow> 'v owners \<Rightarrow> bool" where
  "ptr_inv qml s \<longleftrightarrow> (case s of (E, w) \<Rightarrow>
     (\<forall>i o'. holds w i o' \<longrightarrow> objects w o' \<noteq> None \<and> o' \<notin> E)
     \<and> (\<forall>i o'. holds w i o' \<and> js_owned w o' \<longrightarrow> m_destroyed (slot_of i w) = Some o')
     \<and> (\<forall>i o'. m_destroyed (slot_of i w) = Some o' \<longrightarrow> holds w i o')
     \<and> (\<forall>i j o'. holds w i o' \<and> holds w j o' \<and> \<not> js_owned w o' \<longrightarrow> i = j)
     \<and> (\<forall>o'. qml \<and> objects w o' \<noteq> None \<and> \<not> js_owned w o' \<and> o' \<notin> E \<longrightarrow> (\<exists>i. holds w i o'))
     \<and> (\<forall>o'. next_object w \<le> o' \<longrightarrow> objects w o' = None \<and> o' \<notin> E)
     \<and> (\<forall>o' \<in> E. objects w o' \<noteq> None \<and> \<not> js_owned w o'))"

lemma slot_of_set_slot [simp]:
  "slot_of j (set_slot i p w) =
     (if j = i then case p of Some q \<Rightarrow> q | None \<Rightarrow> \<lparr>m_ptr = None, m_destroyed = None\<rparr> else slot_of j w)"
  by (simp add: slot_of_def set_slot_def)

lemma set_slot_sel [simp]:
  "objects (set_slot i p w) = objects w" "next_object (set_slot i p w) = next_object w"
  "js_owned (set_slot i p w) = js_owned w"
  by (simp_all add: set_slot_def)

lemma slot_of_new_object [simp]: "slot_of i (snd (new_object js v w)) = slot_of i w"
  by (simp add: slot_of_def new_object_def)

lemma new_object_sel [simp]:
  "fst (new_object js v w) = next_object w"
  "objects (snd (new_object js v w)) = (objects w)(next_object w \<mapsto> v)"
  "next_object (snd (new_object js v w)) = Suc (next_object w)"
  "js_owned (snd (new_object js v w)) = (js_owned w)(next_object w := js)"
  by (simp_all add: new_object_def)

lemma slot_of_delete:
  "delete_object o' w = Ret w' \<Longrightarrow> slot_of i w' = on_destroyed o' (slot_of i w)"
  by (auto simp: delete_object_def slot_of_def on_destroyed_def split: if_splits option.splits)

lemma delete_sel:
  "delete_object o' w = Ret w' \<Longrightarrow>
     objects w' = (objects w)(o' := None) \<and> next_object w' = next_object w \<and> js_owned w' = js_owned w"
  by (auto simp: delete_object_def split: if_splits)

lemma m_ptr_on_destroyed: "m_ptr (on_destroyed o' p) = (if m_destroyed p = Some o' then None else m_ptr p)"
  and m_destroyed_on_destroyed:
    "m_destroyed (on_destroyed o' p) = (if m_destroyed p = Some o' then None else m_destroyed p)"
  by (simp_all add: on_destroyed_def)

lemmas lazy_simps = m_ptr_on_destroyed m_destroyed_on_destroyed holds_def

text \<open>The invariant, clause by clause.\<close>

lemma ptr_invI:
  assumes "\<And>i o'. holds w i o' \<Longrightarrow> objects w o' \<noteq> None \<and> o' \<notin> E"
    and "\<And>i o'. holds w i o' \<Longrightarrow> js_owned w o' \<Longrightarrow> m_destroyed (slot_of i w) = Some o'"
    and "\<And>i o'. m_destroyed (slot_of i w) = Some o' \<Longrightarrow> holds w i o'"
    and "\<And>i j o'. holds w i o' \<Longrightarrow> holds w j o' \<Longrightarrow> \<not> js_owned w o' \<Longrightarrow> i = j"
    and "\<And>o'. qml \<Longrightarrow> objects w o' \<noteq> None \<Longrightarrow> \<not> js_owned w o' \<Longrightarrow> o' \<notin> E \<Longrightarrow> \<exists>i. holds w i o'"
    and "\<And>o'. next_object w \<le> o' \<Longrightarrow> objects w o' = None \<and> o' \<notin> E"
    and "\<And>o'. o' \<in> E \<Longrightarrow> objects w o' \<noteq> None \<and> \<not> js_owned w o'"
  shows "ptr_inv qml (E, w)"
  unfolding ptr_inv_def prod.case using assms by blast

lemma ptr_invD:
  assumes "ptr_inv qml (E, w)"
  shows "holds w i o' \<Longrightarrow> objects w o' \<noteq> None"
    and "holds w i o' \<Longrightarrow> o' \<notin> E"
    and "holds w i o' \<Longrightarrow> js_owned w o' \<Longrightarrow> m_destroyed (slot_of i w) = Some o'"
    and "m_destroyed (slot_of i w) = Some o' \<Longrightarrow> holds w i o'"
    and "holds w i o' \<Longrightarrow> holds w j o' \<Longrightarrow> \<not> js_owned w o' \<Longrightarrow> i = j"
    and "qml \<Longrightarrow> objects w o' \<noteq> None \<Longrightarrow> \<not> js_owned w o' \<Longrightarrow> o' \<notin> E \<Longrightarrow> \<exists>i. holds w i o'"
    and "next_object w \<le> o' \<Longrightarrow> objects w o' = None"
    and "o' \<in> E \<Longrightarrow> o' < next_object w"
    and "o' \<in> E \<Longrightarrow> objects w o' \<noteq> None"
    and "o' \<in> E \<Longrightarrow> \<not> js_owned w o'"
  using assms unfolding ptr_inv_def prod.case by (blast, blast, blast, blast, blast, blast, blast, (meson not_le), blast, blast)

text \<open>Objects the program or the engine makes.\<close>

lemma new_object_inv:
  assumes inv: "ptr_inv qml (E, w)"
  shows "ptr_inv qml (if js then E else insert (next_object w) E, snd (new_object js v w))"
proof -
  note D = ptr_invD [OF inv]
  let ?w = "snd (new_object js v w)"
  have old: "o' \<noteq> next_object w" if "holds w i o'" for i o'
    using D(1) [OF that] D(7) [of o'] by auto
  have eq: "holds ?w j p \<longleftrightarrow> holds w j p" for j p
    by (simp add: holds_def)
  show ?thesis
  proof (rule ptr_invI, goal_cases)
    case (1 j o')
    then show ?case using old [of j o'] D(1) [of j o'] D(2) [of j o'] by (auto simp: eq)
  next
    case (2 j o')
    then show ?case using old [of j o'] D(3) [of j o'] by (auto simp: eq)
  next
    case (3 j o')
    then show ?case using D(4) by (simp add: eq)
  next
    case (4 j k o')
    then show ?case using old [of j o'] D(5) [of j o' k] by (auto simp: eq)
  next
    case (5 o')
    then show ?case using D(6) [of o'] by (auto simp: eq split: if_splits)
  next
    case (6 o')
    then show ?case using D(7) [of o'] D(8) [of o'] by (auto split: if_splits)
  next
    case (7 o')
    then show ?case using D(8) [of o'] D(9) [of o'] D(10) [of o'] by (auto split: if_splits)
  qed
qed

text \<open>A pointer that holds nothing takes an object.\<close>

lemma give_inv:
  assumes inv: "ptr_inv qml (E, w)" and empty: "m_ptr (slot_of i w) = None"
    and p: "may_give p (E, w)" and c: "c = p \<or> c = None \<and> (\<forall>o'. p = Some o' \<longrightarrow> \<not> js_owned w o')"
  shows "ptr_inv qml (E - set_option p, set_slot i (Some \<lparr>m_ptr = p, m_destroyed = c\<rparr>) w)"
proof -
  note D = ptr_invD [OF inv]
  have p': "objects w o' \<noteq> None \<and> (js_owned w o' \<or> o' \<in> E)" if "p = Some o'" for o'
    using p that by (simp add: may_give_def)
  show ?thesis
  proof (rule ptr_invI, goal_cases)
    case (1 j o')
    then show ?case using D(1,2) p' by (auto simp: holds_def split: if_splits)
  next
    case (2 j o')
    then show ?case using D(3) c by (auto simp: holds_def split: if_splits)
  next
    case (3 j o')
    then show ?case using D(4) c by (auto simp: holds_def split: if_splits)
  next
    case (4 j k o')
    then show ?case using D(2,5) p' by (fastforce simp: holds_def split: if_splits)
  next
    case (5 o')
    then show ?case using D(6) [of o'] empty by (cases "p = Some o'") (force simp: holds_def)+
  next
    case (6 o')
    then show ?case using D(7) [of o'] D(8) [of o'] by auto
  next
    case (7 o')
    then show ?case using D(9,10) by auto
  qed
qed

text \<open>An object of the engine is let go.\<close>

lemma release_inv:
  assumes inv: "ptr_inv qml (E, w)" and q: "q = None \<or> q = Some \<lparr>m_ptr = None, m_destroyed = None\<rparr>"
    and js: "\<And>o'. qml \<Longrightarrow> holds w i o' \<Longrightarrow> js_owned w o'"
  shows "ptr_inv qml (E, set_slot i q w)"
proof -
  note D = ptr_invD [OF inv]
  let ?w = "set_slot i q w"
  have eq: "holds ?w j p \<longleftrightarrow> j \<noteq> i \<and> holds w j p" for j p
    using q by (cases "j = i") (auto simp: holds_def)
  show ?thesis
  proof (rule ptr_invI, goal_cases)
    case (3 j o')
    then show ?case using D(4) q by (cases "j = i") (auto simp: eq)
  next
    case (5 o')
    then obtain j where "holds w j o'" using D(6) [of o'] by auto
    moreover have "j \<noteq> i" using js calculation 5 by auto
    ultimately show ?case using eq by blast
  next
    case (6 o')
    then show ?case using D(7) [of o'] D(8) [of o'] by auto
  next
    case (7 o')
    then show ?case using D(9,10) by auto
  next
    case (4 j k o')
    then show ?case using D(5) [of j o' k] by (simp add: eq)
  next
    case (1 j o')
    then show ?case using D(1) [of j o'] D(2) [of j o'] by (simp add: eq)
  next
    case (2 j o')
    then show ?case using D(3) [of j o'] by (simp add: eq)
  qed
qed

text \<open>An object of the pointer is deleted.\<close>

lemma drop_inv:
  assumes inv: "ptr_inv qml (E, w)" and q: "q = None \<or> q = Some \<lparr>m_ptr = None, m_destroyed = None\<rparr>"
    and o: "holds w i o'" "\<not> js_owned w o'"
  obtains w' where "delete_object o' (set_slot i q w) = Ret w'" "ptr_inv qml (E, w')"
    "slot_of i w' = \<lparr>m_ptr = None, m_destroyed = None\<rparr>" "js_owned w' = js_owned w"
    "objects w' = (objects w)(o' := None)"
proof -
  note D = ptr_invD [OF inv]
  have empty: "slot_of i (set_slot i q w) = \<lparr>m_ptr = None, m_destroyed = None\<rparr>"
    using q by auto
  obtain w' where w': "delete_object o' (set_slot i q w) = Ret w'"
    using D(1) [OF o(1)] by (auto simp: delete_object_def)
  note slot = slot_of_delete [OF w'] and sel = delete_sel [OF w', simplified]
  have other: "slot_of j w' = slot_of j w" if "j \<noteq> i" for j
    using D(4) [of j o'] D(5) [OF _ o, of j] that by (auto simp: slot on_destroyed_def)
  have mine: "slot_of i w' = \<lparr>m_ptr = None, m_destroyed = None\<rparr>"
    by (simp add: slot empty on_destroyed_def del: slot_of_set_slot)
  have eq: "holds w' j p \<longleftrightarrow> j \<noteq> i \<and> holds w j p" for j p
    using other [of j] mine by (cases "j = i") (simp_all add: holds_def)
  have "ptr_inv qml (E, w')"
  proof (rule ptr_invI, goal_cases)
    case (1 j p)
    then show ?case using D(1,2) D(5) [OF _ o] by (auto simp: eq sel)
  next
    case (3 j p)
    then show ?case using D(4) other mine by (cases "j = i") (auto simp: eq)
  next
    case (5 p)
    then obtain j where j: "holds w j p" using D(6) [of p] by (auto simp: sel split: if_splits)
    then have "j \<noteq> i" using 5 o by (auto simp: holds_def sel split: if_splits)
    then show ?case using j eq by blast
  next
    case (6 p)
    then show ?case using D(7) [of p] D(8) [of p] by (auto simp: sel)
  next
    case (7 p)
    then show ?case using D(2) [OF o(1)] D(9,10) by (auto simp: sel)
  qed (use D(3,5) other in \<open>auto simp: eq sel\<close>)
  then show ?thesis using that w' mine sel by blast
qed

lemma checkAndRelease_inv:
  assumes inv: "ptr_inv qml (E, w)"
  obtains w' where "checkAndRelease qml i w = Ret w'" "ptr_inv qml (E, w')" "objects w' = objects w"
    "js_owned w' = js_owned w" "\<forall>o'. holds w' i o' \<longleftrightarrow> qml \<and> holds w i o' \<and> \<not> js_owned w o'"
proof (cases "m_ptr (slot_of i w)")
  case None
  then show ?thesis
    by (intro that [of w]) (auto simp: checkAndRelease_def holds_def inv)
next
  case (Some o')
  then have live: "objects w o' \<noteq> None" using ptr_invD(1) [OF inv] by (auto simp: holds_def)
  show ?thesis
  proof (cases "qml \<longrightarrow> js_owned w o'")
    case True
    then show ?thesis
      using Some live release_inv [OF inv, of "Some \<lparr>m_ptr = None, m_destroyed = None\<rparr>" i]
      by (intro that [of "set_slot i (Some \<lparr>m_ptr = None, m_destroyed = None\<rparr>) w"])
        (auto simp: checkAndRelease_def holds_def)
  next
    case False
    then show ?thesis
      using Some live inv by (intro that [of w]) (auto simp: checkAndRelease_def holds_def)
  qed
qed

text \<open>Every operation of a lazy pointer returns and keeps the invariant.\<close>

lemma delete_set_slot:
  assumes "delete_object o' (set_slot i q w) = Ret w'" and "map_option (on_destroyed o') r = r"
  shows "delete_object o' (set_slot i r w) = Ret (set_slot i r w')"
  using assms
  by (auto simp: delete_object_def set_slot_def fun_eq_iff split: if_splits)

lemma reset_inv:
  assumes inv: "ptr_inv qml (E, w)" and p: "may_give p (E, w)"
  obtains w' where "lazy_reset qml i p w = Ret w'" "ptr_inv qml (E - set_option p, w')"
proof -
  obtain w1 where w1: "checkAndRelease qml i w = Ret w1" "ptr_inv qml (E, w1)" "objects w1 = objects w"
      "js_owned w1 = js_owned w" "\<forall>o'. holds w1 i o' \<longleftrightarrow> qml \<and> holds w i o' \<and> \<not> js_owned w o'"
    by (rule checkAndRelease_inv [OF inv, where i = i])
  have p1: "may_give p (E, w1)" using p w1(3,4) by (cases p) (simp_all add: may_give_def)
  show ?thesis
  proof (cases "m_ptr (slot_of i w1)")
    case None
    show ?thesis
      by (rule that [OF _ give_inv [OF w1(2) None p1, of p]]) (simp_all add: lazy_reset_def w1(1) None delete_ptr_def)
  next
    case (Some o')
    then have o: "holds w1 i o'" "\<not> js_owned w1 o'" using w1(4,5) by (auto simp: holds_def)
    have ne: "p \<noteq> Some o'"
      using p1 ptr_invD(2) [OF w1(2) o(1)] o(2) by (auto simp: may_give_def)
    obtain w2 where w2: "delete_object o' (set_slot i None w1) = Ret w2" "ptr_inv qml (E, w2)"
      "slot_of i w2 = \<lparr>m_ptr = None, m_destroyed = None\<rparr>" "js_owned w2 = js_owned w1"
      "objects w2 = (objects w1)(o' := None)"
      by (rule drop_inv [OF w1(2) _ o, of None]) blast+
    have p2: "may_give p (E, w2)"
      using p1 ne w2(4,5) by (auto simp: may_give_def split: option.splits)
    have "delete_object o' (set_slot i (Some \<lparr>m_ptr = p, m_destroyed = p\<rparr>) w1)
        = Ret (set_slot i (Some \<lparr>m_ptr = p, m_destroyed = p\<rparr>) w2)"
      by (rule delete_set_slot [OF w2(1)]) (simp add: on_destroyed_def ne)
    then show ?thesis
      by (intro that [OF _ give_inv [OF w2(2) _ p2, of i p]])
        (simp_all add: lazy_reset_def w1(1) Some delete_ptr_def w2(3))
  qed
qed

lemma destroy_inv:
  assumes inv: "ptr_inv qml (E, w)"
  obtains w' where "lazy_destroy qml i w = Ret w'" "ptr_inv qml (E, w')"
    "objects w' = (\<lambda>o'. if qml \<and> holds w i o' \<and> \<not> js_owned w o' then None else objects w o')"
proof -
  obtain w1 where w1: "checkAndRelease qml i w = Ret w1" "ptr_inv qml (E, w1)" "objects w1 = objects w"
      "js_owned w1 = js_owned w" "\<forall>o'. holds w1 i o' \<longleftrightarrow> qml \<and> holds w i o' \<and> \<not> js_owned w o'"
    by (rule checkAndRelease_inv [OF inv, where i = i])
  show ?thesis
  proof (cases "m_ptr (slot_of i w1)")
    case None
    then have none: "\<not> holds w1 i o'" for o' by (simp add: holds_def)
    show ?thesis
      using none w1(3,5) None
      by (intro that [OF _ release_inv [OF w1(2), of None i]])
        (auto simp: lazy_destroy_def w1(1) delete_ptr_def fun_eq_iff)
  next
    case (Some o')
    then have o: "holds w1 i o'" "\<not> js_owned w1 o'" using w1(4,5) by (auto simp: holds_def)
    have iff: "qml \<and> holds w i p \<and> \<not> js_owned w p \<longleftrightarrow> p = o'" for p
      using Some w1(5) [THEN spec, of p] by (auto simp: holds_def)
    obtain w2 where w2: "delete_object o' (set_slot i None w1) = Ret w2" "ptr_inv qml (E, w2)"
      "objects w2 = (objects w1)(o' := None)"
      by (rule drop_inv [OF w1(2) _ o, of None]) blast+
    then show ?thesis
      by (intro that [of w2]) (auto simp: lazy_destroy_def w1(1,3) Some delete_ptr_def iff fun_eq_iff)
  qed
qed

lemma get_inv:
  assumes inv: "ptr_inv qml (E, w)"
  shows "ptr_inv qml (E, snd (lazy_get dflt i w))"
proof (cases "m_ptr (slot_of i w)")
  case None
  have c: "m_destroyed (slot_of i w) = None"
    using ptr_invD(4) [OF inv, of i] None by (cases "m_destroyed (slot_of i w)") (auto simp: holds_def)
  have E: "insert (next_object w) E - {next_object w} = E"
    using ptr_invD(8) [OF inv] by auto
  have eq: "(slot_of i w)\<lparr>m_ptr := Some x\<rparr> = \<lparr>m_ptr = Some x, m_destroyed = None\<rparr>" for x
    using c by (cases "slot_of i w") simp
  show ?thesis
    using give_inv [OF new_object_inv [OF inv, of False dflt], of i "Some (next_object w)" None] None E
    by (simp add: lazy_get_def case_prod_unfold eq may_give_def)
qed (simp add: lazy_get_def inv)

lemma lazy_get_keeps:
  "objects w o' \<noteq> None \<Longrightarrow> objects (snd (lazy_get dflt i w)) o' \<noteq> None"
  by (auto simp: lazy_get_def case_prod_unfold split: option.splits)

lemma get_may_give:
  assumes inv: "ptr_inv qml (E, w)" and p: "may_give p (E, w)"
  shows "may_give p (E, snd (lazy_get dflt i w))"
proof -
  have "js_owned (snd (lazy_get dflt i w)) o' = js_owned w o'" if "objects w o' \<noteq> None" for o'
    using that ptr_invD(7) [OF inv, of o'] by (auto simp: lazy_get_def case_prod_unfold split: option.splits)
  then show ?thesis
    using p lazy_get_keeps [of w _ dflt i] by (fastforce simp: may_give_def split: option.splits)
qed

lemma set_field_inv:
  assumes inv: "ptr_inv qml (E, w)" and p: "may_give p (E, w)"
  obtains w' where "set_field_p qml dflt i p w = Ret w'" "ptr_inv qml (E - set_option p, w')"
proof (cases "Some (fst (lazy_get dflt i w)) = p")
  case True
  let ?w = "snd (lazy_get dflt i w)"
  have "holds ?w i (fst (lazy_get dflt i w))"
    by (auto simp: lazy_get_def holds_def case_prod_unfold split: option.splits)
  then have "E - set_option p = E"
    using ptr_invD(2) [OF get_inv [OF inv], of dflt i i] True by auto
  then show ?thesis
    using True get_inv [OF inv, of dflt i] by (intro that [of ?w]) (auto simp: set_field_p_def case_prod_unfold)
next
  case False
  obtain w' where "lazy_reset qml i p (snd (lazy_get dflt i w)) = Ret w'" "ptr_inv qml (E - set_option p, w')"
    by (rule reset_inv [OF get_inv [OF inv] get_may_give [OF inv p]])
  then show ?thesis using False by (intro that [of w']) (simp_all add: set_field_p_def case_prod_unfold)
qed

lemma collect_inv:
  assumes inv: "ptr_inv qml (E, w)" and o: "objects w o' \<noteq> None" "js_owned w o'"
  obtains w' where "delete_object o' w = Ret w'" "ptr_inv qml (E, w')"
proof -
  note D = ptr_invD [OF inv]
  obtain w' where w': "delete_object o' w = Ret w'"
    using o by (auto simp: delete_object_def)
  note slot = slot_of_delete [OF w'] and sel = delete_sel [OF w', simplified]
  have iff: "m_destroyed (slot_of j w) = Some o' \<longleftrightarrow> holds w j o'" for j
    using D(3) [of j o'] D(4) [of j o'] o(2) by blast
  have eq: "holds w' j p \<longleftrightarrow> p \<noteq> o' \<and> holds w j p" for j p
    using iff [of j] by (auto simp: holds_def slot m_ptr_on_destroyed)
  have conn: "m_destroyed (slot_of j w') = Some p \<longleftrightarrow> p \<noteq> o' \<and> m_destroyed (slot_of j w) = Some p" for j p
    by (auto simp: slot m_destroyed_on_destroyed)
  have "ptr_inv qml (E, w')"
  proof (rule ptr_invI, goal_cases)
    case (1 j p)
    then show ?case using D(1) [of j p] D(2) [of j p] by (simp add: eq sel)
  next
    case (2 j p)
    then show ?case using D(3) [of j p] by (simp add: eq conn sel)
  next
    case (3 j p)
    then show ?case using D(4) [of j p] by (simp add: eq conn)
  next
    case (4 j k p)
    then show ?case using D(5) [of j p k] by (simp add: eq sel)
  next
    case (5 p)
    then show ?case using D(6) [of p] by (auto simp: eq sel split: if_splits)
  next
    case (6 p)
    then show ?case using D(7) [of p] D(8) [of p] by (auto simp: sel)
  next
    case (7 p)
    then show ?case using D(9) [of p] D(10) [of p] o(2) by (auto simp: sel)
  qed
  then show ?thesis using that w' by blast
qed

lemma ptr_run_inv:
  assumes "ptr_inv qml s" "ptr_enabled c s"
  shows "\<exists>s'. ptr_run qml dflt c s = Ret s' \<and> ptr_inv qml s'"
proof -
  obtain E w where s: "s = (E, w)" by (cases s)
  have inv: "ptr_inv qml (E, w)" using assms s by simp
  have empty: "m_ptr (slot_of i w) = None" if "slots w i = None" for i
    using that by (simp add: slot_of_def)
  show ?thesis
  proof (cases c)
    case (NewObject js v)
    then show ?thesis using new_object_inv [OF inv, of js v] s by (cases js) (simp_all add: case_prod_unfold Let_def)
  next
    case (NewPtr i)
    then show ?thesis
      using give_inv [OF inv empty, of i None None] assms s by (simp add: lazy_new_def may_give_def)
  next
    case (NewPtrWith i v)
    have "insert (next_object w) E - {next_object w} = E" using ptr_invD(8) [OF inv] by auto
    then show ?thesis
      using give_inv [OF new_object_inv [OF inv, of False v], of i "Some (next_object w)" None] empty [of i]
        NewPtrWith assms s by (simp add: lazy_new_def may_give_def case_prod_unfold)
  next
    case (Get i)
    then show ?thesis using get_inv [OF inv, of dflt i] s by simp
  next
    case (Reset i p)
    then show ?thesis using reset_inv [OF inv, of p i] assms s by fastforce
  next
    case (SetField i p)
    then show ?thesis using set_field_inv [OF inv, of p dflt i] assms s by fastforce
  next
    case (Destroy i)
    then show ?thesis using destroy_inv [OF inv, of i] s by fastforce
  next
    case (Collect o')
    then show ?thesis using collect_inv [OF inv, of o'] assms s by fastforce
  qed
qed

lemma ptr_reachable_inv: "ptr_reachable qml dflt s \<Longrightarrow> ptr_inv qml s"
proof (induction rule: ptr_reachable.induct)
  case starts
  show ?case by (rule ptr_invI) (auto simp: empty_store_def holds_def slot_of_def)
next
  case (runs s c s')
  then show ?case using ptr_run_inv [of qml s c dflt] by auto
qed

subsection \<open>Comparison of lists and maps of messages\<close>

text \<open>
  A \<open>QSharedPointer\<close> is null or points to an object of \<open>heap\<close>; two of them are equal when they point to the same
  object. A \<open>QMap\<close> is the list of its pairs in the order of the keys; \<open>value\<close> of a missing key is a null pointer.
\<close>

definition shared_differ :: "('v \<Rightarrow> 'v \<Rightarrow> bool) \<Rightarrow> (nat \<Rightarrow> 'v) \<Rightarrow> nat option \<Rightarrow> nat option \<Rightarrow> bool outcome" where
  "shared_differ eq heap x y =
     (if x = y then Ret False
      else case (x, y) of
          (Some p, Some q) \<Rightarrow> Ret (\<not> eq (heap p) (heap q))
        | _ \<Rightarrow> undefined_by Null_dereference)"

fun list_compare_loop :: "('v \<Rightarrow> 'v \<Rightarrow> bool) \<Rightarrow> (nat \<Rightarrow> 'v) \<Rightarrow> nat option list \<Rightarrow> nat option list \<Rightarrow> bool outcome" where
  "list_compare_loop eq heap (x # xs) (y # ys) =
     and_then (shared_differ eq heap x y) (\<lambda>d. if d then Ret False else list_compare_loop eq heap xs ys)"
| "list_compare_loop eq heap _ _ = Ret True"

definition repeatedValueCompare_list :: "('v \<Rightarrow> 'v \<Rightarrow> bool) \<Rightarrow> (nat \<Rightarrow> 'v) \<Rightarrow>
    nat option list \<Rightarrow> nat option list \<Rightarrow> bool outcome" where
  "repeatedValueCompare_list eq heap a b =
     (if length a \<noteq> length b then Ret False else list_compare_loop eq heap a b)"

definition map_value :: "('k \<times> nat option) list \<Rightarrow> 'k \<Rightarrow> nat option" where
  "map_value m k = (case map_of m k of Some p \<Rightarrow> p | None \<Rightarrow> None)"

fun map_compare_loop :: "('v \<Rightarrow> 'v \<Rightarrow> bool) \<Rightarrow> (nat \<Rightarrow> 'v) \<Rightarrow>
    ('k \<times> nat option) list \<Rightarrow> ('k \<times> nat option) list \<Rightarrow> bool outcome" where
  "map_compare_loop eq heap [] b = Ret True"
| "map_compare_loop eq heap ((k, p) # a) b =
     and_then (shared_differ eq heap (map_value b k) p) (\<lambda>d. if d then Ret False else map_compare_loop eq heap a b)"

definition repeatedValueCompare_map :: "('v \<Rightarrow> 'v \<Rightarrow> bool) \<Rightarrow> (nat \<Rightarrow> 'v) \<Rightarrow>
    ('k \<times> nat option) list \<Rightarrow> ('k \<times> nat option) list \<Rightarrow> bool outcome" where
  "repeatedValueCompare_map eq heap a b =
     (if length a \<noteq> length b then Ret False else map_compare_loop eq heap a b)"

definition deref :: "(nat \<Rightarrow> 'v) \<Rightarrow> nat option \<Rightarrow> 'v" where
  "deref heap p = heap (the p)"

text \<open>Maps whose values agree under the keys both have.\<close>

definition maps_agree :: "('v \<Rightarrow> 'v \<Rightarrow> bool) \<Rightarrow> (nat \<Rightarrow> 'v) \<Rightarrow>
    ('k \<times> nat option) list \<Rightarrow> ('k \<times> nat option) list \<Rightarrow> bool" where
  "maps_agree eq heap a b \<longleftrightarrow>
     (\<forall>k p q. (k, p) \<in> set a \<and> (k, q) \<in> set b \<longrightarrow> eq (deref heap q) (deref heap p))"

lemma shared_differ_values:
  assumes "reflp eq" "x \<noteq> None" "y \<noteq> None"
  shows "shared_differ eq heap x y = Ret (\<not> eq (deref heap x) (deref heap y))"
  using assms by (auto simp: shared_differ_def deref_def reflp_def)

lemma list_compare_values:
  assumes "reflp eq" "length a = length b" "None \<notin> set a" "None \<notin> set b"
  shows "list_compare_loop eq heap a b = Ret (list_all2 eq (map (deref heap) a) (map (deref heap) b))"
  using assms(2-)
proof (induction a b rule: list_induct2)
  case (Cons x xs y ys)
  then have "x \<noteq> None" "y \<noteq> None" by (cases x; cases y; simp)+
  note d = shared_differ_values [OF assms(1) this, of heap]
  show ?case using Cons by (simp add: d)
qed simp

text \<open>The loop over a map: the first pair that does not agree decides.\<close>

definition pair_agrees :: "('v \<Rightarrow> 'v \<Rightarrow> bool) \<Rightarrow> (nat \<Rightarrow> 'v) \<Rightarrow> ('k \<times> nat option) list \<Rightarrow> 'k \<times> nat option \<Rightarrow> bool" where
  "pair_agrees eq heap b x \<longleftrightarrow> map_value b (fst x) \<noteq> None \<and> eq (deref heap (map_value b (fst x))) (deref heap (snd x))"

lemma map_compare_first:
  assumes "reflp eq" "\<forall>x \<in> set a. snd x \<noteq> None"
  shows "map_compare_loop eq heap a b =
     (case find (\<lambda>x. \<not> pair_agrees eq heap b x) a of
        None \<Rightarrow> Ret True
      | Some x \<Rightarrow> if map_value b (fst x) = None then undefined_by Null_dereference else Ret False)"
  using assms(2)
proof (induction a)
  case (Cons x a)
  obtain k p where x: "x = (k, p)" by (cases x)
  then have p: "p \<noteq> None" using Cons.prems by simp
  show ?case
  proof (cases "map_value b k = None")
    case True
    then show ?thesis using p by (auto simp: x shared_differ_def pair_agrees_def)
  next
    case False
    note d = shared_differ_values [OF assms(1) False p, of heap]
    from False obtain q where "map_value b k = Some q" by blast
    then show ?thesis using Cons d by (simp add: x pair_agrees_def)
  qed
qed simp

lemma map_value_in: "distinct (map fst b) \<Longrightarrow> (k, q) \<in> set b \<Longrightarrow> map_value b k = q"
  by (simp add: map_value_def)

lemma map_value_null:
  assumes "distinct (map fst b)" "\<forall>x \<in> set b. snd x \<noteq> None"
  shows "map_value b k = None \<longleftrightarrow> k \<notin> fst ` set b"
proof (cases "k \<in> fst ` set b")
  case True
  then obtain q where "(k, q) \<in> set b" by force
  then show ?thesis using map_value_in [OF assms(1)] assms(2) True by force
next
  case False
  then show ?thesis by (simp add: map_value_def map_of_eq_None_iff [THEN iffD2])
qed

lemma pair_agrees_iff:
  assumes "distinct (map fst b)" "\<forall>x \<in> set b. snd x \<noteq> None"
  shows "pair_agrees eq heap b (k, p) \<longleftrightarrow> (\<exists>q. (k, q) \<in> set b \<and> eq (deref heap q) (deref heap p))"
proof (cases "k \<in> fst ` set b")
  case True
  then obtain q where q: "(k, q) \<in> set b" by force
  then have "(k, r) \<in> set b \<longleftrightarrow> r = q" for r
    using map_value_in [OF assms(1)] by blast
  then show ?thesis
    using map_value_in [OF assms(1) q] map_value_null [OF assms, of k] True by (simp add: pair_agrees_def)
next
  case False
  then show ?thesis using map_value_null [OF assms, of k] by (force simp: pair_agrees_def)
qed

text \<open>Two maps without null pointers: the loop in terms of their pairs.\<close>

lemma map_compare_result:
  assumes "reflp eq" "\<forall>x \<in> set a. snd x \<noteq> None" "\<forall>x \<in> set b. snd x \<noteq> None" "distinct (map fst b)"
  shows "fst ` set a \<subseteq> fst ` set b \<Longrightarrow> map_compare_loop eq heap a b = Ret (maps_agree eq heap a b)"
    and "\<not> fst ` set a \<subseteq> fst ` set b \<Longrightarrow> maps_agree eq heap a b \<Longrightarrow>
      map_compare_loop eq heap a b = undefined_by Null_dereference"
proof -
  note first = map_compare_first [OF assms(1,2), of heap b] and null = map_value_null [OF assms(4,3)]
    and pair = pair_agrees_iff [OF assms(4,3)]
  have uniq: "(k, q) \<in> set b \<Longrightarrow> (k, r) \<in> set b \<Longrightarrow> q = r" for k q r
    using map_value_in [OF assms(4)] by blast
  show "map_compare_loop eq heap a b = Ret (maps_agree eq heap a b)" if keys: "fst ` set a \<subseteq> fst ` set b"
  proof -
    have all: "(\<forall>x \<in> set a. pair_agrees eq heap b x) \<longleftrightarrow> maps_agree eq heap a b"
    proof
      show "maps_agree eq heap a b" if "\<forall>x \<in> set a. pair_agrees eq heap b x"
        unfolding maps_agree_def using that pair uniq by blast
      show "\<forall>x \<in> set a. pair_agrees eq heap b x" if "maps_agree eq heap a b"
        using that keys unfolding maps_agree_def by (force simp: pair)
    qed
    show ?thesis
    proof (cases "find (\<lambda>x. \<not> pair_agrees eq heap b x) a")
      case None
      then have "\<forall>x \<in> set a. pair_agrees eq heap b x" by (auto simp: find_None_iff)
      then show ?thesis using all None by (simp add: first)
    next
      case (Some x)
      then have "x \<in> set a" "\<not> pair_agrees eq heap b x" by (auto simp: find_Some_iff)
      moreover have "fst x \<in> fst ` set b" using keys calculation(1) by blast
      ultimately show ?thesis using all Some null by (auto simp: first)
    qed
  qed
  show "map_compare_loop eq heap a b = undefined_by Null_dereference"
    if diff: "\<not> fst ` set a \<subseteq> fst ` set b" and agree: "maps_agree eq heap a b"
  proof -
    obtain y where "y \<in> set a" "fst y \<notin> fst ` set b" using diff by blast
    moreover have "\<not> pair_agrees eq heap b y"
      using null [of "fst y"] calculation(2) by (simp add: pair_agrees_def)
    ultimately have "find (\<lambda>x. \<not> pair_agrees eq heap b x) a \<noteq> None"
      unfolding find_None_iff by blast
    then obtain x where x: "find (\<lambda>x. \<not> pair_agrees eq heap b x) a = Some x" by blast
    then have x': "x \<in> set a" "\<not> pair_agrees eq heap b x" by (auto simp: find_Some_iff)
    have "fst x \<notin> fst ` set b"
      using agree x' pair [of eq heap "fst x" "snd x"] unfolding maps_agree_def by force
    then show ?thesis using x by (simp add: first null)
  qed
qed

text \<open>A history of two pointers: the first is set to an object of the engine, the second makes its own.\<close>

fun ptr_runs :: "bool \<Rightarrow> 'v \<Rightarrow> 'v ptr_op list \<Rightarrow> 'v owners \<Rightarrow> 'v owners option" where
  "ptr_runs qml dflt [] s = Some s"
| "ptr_runs qml dflt (c # cs) s =
     (if ptr_enabled c s then case ptr_run qml dflt c s of Ret s' \<Rightarrow> ptr_runs qml dflt cs s' | _ \<Rightarrow> None else None)"

lemma ptr_runs_reachable:
  "ptr_reachable qml dflt s \<Longrightarrow> ptr_runs qml dflt cs s = Some s' \<Longrightarrow> ptr_reachable qml dflt s'"
  by (induction cs arbitrary: s) (auto intro: ptr_reachable.runs split: if_splits outcome.splits)

definition demo_ops :: "int ptr_op list" where
  "demo_ops = [NewPtr 0, NewObject True 7, SetField 0 (Some 0), NewPtr 1, Get 1]"

definition demo_store :: "int object_store" where
  "demo_store = snd (the (ptr_runs True 0 demo_ops ({}, empty_store)))"

lemmas ptr_run_simps = lazy_new_def lazy_get_def set_field_p_def lazy_reset_def checkAndRelease_def delete_ptr_def
  delete_object_def new_object_def set_slot_def slot_of_def on_destroyed_def empty_store_def may_give_def

lemma demo_runs: "ptr_runs True 0 demo_ops ({}, empty_store) = Some ({}, demo_store)"
  by (simp add: demo_store_def demo_ops_def ptr_run_simps)

lemma demo_reachable: "ptr_reachable True 0 ({}, demo_store)"
  by (rule ptr_runs_reachable [OF ptr_reachable.starts demo_runs])

lemma demo_ptrs [simp]:
  "m_ptr (slot_of 0 demo_store) = Some 0" "m_ptr (slot_of (Suc 0) demo_store) = Some 2"
  "objects demo_store 0 = Some 7" "objects demo_store (Suc 0) = None" "objects demo_store 2 = Some 0"
  "js_owned demo_store 0" "\<not> js_owned demo_store 2"
  by (simp_all add: demo_store_def demo_ops_def ptr_run_simps)

text \<open>The same pointer in a build without QML.\<close>

definition demo_store_plain :: "int object_store" where
  "demo_store_plain = snd (the (ptr_runs False 0 [NewPtr 1, Get 1] ({}, empty_store)))"

lemma demo_plain_reachable: "ptr_reachable False 0 ({}, demo_store_plain)"
  by (rule ptr_runs_reachable [OF ptr_reachable.starts, of _ _ "[NewPtr 1, Get 1]"])
    (simp add: demo_store_plain_def ptr_run_simps)

lemma demo_plain_ptrs:
  "m_ptr (slot_of (Suc 0) demo_store_plain) = Some 0" "\<not> js_owned demo_store_plain 0"
  by (simp_all add: demo_store_plain_def ptr_run_simps)

subsection \<open>Lists of messages in QML\<close>

text \<open>
  The functions of \<open>QQmlListProperty\<close> (\<open>qqmllistpropertyconstructor.h\<close>): the list of shared pointers behind a repeated
  message field. \<open>append\<close> makes a new \<open>QSharedPointer\<close> of the object, which owns it alone; clearing the list
  deletes what its pointers own.
\<close>

definition qmllistpropertyAppend :: "nat \<Rightarrow> nat list \<times> 'v object_store \<Rightarrow> nat list \<times> 'v object_store" where
  "qmllistpropertyAppend v p = (fst p @ [v], (snd p)\<lparr>js_owned := (js_owned (snd p))(v := False)\<rparr>)"

definition qmllistpropertyCount :: "nat list \<times> 'v object_store \<Rightarrow> int" where
  "qmllistpropertyCount p = int (length (fst p))"

definition qmllistpropertyAt :: "nat list \<times> 'v object_store \<Rightarrow> int \<Rightarrow> nat outcome" where
  "qmllistpropertyAt p index =
     (if 0 \<le> index \<and> index < int (length (fst p)) then Ret (fst p ! nat index) else undefined_by Overread)"

fun delete_all :: "nat list \<Rightarrow> 'v object_store \<Rightarrow> 'v object_store outcome" where
  "delete_all [] w = Ret w"
| "delete_all (v # vs) w = and_then (delete_object v w) (delete_all vs)"

definition qmllistpropertyReset :: "nat list \<times> 'v object_store \<Rightarrow> (nat list \<times> 'v object_store) outcome" where
  "qmllistpropertyReset p = and_then (delete_all (fst p) (snd p)) (\<lambda>w. Ret ([], w))"

lemma delete_all_result:
  assumes "\<forall>v \<in> set vs. objects w v \<noteq> None" and "distinct vs"
  shows "\<exists>w'. delete_all vs w = Ret w' \<and> objects w' = (\<lambda>v. if v \<in> set vs then None else objects w v)"
  using assms
proof (induction vs arbitrary: w)
  case (Cons v vs)
  then obtain w1 where w1: "delete_object v w = Ret w1" by (auto simp: delete_object_def)
  then have obj: "objects w1 = (objects w)(v := None)" by (simp add: delete_sel)
  have live: "\<forall>u \<in> set vs. objects w1 u \<noteq> None" using Cons.prems obj by fastforce
  obtain w' where "delete_all vs w1 = Ret w'" "objects w' = (\<lambda>v. if v \<in> set vs then None else objects w1 v)"
    using Cons.IH [OF live] Cons.prems by auto
  then show ?case using w1 obj by (auto simp: fun_eq_iff)
qed simp

lemma delete_all_fails:
  "objects w v = None \<Longrightarrow> v \<in> set vs \<Longrightarrow> delete_all vs w = undefined_by Use_after_free"
proof (induction vs arbitrary: w)
  case (Cons x vs)
  show ?case
  proof (cases "delete_object x w")
    case (Ret w1)
    then have "x \<noteq> v" using Cons.prems by (auto simp: delete_object_def)
    moreover have "objects w1 v = None" using Ret Cons.prems by (auto simp: delete_sel)
    ultimately show ?thesis using Cons Ret by auto
  qed (auto simp: delete_object_def split: if_splits)
qed simp

lemma delete_all_twice: "\<not> distinct vs \<Longrightarrow> delete_all vs w = undefined_by Use_after_free"
proof (induction vs arbitrary: w)
  case (Cons x vs)
  show ?case
  proof (cases "delete_object x w")
    case (Ret w1)
    then have "objects w1 x = None" by (simp add: delete_sel)
    then show ?thesis using Cons Ret delete_all_fails [of w1 x vs] by auto
  qed (auto simp: delete_object_def split: if_splits)
qed simp

subsection \<open>Properties\<close>

text \<open>The message a pointer stands for.\<close>

definition lazy_value :: "'v \<Rightarrow> nat \<Rightarrow> 'v object_store \<Rightarrow> 'v" where
  "lazy_value dflt i w = (case m_ptr (slot_of i w) of None \<Rightarrow> dflt | Some o' \<Rightarrow> the (objects w o'))"

text \<open>
  C14. Lazy pointers never dangle, where QML is built in: in every history of pointers and objects in which each
  object is given away at most once, the engine destroys its objects when it likes, and pointers are made, read,
  reset, set by the generated setter and destroyed, every operation returns (nothing is used after it was
  deleted), every pointer refers to an object that exists, and every other C++ object the program gave away is
  held by exactly one pointer.
\<close>

theorem lazy_pointers_own_messages:
  assumes "ptr_reachable True dflt (E, w)"
  shows "(\<forall>c. ptr_enabled c (E, w) \<longrightarrow> (\<exists>s'. ptr_run True dflt c (E, w) = Ret s'))
    \<and> (\<forall>i o'. m_ptr (slot_of i w) = Some o' \<longrightarrow> objects w o' \<noteq> None)
    \<and> (\<forall>o'. objects w o' \<noteq> None \<and> \<not> js_owned w o' \<and> o' \<notin> E \<longrightarrow> (\<exists>!i. m_ptr (slot_of i w) = Some o'))"
proof -
  note inv = ptr_reachable_inv [OF assms]
  have "\<exists>s'. ptr_run True dflt c (E, w) = Ret s'" if "ptr_enabled c (E, w)" for c
    using ptr_run_inv [OF inv that] by blast
  moreover have "objects w o' \<noteq> None" if "m_ptr (slot_of i w) = Some o'" for i o'
    using ptr_invD(1) [OF inv, of i o'] that by (simp add: holds_def)
  moreover have "\<exists>!i. m_ptr (slot_of i w) = Some o'"
    if "objects w o' \<noteq> None" "\<not> js_owned w o'" "o' \<notin> E" for o'
    using ptr_invD(5) [OF inv, where o' = o'] ptr_invD(6) [OF inv, of o'] that unfolding holds_def by blast
  ultimately show ?thesis by blast
qed

theorem lazy_pointers_own_messages_witness:
  "ptr_reachable True 0 ({}, demo_store)
   \<and> (\<exists>s'. ptr_run True 0 (Destroy 1) ({}, demo_store) = Ret s')
   \<and> (\<exists>!i. m_ptr (slot_of i demo_store) = Some 2)"
proof -
  note own = lazy_pointers_own_messages [OF demo_reachable]
  have "slots demo_store (Suc 0) \<noteq> None"
    by (simp add: demo_store_def demo_ops_def ptr_run_simps)
  then have "ptr_enabled (Destroy 1) ({}, demo_store)" by simp
  then have "\<exists>s'. ptr_run True 0 (Destroy 1) ({}, demo_store) = Ret s'"
    using own [THEN conjunct1] by blast
  moreover have "\<exists>!i. m_ptr (slot_of i demo_store) = Some 2"
    using own [THEN conjunct2, THEN conjunct2, THEN spec, of 2] by simp
  ultimately show ?thesis using demo_reachable by blast
qed

text \<open>
  The destructor of a lazy pointer deletes its object exactly when QML is built in and the engine does not own
  the object. Without \<open>QT_QML_LIB\<close> the check is always true, the object is released and nobody refers to it any
  more.
\<close>

theorem lazy_destructor_frees:
  assumes "ptr_reachable qml dflt (E, w)" and "m_ptr (slot_of i w) = Some o'"
  shows "\<exists>w'. lazy_destroy qml i w = Ret w'
      \<and> (objects w' o' = None \<longleftrightarrow> qml \<and> \<not> js_owned w o')
      \<and> (\<not> js_owned w o' \<longrightarrow> (\<forall>j. m_ptr (slot_of j w') \<noteq> Some o'))"
proof -
  note inv = ptr_reachable_inv [OF assms(1)]
  have o: "holds w i o'" "objects w o' \<noteq> None"
    using assms(2) ptr_invD(1) [OF inv, of i o'] by (simp_all add: holds_def)
  show ?thesis
  proof (cases qml)
    case True
    obtain w' where w': "lazy_destroy qml i w = Ret w'" "ptr_inv qml (E, w')"
      "objects w' = (\<lambda>o'. if qml \<and> holds w i o' \<and> \<not> js_owned w o' then None else objects w o')"
      by (rule destroy_inv [OF inv, where i = i])
    have "\<not> holds w' j o'" if "\<not> js_owned w o'" for j
      using ptr_invD(1) [OF w'(2), of j o'] w'(3) o that True by auto
    then show ?thesis using True w'(1,3) o unfolding holds_def by auto
  next
    case False
    have "\<not> holds w j o'" if "\<not> js_owned w o'" "j \<noteq> i" for j
      using ptr_invD(5) [OF inv, of j o' i] o(1) that by blast
    moreover have "lazy_destroy False i w = Ret (set_slot i None (set_slot i (Some \<lparr>m_ptr = None, m_destroyed = None\<rparr>) w))"
      using assms(2) by (simp add: lazy_destroy_def checkAndRelease_def delete_ptr_def)
    ultimately show ?thesis using False o(2) by (auto simp: holds_def)
  qed
qed

theorem lazy_destructor_frees_witness:
  "ptr_reachable False 0 ({}, demo_store_plain) \<and> m_ptr (slot_of 1 demo_store_plain) = Some 0
   \<and> (\<exists>w'. lazy_destroy False 1 demo_store_plain = Ret w' \<and> objects w' 0 \<noteq> None
        \<and> (\<forall>j. m_ptr (slot_of j w') \<noteq> Some 0))
   \<and> (\<exists>w'. lazy_destroy True 1 demo_store = Ret w' \<and> objects w' 2 = None)"
  using lazy_destructor_frees [OF demo_plain_reachable demo_plain_ptrs(1)] demo_plain_ptrs
    lazy_destructor_frees [OF demo_reachable demo_ptrs(2)] demo_plain_reachable by fastforce

text \<open>
  C30. Two lazy pointers compare like the messages they stand for, an unset one standing for a new message; the
  comparison changes nothing and makes no object.
\<close>

theorem lazy_pointers_compare:
  assumes "ptr_reachable True dflt (E, w)" and "eq dflt dflt" and "\<forall>v. eq v dflt = eq dflt v"
  shows "lazy_eq eq dflt i j w = Ret (eq (lazy_value dflt i w) (lazy_value dflt j w))"
proof -
  note inv = ptr_reachable_inv [OF assms(1)]
  have "object_value o' w = Ret (the (objects w o'))" if "m_ptr (slot_of k w) = Some o'" for k o'
    using ptr_invD(1) [OF inv, of k o'] that by (auto simp: holds_def object_value_def split: option.splits)
  then show ?thesis
    using assms(2) assms(3) [THEN spec, of "lazy_value dflt j w"]
    by (cases "m_ptr (slot_of i w)"; cases "m_ptr (slot_of j w)") (simp_all add: lazy_eq_def lazy_value_def)
qed

theorem lazy_pointers_compare_witness:
  "ptr_reachable True 0 ({}, demo_store) \<and> lazy_eq (=) 0 0 1 demo_store = Ret False
   \<and> lazy_eq (=) 0 1 5 demo_store = Ret True"
proof -
  have "lazy_eq (=) 0 i j demo_store = Ret (lazy_value 0 i demo_store = lazy_value 0 j demo_store)" for i j
    by (rule lazy_pointers_compare [OF demo_reachable]) auto
  moreover have "lazy_value 0 0 demo_store = 7" "lazy_value 0 1 demo_store = 0" "lazy_value 0 5 demo_store = 0"
    by (simp_all add: lazy_value_def) (simp add: demo_store_def demo_ops_def ptr_run_simps)
  ultimately show ?thesis using demo_reachable by simp
qed

text \<open>
  \<open>repeatedValueCompare\<close> compares lists of messages element by element, and two maps with the same keys value
  by value. Two maps of the same size that agree on the keys they share but do not have the same keys are not
  unequal: the comparison dereferences the null pointer that \<open>QMap::value\<close> returns for the missing key.
\<close>

theorem repeated_compare:
  assumes "reflp eq" and "None \<notin> set xs" "None \<notin> set ys" "None \<notin> snd ` set a" "None \<notin> snd ` set b"
    and "distinct (map fst a)" "distinct (map fst b)"
  shows "repeatedValueCompare_list eq heap xs ys =
           Ret (list_all2 eq (map (deref heap) xs) (map (deref heap) ys))
    \<and> (fst ` set a = fst ` set b \<longrightarrow> repeatedValueCompare_map eq heap a b = Ret (maps_agree eq heap a b))
    \<and> (length a = length b \<and> fst ` set a \<noteq> fst ` set b \<and> maps_agree eq heap a b \<longrightarrow>
         repeatedValueCompare_map eq heap a b = undefined_by Null_dereference)"
proof (intro conjI impI)
  show "repeatedValueCompare_list eq heap xs ys = Ret (list_all2 eq (map (deref heap) xs) (map (deref heap) ys))"
    using list_compare_values [OF assms(1) _ assms(2,3), of heap]
    by (auto simp: repeatedValueCompare_list_def dest: list_all2_lengthD)
  have nn: "\<forall>x \<in> set a. snd x \<noteq> None" "\<forall>x \<in> set b. snd x \<noteq> None"
    using assms(4,5) by force+
  note result = map_compare_result [OF assms(1) nn assms(7), of heap]
  have len: "length a = card (fst ` set a)" "length b = card (fst ` set b)"
    using distinct_card [OF assms(6)] distinct_card [OF assms(7)] by simp_all
  show "repeatedValueCompare_map eq heap a b = Ret (maps_agree eq heap a b)" if "fst ` set a = fst ` set b"
    using that len result(1) by (simp add: repeatedValueCompare_map_def)
  show "repeatedValueCompare_map eq heap a b = undefined_by Null_dereference"
    if diff: "length a = length b \<and> fst ` set a \<noteq> fst ` set b \<and> maps_agree eq heap a b"
    using diff len result(2) card_subset_eq [of "fst ` set b" "fst ` set a"]
    by (auto simp: repeatedValueCompare_map_def)
qed

theorem repeated_compare_witness:
  "repeatedValueCompare_list (=) id [Some 1] [Some (2::nat)] = Ret False
   \<and> repeatedValueCompare_map (=) id [(1::nat, Some 1)] [(1, Some 1)] = Ret True
   \<and> repeatedValueCompare_map (=) id [(1::nat, Some 1)] [(2, Some 1)] = undefined_by Null_dereference"
  using repeated_compare [of "(=)" "[Some 1]" "[Some 2]" "[(1::nat, Some 1)]" "[(1, Some 1)]" id]
    repeated_compare [of "(=)" "[Some 1]" "[Some 2]" "[(1::nat, Some 1)]" "[(2, Some 1)]" id]
  by (auto simp: maps_agree_def deref_def reflp_def)

text \<open>
  A list of messages owns the objects QML appends: clearing it deletes each of them, and only them. An object
  that was appended twice has two owners and is deleted twice.
\<close>

theorem qml_list_owns:
  assumes "\<forall>v \<in> set vs. objects w v \<noteq> None"
  shows "if distinct vs
     then \<exists>w'. qmllistpropertyReset (fold qmllistpropertyAppend vs ([], w)) = Ret ([], w')
          \<and> objects w' = (\<lambda>v. if v \<in> set vs then None else objects w v)
     else qmllistpropertyReset (fold qmllistpropertyAppend vs ([], w)) = undefined_by Use_after_free"
proof -
  have append: "fst (fold qmllistpropertyAppend vs p) = fst p @ vs"
    "objects (snd (fold qmllistpropertyAppend vs p)) = objects (snd p)" for vs and p :: "nat list \<times> 'a object_store"
    by (induction vs arbitrary: p) (simp_all add: qmllistpropertyAppend_def)
  let ?p = "fold qmllistpropertyAppend vs ([], w)"
  have p: "fst ?p = vs" "objects (snd ?p) = objects w" using append by simp_all
  show ?thesis
    using delete_all_result [of vs "snd ?p", unfolded p(2)] delete_all_twice [of vs "snd ?p"] assms
    by (auto simp: qmllistpropertyReset_def p)
qed

theorem qml_list_owns_witness:
  "qmllistpropertyReset (fold qmllistpropertyAppend [0, 0] ([], demo_store)) = undefined_by Use_after_free"
  using qml_list_owns [of "[0, 0]" demo_store] by (simp del: fold_simps)

end
