(* ===== verification/SerializerRegistry.thy ===== *)
theory SerializerRegistry
  imports QtPrelude
begin

section \<open>QProtobufSerializerRegistry\<close>

text \<open>
  The registry of serializers (\<open>qprotobufserializerregistry.cpp\<close>): the two built-in ones and those of plugins that
  are loaded by name. The plugin loader of Qt is a parameter, \<open>libraries\<close>: what \<open>QPluginLoader\<close> finds under a path.
  So are the conversions of \<open>QVariant\<close>, \<open>conv\<close>. A serializer is a value of type \<open>'s\<close>; pointers to serializers and
  to the records of plugins may be null. A \<open>float\<close> is its 32 bits, so that 0.0 is zero.
\<close>

record 'v variant_conv =
  toString :: "'v \<Rightarrow> string"
  toList :: "'v \<Rightarrow> 'v list"
  toMap :: "'v \<Rightarrow> (string \<times> 'v) list"
  toFloat :: "'v \<Rightarrow> 32 word"
  toInt :: "'v \<Rightarrow> int"
  invalid :: 'v

text \<open>
  A library: the JSON object of its metadata, whether it loads, and the serializers of its instance, which is
  \<open>None\<close> when the instance does not implement \<open>QProtobufSerializationPluginInterface\<close>.
\<close>

record ('v, 's) library =
  lib_metaData :: "(string \<times> 'v) list"
  lib_loads :: bool
  lib_instance :: "(string \<Rightarrow> 's option) option"

record ('v, 's) plugin_record =
  serializers :: "string \<Rightarrow> 's option option"
  pluginData :: "(string \<times> 'v) list"
  metaData :: "(string \<times> 'v) list"
  pluginLoadedName :: string
  typeArray :: "'v list"
  libPath :: string
  loader :: "('v, 's) library option"

record ('v, 's) serializer_registry =
  m_plugins :: "string \<Rightarrow> ('v, 's) plugin_record option option"
  m_pluginPath :: string

definition DefaultImpl :: string where "DefaultImpl = ''Default''"
definition ProtobufSerializer_id :: string where "ProtobufSerializer_id = ''protobuf''"
definition JsonSerializer_id :: string where "JsonSerializer_id = ''json''"

text \<open>\<open>QVariantMap::value\<close>: an invalid variant for a missing key.\<close>

definition variant_value :: "'v variant_conv \<Rightarrow> (string \<times> 'v) list \<Rightarrow> string \<Rightarrow> 'v" where
  "variant_value conv m key = (case map_of m key of Some v \<Rightarrow> v | None \<Rightarrow> invalid conv)"

subsection \<open>Records of plugins\<close>

definition new_plugin_record :: "('v, 's) plugin_record" where
  "new_plugin_record = \<lparr>serializers = (\<lambda>_. None), pluginData = [], metaData = [], pluginLoadedName = [],
     typeArray = [], libPath = [], loader = None\<rparr>"

definition createDefaultImpl :: "'s \<Rightarrow> 's \<Rightarrow> ('v, 's) plugin_record \<Rightarrow> ('v, 's) plugin_record" where
  "createDefaultImpl protobuf json r =
     (let r = (if serializers r ProtobufSerializer_id = None
               then r\<lparr>serializers := (serializers r)(ProtobufSerializer_id \<mapsto> Some protobuf)\<rparr> else r)
      in if serializers r JsonSerializer_id = None
         then r\<lparr>serializers := (serializers r)(JsonSerializer_id \<mapsto> Some json)\<rparr> else r)"

definition loadPluginMetadata :: "'v variant_conv \<Rightarrow> (string \<Rightarrow> ('v, 's) library) \<Rightarrow> string \<Rightarrow>
    ('v, 's) plugin_record \<Rightarrow> ('v, 's) plugin_record" where
  "loadPluginMetadata conv libraries fullFilePath r =
     (let r = r\<lparr>libPath := fullFilePath, loader := Some (libraries fullFilePath),
                pluginData := lib_metaData (libraries fullFilePath)\<rparr>;
          fullJson = pluginData r
      in if fullJson \<noteq> []
         then let meta = toMap conv (variant_value conv fullJson ''MetaData'')
              in r\<lparr>metaData := meta, pluginLoadedName := toString conv (variant_value conv meta ''name''),
                   typeArray := toList conv (variant_value conv meta ''types'')\<rparr>
         else r)"

text \<open>\<open>loadPluginImpl\<close> and the cast of its result.\<close>

definition loadPluginImpl :: "('v, 's) plugin_record \<Rightarrow> (string \<Rightarrow> 's option) option" where
  "loadPluginImpl r = (case loader r of None \<Rightarrow> None | Some l \<Rightarrow> if lib_loads l then lib_instance l else None)"

fun add_serializers :: "'v variant_conv \<Rightarrow> (string \<Rightarrow> 's option) \<Rightarrow> 'v list \<Rightarrow>
    (string \<Rightarrow> 's option option) \<Rightarrow> string \<Rightarrow> 's option option" where
  "add_serializers conv plugin [] m = m"
| "add_serializers conv plugin (t # ts) m =
     add_serializers conv plugin ts (m(toString conv t \<mapsto> plugin (toString conv t)))"

definition record_loadPlugin :: "'v variant_conv \<Rightarrow> ('v, 's) plugin_record \<Rightarrow> ('v, 's) plugin_record" where
  "record_loadPlugin conv r =
     (case loadPluginImpl r of
        Some loadedPlugin \<Rightarrow>
          if pluginData r \<noteq> []
          then r\<lparr>serializers := add_serializers conv loadedPlugin (typeArray r) (serializers r)\<rparr> else r
      | None \<Rightarrow> r)"

subsection \<open>The registry\<close>

text \<open>The constructor: \<open>path\<close> is the compiled-in plugin path, \<open>env\<close> the environment variable.\<close>

definition new_registry :: "'s \<Rightarrow> 's \<Rightarrow> string \<Rightarrow> string \<Rightarrow> ('v, 's) serializer_registry" where
  "new_registry protobuf json path env =
     \<lparr>m_plugins = [DefaultImpl \<mapsto> Some (createDefaultImpl protobuf json new_plugin_record)],
      m_pluginPath = (if env \<noteq> [] then env else path)\<rparr>"

definition lib_path :: "('v, 's) serializer_registry \<Rightarrow> string \<Rightarrow> string" where
  "lib_path R name = m_pluginPath R @ ''/'' @ ''lib'' @ name @ ''.so''"

text \<open>The name is asserted not to be empty.\<close>

definition loadPlugin :: "'v variant_conv \<Rightarrow> (string \<Rightarrow> ('v, 's) library) \<Rightarrow> string \<Rightarrow>
    ('v, 's) serializer_registry \<Rightarrow> string \<times> ('v, 's) serializer_registry" where
  "loadPlugin conv libraries name R =
     (let plugin = loadPluginMetadata conv libraries (lib_path R name) new_plugin_record;
          pluginName = pluginLoadedName plugin
      in if m_plugins R pluginName = None
         then (pluginName, R\<lparr>m_plugins := (m_plugins R)(pluginName \<mapsto> Some (record_loadPlugin conv plugin))\<rparr>)
         else (pluginName, R))"

text \<open>
  \<open>m_plugins[plugin]->serializers.at(sid)\<close>: the subscript operator makes a null pointer for an unknown plugin,
  \<open>at\<close> throws for an unknown serializer.
\<close>

definition getSerializer_of :: "string \<Rightarrow> string \<Rightarrow> ('v, 's) serializer_registry \<Rightarrow> 's option outcome" where
  "getSerializer_of sid plugin R =
     (case m_plugins R plugin of
        Some (Some r) \<Rightarrow> (case serializers r sid of Some s \<Rightarrow> Ret s | None \<Rightarrow> throw Out_of_range)
      | _ \<Rightarrow> undefined_by Null_dereference)"

definition getSerializer :: "string \<Rightarrow> ('v, 's) serializer_registry \<Rightarrow> 's option outcome" where
  "getSerializer sid R = getSerializer_of sid DefaultImpl R"

text \<open>The record of a plugin that was found.\<close>

definition implementation :: "string \<Rightarrow> ('v, 's) serializer_registry \<Rightarrow> ('v, 's) plugin_record option outcome" where
  "implementation plugin R =
     (case m_plugins R plugin of
        None \<Rightarrow> Ret None
      | Some None \<Rightarrow> undefined_by Null_dereference
      | Some (Some r) \<Rightarrow> Ret (Some r))"

definition pluginVersion :: "'v variant_conv \<Rightarrow> string \<Rightarrow> ('v, 's) serializer_registry \<Rightarrow> 32 word outcome" where
  "pluginVersion conv plugin R =
     and_then (implementation plugin R) (\<lambda>i. Ret (case i of None \<Rightarrow> 0
       | Some r \<Rightarrow> if metaData r = [] then 0 else toFloat conv (variant_value conv (metaData r) ''version'')))"

definition pluginSerializers :: "'v variant_conv \<Rightarrow> string \<Rightarrow> ('v, 's) serializer_registry \<Rightarrow> string list outcome" where
  "pluginSerializers conv plugin R =
     and_then (implementation plugin R) (\<lambda>i. Ret (case i of None \<Rightarrow> []
       | Some r \<Rightarrow> filter (\<lambda>s. s \<noteq> []) (map (toString conv) (toList conv (variant_value conv (metaData r) ''types'')))))"

definition pluginProtobufVersion :: "'v variant_conv \<Rightarrow> string \<Rightarrow> ('v, 's) serializer_registry \<Rightarrow> 32 word outcome" where
  "pluginProtobufVersion conv plugin R =
     and_then (implementation plugin R) (\<lambda>i. Ret (case i of None \<Rightarrow> 0
       | Some r \<Rightarrow> if metaData r = [] then 0 else toFloat conv (variant_value conv (metaData r) ''protobufVersion'')))"

definition pluginRating :: "'v variant_conv \<Rightarrow> string \<Rightarrow> ('v, 's) serializer_registry \<Rightarrow> int outcome" where
  "pluginRating conv plugin R =
     and_then (implementation plugin R) (\<lambda>i. Ret (case i of None \<Rightarrow> 0
       | Some r \<Rightarrow> if metaData r = [] then 0 else toInt conv (variant_value conv (metaData r) ''rating'')))"

subsection \<open>Histories\<close>

text \<open>Registries of a program that loads plugins by name; the lookups do not change the registry.\<close>

inductive registry_of :: "'v variant_conv \<Rightarrow> (string \<Rightarrow> ('v, 's) library) \<Rightarrow> ('v, 's) serializer_registry \<Rightarrow>
    ('v, 's) serializer_registry \<Rightarrow> bool" for conv libraries R0 where
  made: "registry_of conv libraries R0 R0"
| loaded: "registry_of conv libraries R0 R \<Longrightarrow> name \<noteq> [] \<Longrightarrow> registry_of conv libraries R0 (snd (loadPlugin conv libraries name R))"

text \<open>The name and the serializers in the metadata of a library.\<close>

definition library_meta :: "'v variant_conv \<Rightarrow> ('v, 's) library \<Rightarrow> (string \<times> 'v) list" where
  "library_meta conv l = toMap conv (variant_value conv (lib_metaData l) ''MetaData'')"

definition library_name :: "'v variant_conv \<Rightarrow> ('v, 's) library \<Rightarrow> string" where
  "library_name conv l = toString conv (variant_value conv (library_meta conv l) ''name'')"

definition library_types :: "'v variant_conv \<Rightarrow> ('v, 's) library \<Rightarrow> string list" where
  "library_types conv l = map (toString conv) (toList conv (variant_value conv (library_meta conv l) ''types''))"

lemma add_serializers_value:
  "add_serializers conv plugin ts m t =
     (if t \<in> toString conv ` set ts then Some (plugin t) else m t)"
  by (induction ts arbitrary: m) auto

lemma loadPlugin_keeps: "m_plugins R p \<noteq> None \<Longrightarrow> m_plugins (snd (loadPlugin conv libraries name R)) p = m_plugins R p"
  by (auto simp: loadPlugin_def Let_def)

lemma loadPlugin_no_null:
  "m_plugins R p \<noteq> Some None \<Longrightarrow> m_plugins (snd (loadPlugin conv libraries name R)) p \<noteq> Some None"
  by (auto simp: loadPlugin_def Let_def)

text \<open>What is registered stays registered.\<close>

lemma registry_keeps:
  "registry_of conv libraries R0 R \<Longrightarrow> m_plugins R0 p \<noteq> None \<Longrightarrow> m_plugins R p = m_plugins R0 p"
proof (induction rule: registry_of.induct)
  case (loaded R name)
  then show ?case using loadPlugin_keeps [of R p] by auto
qed simp

lemma registry_no_null:
  "registry_of conv libraries R0 R \<Longrightarrow> m_plugins R0 p \<noteq> Some None \<Longrightarrow> m_plugins R p \<noteq> Some None"
proof (induction rule: registry_of.induct)
  case (loaded R name)
  then show ?case using loadPlugin_no_null by blast
qed simp

lemma default_serializers [simp]:
  "serializers (createDefaultImpl protobuf json new_plugin_record) =
     [ProtobufSerializer_id \<mapsto> Some protobuf, JsonSerializer_id \<mapsto> Some json]"
  by (simp add: createDefaultImpl_def new_plugin_record_def ProtobufSerializer_id_def JsonSerializer_id_def)

lemma registry_default:
  assumes "registry_of conv libraries (new_registry protobuf json path env) R"
  shows "m_plugins R DefaultImpl = Some (Some (createDefaultImpl protobuf json new_plugin_record))"
  using registry_keeps [OF assms, of DefaultImpl] by (simp add: new_registry_def)

text \<open>A library with one serializer, its metadata as a JSON tree.\<close>

datatype demo_variant = DInvalid | DStr string | DList "demo_variant list" | DMap "(string \<times> demo_variant) list"

definition demo_conv :: "demo_variant variant_conv" where
  "demo_conv = \<lparr>toString = (\<lambda>v. case v of DStr s \<Rightarrow> s | _ \<Rightarrow> []), toList = (\<lambda>v. case v of DList l \<Rightarrow> l | _ \<Rightarrow> []),
     toMap = (\<lambda>v. case v of DMap m \<Rightarrow> m | _ \<Rightarrow> []), toFloat = (\<lambda>_. 0), toInt = (\<lambda>_. 0), invalid = DInvalid\<rparr>"

definition demo_libraries :: "string \<Rightarrow> (demo_variant, nat) library" where
  "demo_libraries path =
     (if path = ''plugins/libtext.so''
      then \<lparr>lib_metaData = [(''MetaData'', DMap [(''name'', DStr ''text''), (''types'', DList [DStr ''xml''])])],
            lib_loads = True, lib_instance = Some (\<lambda>t. Some 3)\<rparr>
      else \<lparr>lib_metaData = [], lib_loads = False, lib_instance = None\<rparr>)"

abbreviation demo_registry :: "(demo_variant, nat) serializer_registry" where
  "demo_registry \<equiv> new_registry 5 6 ''plugins'' []"

lemma demo_libPath: "lib_path demo_registry ''text'' = ''plugins/libtext.so''"
  by (simp add: lib_path_def new_registry_def)

lemma demo_metadata:
  "pluginLoadedName (loadPluginMetadata demo_conv demo_libraries ''plugins/libtext.so'' new_plugin_record) = ''text''"
  by (simp add: loadPluginMetadata_def demo_libraries_def demo_conv_def variant_value_def Let_def)

lemma demo_new_name: "m_plugins demo_registry ''text'' = None"
  by (simp add: new_registry_def DefaultImpl_def)

lemma demo_load: "fst (loadPlugin demo_conv demo_libraries ''text'' demo_registry) = ''text''"
  by (simp add: loadPlugin_def Let_def demo_libPath demo_metadata)

text \<open>
  C31. Whatever plugins are loaded, the registry hands out the two built-in serializers under their names and throws
  \<open>std::out_of_range\<close> for every other one. Asking for a serializer of a plugin that was not loaded does not throw:
  the subscript operator makes a null pointer, which is dereferenced.
\<close>

theorem default_serializers_kept:
  assumes "registry_of conv libraries (new_registry protobuf json path env) R"
  shows "getSerializer ''protobuf'' R = Ret (Some protobuf) \<and> getSerializer ''json'' R = Ret (Some json)
    \<and> (\<forall>sid. sid \<noteq> ''protobuf'' \<and> sid \<noteq> ''json'' \<longrightarrow> getSerializer sid R = throw Out_of_range)
    \<and> (\<forall>sid plugin. m_plugins R plugin = None \<longrightarrow> getSerializer_of sid plugin R = undefined_by Null_dereference)"
  using registry_default [OF assms]
  by (simp add: getSerializer_def getSerializer_of_def ProtobufSerializer_id_def JsonSerializer_id_def)

theorem default_serializers_kept_witness:
  "registry_of demo_conv demo_libraries demo_registry (snd (loadPlugin demo_conv demo_libraries ''text'' demo_registry))
   \<and> getSerializer ''json'' (snd (loadPlugin demo_conv demo_libraries ''text'' demo_registry)) = Ret (Some 6)
   \<and> getSerializer_of ''json'' ''other'' demo_registry = undefined_by Null_dereference"
proof -
  let ?R = "snd (loadPlugin demo_conv demo_libraries ''text'' demo_registry)"
  have R: "registry_of demo_conv demo_libraries demo_registry ?R"
    by (rule registry_of.loaded [OF registry_of.made]) simp
  have R0: "registry_of demo_conv demo_libraries demo_registry demo_registry"
    by (rule registry_of.made)
  have "m_plugins demo_registry ''other'' = None" by (simp add: new_registry_def DefaultImpl_def)
  then show ?thesis
    using R default_serializers_kept [OF R] default_serializers_kept [OF R0] by simp
qed

text \<open>
  A plugin that is loaded under a new name offers exactly the serializers its metadata lists, the ones its
  instance makes, now and after any further plugins, and \<open>pluginSerializers\<close> lists them (without empty names). A
  library that cannot be loaded is registered all the same, without serializers.
\<close>

theorem plugin_serializers_found:
  assumes "registry_of conv libraries (new_registry protobuf json path env) R" and "name \<noteq> []"
    and "lib_metaData (libraries (lib_path R name)) \<noteq> []"
    and "loadPlugin conv libraries name R = (pluginName, R')" and "m_plugins R pluginName = None"
    and "registry_of conv libraries R' R''"
  shows "pluginName = library_name conv (libraries (lib_path R name))
    \<and> pluginSerializers conv pluginName R'' =
        Ret (filter (\<lambda>s. s \<noteq> []) (library_types conv (libraries (lib_path R name))))
    \<and> getSerializer_of sid pluginName R'' =
        (case lib_instance (libraries (lib_path R name)) of
           Some create \<Rightarrow>
             if lib_loads (libraries (lib_path R name)) \<and> sid \<in> set (library_types conv (libraries (lib_path R name)))
             then Ret (create sid) else throw Out_of_range
         | None \<Rightarrow> throw Out_of_range)"
proof -
  let ?m = "loadPluginMetadata conv libraries (lib_path R name) new_plugin_record"
  have "m_plugins R' pluginName = Some (Some (record_loadPlugin conv ?m))"
    using assms(4,5) by (auto simp: loadPlugin_def Let_def split: if_splits)
  then have r: "m_plugins R'' pluginName = Some (Some (record_loadPlugin conv ?m))"
    using registry_keeps [OF assms(6), of pluginName] by simp
  have name: "pluginName = pluginLoadedName ?m"
    using assms(4) by (auto simp: loadPlugin_def Let_def split: if_splits)
  show ?thesis
    using name r assms(3)
    by (simp add: getSerializer_of_def pluginSerializers_def implementation_def record_loadPlugin_def
        loadPluginMetadata_def loadPluginImpl_def add_serializers_value library_name_def library_types_def
        library_meta_def new_plugin_record_def Let_def split: option.splits)
qed

theorem plugin_serializers_found_witness:
  "getSerializer_of ''xml'' ''text'' (snd (loadPlugin demo_conv demo_libraries ''text'' demo_registry)) = Ret (Some 3)
   \<and> pluginSerializers demo_conv ''text'' (snd (loadPlugin demo_conv demo_libraries ''text'' demo_registry)) = Ret [''xml'']"
proof -
  let ?R = "snd (loadPlugin demo_conv demo_libraries ''text'' demo_registry)"
  have types: "library_types demo_conv (demo_libraries ''plugins/libtext.so'') = [''xml'']"
    by (simp add: library_types_def library_meta_def demo_libraries_def demo_conv_def variant_value_def)
  have load: "loadPlugin demo_conv demo_libraries ''text'' demo_registry = (''text'', ?R)"
    using demo_load by (metis prod.collapse)
  have meta: "lib_metaData (demo_libraries (lib_path demo_registry ''text'')) \<noteq> []"
    by (simp add: demo_libPath demo_libraries_def)
  show ?thesis
    using plugin_serializers_found [OF registry_of.made _ meta load demo_new_name registry_of.made, of "''xml''"]
    by (simp only: demo_libPath types) (simp add: demo_libraries_def)
qed

end
