(* ===== verification/QmlStream.thy ===== *)
theory QmlStream
  imports GrpcStatus
begin

section \<open>GrpcStream of QML\<close>

text \<open>
  \<open>QQuickGrpcStream\<close> (\<open>qquickgrpcstream.cpp\<close>, \<open>qquickgrpcstream_p.h\<close>): an item of QML that keeps one stream of a
  client open while it is enabled and its properties are set. The properties notify the engine; handlers of QML
  that set properties again are not part of the model.

  Objects are numbered. The metatype system of Qt and the clients are parameters: the methods of a client, the class
  of an object, what the metatype system knows of a type name, and \<open>invoke\<close>, the stream a client answers the
  \<open>n\<close>-th call with (\<open>None\<close> when the call fails or returns a null pointer). \<open>q_connected\<close> are the streams
  whose signals are connected to the item; a connection lasts as long as the stream. A call that sets a property
  may come back to the item through the signal \<open>finished\<close> of its own stream; \<open>fuel\<close> is how deep these calls nest.
\<close>

record meta_method =
  mm_name :: string
  mm_types :: "string list"

record qml_env =
  client_methods :: "nat \<Rightarrow> meta_method list"
  object_class :: "nat \<Rightarrow> string"
  type_valid :: "string \<Rightarrow> bool"
  type_meta :: "string \<Rightarrow> string option"
  class_registered :: "string \<Rightarrow> bool"
  class_copies :: "string \<Rightarrow> bool"
  class_creates :: "string \<Rightarrow> bool"
  upper :: "char \<Rightarrow> char"
  invoke :: "nat \<Rightarrow> nat \<Rightarrow> string \<Rightarrow> nat \<Rightarrow> nat option"

datatype qml_signal = MessageReceived "nat option" | ErrorSignal qgrpc_status | ClientChanged | MethodChanged
  | EnabledChanged | ArgumentChanged | ReturnValueChanged

record qml_stream =
  q_client :: "nat option"
  q_enabled :: bool
  q_method :: string
  q_argument :: "nat option"
  q_stream :: "nat option"
  q_returnValue :: "nat option"
  q_connected :: "nat set"
  q_calls :: nat
  q_objects :: nat
  q_signals :: "qml_signal list"

definition new_qml_stream :: qml_stream where
  "new_qml_stream = \<lparr>q_client = None, q_enabled = False, q_method = [], q_argument = None, q_stream = None,
     q_returnValue = None, q_connected = {}, q_calls = 0, q_objects = 0, q_signals = []\<rparr>"

definition q_emit :: "qml_signal \<Rightarrow> qml_stream \<Rightarrow> qml_stream" where
  "q_emit x s = s\<lparr>q_signals := q_signals s @ [x]\<rparr>"

subsection \<open>Starting a stream\<close>

definition qml_method_name :: "qml_env \<Rightarrow> string \<Rightarrow> string" where
  "qml_method_name X m = ''qmlStream'' @ (case m of [] \<Rightarrow> [] | c # cs \<Rightarrow> upper X c # cs) @ ''_p''"

definition quoted :: "string \<Rightarrow> string" where
  "quoted t = CHR 0x27 # t @ [CHR 0x27]"

definition stream_failed :: "StatusCode \<Rightarrow> string \<Rightarrow> qml_stream \<Rightarrow> (bool \<times> qml_stream) outcome" where
  "stream_failed code errorString s = Ret (False, q_emit (ErrorSignal (mk_status code (qs errorString))) s)"

text \<open>The last part of \<open>stream()\<close>: make the return value, call the method, connect the stream.\<close>

definition stream_invoke :: "qml_env \<Rightarrow> nat \<Rightarrow> meta_method \<Rightarrow> string \<Rightarrow> qml_stream \<Rightarrow> (bool \<times> qml_stream) outcome" where
  "stream_invoke X client method retClass s =
     (let s = q_emit ReturnValueChanged
            (s\<lparr>q_returnValue := (if class_creates X retClass then Some (q_objects s) else None),
               q_objects := Suc (q_objects s)\<rparr>)
      in case q_returnValue s of
           None \<Rightarrow> stream_failed Unknown ''Unable to allocate return value. Unknown metatype system error'' s
         | Some r \<Rightarrow>
             let s' = s\<lparr>q_calls := Suc (q_calls s)\<rparr>
             in case invoke X (q_calls s) client (mm_name method) r of
                  None \<Rightarrow> stream_failed Unknown (''Unable to call '' @ q_method s @ '' invalidate stream.'') s'
                | Some st \<Rightarrow> Ret (True, s'\<lparr>q_stream := Some st, q_connected := insert st (q_connected s)\<rparr>))"

text \<open>\<open>stream()\<close>; it is called with a client, a method and an argument.\<close>

definition stream :: "qml_env \<Rightarrow> nat \<Rightarrow> nat \<Rightarrow> qml_stream \<Rightarrow> (bool \<times> qml_stream) outcome" where
  "stream X client argument s =
     (case find (\<lambda>m. qml_method_name X (q_method s) = mm_name m) (client_methods X client) of
        None \<Rightarrow> stream_failed Unimplemented (q_method s @ ''is not either server or bidirectional stream.'') s
      | Some method \<Rightarrow>
          let name = mm_name method; argClass = object_class X argument
          in if length (mm_types method) < 2
             then stream_failed InvalidArgument (''Unable to call '' @ name @ ''. Invalid arguments set.'') s
             else if type_meta X (mm_types method ! 0) \<noteq> Some argClass
             then stream_failed InvalidArgument (''Unable to call '' @ name @ ''. Argument type mismatch: '' @
                    quoted (mm_types method ! 0) @ '' expected, '' @ quoted argClass @ '' provided'') s
             else if \<not> class_registered X argClass
             then stream_failed InvalidArgument (''Argument of type '' @ quoted argClass @
                    '' is not registred in metatype system'') s
             else if \<not> class_copies X argClass
             then stream_failed InvalidArgument ''Unable to create argument copy. Unknown metatype system error'' s
             else if \<not> type_valid X (mm_types method ! 1)
             then stream_failed InvalidArgument (''Return type argument of type '' @ quoted (mm_types method ! 1) @
                    '' is not registred in metatype system'') s
             else case type_meta X (mm_types method ! 1) of
                 None \<Rightarrow> undefined_by Null_dereference
               | Some retClass \<Rightarrow>
                   if \<not> class_registered X retClass
                   then stream_failed InvalidArgument (''Unable to allocate return value. '' @ quoted retClass @
                          '' is not registred in metatype system'') s
                   else stream_invoke X client method retClass s)"

subsection \<open>Properties of the item\<close>

text \<open>
  \<open>setEnabled\<close> and \<open>updateStream\<close> call each other: \<open>abort\<close> emits \<open>finished\<close>, whose lambda forgets the stream and
  disables the item. \<open>update\<close> stands for \<open>updateStream\<close> in \<open>set_enabled\<close>.
\<close>

definition set_enabled :: "(qml_stream \<Rightarrow> qml_stream outcome) \<Rightarrow> bool \<Rightarrow> qml_stream \<Rightarrow> qml_stream outcome" where
  "set_enabled update enabled s =
     (if q_enabled s = enabled then Ret s else update (q_emit EnabledChanged (s\<lparr>q_enabled := enabled\<rparr>)))"

definition on_finished :: "(qml_stream \<Rightarrow> qml_stream outcome) \<Rightarrow> nat \<Rightarrow> qml_stream \<Rightarrow> qml_stream outcome" where
  "on_finished update i s =
     (if i \<in> q_connected s then set_enabled update False (s\<lparr>q_stream := None\<rparr>) else Ret s)"

definition drop_returnValue :: "qml_stream \<Rightarrow> qml_stream" where
  "drop_returnValue s =
     (if q_returnValue s \<noteq> None then q_emit ReturnValueChanged (s\<lparr>q_returnValue := None\<rparr>) else s)"

fun updateStream :: "qml_env \<Rightarrow> nat \<Rightarrow> qml_stream \<Rightarrow> qml_stream outcome" where
  "updateStream X 0 s = No_fuel"
| "updateStream X (Suc fuel) s =
     and_then (case q_stream s of
         None \<Rightarrow> Ret s
       | Some i \<Rightarrow> and_then (on_finished (updateStream X fuel) i s) (\<lambda>s. Ret (s\<lparr>q_stream := None\<rparr>)))
     (\<lambda>s. let s = drop_returnValue s
          in case (q_client s, q_argument s) of
               (Some client, Some argument) \<Rightarrow>
                 if q_method s = [] \<or> \<not> q_enabled s then Ret s
                 else and_then (stream X client argument s) (\<lambda>(ok, s).
                        if ok then Ret s else set_enabled (updateStream X fuel) False s)
             | _ \<Rightarrow> Ret s)"

definition setEnabled :: "qml_env \<Rightarrow> nat \<Rightarrow> bool \<Rightarrow> qml_stream \<Rightarrow> qml_stream outcome" where
  "setEnabled X fuel enabled s = set_enabled (updateStream X fuel) enabled s"

definition setClient :: "qml_env \<Rightarrow> nat \<Rightarrow> nat option \<Rightarrow> qml_stream \<Rightarrow> qml_stream outcome" where
  "setClient X fuel client s =
     (if q_client s = client then Ret s else updateStream X fuel (q_emit ClientChanged (s\<lparr>q_client := client\<rparr>)))"

definition setMethod :: "qml_env \<Rightarrow> nat \<Rightarrow> string \<Rightarrow> qml_stream \<Rightarrow> qml_stream outcome" where
  "setMethod X fuel method s =
     (if q_method s = method then Ret s else updateStream X fuel (q_emit MethodChanged (s\<lparr>q_method := method\<rparr>)))"

definition setArgument :: "qml_env \<Rightarrow> nat \<Rightarrow> nat option \<Rightarrow> qml_stream \<Rightarrow> qml_stream outcome" where
  "setArgument X fuel argument s =
     (if q_argument s = argument then Ret s
      else updateStream X fuel (q_emit ArgumentChanged (s\<lparr>q_argument := argument\<rparr>)))"

text \<open>What a connected stream reports.\<close>

definition on_message :: "nat \<Rightarrow> qml_stream \<Rightarrow> qml_stream" where
  "on_message i s = (if i \<in> q_connected s then q_emit (MessageReceived (q_returnValue s)) s else s)"

definition on_error :: "nat \<Rightarrow> qgrpc_status \<Rightarrow> qml_stream \<Rightarrow> qml_stream" where
  "on_error i st s = (if i \<in> q_connected s then q_emit (ErrorSignal st) s else s)"

text \<open>The client or the argument is destroyed; the item has guarded pointers to them.\<close>

definition client_destroyed :: "qml_stream \<Rightarrow> qml_stream" where
  "client_destroyed s = s\<lparr>q_client := None\<rparr>"

definition argument_destroyed :: "qml_stream \<Rightarrow> qml_stream" where
  "argument_destroyed s = s\<lparr>q_argument := None\<rparr>"

text \<open>The destructor.\<close>

definition qml_destroy :: "qml_env \<Rightarrow> nat \<Rightarrow> qml_stream \<Rightarrow> qml_stream outcome" where
  "qml_destroy X fuel s =
     and_then (case q_stream s of None \<Rightarrow> Ret s | Some i \<Rightarrow> on_finished (updateStream X fuel) i s)
       (\<lambda>s. Ret (s\<lparr>q_returnValue := None\<rparr>))"

datatype qml_event = SetClient "nat option" | SetMethod string | SetArgument "nat option" | SetEnabled bool
  | StreamFinished nat | StreamMessage nat | StreamError nat qgrpc_status | ClientDestroyed | ArgumentDestroyed

fun qml_handle :: "qml_env \<Rightarrow> nat \<Rightarrow> qml_event \<Rightarrow> qml_stream \<Rightarrow> qml_stream outcome" where
  "qml_handle X fuel (SetClient c) s = setClient X fuel c s"
| "qml_handle X fuel (SetMethod m) s = setMethod X fuel m s"
| "qml_handle X fuel (SetArgument a) s = setArgument X fuel a s"
| "qml_handle X fuel (SetEnabled b) s = setEnabled X fuel b s"
| "qml_handle X fuel (StreamFinished i) s = on_finished (updateStream X fuel) i s"
| "qml_handle X fuel (StreamMessage i) s = Ret (on_message i s)"
| "qml_handle X fuel (StreamError i st) s = Ret (on_error i st s)"
| "qml_handle X fuel ClientDestroyed s = Ret (client_destroyed s)"
| "qml_handle X fuel ArgumentDestroyed s = Ret (argument_destroyed s)"

inductive qml_reachable :: "qml_env \<Rightarrow> nat \<Rightarrow> qml_stream \<Rightarrow> bool" for X fuel where
  created: "qml_reachable X fuel new_qml_stream"
| handled: "qml_reachable X fuel s \<Longrightarrow> qml_handle X fuel e s = Ret s' \<Longrightarrow> qml_reachable X fuel s'"

subsection \<open>Updates, case by case\<close>

definition item_complete :: "qml_stream \<Rightarrow> bool" where
  "item_complete s \<longleftrightarrow> q_client s \<noteq> None \<and> q_argument s \<noteq> None \<and> q_method s \<noteq> []"

text \<open>
  What the item relies on: a method of a client that has the name of a streaming method takes an object as its second
  argument, whose type, if the metatype system knows it, has a meta object. The methods of generated clients do. The meta
  object of a type that is no class, such as \<open>int\<close>, is null.
\<close>

definition streams_take_objects :: "qml_env \<Rightarrow> bool" where
  "streams_take_objects X \<longleftrightarrow>
     (\<forall>client. \<forall>m \<in> set (client_methods X client). take 9 (mm_name m) = ''qmlStream'' \<and> 2 \<le> length (mm_types m) \<and>
        type_valid X (mm_types m ! 1) \<longrightarrow> type_meta X (mm_types m ! 1) \<noteq> None)"

fun is_error :: "qml_signal \<Rightarrow> bool" where
  "is_error (ErrorSignal _) = True"
| "is_error _ = False"

definition errors :: "qml_stream \<Rightarrow> nat" where
  "errors s = length (filter is_error (q_signals s))"

lemma q_emit_sel [simp]:
  "q_client (q_emit x s) = q_client s" "q_enabled (q_emit x s) = q_enabled s" "q_method (q_emit x s) = q_method s"
  "q_argument (q_emit x s) = q_argument s" "q_stream (q_emit x s) = q_stream s"
  "q_returnValue (q_emit x s) = q_returnValue s" "q_connected (q_emit x s) = q_connected s"
  "q_calls (q_emit x s) = q_calls s" "q_objects (q_emit x s) = q_objects s"
  "q_signals (q_emit x s) = q_signals s @ [x]" "errors (q_emit x s) = errors s + of_bool (is_error x)"
  by (simp_all add: q_emit_def errors_def)

lemma errors_update [simp]:
  "errors (s\<lparr>q_client := c\<rparr>) = errors s" "errors (s\<lparr>q_enabled := b\<rparr>) = errors s" "errors (s\<lparr>q_method := m\<rparr>) = errors s"
  "errors (s\<lparr>q_argument := a\<rparr>) = errors s" "errors (s\<lparr>q_stream := st\<rparr>) = errors s"
  "errors (s\<lparr>q_returnValue := r\<rparr>) = errors s" "errors (s\<lparr>q_connected := k\<rparr>) = errors s"
  "errors (s\<lparr>q_calls := n\<rparr>) = errors s" "errors (s\<lparr>q_objects := n\<rparr>) = errors s"
  by (simp_all add: errors_def)

lemma drop_returnValue_sel [simp]:
  "q_client (drop_returnValue s) = q_client s" "q_enabled (drop_returnValue s) = q_enabled s"
  "q_method (drop_returnValue s) = q_method s" "q_argument (drop_returnValue s) = q_argument s"
  "q_stream (drop_returnValue s) = q_stream s" "q_returnValue (drop_returnValue s) = None"
  "q_connected (drop_returnValue s) = q_connected s" "q_calls (drop_returnValue s) = q_calls s"
  "errors (drop_returnValue s) = errors s"
  by (simp_all add: drop_returnValue_def)

text \<open>The state of an item without a stream.\<close>

definition at_rest :: "qml_stream \<Rightarrow> qml_stream \<Rightarrow> bool" where
  "at_rest s s' \<longleftrightarrow> q_stream s' = None \<and> q_returnValue s' = None \<and> q_client s' = q_client s \<and> q_method s' = q_method s
     \<and> q_argument s' = q_argument s \<and> q_connected s' = q_connected s \<and> q_calls s' = q_calls s"

lemma update_idle:
  "q_stream s = None \<Longrightarrow> \<not> (item_complete s \<and> q_enabled s) \<Longrightarrow> updateStream X (Suc n) s = Ret (drop_returnValue s)"
  by (cases "q_client s"; cases "q_argument s") (auto simp: item_complete_def Let_def)

lemma disable:
  assumes "q_stream s = None"
  shows "\<exists>s'. set_enabled (updateStream X (Suc n)) False s = Ret s' \<and> \<not> q_enabled s'
     \<and> (q_enabled s \<or> q_returnValue s = None \<longrightarrow> at_rest s s') \<and> errors s' = errors s"
  using assms update_idle [of "q_emit EnabledChanged (s\<lparr>q_enabled := False\<rparr>)" X n]
  by (auto simp: set_enabled_def at_rest_def)

lemma update_running:
  assumes "q_stream s = Some i" "i \<in> q_connected s" "q_enabled s"
  shows "\<exists>s'. updateStream X (Suc (Suc n)) s = Ret s' \<and> \<not> q_enabled s' \<and> at_rest s s' \<and> errors s' = errors s"
proof -
  obtain s1 where s1: "set_enabled (updateStream X (Suc n)) False (s\<lparr>q_stream := None\<rparr>) = Ret s1" "\<not> q_enabled s1"
      "at_rest (s\<lparr>q_stream := None\<rparr>) s1" "errors s1 = errors s"
    using disable [of "s\<lparr>q_stream := None\<rparr>" X n] assms by auto
  then show ?thesis
    using assms by (cases "q_client s"; cases "q_argument s") (auto simp: on_finished_def at_rest_def Let_def)
qed

text \<open>The result of starting a stream: it runs, or one error was reported.\<close>

definition started :: "qml_stream \<Rightarrow> bool \<Rightarrow> qml_stream \<Rightarrow> bool" where
  "started s ok s' \<longleftrightarrow> q_client s' = q_client s \<and> q_method s' = q_method s \<and> q_argument s' = q_argument s
     \<and> (ok \<longrightarrow> q_returnValue s' \<noteq> None \<and> errors s' = errors s
          \<and> (\<exists>st. q_stream s' = Some st \<and> q_connected s' = insert st (q_connected s)))
     \<and> (\<not> ok \<longrightarrow> q_stream s' = None \<and> errors s' = Suc (errors s) \<and> q_connected s' = q_connected s)"

lemma stream_invoke_result:
  assumes "q_stream s = None"
  shows "\<exists>ok s'. stream_invoke X client method retClass s = Ret (ok, s') \<and> started s ok s' \<and> q_enabled s' = q_enabled s"
  using assms by (auto simp: stream_invoke_def stream_failed_def started_def Let_def split: option.splits)

lemma stream_result:
  assumes "q_stream s = None" "streams_take_objects X"
  shows "\<exists>ok s'. stream X client argument s = Ret (ok, s') \<and> started s ok s' \<and> q_enabled s' = q_enabled s"
proof -
  have failed: "\<exists>ok s'. stream_failed c t s = Ret (ok, s') \<and> started s ok s' \<and> q_enabled s' = q_enabled s" for c t
    using assms(1) by (auto simp: stream_failed_def started_def)
  have "type_meta X (mm_types m ! 1) \<noteq> None"
    if "find (\<lambda>m. qml_method_name X (q_method s) = mm_name m) (client_methods X client) = Some m"
      "\<not> length (mm_types m) < 2" "type_valid X (mm_types m ! 1)" for m
  proof -
    have "m \<in> set (client_methods X client)" "mm_name m = qml_method_name X (q_method s)"
      using that(1) by (auto simp: find_Some_iff)
    moreover from this(2) have "take 9 (mm_name m) = ''qmlStream''" by (simp add: qml_method_name_def)
    ultimately show ?thesis using assms(2) that(2,3) by (auto simp: streams_take_objects_def)
  qed
  then show ?thesis
    unfolding stream_def Let_def using failed stream_invoke_result [OF assms(1)]
    by (auto split: option.split)
qed

text \<open>A complete, enabled item without a stream starts one, or reports one error and is disabled.\<close>

lemma update_starts:
  assumes "q_stream s = None" "item_complete s" "q_enabled s" "streams_take_objects X"
  shows "\<exists>s'. updateStream X (Suc (Suc n)) s = Ret s' \<and> started s (q_enabled s') s' \<and> (\<not> q_enabled s' \<longrightarrow> q_returnValue s' = None)"
proof -
  obtain client argument where ca: "q_client s = Some client" "q_argument s = Some argument" "q_method s \<noteq> []"
    using assms(2) by (auto simp: item_complete_def)
  obtain ok s1 where s1: "stream X client argument (drop_returnValue s) = Ret (ok, s1)" "started s ok s1" "q_enabled s1"
    using stream_result [of "drop_returnValue s" X client argument] assms by (auto simp: started_def)
  have eq: "updateStream X (Suc (Suc n)) s =
      (if ok then Ret s1 else set_enabled (updateStream X (Suc n)) False s1)"
    using assms(1,3) ca s1(1) by (simp add: Let_def)
  show ?thesis
  proof (cases ok)
    case True
    then show ?thesis using s1 unfolding eq by auto
  next
    case False
    then obtain s2 where "set_enabled (updateStream X (Suc n)) False s1 = Ret s2" "\<not> q_enabled s2" "at_rest s1 s2"
        "errors s2 = errors s1"
      using disable [of s1 X n] s1(2,3) by (auto simp: started_def)
    then show ?thesis using False s1 unfolding eq by (auto simp: at_rest_def started_def)
  qed
qed

subsection \<open>The invariant of the item\<close>

definition qml_inv :: "qml_stream \<Rightarrow> bool" where
  "qml_inv s \<longleftrightarrow> (q_stream s = None \<longleftrightarrow> q_returnValue s = None)
     \<and> (\<forall>i. q_stream s = Some i \<longrightarrow> i \<in> q_connected s \<and> q_enabled s)
     \<and> (q_enabled s \<and> item_complete s \<longrightarrow> q_stream s \<noteq> None)"

text \<open>An update keeps it, whichever property was changed before.\<close>

lemma update_inv:
  assumes "streams_take_objects X" and "\<forall>i. q_stream s = Some i \<longrightarrow> i \<in> q_connected s"
  shows "\<exists>s'. updateStream X (Suc (Suc n)) s = Ret s' \<and> qml_inv s'"
proof (cases "q_stream s")
  case None
  show ?thesis
  proof (cases "item_complete s \<and> q_enabled s")
    case True
    then show ?thesis using update_starts [OF None _ _ assms(1), of n] by (fastforce simp: qml_inv_def started_def)
  next
    case False
    then show ?thesis
      using update_idle [OF None False, of X "Suc n"] None by (auto simp: qml_inv_def item_complete_def)
  qed
next
  case (Some i)
  show ?thesis
  proof (cases "q_enabled s")
    case True
    then show ?thesis using update_running [OF Some _ True, of X n] assms(2) Some by (auto simp: qml_inv_def at_rest_def)
  next
    case False
    then show ?thesis
      using Some by (cases "q_client s"; cases "q_argument s")
        (auto simp: on_finished_def set_enabled_def Let_def qml_inv_def item_complete_def)
  qed
qed

lemma finished_inv:
  assumes "qml_inv s"
  shows "\<exists>s'. on_finished (updateStream X (Suc n)) i s = Ret s' \<and> qml_inv s'"
proof (cases "i \<in> q_connected s")
  case True
  have rest: "q_enabled s \<or> q_returnValue s = None" using assms by (auto simp: qml_inv_def)
  obtain s' where "set_enabled (updateStream X (Suc n)) False (s\<lparr>q_stream := None\<rparr>) = Ret s'" "\<not> q_enabled s'"
      "at_rest (s\<lparr>q_stream := None\<rparr>) s'"
    using disable [of "s\<lparr>q_stream := None\<rparr>" X n] rest by auto
  then show ?thesis using True by (auto simp: on_finished_def qml_inv_def at_rest_def)
qed (use assms in \<open>simp add: on_finished_def\<close>)

lemma handle_inv:
  assumes "streams_take_objects X" "qml_inv s"
  shows "\<exists>s'. qml_handle X (Suc (Suc n)) e s = Ret s' \<and> qml_inv s'"
proof -
  have conn: "\<forall>i. q_stream s = Some i \<longrightarrow> i \<in> q_connected s" using assms(2) by (simp add: qml_inv_def)
  note update = update_inv [OF assms(1), of _ n]
  show ?thesis
  proof (cases e)
    case (SetClient c)
    then show ?thesis
      using update [of "q_emit ClientChanged (s\<lparr>q_client := c\<rparr>)"] conn assms(2) by (auto simp: setClient_def simp del: updateStream.simps)
  next
    case (SetMethod m)
    then show ?thesis
      using update [of "q_emit MethodChanged (s\<lparr>q_method := m\<rparr>)"] conn assms(2) by (auto simp: setMethod_def simp del: updateStream.simps)
  next
    case (SetArgument a)
    then show ?thesis
      using update [of "q_emit ArgumentChanged (s\<lparr>q_argument := a\<rparr>)"] conn assms(2)
      by (auto simp: setArgument_def simp del: updateStream.simps)
  next
    case (SetEnabled b)
    then show ?thesis
      using update [of "q_emit EnabledChanged (s\<lparr>q_enabled := b\<rparr>)"] conn assms(2)
      by (auto simp: setEnabled_def set_enabled_def simp del: updateStream.simps)
  next
    case (StreamFinished i)
    then show ?thesis using finished_inv [OF assms(2), of X "Suc n" i] by (simp del: updateStream.simps)
  qed (use assms(2) in \<open>auto simp: on_message_def on_error_def client_destroyed_def argument_destroyed_def qml_inv_def
        item_complete_def\<close>)
qed

lemma qml_reachable_inv:
  "qml_reachable X (Suc (Suc n)) s \<Longrightarrow> streams_take_objects X \<Longrightarrow> qml_inv s"
proof (induction rule: qml_reachable.induct)
  case created
  then show ?case by (simp add: qml_inv_def new_qml_stream_def item_complete_def)
next
  case (handled s e s')
  then show ?case using handle_inv [of X s n e] by auto
qed

lemma reachable_fuel:
  assumes "streams_take_objects X" "2 \<le> fuel" "qml_reachable X fuel s"
  obtains n where "fuel = Suc (Suc n)" "qml_inv s"
proof -
  obtain n where "fuel = Suc (Suc n)" using assms(2) by (metis Suc_le_D numeral_2_eq_2 Suc_le_mono)
  then show ?thesis using that qml_reachable_inv assms(1,3) by blast
qed

text \<open>A client with one streaming method, and an item that streams it.\<close>

definition demo_env :: qml_env where
  "demo_env = \<lparr>client_methods = (\<lambda>_. [\<lparr>mm_name = ''qmlStreamGet_p'', mm_types = [''A*'', ''B*'']\<rparr>]),
     object_class = (\<lambda>_. ''A''), type_valid = (\<lambda>_. True),
     type_meta = (\<lambda>t. Some (if t = ''A*'' then ''A'' else ''B'')), class_registered = (\<lambda>_. True),
     class_copies = (\<lambda>_. True), class_creates = (\<lambda>_. True), upper = (\<lambda>c. if c = CHR ''g'' then CHR ''G'' else c),
     invoke = (\<lambda>n c m r. Some (10 + n))\<rparr>"

fun qml_handle_all :: "qml_env \<Rightarrow> nat \<Rightarrow> qml_event list \<Rightarrow> qml_stream \<Rightarrow> qml_stream outcome" where
  "qml_handle_all X fuel [] s = Ret s"
| "qml_handle_all X fuel (e # es) s = and_then (qml_handle X fuel e s) (qml_handle_all X fuel es)"

lemma handle_all_reachable:
  "qml_reachable X fuel s \<Longrightarrow> qml_handle_all X fuel es s = Ret s' \<Longrightarrow> qml_reachable X fuel s'"
  by (induction es arbitrary: s) (auto simp: and_then_Ret_iff intro: qml_reachable.handled)

definition demo_idle :: qml_stream where
  "demo_idle = new_qml_stream\<lparr>q_client := Some 0, q_method := ''get'', q_argument := Some 5,
     q_signals := [ClientChanged, MethodChanged, ArgumentChanged]\<rparr>"

definition demo_running :: qml_stream where
  "demo_running = demo_idle\<lparr>q_enabled := True, q_stream := Some 10, q_returnValue := Some 0, q_connected := {10},
     q_calls := 1, q_objects := 1,
     q_signals := [ClientChanged, MethodChanged, ArgumentChanged, EnabledChanged, ReturnValueChanged]\<rparr>"

lemmas qml_eval = setClient_def setMethod_def setArgument_def setEnabled_def set_enabled_def new_qml_stream_def
  q_emit_def drop_returnValue_def stream_def stream_invoke_def demo_env_def qml_method_name_def numeral_2_eq_2

lemma demo_idle_reachable: "qml_reachable demo_env 2 demo_idle"
  by (rule handle_all_reachable [OF qml_reachable.created,
        of _ _ "[SetClient (Some 0), SetMethod ''get'', SetArgument (Some 5)]"])
    (simp add: qml_eval demo_idle_def)

lemma demo_running_reachable: "qml_reachable demo_env 2 demo_running"
  by (rule qml_reachable.handled [OF demo_idle_reachable, of "SetEnabled True"])
    (simp add: qml_eval demo_idle_def demo_running_def)

lemma demo_types: "streams_take_objects demo_env"
  by (simp add: streams_take_objects_def demo_env_def)

text \<open>
  A method with the name of a streaming method whose second argument is of a type without a meta object, such as \<open>int\<close>,
  makes the item follow a null pointer.
\<close>

theorem missing_meta_object:
  assumes "find (\<lambda>m. qml_method_name X (q_method s) = mm_name m) (client_methods X client) = Some m"
    and "2 \<le> length (mm_types m)" "type_meta X (mm_types m ! 0) = Some (object_class X argument)"
    and "class_registered X (object_class X argument)" "class_copies X (object_class X argument)"
    and "type_valid X (mm_types m ! 1)" "type_meta X (mm_types m ! 1) = None"
  shows "stream X client argument s = undefined_by Null_dereference"
  using assms by (simp add: stream_def Let_def)

text \<open>
  C15. A \<open>GrpcStream\<close> handles every event, two nested updates deep, and keeps its invariant: a stream runs only while
  the item is enabled and has a return value, and an enabled item whose client, method and argument are set has a
  running stream. The streaming methods of the clients must take an object as their second argument.
\<close>

theorem qml_stream_invariant:
  assumes "streams_take_objects X" and "2 \<le> fuel" and "qml_reachable X fuel s"
  shows "(\<forall>e. \<exists>s'. qml_handle X fuel e s = Ret s')
    \<and> (q_stream s \<noteq> None \<longleftrightarrow> q_returnValue s \<noteq> None) \<and> (q_stream s \<noteq> None \<longrightarrow> q_enabled s)
    \<and> (q_enabled s \<and> q_client s \<noteq> None \<and> q_argument s \<noteq> None \<and> q_method s \<noteq> [] \<longrightarrow> q_stream s \<noteq> None)"
proof -
  obtain n where fuel: "fuel = Suc (Suc n)" and inv: "qml_inv s" by (rule reachable_fuel [OF assms(1-3)])
  have "\<exists>s'. qml_handle X fuel e s = Ret s'" for e
    using handle_inv [OF assms(1) inv, of n e] fuel by blast
  moreover have "q_stream s \<noteq> None \<longrightarrow> q_enabled s"
    using inv by (auto simp: qml_inv_def)
  moreover have "q_stream s \<noteq> None \<longleftrightarrow> q_returnValue s \<noteq> None"
    and "q_enabled s \<and> q_client s \<noteq> None \<and> q_argument s \<noteq> None \<and> q_method s \<noteq> [] \<longrightarrow> q_stream s \<noteq> None"
    using inv by (auto simp: qml_inv_def item_complete_def)
  ultimately show ?thesis by blast
qed

theorem qml_stream_invariant_witness:
  "qml_reachable demo_env 2 demo_running \<and> q_enabled demo_running \<and> q_stream demo_running \<noteq> None
   \<and> (\<exists>s'. qml_handle demo_env 2 (StreamFinished 10) demo_running = Ret s')"
proof -
  have "q_enabled demo_running" "q_stream demo_running \<noteq> None"
    by (simp_all add: demo_running_def demo_idle_def new_qml_stream_def)
  then show ?thesis
    using qml_stream_invariant [OF demo_types order_refl demo_running_reachable] demo_running_reachable by blast
qed

text \<open>
  Changing the client, the method or the argument while a stream runs does not initialize the stream anew: the
  old stream is aborted, its \<open>finished\<close> disables the item, and no method is called.
\<close>

theorem changed_property_disables:
  assumes "streams_take_objects X" and "2 \<le> fuel" and "qml_reachable X fuel s" and "q_stream s \<noteq> None"
    and "e = SetClient c \<and> c \<noteq> q_client s \<or> e = SetMethod m \<and> m \<noteq> q_method s \<or> e = SetArgument a \<and> a \<noteq> q_argument s"
  shows "\<exists>s'. qml_handle X fuel e s = Ret s' \<and> q_stream s' = None \<and> \<not> q_enabled s' \<and> q_calls s' = q_calls s"
proof -
  obtain n where fuel: "fuel = Suc (Suc n)" and inv: "qml_inv s" by (rule reachable_fuel [OF assms(1-3)])
  obtain i where i: "q_stream s = Some i" "i \<in> q_connected s" "q_enabled s"
    using assms(4) inv by (auto simp: qml_inv_def)
  note run = update_running [of _ i X n]
  show ?thesis
    using assms(5) i run [of "q_emit ClientChanged (s\<lparr>q_client := c\<rparr>)"]
      run [of "q_emit MethodChanged (s\<lparr>q_method := m\<rparr>)"] run [of "q_emit ArgumentChanged (s\<lparr>q_argument := a\<rparr>)"]
    by (auto simp: fuel setClient_def setMethod_def setArgument_def at_rest_def simp del: updateStream.simps)
qed

theorem changed_property_disables_witness:
  "\<exists>s'. qml_handle demo_env 2 (SetArgument (Some 6)) demo_running = Ret s' \<and> q_stream s' = None \<and> \<not> q_enabled s'
      \<and> q_calls s' = q_calls demo_running"
  by (rule changed_property_disables [OF demo_types _ demo_running_reachable, where a = "Some 6"])
    (simp_all add: demo_running_def demo_idle_def new_qml_stream_def)

text \<open>
  Enabling a complete item starts its stream without an error, or reports exactly one error, gives the return
  value back and disables the item again.
\<close>

theorem enable_starts_or_reports:
  assumes "streams_take_objects X" and "2 \<le> fuel" and "qml_reachable X fuel s" and "\<not> q_enabled s" and "item_complete s"
  shows "\<exists>s'. setEnabled X fuel True s = Ret s' \<and>
     (q_enabled s' \<and> q_stream s' \<noteq> None \<and> errors s' = errors s
      \<or> \<not> q_enabled s' \<and> q_stream s' = None \<and> q_returnValue s' = None \<and> errors s' = Suc (errors s))"
proof -
  obtain n where fuel: "fuel = Suc (Suc n)" and inv: "qml_inv s" by (rule reachable_fuel [OF assms(1-3)])
  then have "q_stream s = None" using assms(4) by (auto simp: qml_inv_def)
  then show ?thesis
    using update_starts [of "q_emit EnabledChanged (s\<lparr>q_enabled := True\<rparr>)" X n] assms(1,4,5)
    by (auto simp: fuel setEnabled_def set_enabled_def item_complete_def started_def simp del: updateStream.simps)
qed

theorem enable_starts_or_reports_witness:
  "item_complete demo_idle \<and> (\<exists>s'. setEnabled demo_env 2 True demo_idle = Ret s' \<and>
     (q_enabled s' \<and> q_stream s' \<noteq> None \<and> errors s' = errors demo_idle
      \<or> \<not> q_enabled s' \<and> q_stream s' = None \<and> q_returnValue s' = None \<and> errors s' = Suc (errors demo_idle)))"
proof -
  have "item_complete demo_idle" "\<not> q_enabled demo_idle"
    by (simp_all add: item_complete_def demo_idle_def new_qml_stream_def)
  then show ?thesis using enable_starts_or_reports [OF demo_types _ demo_idle_reachable] by simp
qed

end
