(* ===== verification/QtTypes.thy ===== *)
theory QtTypes
  imports MessageRoundTrip
begin

section \<open>Qt types as fields\<close>

text \<open>
  The library of Qt types (\<open>qtprotobufqttypes.cpp\<close>): a field of type \<open>QtProtobuf.QSize\<close> is a \<open>QSize\<close> in the generated
  class, and the handler of its metatype converts it to an object of the class generated from \<open>QtCore.proto\<close> or
  \<open>QtGui.proto\<close> and back. \<open>to_QSize\<close> is \<open>convert(const ::QSize &)\<close>, \<open>of_QSize\<close> is
  \<open>convert(const ::QtProtobuf::QSize &)\<close>, and so on.

  The plain classes of Qt are records of what their constructors take and their accessors return; \<open>int\<close>, \<open>float\<close>
  and \<open>double\<close> are words of their size. A \<open>QRect\<close> has its four edges, with \<open>right = left + width - 1\<close>; a
  \<open>QMatrix4x4\<close> has the sixteen numbers of \<open>data()\<close>, column by column. The classes with an inner structure (\<open>QUrl\<close>,
  \<open>QUuid\<close>, \<open>QColor\<close>, \<open>QTime\<close>, \<open>QDate\<close>, \<open>QDateTime\<close>, \<open>QImage\<close>) are parameters: values of type \<open>'o\<close> with the functions the
  sources call.
\<close>

record 'o qt_lib =
  url_parse :: "qstring \<Rightarrow> 'o"
  url_url :: "'o \<Rightarrow> qstring"
  uuid_parse :: "qstring \<Rightarrow> 'o"
  uuid_toString :: "'o \<Rightarrow> qstring"
  color_fromRgba :: "32 word \<Rightarrow> 'o"
  color_rgba :: "'o \<Rightarrow> 32 word"
  time_fromMSecsSinceStartOfDay :: "32 word \<Rightarrow> 'o"
  time_msecsSinceStartOfDay :: "'o \<Rightarrow> 32 word"
  date_make :: "32 word \<Rightarrow> 32 word \<Rightarrow> 32 word \<Rightarrow> 'o"
  date_year :: "'o \<Rightarrow> 32 word"
  date_month :: "'o \<Rightarrow> 32 word"
  date_day :: "'o \<Rightarrow> 32 word"
  dateTime_make :: "'o \<Rightarrow> 'o \<Rightarrow> 'o"
  dateTime_date :: "'o \<Rightarrow> 'o"
  dateTime_time :: "'o \<Rightarrow> 'o"
  image_fromData :: "bytes \<Rightarrow> qstring \<Rightarrow> 'o"
  image_save_png :: "'o \<Rightarrow> bytes"

record qsize = s_width :: "32 word" s_height :: "32 word"
record qsizef = sf_width :: "64 word" sf_height :: "64 word"
record qpoint = p_x :: "32 word" p_y :: "32 word"
record qpointf = pf_x :: "64 word" pf_y :: "64 word"
record qrect = r_left :: "32 word" r_top :: "32 word" r_right :: "32 word" r_bottom :: "32 word"
record qrectf = rf_topLeft :: qpointf rf_size :: qsizef
record qvector2d = v2_x :: "32 word" v2_y :: "32 word"
record qvector3d = v3_x :: "32 word" v3_y :: "32 word" v3_z :: "32 word"
record qvector4d = v4_x :: "32 word" v4_y :: "32 word" v4_z :: "32 word" v4_w :: "32 word"
record qquaternion = q_scalar :: "32 word" q_vector :: qvector3d
record qtransform =
  t_m11 :: "64 word" t_m12 :: "64 word" t_m13 :: "64 word"
  t_m21 :: "64 word" t_m22 :: "64 word" t_m23 :: "64 word"
  t_m31 :: "64 word" t_m32 :: "64 word" t_m33 :: "64 word"

type_synonym qmatrix4x4 = "32 word list"

subsection \<open>Properties of the generated classes\<close>

definition field_at :: "message \<Rightarrow> nat \<Rightarrow> variant" where
  "field_at m i = properties m ! i"

definition sint32_at :: "message \<Rightarrow> nat \<Rightarrow> 32 word" where
  "sint32_at m i = (case field_at m i of VBasic (BSInt32 w) \<Rightarrow> w | _ \<Rightarrow> 0)"

definition uint32_at :: "message \<Rightarrow> nat \<Rightarrow> 32 word" where
  "uint32_at m i = (case field_at m i of VBasic (BUInt32 w) \<Rightarrow> w | _ \<Rightarrow> 0)"

definition float_at :: "message \<Rightarrow> nat \<Rightarrow> 32 word" where
  "float_at m i = (case field_at m i of VBasic (BFloat w) \<Rightarrow> w | _ \<Rightarrow> 0)"

definition double_at :: "message \<Rightarrow> nat \<Rightarrow> 64 word" where
  "double_at m i = (case field_at m i of VBasic (BDouble w) \<Rightarrow> w | _ \<Rightarrow> 0)"

definition string_at :: "message \<Rightarrow> nat \<Rightarrow> qstring" where
  "string_at m i = (case field_at m i of VBasic (BString s) \<Rightarrow> s | _ \<Rightarrow> [])"

definition bytes_at :: "message \<Rightarrow> nat \<Rightarrow> bytes" where
  "bytes_at m i = (case field_at m i of VBasic (BBytes b) \<Rightarrow> b | _ \<Rightarrow> [])"

text \<open>The getter of a message field makes an object of the default values when there is none.\<close>

definition object_at :: "message \<Rightarrow> message \<Rightarrow> nat \<Rightarrow> message" where
  "object_at dflt m i = (case field_at m i of VMessage (Some m') \<Rightarrow> m' | _ \<Rightarrow> dflt)"

definition objects_at :: "message \<Rightarrow> nat \<Rightarrow> message option list" where
  "objects_at m i = (case field_at m i of VMessageList ms \<Rightarrow> ms | _ \<Rightarrow> [])"

lemmas at_defs = field_at_def sint32_at_def uint32_at_def float_at_def double_at_def string_at_def bytes_at_def
  object_at_def objects_at_def

definition sint32s :: "32 word list \<Rightarrow> message" where
  "sint32s ws = Message (map (\<lambda>w. VBasic (BSInt32 w)) ws)"

definition floats :: "32 word list \<Rightarrow> message" where
  "floats ws = Message (map (\<lambda>w. VBasic (BFloat w)) ws)"

definition doubles :: "64 word list \<Rightarrow> message" where
  "doubles ws = Message (map (\<lambda>w. VBasic (BDouble w)) ws)"

subsection \<open>Conversions\<close>

definition of_QUrl :: "'o qt_lib \<Rightarrow> message \<Rightarrow> 'o" where
  "of_QUrl L from = url_parse L (string_at from 0)"

definition to_QUrl :: "'o qt_lib \<Rightarrow> 'o \<Rightarrow> message" where
  "to_QUrl L from = Message [VBasic (BString (url_url L from))]"

text \<open>\<open>QDataStream\<close> writes a \<open>QChar\<close> as two bytes, the higher first; what is missing reads as zero.\<close>

definition of_QChar :: "message \<Rightarrow> 16 word" where
  "of_QChar from = (case bytes_at from 0 of hi # lo # _ \<Rightarrow> push_bit 8 (ucast hi) + ucast lo | _ \<Rightarrow> 0)"

definition to_QChar :: "16 word \<Rightarrow> message" where
  "to_QChar from = Message [VBasic (BBytes [ucast (drop_bit 8 from), ucast from])]"

definition of_QUuid :: "'o qt_lib \<Rightarrow> message \<Rightarrow> 'o" where
  "of_QUuid L from = uuid_parse L (string_at from 0)"

definition to_QUuid :: "'o qt_lib \<Rightarrow> 'o \<Rightarrow> message" where
  "to_QUuid L from = Message [VBasic (BString (uuid_toString L from))]"

definition of_QColor :: "'o qt_lib \<Rightarrow> message \<Rightarrow> 'o" where
  "of_QColor L from = color_fromRgba L (uint32_at from 0)"

definition to_QColor :: "'o qt_lib \<Rightarrow> 'o \<Rightarrow> message" where
  "to_QColor L from = Message [VBasic (BUInt32 (color_rgba L from))]"

definition of_QTime :: "'o qt_lib \<Rightarrow> message \<Rightarrow> 'o" where
  "of_QTime L from = time_fromMSecsSinceStartOfDay L (sint32_at from 0)"

definition to_QTime :: "'o qt_lib \<Rightarrow> 'o \<Rightarrow> message" where
  "to_QTime L from = sint32s [time_msecsSinceStartOfDay L from]"

definition of_QDate :: "'o qt_lib \<Rightarrow> message \<Rightarrow> 'o" where
  "of_QDate L from = date_make L (sint32_at from 0) (sint32_at from 1) (sint32_at from 2)"

definition to_QDate :: "'o qt_lib \<Rightarrow> 'o \<Rightarrow> message" where
  "to_QDate L from = sint32s [date_year L from, date_month L from, date_day L from]"

definition of_QDateTime :: "'o qt_lib \<Rightarrow> message \<Rightarrow> 'o" where
  "of_QDateTime L from = dateTime_make L (of_QDate L (object_at (sint32s [0, 0, 0]) from 0))
     (of_QTime L (object_at (sint32s [0]) from 1))"

definition to_QDateTime :: "'o qt_lib \<Rightarrow> 'o \<Rightarrow> message" where
  "to_QDateTime L from = Message [VMessage (Some (to_QDate L (dateTime_date L from))),
     VMessage (Some (to_QTime L (dateTime_time L from)))]"

definition of_QSize :: "message \<Rightarrow> qsize" where
  "of_QSize from = \<lparr>s_width = sint32_at from 0, s_height = sint32_at from 1\<rparr>"

definition to_QSize :: "qsize \<Rightarrow> message" where
  "to_QSize from = sint32s [s_width from, s_height from]"

definition of_QSizeF :: "message \<Rightarrow> qsizef" where
  "of_QSizeF from = \<lparr>sf_width = double_at from 0, sf_height = double_at from 1\<rparr>"

definition to_QSizeF :: "qsizef \<Rightarrow> message" where
  "to_QSizeF from = doubles [sf_width from, sf_height from]"

definition of_QPoint :: "message \<Rightarrow> qpoint" where
  "of_QPoint from = \<lparr>p_x = sint32_at from 0, p_y = sint32_at from 1\<rparr>"

definition to_QPoint :: "qpoint \<Rightarrow> message" where
  "to_QPoint from = sint32s [p_x from, p_y from]"

definition of_QPointF :: "message \<Rightarrow> qpointf" where
  "of_QPointF from = \<lparr>pf_x = double_at from 0, pf_y = double_at from 1\<rparr>"

definition to_QPointF :: "qpointf \<Rightarrow> message" where
  "to_QPointF from = doubles [pf_x from, pf_y from]"

text \<open>The constructor and the accessors of \<open>QRect\<close>.\<close>

definition rect_make :: "qpoint \<Rightarrow> qsize \<Rightarrow> qrect" where
  "rect_make topLeft sz = \<lparr>r_left = p_x topLeft, r_top = p_y topLeft,
     r_right = p_x topLeft + s_width sz - 1, r_bottom = p_y topLeft + s_height sz - 1\<rparr>"

definition rect_topLeft :: "qrect \<Rightarrow> qpoint" where
  "rect_topLeft r = \<lparr>p_x = r_left r, p_y = r_top r\<rparr>"

definition rect_size :: "qrect \<Rightarrow> qsize" where
  "rect_size r = \<lparr>s_width = r_right r - r_left r + 1, s_height = r_bottom r - r_top r + 1\<rparr>"

definition of_QRect :: "message \<Rightarrow> qrect" where
  "of_QRect from = rect_make (of_QPoint (object_at (sint32s [0, 0]) from 0)) (of_QSize (object_at (sint32s [0, 0]) from 1))"

definition to_QRect :: "qrect \<Rightarrow> message" where
  "to_QRect from = Message [VMessage (Some (to_QPoint (rect_topLeft from))), VMessage (Some (to_QSize (rect_size from)))]"

definition of_QRectF :: "message \<Rightarrow> qrectf" where
  "of_QRectF from = \<lparr>rf_topLeft = of_QPointF (object_at (doubles [0, 0]) from 0),
     rf_size = of_QSizeF (object_at (doubles [0, 0]) from 1)\<rparr>"

definition to_QRectF :: "qrectf \<Rightarrow> message" where
  "to_QRectF from = Message [VMessage (Some (to_QPointF (rf_topLeft from))), VMessage (Some (to_QSizeF (rf_size from)))]"

text \<open>The loops over the points of a polygon; a null pointer in the list is dereferenced.\<close>

fun of_points :: "(message \<Rightarrow> 'p) \<Rightarrow> message option list \<Rightarrow> 'p list outcome" where
  "of_points convert [] = Ret []"
| "of_points convert (None # ms) = undefined_by Null_dereference"
| "of_points convert (Some m # ms) = and_then (of_points convert ms) (\<lambda>ps. Ret (convert m # ps))"

definition of_QPolygon :: "message \<Rightarrow> qpoint list outcome" where
  "of_QPolygon from = of_points of_QPoint (objects_at from 0)"

definition to_QPolygon :: "qpoint list \<Rightarrow> message" where
  "to_QPolygon from = Message [VMessageList (map (\<lambda>point. Some (to_QPoint point)) from)]"

definition of_QPolygonF :: "message \<Rightarrow> qpointf list outcome" where
  "of_QPolygonF from = of_points of_QPointF (objects_at from 0)"

definition to_QPolygonF :: "qpointf list \<Rightarrow> message" where
  "to_QPolygonF from = Message [VMessageList (map (\<lambda>point. Some (to_QPointF point)) from)]"

text \<open>The constructor of \<open>QMatrix4x4\<close> takes its arguments row by row.\<close>

definition matrix_make :: "32 word list \<Rightarrow> qmatrix4x4" where
  "matrix_make rows = map (\<lambda>i. rows ! (4 * (i mod 4) + i div 4)) [0..<16]"

definition of_QMatrix4x4 :: "message \<Rightarrow> qmatrix4x4" where
  "of_QMatrix4x4 from = matrix_make (map (float_at from) [0..<16])"

definition to_QMatrix4x4 :: "qmatrix4x4 \<Rightarrow> message" where
  "to_QMatrix4x4 data = floats (map (\<lambda>i. data ! i) [0, 4, 8, 12, 1, 5, 9, 13, 2, 6, 10, 14, 3, 7, 11, 15])"

definition of_QVector2D :: "message \<Rightarrow> qvector2d" where
  "of_QVector2D from = \<lparr>v2_x = float_at from 0, v2_y = float_at from 1\<rparr>"

definition to_QVector2D :: "qvector2d \<Rightarrow> message" where
  "to_QVector2D from = floats [v2_x from, v2_y from]"

definition of_QVector3D :: "message \<Rightarrow> qvector3d" where
  "of_QVector3D from = \<lparr>v3_x = float_at from 0, v3_y = float_at from 1, v3_z = float_at from 2\<rparr>"

definition to_QVector3D :: "qvector3d \<Rightarrow> message" where
  "to_QVector3D from = floats [v3_x from, v3_y from, v3_z from]"

definition of_QVector4D :: "message \<Rightarrow> qvector4d" where
  "of_QVector4D from = \<lparr>v4_x = float_at from 0, v4_y = float_at from 1, v4_z = float_at from 2, v4_w = float_at from 3\<rparr>"

definition to_QVector4D :: "qvector4d \<Rightarrow> message" where
  "to_QVector4D from = floats [v4_x from, v4_y from, v4_z from, v4_w from]"

definition of_QTransform :: "message \<Rightarrow> qtransform" where
  "of_QTransform from = \<lparr>t_m11 = double_at from 0, t_m12 = double_at from 1, t_m13 = double_at from 2,
     t_m21 = double_at from 3, t_m22 = double_at from 4, t_m23 = double_at from 5,
     t_m31 = double_at from 6, t_m32 = double_at from 7, t_m33 = double_at from 8\<rparr>"

definition to_QTransform :: "qtransform \<Rightarrow> message" where
  "to_QTransform from = doubles [t_m11 from, t_m12 from, t_m13 from, t_m21 from, t_m22 from, t_m23 from,
     t_m31 from, t_m32 from, t_m33 from]"

definition of_QQuaternion :: "message \<Rightarrow> qquaternion" where
  "of_QQuaternion from = \<lparr>q_scalar = float_at from 0, q_vector = of_QVector3D (object_at (floats [0, 0, 0]) from 1)\<rparr>"

definition to_QQuaternion :: "qquaternion \<Rightarrow> message" where
  "to_QQuaternion from = Message [VBasic (BFloat (q_scalar from)), VMessage (Some (to_QVector3D (q_vector from)))]"

definition of_QImage :: "'o qt_lib \<Rightarrow> message \<Rightarrow> 'o" where
  "of_QImage L from = image_fromData L (bytes_at from 0) (string_at from 1)"

definition to_QImage :: "'o qt_lib \<Rightarrow> 'o \<Rightarrow> message" where
  "to_QImage L from = Message [VBasic (BBytes (image_save_png L from)), VBasic (BString (qs ''PNG''))]"

subsection \<open>Handlers\<close>

datatype qt_type = QtUrl | QtChar | QtUuid | QtTime | QtDate | QtDateTime | QtSize | QtSizeF | QtPoint | QtPointF
  | QtRect | QtRectF | QtPolygon | QtPolygonF | QtColor | QtMatrix4x4 | QtVector2D | QtVector3D | QtVector4D
  | QtTransform | QtQuaternion | QtImage

datatype 'o qt_value = UrlV 'o | CharV "16 word" | UuidV 'o | TimeV 'o | DateV 'o | DateTimeV 'o | SizeV qsize
  | SizeFV qsizef | PointV qpoint | PointFV qpointf | RectV qrect | RectFV qrectf | PolygonV "qpoint list"
  | PolygonFV "qpointf list" | ColorV 'o | Matrix4x4V qmatrix4x4 | Vector2DV qvector2d | Vector3DV qvector3d
  | Vector4DV qvector4d | TransformV qtransform | QuaternionV qquaternion | ImageV 'o

text \<open>\<open>qRegisterProtobufQtTypes\<close>: the types in the order of their registration.\<close>

definition registered_qt_types :: "qt_type list" where
  "registered_qt_types = [QtUrl, QtChar, QtUuid, QtTime, QtDate, QtDateTime, QtDateTime, QtSize, QtSizeF, QtPoint,
     QtPointF, QtRect, QtRectF, QtPolygon, QtPolygonF, QtColor, QtMatrix4x4, QtVector2D, QtVector3D, QtVector4D,
     QtTransform, QtQuaternion, QtImage]"

fun qt_type_of :: "'o qt_value \<Rightarrow> qt_type" where
  "qt_type_of (UrlV _) = QtUrl"
| "qt_type_of (CharV _) = QtChar"
| "qt_type_of (UuidV _) = QtUuid"
| "qt_type_of (TimeV _) = QtTime"
| "qt_type_of (DateV _) = QtDate"
| "qt_type_of (DateTimeV _) = QtDateTime"
| "qt_type_of (SizeV _) = QtSize"
| "qt_type_of (SizeFV _) = QtSizeF"
| "qt_type_of (PointV _) = QtPoint"
| "qt_type_of (PointFV _) = QtPointF"
| "qt_type_of (RectV _) = QtRect"
| "qt_type_of (RectFV _) = QtRectF"
| "qt_type_of (PolygonV _) = QtPolygon"
| "qt_type_of (PolygonFV _) = QtPolygonF"
| "qt_type_of (ColorV _) = QtColor"
| "qt_type_of (Matrix4x4V _) = QtMatrix4x4"
| "qt_type_of (Vector2DV _) = QtVector2D"
| "qt_type_of (Vector3DV _) = QtVector3D"
| "qt_type_of (Vector4DV _) = QtVector4D"
| "qt_type_of (TransformV _) = QtTransform"
| "qt_type_of (QuaternionV _) = QtQuaternion"
| "qt_type_of (ImageV _) = QtImage"

fun qt_convert :: "'o qt_lib \<Rightarrow> 'o qt_value \<Rightarrow> message" where
  "qt_convert L (UrlV v) = to_QUrl L v"
| "qt_convert L (CharV v) = to_QChar v"
| "qt_convert L (UuidV v) = to_QUuid L v"
| "qt_convert L (TimeV v) = to_QTime L v"
| "qt_convert L (DateV v) = to_QDate L v"
| "qt_convert L (DateTimeV v) = to_QDateTime L v"
| "qt_convert L (SizeV v) = to_QSize v"
| "qt_convert L (SizeFV v) = to_QSizeF v"
| "qt_convert L (PointV v) = to_QPoint v"
| "qt_convert L (PointFV v) = to_QPointF v"
| "qt_convert L (RectV v) = to_QRect v"
| "qt_convert L (RectFV v) = to_QRectF v"
| "qt_convert L (PolygonV v) = to_QPolygon v"
| "qt_convert L (PolygonFV v) = to_QPolygonF v"
| "qt_convert L (ColorV v) = to_QColor L v"
| "qt_convert L (Matrix4x4V v) = to_QMatrix4x4 v"
| "qt_convert L (Vector2DV v) = to_QVector2D v"
| "qt_convert L (Vector3DV v) = to_QVector3D v"
| "qt_convert L (Vector4DV v) = to_QVector4D v"
| "qt_convert L (TransformV v) = to_QTransform v"
| "qt_convert L (QuaternionV v) = to_QQuaternion v"
| "qt_convert L (ImageV v) = to_QImage L v"

fun qt_convert_back :: "'o qt_lib \<Rightarrow> qt_type \<Rightarrow> message \<Rightarrow> 'o qt_value outcome" where
  "qt_convert_back L QtUrl m = Ret (UrlV (of_QUrl L m))"
| "qt_convert_back L QtChar m = Ret (CharV (of_QChar m))"
| "qt_convert_back L QtUuid m = Ret (UuidV (of_QUuid L m))"
| "qt_convert_back L QtTime m = Ret (TimeV (of_QTime L m))"
| "qt_convert_back L QtDate m = Ret (DateV (of_QDate L m))"
| "qt_convert_back L QtDateTime m = Ret (DateTimeV (of_QDateTime L m))"
| "qt_convert_back L QtSize m = Ret (SizeV (of_QSize m))"
| "qt_convert_back L QtSizeF m = Ret (SizeFV (of_QSizeF m))"
| "qt_convert_back L QtPoint m = Ret (PointV (of_QPoint m))"
| "qt_convert_back L QtPointF m = Ret (PointFV (of_QPointF m))"
| "qt_convert_back L QtRect m = Ret (RectV (of_QRect m))"
| "qt_convert_back L QtRectF m = Ret (RectFV (of_QRectF m))"
| "qt_convert_back L QtPolygon m = and_then (of_QPolygon m) (\<lambda>p. Ret (PolygonV p))"
| "qt_convert_back L QtPolygonF m = and_then (of_QPolygonF m) (\<lambda>p. Ret (PolygonFV p))"
| "qt_convert_back L QtColor m = Ret (ColorV (of_QColor L m))"
| "qt_convert_back L QtMatrix4x4 m = Ret (Matrix4x4V (of_QMatrix4x4 m))"
| "qt_convert_back L QtVector2D m = Ret (Vector2DV (of_QVector2D m))"
| "qt_convert_back L QtVector3D m = Ret (Vector3DV (of_QVector3D m))"
| "qt_convert_back L QtVector4D m = Ret (Vector4DV (of_QVector4D m))"
| "qt_convert_back L QtTransform m = Ret (TransformV (of_QTransform m))"
| "qt_convert_back L QtQuaternion m = Ret (QuaternionV (of_QQuaternion m))"
| "qt_convert_back L QtImage m = Ret (ImageV (of_QImage L m))"

text \<open>
  The two lambdas of \<open>registerQtTypeHandler\<close>; \<open>cls\<close> numbers the generated classes, \<open>ser\<close> and \<open>des\<close> are the virtual
  functions of the serializer. The type is registered: see \<open>all_qt_types_registered\<close>.
\<close>

definition qt_serializer :: "'o qt_lib \<Rightarrow> (qt_type \<Rightarrow> nat) \<Rightarrow> (nat \<Rightarrow> message \<Rightarrow> bytes outcome) \<Rightarrow> 'o qt_value \<Rightarrow> int \<Rightarrow>
    bytes outcome" where
  "qt_serializer L cls ser value i = serializeObject ser (cls (qt_type_of value)) (Some (qt_convert L value)) i"

definition qt_deserializer :: "serializer_env \<Rightarrow> 'o qt_lib \<Rightarrow> (qt_type \<Rightarrow> nat) \<Rightarrow>
    (nat \<Rightarrow> message \<Rightarrow> bytes \<Rightarrow> message \<times> unit outcome) \<Rightarrow> qt_type \<Rightarrow> selfcheck_iterator \<Rightarrow>
    ('o qt_value \<times> selfcheck_iterator) outcome" where
  "qt_deserializer X L cls des t it =
     and_then (deserializeObject des (cls t) (new_message X (cls t)) it) (\<lambda>(object, it').
       and_then (qt_convert_back L t object) (\<lambda>value. Ret (value, it')))"

lemma all_qt_types_registered: "t \<in> set registered_qt_types"
  by (cases t) (simp_all add: registered_qt_types_def)

subsection \<open>The generated classes\<close>

text \<open>The fields of the messages in \<open>QtCore.proto\<close> and \<open>QtGui.proto\<close>.\<close>

fun qt_fields :: "(qt_type \<Rightarrow> nat) \<Rightarrow> qt_type \<Rightarrow> metatype list" where
  "qt_fields cls QtUrl = [MBasic TString]"
| "qt_fields cls QtChar = [MBasic TBytes]"
| "qt_fields cls QtUuid = [MBasic TString]"
| "qt_fields cls QtTime = [MBasic TSInt32]"
| "qt_fields cls QtDate = [MBasic TSInt32, MBasic TSInt32, MBasic TSInt32]"
| "qt_fields cls QtDateTime = [MMessage (cls QtDate), MMessage (cls QtTime)]"
| "qt_fields cls QtSize = [MBasic TSInt32, MBasic TSInt32]"
| "qt_fields cls QtSizeF = [MBasic TDouble, MBasic TDouble]"
| "qt_fields cls QtPoint = [MBasic TSInt32, MBasic TSInt32]"
| "qt_fields cls QtPointF = [MBasic TDouble, MBasic TDouble]"
| "qt_fields cls QtRect = [MMessage (cls QtPoint), MMessage (cls QtSize)]"
| "qt_fields cls QtRectF = [MMessage (cls QtPointF), MMessage (cls QtSizeF)]"
| "qt_fields cls QtPolygon = [MMessageList (cls QtPoint)]"
| "qt_fields cls QtPolygonF = [MMessageList (cls QtPointF)]"
| "qt_fields cls QtColor = [MBasic TUInt32]"
| "qt_fields cls QtMatrix4x4 = replicate 16 (MBasic TFloat)"
| "qt_fields cls QtVector2D = [MBasic TFloat, MBasic TFloat]"
| "qt_fields cls QtVector3D = [MBasic TFloat, MBasic TFloat, MBasic TFloat]"
| "qt_fields cls QtVector4D = [MBasic TFloat, MBasic TFloat, MBasic TFloat, MBasic TFloat]"
| "qt_fields cls QtTransform = replicate 9 (MBasic TDouble)"
| "qt_fields cls QtQuaternion = [MBasic TFloat, MMessage (cls QtVector3D)]"
| "qt_fields cls QtImage = [MBasic TBytes, MBasic TString]"

text \<open>
  The environment has these classes, with their fields numbered, and the handlers of the nested ones; the type
  names of Qt survive UTF-8.
\<close>

definition qt_schema :: "serializer_env \<Rightarrow> (qt_type \<Rightarrow> nat) \<Rightarrow> bool" where
  "qt_schema X cls \<longleftrightarrow>
     (\<forall>t. staticMetaObject (protobufMetaObject X (cls t)) = qt_fields cls t
        \<and> wf_class (protobufMetaObject X (cls t))
        \<and> registry X (MMessage (cls t)) \<noteq> None \<and> registry X (MMessageList (cls t)) \<noteq> None)"

text \<open>
  What Qt keeps of the values of its classes: a \<open>QUrl\<close> is parsed from its string, a \<open>QDateTime\<close> is made of its date
  and time (in local time), an image survives PNG, and so on; their strings survive UTF-8.
\<close>

definition utf8_string :: "qt_api \<Rightarrow> qstring \<Rightarrow> bool" where
  "utf8_string Q s \<longleftrightarrow> fromUtf8 Q (toUtf8 Q s) = s"

definition ok_date :: "'o qt_lib \<Rightarrow> 'o \<Rightarrow> bool" where
  "ok_date L v \<longleftrightarrow> date_make L (date_year L v) (date_month L v) (date_day L v) = v"

definition ok_time :: "'o qt_lib \<Rightarrow> 'o \<Rightarrow> bool" where
  "ok_time L v \<longleftrightarrow> time_fromMSecsSinceStartOfDay L (time_msecsSinceStartOfDay L v) = v"

fun qt_keeps :: "qt_api \<Rightarrow> 'o qt_lib \<Rightarrow> 'o qt_value \<Rightarrow> bool" where
  "qt_keeps Q L (UrlV v) \<longleftrightarrow> url_parse L (url_url L v) = v \<and> utf8_string Q (url_url L v)"
| "qt_keeps Q L (UuidV v) \<longleftrightarrow> uuid_parse L (uuid_toString L v) = v \<and> utf8_string Q (uuid_toString L v)"
| "qt_keeps Q L (ColorV v) \<longleftrightarrow> color_fromRgba L (color_rgba L v) = v"
| "qt_keeps Q L (TimeV v) \<longleftrightarrow> ok_time L v"
| "qt_keeps Q L (DateV v) \<longleftrightarrow> ok_date L v"
| "qt_keeps Q L (DateTimeV v) \<longleftrightarrow> ok_date L (dateTime_date L v) \<and> ok_time L (dateTime_time L v)
     \<and> dateTime_make L (dateTime_date L v) (dateTime_time L v) = v"
| "qt_keeps Q L (ImageV v) \<longleftrightarrow> image_fromData L (image_save_png L v) (qs ''PNG'') = v \<and> utf8_string Q (qs ''PNG'')"
| "qt_keeps Q L (Matrix4x4V v) \<longleftrightarrow> length v = 16"
| "qt_keeps Q L _ \<longleftrightarrow> True"

lemma qchar_bytes: "push_bit 8 (ucast (ucast (drop_bit 8 w) :: 8 word)) + ucast (ucast w :: 8 word) = (w :: 16 word)"
proof -
  have "(ucast (ucast (drop_bit 8 w) :: 8 word) :: 16 word) = take_bit 8 (drop_bit 8 w)"
    "(ucast (ucast w :: 8 word) :: 16 word) = take_bit 8 w"
    by (simp_all add: unsigned_ucast_eq)
  moreover have "take_bit 8 (drop_bit 8 w) = drop_bit 8 w"
    by (simp add: take_bit_drop_bit take_bit_word_eq_self)
  ultimately show ?thesis by (simp add: bits_ident)
qed

lemma of_points_back: "(\<And>p. convert (f p) = p) \<Longrightarrow> of_points convert (map (\<lambda>p. Some (f p)) ps) = Ret ps"
  by (induction ps) simp_all

text \<open>Transposing the sixteen numbers twice.\<close>

definition transposed :: "nat \<Rightarrow> nat" where
  "transposed i = 4 * (i mod 4) + i div 4"

lemma transposed_rows: "[0, 4, 8, 12, 1, 5, 9, 13, 2, 6, 10, 14, 3, 7, 11, 15] = map transposed [0..<16]"
  by code_simp

lemma transposed_twice: "i < 16 \<Longrightarrow> transposed i < 16 \<and> transposed (transposed i) = i"
proof -
  have "list_all (\<lambda>i. transposed i < 16 \<and> transposed (transposed i) = i) [0..<16]" by code_simp
  then show "i < 16 \<Longrightarrow> transposed i < 16 \<and> transposed (transposed i) = i" by (simp add: list_all_iff)
qed

lemma matrix_back:
  assumes "length v = 16"
  shows "of_QMatrix4x4 (to_QMatrix4x4 v) = v"
proof (rule nth_equalityI)
  have at: "float_at (to_QMatrix4x4 v) j = v ! transposed j" if "j < 16" for j
    using that unfolding to_QMatrix4x4_def transposed_rows floats_def by (simp add: at_defs)
  fix i
  assume "i < length (of_QMatrix4x4 (to_QMatrix4x4 v))"
  then have "i < 16" by (simp add: of_QMatrix4x4_def matrix_make_def)
  then show "of_QMatrix4x4 (to_QMatrix4x4 v) ! i = v ! i"
    using at [of "transposed i"] transposed_twice [of i]
    by (simp add: of_QMatrix4x4_def matrix_make_def transposed_def [symmetric])
qed (use assms in \<open>simp add: of_QMatrix4x4_def matrix_make_def\<close>)

lemmas revert_defs = of_QUrl_def of_QUuid_def of_QColor_def of_QTime_def of_QDate_def of_QDateTime_def
  of_QVector2D_def of_QVector4D_def of_QTransform_def of_QImage_def

lemmas flat_defs = to_QUrl_def to_QUuid_def to_QColor_def to_QTime_def to_QDate_def to_QDateTime_def
  to_QVector2D_def to_QVector4D_def to_QTransform_def to_QImage_def

lemma points_back [simp]: "of_QPoint (to_QPoint p) = p" "of_QPointF (to_QPointF f) = f"
  "of_QSize (to_QSize s) = s" "of_QSizeF (to_QSizeF g) = g" "of_QVector3D (to_QVector3D v) = v"
  by (simp_all add: of_QPoint_def to_QPoint_def of_QPointF_def to_QPointF_def of_QSize_def to_QSize_def of_QSizeF_def
      to_QSizeF_def of_QVector3D_def to_QVector3D_def sint32s_def doubles_def floats_def at_defs)

lemma composed_back [simp]: "of_QRect (to_QRect r) = r" "of_QRectF (to_QRectF g) = g"
  "of_QQuaternion (to_QQuaternion h) = h" "of_QPolygon (to_QPolygon ps) = Ret ps" "of_QPolygonF (to_QPolygonF fs) = Ret fs"
proof -
  have "rect_make (rect_topLeft r) (rect_size r) = r"
    by (simp add: rect_make_def rect_topLeft_def rect_size_def)
  then show "of_QRect (to_QRect r) = r"
    by (simp add: of_QRect_def to_QRect_def at_defs)
qed (simp_all add: of_QRectF_def to_QRectF_def of_QQuaternion_def to_QQuaternion_def of_QPolygon_def to_QPolygon_def
    of_QPolygonF_def to_QPolygonF_def at_defs of_points_back)

lemma char_back [simp]: "of_QChar (to_QChar c) = c"
  unfolding of_QChar_def to_QChar_def by (simp only: at_defs properties.simps nth_Cons_0 variant.case basic.case list.case qchar_bytes)

text \<open>Converting back undoes the conversion.\<close>

lemma convert_inverts:
  assumes "qt_keeps Q L v"
  shows "qt_convert_back L (qt_type_of v) (qt_convert L v) = Ret v"
  using assms
  by (cases v)
    (simp_all add: matrix_back revert_defs flat_defs sint32s_def doubles_def floats_def at_defs ok_date_def ok_time_def)

subsection \<open>Conversions and the wire\<close>

text \<open>A field whose value comes back from the wire as it is.\<close>

definition keeps_field :: "serializer_env \<Rightarrow> nat \<Rightarrow> metatype \<Rightarrow> variant \<Rightarrow> bool" where
  "keeps_field X n t v \<longleftrightarrow> wt_value X (fits_message X n) t (read_property X t v)
     \<and> sent_value (sent_message X n) t (read_property X t v) = v"

lemma fits_fields:
  assumes "staticMetaObject (protobufMetaObject X c) = ts" "wf_class (protobufMetaObject X c)"
    and "list_all2 (keeps_field X n) ts vs"
  shows "fits_message X (Suc n) c (Message vs) \<and> sent_message X (Suc n) c (Message vs) = Message vs"
proof -
  have len: "length vs = length ts" and each: "keeps_field X n (ts ! p) (vs ! p)" if "p < length ts" for p
    using assms(3) that by (auto simp: list_all2_conv_all_nth)
  have len: "length vs = length ts" using assms(3) by (simp add: list_all2_lengthD)
  have "map (\<lambda>p. sent_value (sent_message X n) (ts ! p) (read_property X (ts ! p) (vs ! p))) [0..<length ts] = vs"
    by (rule nth_equalityI) (use each len in \<open>auto simp: keeps_field_def\<close>)
  then show ?thesis
    using assms(1,2) each len by (auto simp: Let_def keeps_field_def)
qed

lemma keeps_basic: "btype_of b = t \<Longrightarrow> utf8_ok (qt X) b \<Longrightarrow> keeps_field X n (MBasic t) (VBasic b)"
  by (simp add: keeps_field_def)

lemma keeps_message:
  "registry X (MMessage c) \<noteq> None \<Longrightarrow> fits_message X n c m \<Longrightarrow> sent_message X n c m = m \<Longrightarrow>
     keeps_field X n (MMessage c) (VMessage (Some m))"
  by (simp add: keeps_field_def)

lemma keeps_message_list:
  "registry X (MMessageList c) \<noteq> None \<Longrightarrow> \<forall>m \<in> set ms. fits_message X n c m \<and> sent_message X n c m = m \<Longrightarrow>
     keeps_field X n (MMessageList c) (VMessageList (map Some ms))"
  by (auto simp: keeps_field_def comp_def map_idI)

lemma list_all2_replicate: "list_all2 P (replicate n a) xs \<longleftrightarrow> length xs = n \<and> (\<forall>x \<in> set xs. P a x)"
proof (induction n arbitrary: xs)
  case (Suc n)
  then show ?case by (cases xs) auto
qed auto

text \<open>
  The contract of a conversion: the object has the fields of its class, and converting it back gives the value. A
  handler that converts then sends a value that its deserializer reads from the field, wherever it stands.
\<close>

locale object_conversion =
  fixes X :: serializer_env and c n :: nat and to_msg :: "'v \<Rightarrow> message" and of_msg :: "message \<Rightarrow> 'v outcome"
    and ok :: "'v \<Rightarrow> bool"
  assumes fits: "ok v \<Longrightarrow> fits_message X n c (to_msg v) \<and> sent_message X n c (to_msg v) = to_msg v"
    and inverts: "ok v \<Longrightarrow> of_msg (to_msg v) = Ret v"
begin

lemma body_decodes:
  assumes "ok v"
  obtains body where "serializeMessage X n c (to_msg v) = Ret body" "decodes X c body (to_msg v)"
proof -
  obtain body where body: "serializeMessage X n c (to_msg v) = Ret body"
    using fits_serialized [of X n c "to_msg v"] fits [OF assms] by (auto simp: serialize_def)
  have "consumes X c body (new_message X c) (to_msg v)"
    using message_consumes [OF body] fits_wt fits [OF assms] by metis
  then have "decodes X c body (to_msg v)"
    unfolding decodes_def by (auto intro: consumes_all)
  then show ?thesis using that body by blast
qed

lemma field_round_trip:
  assumes "ok v"
  obtains payload where "serializeObject (serializeMessage X n) c (Some (to_msg v)) i
      = Ret (encodeHeader i LengthDelimited @ payload)"
    and "\<And>pre rest fuel. length payload + length rest < 2147483600 \<Longrightarrow> length payload < fuel \<Longrightarrow>
      and_then (deserializeObject (nested X fuel) c (new_message X c) (it_at pre (payload @ rest)))
        (\<lambda>(object, it'). and_then (of_msg object) (\<lambda>value. Ret (value, it')))
      = Ret (v, it_at (pre @ payload) rest)"
proof -
  obtain body where body: "serializeMessage X n c (to_msg v) = Ret body" "decodes X c body (to_msg v)"
    by (rule body_decodes [OF assms])
  show ?thesis
  proof (rule that [of "prependLengthDelimitedSize body"])
    show "serializeObject (serializeMessage X n) c (Some (to_msg v)) i
        = Ret (encodeHeader i LengthDelimited @ prependLengthDelimitedSize body)"
      using body(1) by (simp add: serializeObject_def)
  qed (simp add: deserializeObject_reads [OF body(2)] inverts [OF assms])
qed

end

text \<open>The classes of the Qt types, and their conversions.\<close>

locale qt_classes =
  fixes X :: serializer_env and cls :: "qt_type \<Rightarrow> nat"
  assumes schema: "qt_schema X cls"
begin

lemma class_fits:
  "list_all2 (keeps_field X n) (qt_fields cls t) vs \<Longrightarrow>
     fits_message X (Suc n) (cls t) (Message vs) \<and> sent_message X (Suc n) (cls t) (Message vs) = Message vs"
  using schema fits_fields [of X "cls t"] by (simp add: qt_schema_def)

lemma sint32s_fit:
  "qt_fields cls t = replicate (length ws) (MBasic TSInt32) \<Longrightarrow>
     fits_message X (Suc n) (cls t) (sint32s ws) \<and> sent_message X (Suc n) (cls t) (sint32s ws) = sint32s ws"
  unfolding sint32s_def by (rule class_fits) (auto simp: list_all2_replicate utf8_ok_def intro!: keeps_basic)

lemma floats_fit:
  "qt_fields cls t = replicate (length ws) (MBasic TFloat) \<Longrightarrow>
     fits_message X (Suc n) (cls t) (floats ws) \<and> sent_message X (Suc n) (cls t) (floats ws) = floats ws"
  unfolding floats_def by (rule class_fits) (auto simp: list_all2_replicate utf8_ok_def intro!: keeps_basic)

lemma doubles_fit:
  "qt_fields cls t = replicate (length ws) (MBasic TDouble) \<Longrightarrow>
     fits_message X (Suc n) (cls t) (doubles ws) \<and> sent_message X (Suc n) (cls t) (doubles ws) = doubles ws"
  unfolding doubles_def by (rule class_fits) (auto simp: list_all2_replicate utf8_ok_def intro!: keeps_basic)

lemma nested_keeps:
  assumes "fits_message X n (cls t) m \<and> sent_message X n (cls t) m = m"
  shows "keeps_field X n (MMessage (cls t)) (VMessage (Some m))"
  using assms schema by (intro keeps_message) (auto simp: qt_schema_def)

lemma list_keeps:
  assumes "\<And>p. fits_message X n (cls t) (f p) \<and> sent_message X n (cls t) (f p) = f p"
  shows "keeps_field X n (MMessageList (cls t)) (VMessageList (map (\<lambda>p. Some (f p)) ps))"
  using keeps_message_list [of X "cls t" "map f ps" n] assms schema by (auto simp: qt_schema_def comp_def)

text \<open>Every conversion gives an object of its class.\<close>

lemmas convert_defs = to_QUrl_def to_QChar_def to_QUuid_def to_QColor_def to_QTime_def to_QDate_def to_QDateTime_def
  to_QSize_def to_QSizeF_def to_QPoint_def to_QPointF_def to_QRect_def to_QRectF_def to_QPolygon_def to_QPolygonF_def
  to_QMatrix4x4_def to_QVector2D_def to_QVector3D_def to_QVector4D_def to_QTransform_def to_QQuaternion_def to_QImage_def

lemma convert_fits:
  assumes "qt_keeps (qt X) L v"
  shows "fits_message X (Suc (Suc 0)) (cls (qt_type_of v)) (qt_convert L v)
     \<and> sent_message X (Suc (Suc 0)) (cls (qt_type_of v)) (qt_convert L v) = qt_convert L v"
  using assms
  by (cases v)
    (simp_all only: qt_type_of.simps qt_convert.simps convert_defs,
      (rule class_fits sint32s_fit floats_fit doubles_fit,
       auto simp: utf8_ok_def utf8_string_def numeral_eq_Suc
         intro!: keeps_basic nested_keeps list_keeps sint32s_fit floats_fit doubles_fit; fail)+)

end

sublocale qt_classes \<subseteq> conv: object_conversion X "cls t" "Suc (Suc 0)" "qt_convert L" "qt_convert_back L t"
    "\<lambda>v. qt_type_of v = t \<and> qt_keeps (qt X) L v" for L t
  using convert_fits convert_inverts by unfold_locales auto

context qt_classes
begin

lemma value_field:
  assumes "qt_keeps (qt X) L v"
  shows "\<exists>payload. qt_serializer L cls (serializeMessage X (Suc (Suc 0))) v i
      = Ret (encodeHeader i LengthDelimited @ payload)
    \<and> (\<forall>pre rest fuel. length payload + length rest < 2147483600 \<and> length payload < fuel \<longrightarrow>
         qt_deserializer X L cls (nested X fuel) (qt_type_of v) (it_at pre (payload @ rest))
           = Ret (v, it_at (pre @ payload) rest))"
  by (rule conv.field_round_trip [of v "qt_type_of v" L i])
    (use assms in \<open>auto simp: qt_serializer_def qt_deserializer_def\<close>)

end

text \<open>An environment with the classes of the Qt types only, numbered in the order of their registration.\<close>

definition qt_types :: "qt_type list" where
  "qt_types = remdups registered_qt_types"

fun position :: "'a list \<Rightarrow> 'a \<Rightarrow> nat" where
  "position [] y = 0"
| "position (x # xs) y = (if x = y then 0 else Suc (position xs y))"

definition qt_class :: "qt_type \<Rightarrow> nat" where
  "qt_class t = position qt_types t"

definition qt_metaobject :: "nat \<Rightarrow> protobuf_metaobject" where
  "qt_metaobject c =
     (let ts = qt_fields qt_class (qt_types ! c)
      in \<lparr>staticMetaObject = ts, propertyOrdering = map (\<lambda>p. (int p + 1, p, [])) [0..<length ts]\<rparr>)"

definition qt_types_env :: "qt_api \<Rightarrow> serializer_env" where
  "qt_types_env Q = \<lparr>qt = Q, protobufMetaObject = qt_metaobject, registry = (\<lambda>_. Some ObjectHandler)\<rparr>"

lemma qt_class_at: "qt_types ! qt_class t = t"
  by (cases t) (simp_all add: qt_class_def qt_types_def registered_qt_types_def)

lemma wf_numbered:
  "n \<le> 16 \<Longrightarrow> length ts = n \<Longrightarrow>
     wf_class \<lparr>staticMetaObject = ts, propertyOrdering = map (\<lambda>p. (int p + 1, p, [])) [0..<n]\<rparr>"
  by (auto simp: wf_class_def distinct_map inj_on_def comp_def)

interpretation qt_env: qt_classes "qt_types_env Q" qt_class for Q
proof
  have "length (qt_fields qt_class t) \<le> 16" for t by (cases t) simp_all
  then show "qt_schema (qt_types_env Q) qt_class"
    by (simp add: qt_schema_def qt_types_env_def qt_metaobject_def qt_class_at Let_def wf_numbered)
qed

subsection \<open>Properties\<close>

text \<open>
  C12. A field of a Qt type comes back from the wire: the handler of every one of the 22 types converts a value
  that Qt itself keeps (points, rectangles, matrices, polygons, characters without any condition) into an object whose
  bytes its deserializer reads, anywhere in a stream, and converts into the same value.
\<close>

theorem qt_value_round_trip:
  assumes "qt_schema X cls" and "qt_keeps (qt X) L v"
  shows "qt_type_of v \<in> set registered_qt_types
    \<and> (\<exists>payload. qt_serializer L cls (serializeMessage X 2) v i = Ret (encodeHeader i LengthDelimited @ payload)
      \<and> (\<forall>pre rest fuel. length payload + length rest < 2147483600 \<and> length payload < fuel \<longrightarrow>
           qt_deserializer X L cls (nested X fuel) (qt_type_of v) (it_at pre (payload @ rest))
             = Ret (v, it_at (pre @ payload) rest)))"
  using qt_classes.value_field [OF qt_classes.intro [OF assms(1)] assms(2), of i]
  by (simp add: all_qt_types_registered numeral_2_eq_2)

text \<open>Values of three types on the wire.\<close>

definition demo_lib :: "nat qt_lib" where
  "demo_lib = \<lparr>url_parse = (\<lambda>s. length s), url_url = (\<lambda>n. replicate n 65), uuid_parse = (\<lambda>s. 0), uuid_toString = (\<lambda>_. []),
     color_fromRgba = unat, color_rgba = of_nat, time_fromMSecsSinceStartOfDay = unat,
     time_msecsSinceStartOfDay = of_nat, date_make = (\<lambda>y m d. unat d), date_year = (\<lambda>_. 0), date_month = (\<lambda>_. 0),
     date_day = of_nat, dateTime_make = (\<lambda>d t. d), dateTime_date = (\<lambda>x. x), dateTime_time = (\<lambda>_. 0),
     image_fromData = (\<lambda>b f. length b), image_save_png = (\<lambda>n. replicate n 0)\<rparr>"

definition latin_qt :: qt_api where
  "latin_qt = \<lparr>toUtf8 = map ucast, fromUtf8 = map ucast\<rparr>"

theorem qt_value_round_trip_witness:
  "(\<exists>payload. qt_serializer demo_lib qt_class (serializeMessage (qt_types_env latin_qt) 2)
       (RectV \<lparr>r_left = 1, r_top = 2, r_right = 10, r_bottom = 20\<rparr>) 3 = Ret (encodeHeader 3 LengthDelimited @ payload))
   \<and> (\<exists>payload. qt_serializer demo_lib qt_class (serializeMessage (qt_types_env latin_qt) 2) (UrlV 3) 3
        = Ret (encodeHeader 3 LengthDelimited @ payload))"
proof -
  have "qt_keeps (qt (qt_types_env latin_qt)) demo_lib (UrlV 3)"
    by (simp add: demo_lib_def qt_types_env_def latin_qt_def utf8_string_def)
  then show ?thesis
    using qt_value_round_trip [OF qt_env.schema, of latin_qt demo_lib "UrlV 3" 3]
      qt_value_round_trip [OF qt_env.schema, of latin_qt demo_lib "RectV \<lparr>r_left = 1, r_top = 2, r_right = 10, r_bottom = 20\<rparr>" 3]
    by auto
qed

end
