(* ===== verification/GrpcCredentials.thy ===== *)
theory GrpcCredentials
  imports Http2Channel
begin

section \<open>Credentials\<close>

text \<open>
  The credentials of the HTTP/2 channel (\<open>qgrpccredentials.h\<close> and the headers of the four classes of credentials) and
  the constructor that uses them. A \<open>QGrpcCredentialMap\<close> is the list of its pairs in the order of iteration of the
  \<open>QHash\<close>, which the program does not control. The TLS configuration is a value of type \<open>'c\<close>; the strings of Qt
  are encoded by the parameter \<open>utf8\<close>.
\<close>

datatype 'c cred_value = StringCred qstring | SslCred 'c

type_synonym 'c credential_map = "(string \<times> 'c cred_value) list"

definition SslConfigCredential :: string where "SslConfigCredential = ''sslConfig''"
definition defaultUserFieldName :: string where "defaultUserFieldName = ''user-name''"
definition defaultPasswordFieldName :: string where "defaultPasswordFieldName = ''user-password''"

text \<open>
  The classes of credentials: for the calls a user and a password under two field names, or nothing; for the channel
  a TLS configuration, or nothing. \<open>reversed\<close> is the order the hash happens to iterate in.
\<close>

datatype call_credentials = UserPassword string string qstring qstring bool | InsecureCall

datatype 'c channel_credentials = Ssl 'c | InsecureChannel

fun call_map :: "call_credentials \<Rightarrow> 'c credential_map" where
  "call_map (UserPassword userField passwordField userName password reversed) =
     (let m = [(userField, StringCred userName), (passwordField, StringCred password)]
      in if reversed then rev m else m)"
| "call_map InsecureCall = []"

fun channel_map :: "'c channel_credentials \<Rightarrow> 'c credential_map" where
  "channel_map (Ssl configuration) = [(SslConfigCredential, SslCred configuration)]"
| "channel_map InsecureChannel = []"

text \<open>\<open>QGrpcCredentials\<close> and both \<open>operator |\<close>.\<close>

record 'c credentials =
  mCall :: call_credentials
  mChannel :: "'c channel_credentials"

definition combine :: "call_credentials \<Rightarrow> 'c channel_credentials \<Rightarrow> 'c credentials" where
  "combine call channel = \<lparr>mCall = call, mChannel = channel\<rparr>"

definition callCredentials :: "'c credentials \<Rightarrow> 'c credential_map" where
  "callCredentials c = call_map (mCall c)"

definition channelCredentials :: "'c credentials \<Rightarrow> 'c credential_map" where
  "channelCredentials c = channel_map (mChannel c)"

text \<open>The constructor of the channel: scheme and TLS configuration.\<close>

definition new_http2_channel :: "string \<Rightarrow> 'c credentials \<Rightarrow> (string \<times> 'c option) outcome" where
  "new_http2_channel scheme c =
     and_then (http2_channel_scheme scheme (map_of (channelCredentials c) SslConfigCredential \<noteq> None)) (\<lambda>scheme'.
       Ret (scheme', if scheme = ''https''
         then (case map_of (channelCredentials c) SslConfigCredential of Some (SslCred x) \<Rightarrow> Some x | _ \<Rightarrow> None)
         else None))"

text \<open>The headers \<open>post\<close> sets for the credentials of the calls; a value that is no string is sent as an empty one.\<close>

definition credential_headers :: "(qstring \<Rightarrow> bytes) \<Rightarrow> 'c credentials \<Rightarrow> (string \<times> bytes) list" where
  "credential_headers utf8 c =
     map (\<lambda>(k, v). (k, case v of StringCred s \<Rightarrow> utf8 s | SslCred _ \<Rightarrow> [])) (callCredentials c)"

definition post_with :: "'s::len itself \<Rightarrow> (qstring \<Rightarrow> bytes) \<Rightarrow> 'c credentials \<Rightarrow> string \<Rightarrow> string \<Rightarrow> bytes \<Rightarrow> bool \<Rightarrow>
    http_request" where
  "post_with size_type utf8 c method service args stream =
     post size_type (credential_headers utf8 c) method service args stream"

text \<open>Headers are kept by name.\<close>

definition header_value :: "(string \<times> bytes) list \<Rightarrow> string \<Rightarrow> bytes option" where
  "header_value hs k = map_of (map (\<lambda>(n, v). (lower_case n, v)) hs) (lower_case k)"

lemma header_setRawHeader:
  "header_value (setRawHeader h hs) k = (if lower_case k = lower_case (fst h) then Some (snd h) else header_value hs k)"
proof -
  have "map_of (map (\<lambda>(n, v). (lower_case n, v)) (filter (\<lambda>g. lower_case (fst g) \<noteq> lower_case (fst h)) hs)) x =
      (if x = lower_case (fst h) then None else map_of (map (\<lambda>(n, v). (lower_case n, v)) hs) x)" for x
    by (induction hs) auto
  then show ?thesis
    by (cases h) (simp add: header_value_def setRawHeader_def map_add_def split: option.split)
qed

lemma header_fold:
  "k \<notin> set (map (lower_case \<circ> fst) cs) \<Longrightarrow> lower_case j = k \<Longrightarrow> header_value (fold setRawHeader cs hs) j = header_value hs j"
  by (induction cs arbitrary: hs) (auto simp: header_setRawHeader)

text \<open>The headers every request of gRPC has.\<close>

definition grpc_headers :: "string list" where
  "grpc_headers = [''content-type'', ''grpc-accept-encoding'', ''accept-encoding'', ''te'']"

lemma base_headers: "list_all (\<lambda>h. header_value
    [(''content-type'', ascii ''application/grpc''), (''grpc-accept-encoding'', ascii ''identity,deflate,gzip''),
     (''accept-encoding'', ascii ''identity,gzip''), (''te'', ascii ''trailers'')] h \<noteq> None) grpc_headers"
  by code_simp

lemma lower_grpc_headers: "map lower_case grpc_headers = grpc_headers"
  by code_simp

text \<open>
  An HTTP/2 channel that authenticates by user and password sends both with every request, whatever the order of
  the hash, next to the headers of gRPC, as long as the two field names differ from each other and from these; a
  channel for an https url throws \<open>std::invalid_argument\<close> exactly when it has no TLS configuration, and keeps the one
  it is given.
\<close>

theorem credentials_sent:
  assumes "lower_case userField \<noteq> lower_case passwordField"
    and "lower_case userField \<notin> set grpc_headers" "lower_case passwordField \<notin> set grpc_headers"
    and "r = post_with size_type utf8 (combine (UserPassword userField passwordField user password reversed) channel)
      method service args stream"
  shows "header_value (rq_headers r) userField = Some (utf8 user)
    \<and> header_value (rq_headers r) passwordField = Some (utf8 password)
    \<and> (\<forall>h \<in> set grpc_headers. header_value (rq_headers r) h \<noteq> None)
    \<and> new_http2_channel ''https'' (combine call channel) =
        (case channel of Ssl x \<Rightarrow> Ret (''https'', Some x) | InsecureChannel \<Rightarrow> throw Invalid_argument)"
proof (intro conjI)
  have headers: "rq_headers r = fold setRawHeader
      (if reversed then [(passwordField, utf8 password), (userField, utf8 user)]
       else [(userField, utf8 user), (passwordField, utf8 password)])
      [(''content-type'', ascii ''application/grpc''), (''grpc-accept-encoding'', ascii ''identity,deflate,gzip''),
       (''accept-encoding'', ascii ''identity,gzip''), (''te'', ascii ''trailers'')]"
    by (simp add: assms(4) post_with_def post_def credential_headers_def callCredentials_def combine_def)
  show "header_value (rq_headers r) userField = Some (utf8 user)" "header_value (rq_headers r) passwordField = Some (utf8 password)"
    using assms(1) by (simp_all add: headers header_setRawHeader)
  show "\<forall>h \<in> set grpc_headers. header_value (rq_headers r) h \<noteq> None"
  proof
    fix h
    assume h: "h \<in> set grpc_headers"
    then have "lower_case h = h" using lower_grpc_headers by (metis in_set_conv_nth length_map nth_map)
    then have "h \<notin> {lower_case userField, lower_case passwordField}" "lower_case h = h"
      using assms(2,3) h by auto
    then show "header_value (rq_headers r) h \<noteq> None"
      using base_headers h by (auto simp: headers header_setRawHeader list_all_iff)
  qed
  show "new_http2_channel ''https'' (combine call channel) =
      (case channel of Ssl x \<Rightarrow> Ret (''https'', Some x) | InsecureChannel \<Rightarrow> throw Invalid_argument)"
    by (simp add: new_http2_channel_def http2_channel_scheme_def channelCredentials_def combine_def
        split: channel_credentials.split)
qed

theorem credentials_sent_witness:
  "header_value (rq_headers (post_with TYPE(64) (map ucast)
       (combine (UserPassword defaultUserFieldName defaultPasswordFieldName [97] [98] True) (Ssl ()))
       ''m'' ''s'' [] False)) ''user-name'' = Some [97]"
proof -
  have lower: "lower_case defaultUserFieldName = ''user-name''" "lower_case defaultPasswordFieldName = ''user-password''"
    by code_simp+
  have "header_value (rq_headers (post_with TYPE(64) (map ucast)
       (combine (UserPassword defaultUserFieldName defaultPasswordFieldName [97] [98] True) (Ssl ()))
       ''m'' ''s'' [] False)) defaultUserFieldName = Some (map ucast [97 :: 16 word])"
    by (rule credentials_sent [OF _ _ _ refl, THEN conjunct1]) (simp_all add: lower grpc_headers_def)
  then show ?thesis by (simp add: defaultUserFieldName_def)
qed

end
