(* ===== verification/TypeRegistration.thy ===== *)
theory TypeRegistration
  imports Main
begin

section \<open>Registration of types\<close>

text \<open>
  \<open>qtprotobuf.cpp\<close>: the generated code pushes a function for every file to the list of \<open>registerFunctions\<close> when its
  library is loaded (\<open>ProtoTypeRegistrar\<close>); \<open>qRegisterProtobufTypes\<close> registers the basic types and runs the list, the
  first time it is called. A function is a value of type \<open>'f\<close>; \<open>ran\<close> are the calls of them.
\<close>

record 'f type_registry =
  registred :: bool
  registrationList :: "'f list"
  metatypes :: "string list"
  converters :: "(string \<times> string) list"
  ran :: "'f list"

definition new_registry_state :: "'f type_registry" where
  "new_registry_state = \<lparr>registred = False, registrationList = [], metatypes = [], converters = [], ran = []\<rparr>"

definition ProtoTypeRegistrar :: "'f \<Rightarrow> 'f type_registry \<Rightarrow> 'f type_registry" where
  "ProtoTypeRegistrar initializer s = s\<lparr>registrationList := registrationList s @ [initializer]\<rparr>"

text \<open>The macro registers a type under two names.\<close>

definition registerProtobufType :: "string \<Rightarrow> 'f type_registry \<Rightarrow> 'f type_registry" where
  "registerProtobufType x s = s\<lparr>metatypes := metatypes s @ [x, ''QtProtobuf::'' @ x]\<rparr>"

text \<open>The converters from and to the numbers of C++, and to strings; \<open>(a, b)\<close> is the converter from \<open>a\<close> to \<open>b\<close>.\<close>

definition cpp_numbers :: "string list" where
  "cpp_numbers = [''int32_t'', ''int64_t'', ''uint32_t'', ''uint64_t'', ''qulonglong'', ''qlonglong'', ''double'']"

definition registerBasicConverters :: "string \<Rightarrow> 'f type_registry \<Rightarrow> 'f type_registry" where
  "registerBasicConverters t s =
     s\<lparr>converters := converters s @ concat (map (\<lambda>n. [(n, t), (t, n)]) cpp_numbers) @ [(t, ''QString'')]\<rparr>"

definition protobuf_types :: "string list" where
  "protobuf_types = [''int32'', ''int64'', ''uint32'', ''uint64'', ''sint32'', ''sint64'', ''fixed32'', ''fixed64'',
     ''sfixed32'', ''sfixed64'', ''int32List'', ''int64List'', ''uint32List'', ''uint64List'', ''sint32List'', ''sint64List'',
     ''fixed32List'', ''fixed64List'', ''sfixed32List'', ''sfixed64List'', ''DoubleList'', ''FloatList'']"

definition converted_types :: "string list" where
  "converted_types = [''int32'', ''int64'', ''sfixed32'', ''sfixed64'', ''fixed32'', ''fixed64'']"

definition run_register_functions :: "'f type_registry \<Rightarrow> 'f type_registry" where
  "run_register_functions s = s\<lparr>ran := ran s @ registrationList s\<rparr>"

definition qRegisterProtobufTypes :: "'f type_registry \<Rightarrow> 'f type_registry" where
  "qRegisterProtobufTypes s =
     (if registred s then s
      else run_register_functions (fold registerBasicConverters converted_types
             (fold registerProtobufType protobuf_types (s\<lparr>registred := True\<rparr>))))"

datatype 'f registration_event = Loaded 'f | RegisterCalled

fun registration_step :: "'f registration_event \<Rightarrow> 'f type_registry \<Rightarrow> 'f type_registry" where
  "registration_step (Loaded f) s = ProtoTypeRegistrar f s"
| "registration_step RegisterCalled s = qRegisterProtobufTypes s"

lemma fold_types:
  "ran (fold registerProtobufType xs s) = ran s" "registred (fold registerProtobufType xs s) = registred s"
  "registrationList (fold registerProtobufType xs s) = registrationList s"
  "metatypes (fold registerProtobufType xs s) = metatypes s @ concat (map (\<lambda>x. [x, ''QtProtobuf::'' @ x]) xs)"
  by (induction xs arbitrary: s) (simp_all add: registerProtobufType_def)

lemma fold_converters:
  "ran (fold registerBasicConverters xs s) = ran s" "registred (fold registerBasicConverters xs s) = registred s"
  "registrationList (fold registerBasicConverters xs s) = registrationList s"
  "metatypes (fold registerBasicConverters xs s) = metatypes s"
  "set (converters (fold registerBasicConverters xs s)) =
     set (converters s) \<union> (\<Union>t \<in> set xs. insert (t, ''QString'') (\<Union>n \<in> set cpp_numbers. {(n, t), (t, n)}))"
  by (induction xs arbitrary: s) (auto simp: registerBasicConverters_def)

text \<open>After the first call nothing is run or registered any more.\<close>

lemma registred_stays:
  "registred s \<Longrightarrow> registred (fold registration_step es s) \<and> ran (fold registration_step es s) = ran s
     \<and> metatypes (fold registration_step es s) = metatypes s"
proof (induction es arbitrary: s)
  case (Cons e es)
  then show ?case by (cases e) (simp_all add: ProtoTypeRegistrar_def qRegisterProtobufTypes_def)
qed simp

lemma loads_pushed:
  "fold registration_step (map Loaded fs) s = s\<lparr>registrationList := registrationList s @ fs\<rparr>"
  by (induction fs arbitrary: s) (simp_all add: ProtoTypeRegistrar_def)

text \<open>
  The types of a library that is loaded before the first call of \<open>qRegisterProtobufTypes\<close> are registered, once
  and in the order of loading, and so is every basic type under its two names; later calls change nothing. The
  types of a library that is loaded after the first call are never registered, however often it is called again.
\<close>

theorem types_registered_once:
  "ran (fold registration_step (map Loaded fs @ RegisterCalled # es) new_registry_state) = fs
   \<and> metatypes (fold registration_step (map Loaded fs @ RegisterCalled # es) new_registry_state)
       = concat (map (\<lambda>x. [x, ''QtProtobuf::'' @ x]) protobuf_types)"
  using registred_stays [of "qRegisterProtobufTypes (new_registry_state\<lparr>registrationList := fs\<rparr>)" es]
  by (simp add: loads_pushed) (simp add: new_registry_state_def qRegisterProtobufTypes_def run_register_functions_def
      fold_types fold_converters)

end
