(* ===== verification/CompletionQueue.thy ===== *)
theory CompletionQueue
  imports GrpcSessions "HOL-Library.Multiset"
begin

section \<open>The completion queue and the worker thread of the native channel\<close>

text \<open>
  \<open>QGrpcChannelPrivate\<close> (\<open>qgrpcchannel.cpp\<close>) runs a thread that takes the tags off the completion queue of gRPC
  and posts each one to the object it belongs to (\<open>FunctionCall::callMethod\<close>); the thread of the client handles
  the posted calls later, in order. When the queue hands a tag over, the result of the operation has been written
  (\<open>response\<close>, \<open>m_grpc_status\<close>), while the handler that looks at it has yet to run.

  The theories of the calls treat the answer of the library and its handler as one step. Here the two are apart:
  \<open>queued\<close> is the life of one object with the calls posted to it, and \<open>queued_call\<close> says when its handlers do not
  see the difference.
\<close>

subsection \<open>One object and the calls posted to it\<close>

type_synonym posted = "(tag \<times> bool) list"

inductive queued :: "bool \<Rightarrow> (tag \<Rightarrow> bool \<Rightarrow> 'a base_call_scheme \<Rightarrow> 'a base_call_scheme) \<Rightarrow>
    ('a base_call_scheme \<Rightarrow> 'a base_call_scheme) set \<Rightarrow>
    'a base_call_scheme \<Rightarrow> 'a base_call_scheme \<Rightarrow> posted \<Rightarrow> bool" for drained H U s0 where
  begins: "queued drained H U s0 s0 []"
| taken: "queued drained H U s0 s evs \<Longrightarrow> t \<in> set (pending s) \<Longrightarrow>
    (drained \<and> t = FinishRead \<longrightarrow> NewData \<notin> fst ` set evs) \<Longrightarrow>
    queued drained H U s0 (take_tag t buf st s) (evs @ [(t, ok)])"
| handled: "queued drained H U s0 s ((t, ok) # evs) \<Longrightarrow> queued drained H U s0 (H t ok s) evs"
| used: "queued drained H U s0 s evs \<Longrightarrow> shared s \<Longrightarrow> f \<in> U \<Longrightarrow> queued drained H U s0 (f s) evs"

text \<open>The same life with every answer handled at once.\<close>

inductive direct :: "(tag \<Rightarrow> bool \<Rightarrow> 'a base_call_scheme \<Rightarrow> 'a base_call_scheme) \<Rightarrow>
    ('a base_call_scheme \<Rightarrow> 'a base_call_scheme) set \<Rightarrow>
    'a base_call_scheme \<Rightarrow> 'a base_call_scheme \<Rightarrow> bool" for H U s0 where
  begins: "direct H U s0 s0"
| answered: "direct H U s0 s \<Longrightarrow> t \<in> set (pending s) \<Longrightarrow> direct H U s0 (H t ok (take_tag t buf st s))"
| used: "direct H U s0 s \<Longrightarrow> shared s \<Longrightarrow> f \<in> U \<Longrightarrow> direct H U s0 (f s)"

text \<open>A handler sees what an answer of another tag has written: the one that reads it, or writes over it.\<close>

fun conflict :: "tag \<Rightarrow> tag \<Rightarrow> bool" where
  "conflict NewData u \<longleftrightarrow> u \<noteq> FinishWrite"
| "conflict FinishRead u \<longleftrightarrow> u = FinishRead"
| "conflict FinishWrite u \<longleftrightarrow> False"

type_synonym result = "tag \<times> bool \<times> byte_buffer \<times> library_status"

definition takes :: "result list \<Rightarrow> 'a base_call_scheme \<Rightarrow> 'a base_call_scheme" where
  "takes rs s = fold (\<lambda>(t, ok, buf, st). take_tag t buf st) rs s"

lemma takes_simps [simp]:
  "takes [] s = s" "takes ((t, ok, buf, st) # rs) s = takes rs (take_tag t buf st s)"
  "takes (rs @ [(t, ok, buf, st)]) s = take_tag t buf st (takes rs s)"
  by (simp_all add: takes_def)

abbreviation tags_of :: "result list \<Rightarrow> tag multiset" where
  "tags_of rs \<equiv> mset (map fst rs)"

lemma take_tag_keeps [simp]:
  "m_refCount (take_tag t buf st s) = m_refCount s" "shared (take_tag t buf st s) = shared s"
  "deleted (take_tag t buf st s) = deleted s" "emitted (take_tag t buf st s) = emitted s"
  by (simp_all add: take_tag_def)

lemma takes_keeps [simp]:
  "shared (takes rs s) = shared s"
  by (induction rs arbitrary: s) (simp_all add: takes_def split_beta)

lemma takes_pending: "tags_of rs \<subseteq># mset (pending s) \<Longrightarrow> mset (pending (takes rs s)) = mset (pending s) - tags_of rs"
proof (induction rs arbitrary: s)
  case (Cons r rs)
  obtain t ok buf st where r: "r = (t, ok, buf, st)" by (cases r) auto
  have "tags_of rs \<subseteq># mset (pending (take_tag t buf st s))"
    using Cons.prems r by (simp add: insert_subset_eq_iff)
  from Cons.IH [OF this] show ?case using r by simp
qed simp

text \<open>What a class with posted calls must keep to, besides counting its references.\<close>

definition appends_ops :: "tag set \<Rightarrow> nat \<Rightarrow> 'a base_call_scheme \<Rightarrow> 'a base_call_scheme \<Rightarrow> bool" where
  "appends_ops T n s s' \<longleftrightarrow>
     (\<exists>us. pending s' = pending s @ us \<and> set us \<subseteq> T - {FinishRead} \<and> count_list us NewData \<le> n)"

lemma appends_ops_mset: "appends_ops T n s s' \<Longrightarrow> mset (pending s) \<subseteq># mset (pending s')"
  by (auto simp: appends_ops_def)

locale queued_call = counted_call H tags
  for H :: "tag \<Rightarrow> bool \<Rightarrow> 'a base_call_scheme \<Rightarrow> 'a base_call_scheme" and tags :: "tag set" +
  fixes U :: "('a base_call_scheme \<Rightarrow> 'a base_call_scheme) set"
  assumes commutes: "t \<in> tags \<Longrightarrow> u \<in> set (pending s) \<Longrightarrow> \<not> conflict t u \<Longrightarrow>
      H t ok (take_tag u buf st s) = take_tag u buf st (H t ok s)"
    and appends: "t \<in> tags \<Longrightarrow> appends_ops tags (of_bool (t = NewData)) s (H t ok s)"
    and user_commutes: "f \<in> U \<Longrightarrow> u \<in> set (pending s) \<Longrightarrow> shared s \<Longrightarrow>
      f (take_tag u buf st s) = take_tag u buf st (f s)"
    and user_appends: "f \<in> U \<Longrightarrow> shared s \<Longrightarrow> appends_ops tags 0 s (f s)"
    and user_drops: "f \<in> U \<Longrightarrow> shared s \<Longrightarrow> m_refCount (f s) - of_bool (shared (f s)) - int (length (pending (f s)))
      = m_refCount s - 1 - int (length (pending s))"
    and user_dies: "f \<in> U \<Longrightarrow> shared s \<Longrightarrow> 1 \<le> m_refCount s \<Longrightarrow>
      deleted (f s) \<longleftrightarrow> deleted s \<or> m_refCount (f s) = 0"
    and user_emits: "f \<in> U \<Longrightarrow> emitted (f s) = emitted s"
begin

lemma takes_commute:
  assumes "t \<in> tags" "\<forall>r \<in> set rs. \<not> conflict t (fst r)" "tags_of rs \<subseteq># mset (pending s)"
  shows "H t ok (takes rs s) = takes rs (H t ok s)"
  using assms(2,3)
proof (induction rs arbitrary: s)
  case (Cons r rs)
  obtain u ok' buf st where r: "r = (u, ok', buf, st)" by (cases r) auto
  have u: "u \<in> set (pending s)" using Cons.prems(2) r by (simp add: insert_subset_eq_iff)
  have "tags_of rs \<subseteq># mset (pending (take_tag u buf st s))"
    using Cons.prems(2) r by (simp add: insert_subset_eq_iff)
  with Cons show ?case using commutes [OF assms(1) u] r by simp
qed simp

lemma user_takes:
  assumes "f \<in> U" "shared s" "tags_of rs \<subseteq># mset (pending s)"
  shows "f (takes rs s) = takes rs (f s)"
  using assms(2,3)
proof (induction rs arbitrary: s)
  case (Cons r rs)
  obtain u ok' buf st where r: "r = (u, ok', buf, st)" by (cases r) auto
  have u: "u \<in> set (pending s)" using Cons.prems(2) r by (simp add: insert_subset_eq_iff)
  have "tags_of rs \<subseteq># mset (pending (take_tag u buf st s))"
    using Cons.prems(2) r by (simp add: insert_subset_eq_iff)
  with Cons show ?case using user_commutes [OF assms(1) u] r by simp
qed simp

text \<open>Every reference is held by the owner, by an operation of the library or by a posted call.\<close>

definition queued_inv :: "'a base_call_scheme \<Rightarrow> posted \<Rightarrow> bool" where
  "queued_inv s evs \<longleftrightarrow>
     m_refCount s = of_bool (shared s) + int (length (pending s)) + int (length evs)
     \<and> (deleted s \<longleftrightarrow> \<not> shared s \<and> pending s = [] \<and> evs = [])
     \<and> set (pending s) \<union> fst ` set evs \<subseteq> tags"

lemma queued_counted:
  assumes "queued d H U s0 s evs" "queued_inv s0 []"
  shows "queued_inv s evs"
  using assms
proof (induction rule: queued.induct)
  case (taken s evs t ok buf st)
  then show ?case using Suc_length_remove1 [of t "pending s"]
    by (auto simp: queued_inv_def dest: notin_set_remove1 simp del: length_remove1)
next
  case (handled s t ok evs)
  then have inv: "queued_inv s ((t, ok) # evs)" by blast
  then have t: "t \<in> tags" and c: "1 \<le> m_refCount s" by (auto simp: queued_inv_def)
  from appends [OF t, of s ok] inv have "set (pending (H t ok s)) \<subseteq> tags"
    by (auto simp: appends_ops_def queued_inv_def)
  with inv drops [OF t c, of ok] dies [OF t c, of ok] unowned [OF t, of ok s] show ?case
    by (auto simp: queued_inv_def)
next
  case (used s evs f)
  then have inv: "queued_inv s evs" by blast
  then have c: "1 \<le> m_refCount s" using used.hyps by (simp add: queued_inv_def)
  have "set (pending (f s)) \<subseteq> tags"
    using user_appends [OF used.hyps(3,2)] inv by (auto simp: appends_ops_def queued_inv_def)
  with inv used.hyps user_drops [OF used.hyps(3,2)] user_dies [OF used.hyps(3,2) c] show ?case
    by (auto simp: queued_inv_def of_bool_def split: if_splits)
qed

text \<open>With one read and one \<open>Finish\<close> under way, and reads handled before the end is taken, nothing conflicts.\<close>

fun reads_first :: "posted \<Rightarrow> bool" where
  "reads_first [] \<longleftrightarrow> True"
| "reads_first ((t, ok) # evs) \<longleftrightarrow> (t = NewData \<longrightarrow> FinishRead \<notin> fst ` set evs) \<and> reads_first evs"

lemma reads_first_snoc:
  "reads_first (evs @ [(t, ok)]) \<longleftrightarrow> reads_first evs \<and> (t = FinishRead \<longrightarrow> NewData \<notin> fst ` set evs)"
  by (induction evs) auto

definition one_each :: "'a base_call_scheme \<Rightarrow> bool" where
  "one_each s \<longleftrightarrow> count_list (pending s) NewData \<le> 1 \<and> count_list (pending s) FinishRead \<le> 1
     \<and> set (pending s) \<subseteq> tags"

lemma one_each_appends:
  assumes "appends_ops tags n s s'" "one_each s" "count_list (pending s) NewData + n \<le> 1"
  shows "one_each s'"
proof -
  from assms(1) obtain us where us: "pending s' = pending s @ us" "set us \<subseteq> tags - {FinishRead}"
    "count_list us NewData \<le> n" by (auto simp: appends_ops_def)
  have "count_list us FinishRead = 0" using us(2) by (auto simp: count_list_0_iff)
  with us assms(2,3) show ?thesis by (auto simp: one_each_def)
qed

lemma one_each_taken: "one_each s \<Longrightarrow> t \<in> set (pending s) \<Longrightarrow>
    one_each (take_tag t buf st s) \<and> (t = NewData \<longrightarrow> count_list (pending (take_tag t buf st s)) NewData = 0)"
proof -
  assume s: "one_each s" and t: "t \<in> set (pending s)"
  have "set (remove1 t (pending s)) \<subseteq> set (pending s)" by (rule set_remove1_subset)
  moreover have "count_list (remove1 t (pending s)) u + of_bool (t = u) = count_list (pending s) u" for u
    by (rule count_remove1 [OF t])
  from this [of NewData] this [of FinishRead]
  have "count_list (remove1 t (pending s)) NewData \<le> count_list (pending s) NewData"
    "count_list (remove1 t (pending s)) FinishRead \<le> count_list (pending s) FinishRead"
    "t = NewData \<Longrightarrow> count_list (remove1 t (pending s)) NewData < count_list (pending s) NewData"
    by (auto simp: of_bool_def split: if_splits)
  ultimately show ?thesis using s unfolding one_each_def take_tag_sel
    by (meson le_trans less_one less_le_trans subset_trans)
qed

lemma direct_one_each: "direct H U s0 s \<Longrightarrow> one_each s0 \<Longrightarrow> one_each s"
proof (induction rule: direct.induct)
  case (answered s t ok buf st)
  let ?s = "take_tag t buf st s"
  from answered have s: "one_each s" by blast
  with answered.hyps have t: "t \<in> tags" unfolding one_each_def by blast
  note e = one_each_taken [OF s answered.hyps(2), of buf st]
  then have "count_list (pending ?s) NewData + of_bool (t = NewData) \<le> 1"
    unfolding one_each_def by (cases "t = NewData") simp_all
  with e show ?case by (intro one_each_appends [OF appends [OF t, of ?s ok]]) blast+
next
  case (used s f)
  then have "one_each s" by blast
  then show ?case by (intro one_each_appends [OF user_appends [OF used.hyps(3,2)]]) (simp_all add: one_each_def)
qed

lemma no_conflicts:
  assumes "one_each s" "tags_of ((t, r) # rs) \<subseteq># mset (pending s)" "reads_first ((t, ok) # map (\<lambda>(t, ok, _). (t, ok)) rs)"
    "t \<in> tags"
  shows "\<forall>r \<in> set rs. \<not> conflict t (fst r)"
proof
  fix x assume x: "x \<in> set rs"
  have once: "t \<noteq> fst x" if "count_list (pending s) t \<le> 1"
  proof
    assume "t = fst x"
    with x have "t \<in># tags_of rs" by auto
    then have "2 \<le> count (tags_of ((t, r) # rs)) t" by (simp add: Suc_le_eq)
    also have "\<dots> \<le> count (mset (pending s)) t" using assms(2) by (rule mset_subset_eq_count)
    finally show False using that by (simp add: count_mset count_list_eq_length_filter)
  qed
  show "\<not> conflict t (fst x)"
  proof (cases t)
    case NewData
    have "fst ` set (map (\<lambda>(t, ok, _). (t, ok)) rs) = fst ` set rs"
      by (simp add: image_image split_beta)
    with assms(3) NewData have "FinishRead \<notin> fst ` set rs" by (simp del: set_map)
    with imageI [OF x, of fst] have "fst x \<noteq> FinishRead" by metis
    moreover have "fst x \<noteq> NewData" using once assms(1) NewData by (auto simp: one_each_def)
    ultimately show ?thesis using NewData by (cases "fst x") auto
  next
    case FinishRead
    with once assms(1) show ?thesis by (auto simp: one_each_def)
  qed simp
qed

text \<open>
  The queued life refines the direct one: what it has taken but not handled is all that sets it apart.
\<close>

lemma queued_refines:
  assumes "queued True H U s0 s evs" "one_each s0"
  shows "\<exists>s' rs. direct H U s0 s' \<and> s = takes rs s' \<and> evs = map (\<lambda>(t, ok, _). (t, ok)) rs
    \<and> tags_of rs \<subseteq># mset (pending s') \<and> reads_first evs"
  using assms
proof (induction rule: queued.induct)
  case begins
  then show ?case by (intro exI [of _ s0] exI [of _ "[]"]) (auto intro: direct.begins)
next
  case (taken s evs t buf st ok)
  then obtain s' rs where s': "direct H U s0 s'" "s = takes rs s'" "evs = map (\<lambda>(t, ok, _). (t, ok)) rs"
    "tags_of rs \<subseteq># mset (pending s')" "reads_first evs" by blast
  have "t \<in># mset (pending s') - tags_of rs"
    using taken.hyps(2) takes_pending [OF s'(4)] s'(2) by (metis set_mset_mset)
  then have "tags_of (rs @ [(t, ok, buf, st)]) \<subseteq># mset (pending s')"
    using subset_mset.le_diff_conv2 [OF s'(4), of "{#t#}"] by simp
  with s' taken.hyps(3) show ?case
    by (intro exI [of _ s'] exI [of _ "rs @ [(t, ok, buf, st)]"]) (auto simp: reads_first_snoc)
next
  case (handled s t ok evs)
  then obtain s' rs where s': "direct H U s0 s'" "s = takes rs s'" "(t, ok) # evs = map (\<lambda>(t, ok, _). (t, ok)) rs"
    "tags_of rs \<subseteq># mset (pending s')" "reads_first ((t, ok) # evs)" by metis
  then obtain buf st rs' where rs: "rs = (t, ok, buf, st) # rs'" "evs = map (\<lambda>(t, ok, _). (t, ok)) rs'"
    by (cases rs) auto
  let ?s = "take_tag t buf st s'"
  have t: "t \<in> set (pending s')" using s'(4) rs by (simp add: insert_subset_eq_iff)
  have e: "one_each s'" by (rule direct_one_each [OF s'(1) handled.prems])
  with t have "t \<in> tags" unfolding one_each_def by blast
  have sub: "tags_of rs' \<subseteq># mset (pending ?s)" using s'(4) rs by (simp add: insert_subset_eq_iff)
  have "\<forall>r \<in> set rs'. \<not> conflict t (fst r)"
    using no_conflicts [OF e _ _ \<open>t \<in> tags\<close>, of "(ok, buf, st)" rs' ok] s' rs by simp
  from takes_commute [OF \<open>t \<in> tags\<close> this sub, of ok] s'(2) rs have "H t ok s = takes rs' (H t ok ?s)" by simp
  moreover have "tags_of rs' \<subseteq># mset (pending (H t ok ?s))"
    by (rule subset_mset.order_trans [OF sub appends_ops_mset [OF appends [OF \<open>t \<in> tags\<close>]]])
  moreover have "direct H U s0 (H t ok ?s)" by (rule direct.answered [OF s'(1) t])
  ultimately show ?case using rs s'(5) by (intro exI [of _ "H t ok ?s"] exI [of _ rs']) auto
next
  case (used s evs f)
  then obtain s' rs where s': "direct H U s0 s'" "s = takes rs s'" "evs = map (\<lambda>(t, ok, _). (t, ok)) rs"
    "tags_of rs \<subseteq># mset (pending s')" "reads_first evs" by blast
  have sh: "shared s'" using used.hyps(2) s'(2) by simp
  from user_takes [OF used.hyps(3) sh s'(4)] s'(2) have "f s = takes rs (f s')" by simp
  moreover have "tags_of rs \<subseteq># mset (pending (f s'))"
    by (rule subset_mset.order_trans [OF s'(4) appends_ops_mset [OF user_appends [OF used.hyps(3) sh]]])
  moreover have "direct H U s0 (f s')" by (rule direct.used [OF s'(1) sh used.hyps(3)])
  ultimately show ?case using s' by (intro exI [of _ "f s'"] exI [of _ rs]) auto
qed

lemma queued_direct: "queued True H U s0 s [] \<Longrightarrow> one_each s0 \<Longrightarrow> direct H U s0 s"
  using queued_refines [of s0 s "[]"] by auto

end

text \<open>The three classes of calls, and what their users do to them besides.\<close>

definition call_uses :: "('a base_call_scheme \<Rightarrow> 'a base_call_scheme) set" where
  "call_uses = {cancel, sharedPtrReleased}"

definition bidirect_write :: "bytes \<Rightarrow> nat \<Rightarrow> stream_bidirect \<Rightarrow> stream_bidirect" where
  "bidirect_write data r s = appendToSend data r (setStatus r W_InProcess s)"

definition bidirect_uses :: "(stream_bidirect \<Rightarrow> stream_bidirect) set" where
  "bidirect_uses = call_uses \<union> {f. \<exists>data r. f = bidirect_write data r}"

lemma use_commutes:
  "f \<in> call_uses \<Longrightarrow> u \<in> set (pending s) \<Longrightarrow> f (take_tag u buf st s) = take_tag u buf st (f s)"
  by (auto simp: call_uses_def cancel_def sharedPtrReleased_def deref_or_delete_def take_tag_def Let_def)

lemma use_keeps:
  assumes "f \<in> call_uses" "shared s"
  shows "pending (f s) = pending s" "emitted (f s) = emitted s"
    "m_refCount (f s) - of_bool (shared (f s)) = m_refCount s - 1"
    "1 \<le> m_refCount s \<Longrightarrow> deleted (f s) \<longleftrightarrow> deleted s \<or> m_refCount (f s) = 0"
  using assms by (auto simp: call_uses_def cancel_def sharedPtrReleased_def deref_or_delete_def Let_def)

lemma appends_ops_same: "pending s' = pending s \<Longrightarrow> appends_ops T n s s'"
  by (simp add: appends_ops_def)

lemma appends_ops_one: "pending s' = pending s @ [t] \<Longrightarrow> t \<in> T \<Longrightarrow> t \<noteq> FinishRead \<Longrightarrow> of_bool (t = NewData) \<le> n
    \<Longrightarrow> appends_ops T n s s'"
  by (auto simp: appends_ops_def)

lemmas commute_defs = call_defs take_tag_def deref_or_delete_def Let_def remove1_append

lemma use_emits: "f \<in> call_uses \<Longrightarrow> emitted (f s) = emitted s"
  by (auto simp: call_uses_def cancel_def sharedPtrReleased_def deref_or_delete_def Let_def)

lemmas use_laws = use_commutes use_emits appends_ops_same [OF use_keeps(1)] use_keeps

interpretation stream_queue: queued_call stream_handler "{NewData, FinishRead}" call_uses
proof
  fix t u :: tag and ok buf st and s :: "'a base_call_scheme"
  assume t: "t \<in> {NewData, FinishRead}"
  show "stream_handler t ok (take_tag u buf st s) = take_tag u buf st (stream_handler t ok s)"
    if "u \<in> set (pending s)" "\<not> conflict t u"
    using t that by (cases u) (auto simp: commute_defs split: count_splits)
  show "appends_ops {NewData, FinishRead} (of_bool (t = NewData)) s (stream_handler t ok s)"
    using t by (auto simp: appends_ops_def call_defs deref_or_delete_def Let_def split: count_splits)
qed (simp_all add: use_laws)

interpretation unary_queue: queued_call call_handler "{NewData, FinishRead}" call_uses
proof
  fix t u :: tag and ok buf st and s :: "'a channel_call_scheme"
  assume t: "t \<in> {NewData, FinishRead}"
  show "call_handler t ok (take_tag u buf st s) = take_tag u buf st (call_handler t ok s)"
    if "u \<in> set (pending s)" "\<not> conflict t u"
    using t that by (cases u) (auto simp: commute_defs split: count_splits)
  show "appends_ops {NewData, FinishRead} (of_bool (t = NewData)) s (call_handler t ok s)"
    using t by (auto simp: appends_ops_def call_defs deref_or_delete_def Let_def split: count_splits)
qed (simp_all add: use_laws)

text \<open>Reporting to replays and starting a write do not look at what answers have written.\<close>

lemma take_replays:
  "fail_replay r (take_tag u buf st s) = take_tag u buf st (fail_replay r s)"
  "setStatus r w (take_tag u buf st s) = take_tag u buf st (setStatus r w s)"
  "finish_replay ok (take_tag u buf st s) = take_tag u buf st (finish_replay ok s)"
  "fail_current (take_tag u buf st s) = take_tag u buf st (fail_current s)"
  "deref_or_delete (take_tag u buf st s) = take_tag u buf st (deref_or_delete s)"
  by (simp_all add: replay_defs take_tag_def deref_or_delete_def Let_def split: option.splits)

lemma take_fail_queue:
  "fail_queue ds (take_tag u buf st s) = take_tag u buf st (fail_queue ds s)"
proof (induction ds arbitrary: s)
  case Nil
  show ?case by (simp add: take_tag_def)
qed (simp add: take_replays)

lemma take_start: "u \<in> set (pending s) \<Longrightarrow> start_op t (take_tag u buf st s) = take_tag u buf st (start_op t s)"
  by (simp add: start_op_def take_tag_def remove1_append)

lemma take_dequeue:
  assumes "u \<in> set (pending s)"
  shows "dequeueWrite (take_tag u buf st s) = take_tag u buf st (dequeueWrite s)"
proof (cases "m_sendQueue s")
  case Nil
  then show ?thesis by (simp add: dequeueWrite_def take_tag_def)
next
  case (Cons d queue)
  with assms show ?thesis
    by (cases "wd_done d") (simp_all add: dequeueWrite_def start_op_def take_tag_def remove1_append)
qed

lemma take_append:
  "u \<in> set (pending s) \<Longrightarrow> bidirect_write data r (take_tag u buf st s) = take_tag u buf st (bidirect_write data r s)"
  by (auto simp: bidirect_write_def appendToSend_def setStatus_def start_op_def take_tag_def remove1_append)

lemma dequeue_appends: "appends_ops UNIV 0 s (dequeueWrite s)"
  by (auto simp: appends_ops_def dequeueWrite_def start_op_def Let_def split: list.splits)

lemma bidi_newData_commutes:
  assumes "u = FinishWrite" "u \<in> set (pending s)"
  shows "bidi_newData ok (take_tag u buf st s) = take_tag u buf st (bidi_newData ok s)"
proof (cases "ok \<and> m_readerState s = FIRST_CALL")
  case True
  have "u \<in> set (pending (dequeueWrite s))"
    using dequeue_appends [of s] assms(2) by (auto simp: appends_ops_def)
  from take_start [OF this, of NewData buf st] True show ?thesis
    by (simp add: bidi_newData_def take_dequeue [OF assms(2)])
      (simp add: take_tag_def deref_or_delete_def Let_def)
next
  case False
  then show ?thesis using assms
    by (auto simp: bidi_newData_def cancel_def start_op_def take_tag_def deref_or_delete_def Let_def remove1_append
        split: ReaderState.splits prod.splits)
qed

lemma bidi_finishWrite_commutes:
  assumes "u \<in> set (pending s)"
  shows "bidi_finishWrite ok (take_tag u buf st s) = take_tag u buf st (bidi_finishWrite ok s)"
proof -
  let ?s = "deref_or_delete (finish_replay ok s)"
  have "u \<in> set (pending ?s)" using assms by (simp add: deref_or_delete_def Let_def)
  from take_dequeue [OF this] show ?thesis by (simp add: bidi_finishWrite_def take_replays Let_def)
qed

lemma bidi_finishRead_commutes:
  assumes "u \<noteq> FinishRead"
  shows "bidi_finishRead ok (take_tag u buf st s) = take_tag u buf st (bidi_finishRead ok s)"
proof -
  define g :: "stream_bidirect \<Rightarrow> stream_bidirect" where
    "g s = (if m_code (m_status s) = Ok \<or> \<not> status_ok (m_grpc_status s)
       then s\<lparr>m_status := status_of (m_grpc_status s)\<rparr> else s)" for s
  have g: "g (take_tag u buf st s) = take_tag u buf st (g s)" for s
    using assms by (auto simp: g_def take_tag_def)
  define e :: "stream_bidirect \<Rightarrow> stream_bidirect" where "e s = s\<lparr>emitted := emitted s @ [SigFinished]\<rparr>" for s
  have e: "e (take_tag u buf st s) = take_tag u buf st (e s)" for s by (simp add: e_def take_tag_def)
  have "bidi_finishRead ok s = deref_or_delete (e (fail_queue (m_sendQueue (fail_current (g s))) (fail_current (g s))))" for s
    by (simp only: bidi_finishRead_def g_def e_def Let_def)
  then show ?thesis by (simp only: g e take_replays take_fail_queue take_tag_bidi)
qed

interpretation bidirect_queue: queued_call bidi_handler UNIV bidirect_uses
proof
  fix t u :: tag and ok buf st and s :: stream_bidirect
  show "bidi_handler t ok (take_tag u buf st s) = take_tag u buf st (bidi_handler t ok s)"
    if "u \<in> set (pending s)" "\<not> conflict t u"
    using that by (cases t)
      (simp_all add: bidi_newData_commutes bidi_finishWrite_commutes bidi_finishRead_commutes)
  show "appends_ops UNIV (of_bool (t = NewData)) s (bidi_handler t ok s)"
    by (cases t) (auto simp: appends_ops_def bidi_defs Let_def split: bidi_splits)
next
  fix f and u buf st and s :: stream_bidirect
  assume f: "f \<in> bidirect_uses" and s: "shared s"
  then consider "f \<in> call_uses" | data r where "f = bidirect_write data r" by (auto simp: bidirect_uses_def)
  note f_cases = this
  show "f (take_tag u buf st s) = take_tag u buf st (f s)" if "u \<in> set (pending s)"
    using f_cases that by cases (simp_all add: use_laws take_append)
  show "appends_ops UNIV 0 s (f s)"
    using f_cases s by cases (simp_all add: use_laws, auto simp: appends_ops_def bidirect_write_def appendToSend_def start_op_def)
  show "m_refCount (f s) - of_bool (shared (f s)) - int (length (pending (f s)))
      = m_refCount s - 1 - int (length (pending s))"
    using f_cases s by cases (auto simp: use_laws bidirect_write_def appendToSend_def start_op_def)
  show "deleted (f s) \<longleftrightarrow> deleted s \<or> m_refCount (f s) = 0" if "1 \<le> m_refCount s"
    using f_cases s that by cases (auto simp: use_laws bidirect_write_def appendToSend_def start_op_def)
next
  fix f and s :: stream_bidirect
  assume "f \<in> bidirect_uses"
  then show "emitted (f s) = emitted s"
    by (auto simp: bidirect_uses_def use_emits bidirect_write_def appendToSend_def start_op_def)
qed

end
