(* ===== verification/ChannelThread.thy ===== *)
theory ChannelThread
  imports CompletionQueue
begin

section \<open>The channel with all its calls\<close>

text \<open>
  \<open>QGrpcChannelPrivate\<close> (\<open>qgrpcchannel.cpp\<close>, \<open>qgrpcchannel_p.h\<close>): the calls it has started, the events posted to the thread of the
  client, and the worker thread. gRPC is the source of the answers of \<open>CompletionQueue::Next\<close>; \<open>allowed\<close> says what
  it may answer. The destructor shuts the queue down and waits for the worker while the thread of the client
  handles nothing.
\<close>

text \<open>A \<open>Local_object\<close> is the call on the stack of the synchronous \<open>call\<close>.\<close>

datatype call_object = Unary_object channel_call | Local_object channel_call
  | Stream_object base_call | Bidirect_object stream_bidirect

fun object_take :: "tag \<Rightarrow> byte_buffer \<Rightarrow> library_status \<Rightarrow> call_object \<Rightarrow> call_object" where
  "object_take t buf st (Unary_object s) = Unary_object (take_tag t buf st s)"
| "object_take t buf st (Local_object s) = Local_object (take_tag t buf st s)"
| "object_take t buf st (Stream_object s) = Stream_object (take_tag t buf st s)"
| "object_take t buf st (Bidirect_object s) = Bidirect_object (take_tag t buf st s)"

fun object_handler :: "tag \<Rightarrow> bool \<Rightarrow> call_object \<Rightarrow> call_object" where
  "object_handler t ok (Unary_object s) = Unary_object (call_handler t ok s)"
| "object_handler t ok (Local_object s) = Local_object (call_handler t ok s)"
| "object_handler t ok (Stream_object s) = Stream_object (stream_handler t ok s)"
| "object_handler t ok (Bidirect_object s) = Bidirect_object (bidi_handler t ok s)"

fun object_base :: "call_object \<Rightarrow> base_call" where
  "object_base (Unary_object s) = base_call.truncate s"
| "object_base (Local_object s) = base_call.truncate s"
| "object_base (Stream_object s) = s"
| "object_base (Bidirect_object s) = base_call.truncate s"

text \<open>What the owner of an object does to it.\<close>

fun object_cancel :: "call_object \<Rightarrow> call_object" where
  "object_cancel (Unary_object s) = Unary_object (cancel s)"
| "object_cancel (Local_object s) = Local_object s"
| "object_cancel (Stream_object s) = Stream_object (cancel s)"
| "object_cancel (Bidirect_object s) = Bidirect_object (cancel s)"

fun object_release :: "call_object \<Rightarrow> call_object" where
  "object_release (Unary_object s) = Unary_object (sharedPtrReleased s)"
| "object_release (Local_object s) = Local_object s"
| "object_release (Stream_object s) = Stream_object (sharedPtrReleased s)"
| "object_release (Bidirect_object s) = Bidirect_object (sharedPtrReleased s)"

fun object_write :: "bytes \<Rightarrow> nat \<Rightarrow> call_object \<Rightarrow> call_object" where
  "object_write data r (Bidirect_object s) = Bidirect_object (bidirect_write data r s)"
| "object_write data r ob = ob"

text \<open>The end of the block of the synchronous \<open>call\<close>: the object on its stack is gone.\<close>

fun object_leave :: "call_object \<Rightarrow> call_object" where
  "object_leave (Local_object s) = Local_object (s\<lparr>deleted := True\<rparr>)"
| "object_leave ob = ob"

fun is_local :: "call_object \<Rightarrow> bool" where
  "is_local (Local_object s) \<longleftrightarrow> True"
| "is_local _ \<longleftrightarrow> False"

subsection \<open>The channel\<close>

datatype main_event = CallMethod nat tag bool | WorkerFinished

record channel_private =
  objects :: "call_object list"
  events :: "main_event list"
  shut_down :: bool
  worker_finished :: bool
  destroyed :: bool
  finished_signals :: nat

definition new_channel_private :: channel_private where
  "new_channel_private = \<lparr>objects = [], events = [], shut_down = False, worker_finished = False,
     destroyed = False, finished_signals = 0\<rparr>"

text \<open>The four ways to start a call; an object is known by its place.\<close>

definition start_object :: "call_object \<Rightarrow> channel_private \<Rightarrow> channel_private" where
  "start_object ob c = c\<lparr>objects := objects c @ [ob]\<rparr>"

definition channel_call_async :: "bytes \<Rightarrow> channel_private \<Rightarrow> channel_private" where
  "channel_call_async args = start_object (Unary_object (call_startReader (new_channel_call args)))"

definition channel_call_sync :: "bytes \<Rightarrow> channel_private \<Rightarrow> channel_private" where
  "channel_call_sync args = start_object (Local_object (call_startReader (new_channel_call args)))"

definition channel_stream :: "bytes \<Rightarrow> channel_private \<Rightarrow> channel_private" where
  "channel_stream arg = start_object (Stream_object (startReader (new_base_call arg)))"

definition channel_stream_bidirect :: "channel_private \<Rightarrow> channel_private" where
  "channel_stream_bidirect = start_object (Bidirect_object (bidi_startReader new_stream_bidirect))"

text \<open>\<open>FunctionCall::callMethod\<close>, on the worker thread: a queued call of the handler.\<close>

definition callMethod :: "nat \<Rightarrow> tag \<Rightarrow> bool \<Rightarrow> channel_private \<Rightarrow> channel_private" where
  "callMethod n t arg c = c\<lparr>events := events c @ [CallMethod n t arg]\<rparr>"

text \<open>
  One turn of the loop of the worker thread. The tag points into the object of the call. When the thread ends,
  its signal \<open>finished\<close> is posted to the channel, which lives in the thread of the client.
\<close>

datatype next_answer = Drained | Null_tag | Returned nat tag bool byte_buffer library_status

fun worker_turn :: "next_answer \<Rightarrow> channel_private \<Rightarrow> channel_private outcome" where
  "worker_turn Drained c = Ret (c\<lparr>worker_finished := True, events := events c @ [WorkerFinished]\<rparr>)"
| "worker_turn Null_tag c = Ret c"
| "worker_turn (Returned n t ok buf st) c =
     (if deleted (object_base (objects c ! n)) then undefined_by Use_after_free
      else Ret (callMethod n t ok (c\<lparr>objects := (objects c)[n := object_take t buf st (objects c ! n)]\<rparr>)))"

text \<open>
  The thread of the client handles the first event. Events for an object that was deleted have left the queue
  with it. An operation must not be handed to a queue that was shut down.
\<close>

definition process_event :: "channel_private \<Rightarrow> channel_private outcome" where
  "process_event c =
     (case events c of
        [] \<Rightarrow> Ret c
      | WorkerFinished # es \<Rightarrow> Ret (c\<lparr>events := es, finished_signals := Suc (finished_signals c)\<rparr>)
      | CallMethod n t ok # es \<Rightarrow>
          let ob = objects c ! n; c = c\<lparr>events := es\<rparr>
          in if deleted (object_base ob) then Ret c
             else let ob' = object_handler t ok ob
               in if shut_down c \<and> length (pending (object_base ob)) < length (pending (object_base ob'))
                  then undefined_by Broken_contract
                  else Ret (c\<lparr>objects := (objects c)[n := ob']\<rparr>))"

text \<open>
  The destructor: \<open>Shutdown\<close>, then \<open>wait\<close> until the worker has ended, given what \<open>Next\<close> answers; the events for
  the channel itself are gone with it.
\<close>

fun wait_worker :: "next_answer list \<Rightarrow> channel_private \<Rightarrow> channel_private outcome" where
  "wait_worker [] c = No_fuel"
| "wait_worker (a # as) c = and_then (worker_turn a c) (\<lambda>c. if worker_finished c then Ret c else wait_worker as c)"

definition destroy_end :: "channel_private \<Rightarrow> channel_private" where
  "destroy_end c = c\<lparr>destroyed := True, events := filter (\<lambda>e. e \<noteq> WorkerFinished) (events c)\<rparr>"

definition destroy_channel :: "next_answer list \<Rightarrow> channel_private \<Rightarrow> channel_private outcome" where
  "destroy_channel as c = and_then (wait_worker as (c\<lparr>shut_down := True\<rparr>)) (\<lambda>c. Ret (destroy_end c))"

text \<open>What the completion queue may answer.\<close>

fun allowed :: "next_answer \<Rightarrow> channel_private \<Rightarrow> bool" where
  "allowed Drained c \<longleftrightarrow> shut_down c \<and> (\<forall>ob \<in> set (objects c). pending (object_base ob) = [])"
| "allowed Null_tag c \<longleftrightarrow> True"
| "allowed (Returned n t ok buf st) c \<longleftrightarrow> n < length (objects c) \<and> t \<in> set (pending (object_base (objects c ! n)))"

fun posted_to :: "nat \<Rightarrow> main_event list \<Rightarrow> posted" where
  "posted_to n [] = []"
| "posted_to n (CallMethod m t ok # es) = (if m = n then [(t, ok)] else []) @ posted_to n es"
| "posted_to n (WorkerFinished # es) = posted_to n es"

fun reads_handled :: "next_answer \<Rightarrow> channel_private \<Rightarrow> bool" where
  "reads_handled (Returned n t ok buf st) c \<longleftrightarrow> (t = FinishRead \<longrightarrow> NewData \<notin> fst ` set (posted_to n (events c)))"
| "reads_handled _ c \<longleftrightarrow> True"

definition client_runs :: "channel_private \<Rightarrow> bool" where
  "client_runs c \<longleftrightarrow> shut_down c \<longrightarrow> destroyed c"

definition update_object :: "nat \<Rightarrow> (call_object \<Rightarrow> call_object) \<Rightarrow> channel_private \<Rightarrow> channel_private" where
  "update_object n f c = c\<lparr>objects := (objects c)[n := f (objects c ! n)]\<rparr>"

definition owned :: "nat \<Rightarrow> channel_private \<Rightarrow> bool" where
  "owned n c \<longleftrightarrow> n < length (objects c) \<and> shared (object_base (objects c ! n))"

text \<open>
  All histories of a channel whose client does not call \<open>writeDone\<close>: with it a stream may be deleted while operations of it
  are with the library (\<open>writeDone_deletes_too_early\<close>).
\<close>

inductive channel_history :: "bool \<Rightarrow> channel_private \<Rightarrow> bool" for drained where
  begins: "channel_history drained new_channel_private"
| starts: "channel_history drained c \<Longrightarrow> \<not> shut_down c \<Longrightarrow>
    c' \<in> {channel_call_async args c, channel_call_sync args c, channel_stream args c, channel_stream_bidirect c} \<Longrightarrow>
    channel_history drained c'"
| turns: "channel_history drained c \<Longrightarrow> \<not> worker_finished c \<Longrightarrow> allowed a c \<Longrightarrow>
    (drained \<longrightarrow> reads_handled a c) \<Longrightarrow> worker_turn a c = Ret c' \<Longrightarrow> channel_history drained c'"
| handles: "channel_history drained c \<Longrightarrow> client_runs c \<Longrightarrow> process_event c = Ret c' \<Longrightarrow> channel_history drained c'"
| cancels: "channel_history drained c \<Longrightarrow> client_runs c \<Longrightarrow> owned n c \<Longrightarrow>
    channel_history drained (update_object n object_cancel c)"
| releases: "channel_history drained c \<Longrightarrow> client_runs c \<Longrightarrow> owned n c \<Longrightarrow>
    channel_history drained (update_object n object_release c)"
| writes: "channel_history drained c \<Longrightarrow> \<not> shut_down c \<Longrightarrow> owned n c \<Longrightarrow>
    channel_history drained (update_object n (object_write data r) c)"
| leaves: "channel_history drained c \<Longrightarrow> \<not> shut_down c \<Longrightarrow> n < length (objects c) \<Longrightarrow>
    SigFinished \<in> set (emitted (object_base (objects c ! n))) \<Longrightarrow>
    channel_history drained (update_object n object_leave c)"
| shuts: "channel_history drained c \<Longrightarrow> \<not> shut_down c \<Longrightarrow> channel_history drained (c\<lparr>shut_down := True\<rparr>)"
| destroys: "channel_history drained c \<Longrightarrow> worker_finished c \<Longrightarrow> \<not> destroyed c \<Longrightarrow>
    channel_history drained (destroy_end c)"

subsection \<open>Each object leads the life of one object\<close>

lemma posted_to_append [simp]: "posted_to n (es @ es') = posted_to n es @ posted_to n es'"
  by (induction n es rule: posted_to.induct) auto

lemma posted_to_filter [simp]: "posted_to n (filter (\<lambda>e. e \<noteq> WorkerFinished) es) = posted_to n es"
  by (induction n es rule: posted_to.induct) auto

fun object_life :: "bool \<Rightarrow> call_object \<Rightarrow> posted \<Rightarrow> bool" where
  "object_life d (Unary_object s) evs \<longleftrightarrow>
     (\<exists>args. queued d call_handler call_uses (call_startReader (new_channel_call args)) s evs)"
| "object_life d (Local_object s) evs \<longleftrightarrow>
     (\<not> deleted s \<longrightarrow> (\<exists>args. queued d call_handler call_uses (call_startReader (new_channel_call args)) s evs))"
| "object_life d (Stream_object s) evs \<longleftrightarrow>
     (\<exists>arg. queued d stream_handler call_uses (startReader (new_base_call arg)) s evs)"
| "object_life d (Bidirect_object s) evs \<longleftrightarrow>
     queued d bidi_handler bidirect_uses (bidi_startReader new_stream_bidirect) s evs"

lemma truncate_base [simp]:
  "pending (base_call.truncate s) = pending s" "shared (base_call.truncate s) = shared s"
  "deleted (base_call.truncate s) = deleted s" "m_refCount (base_call.truncate s) = m_refCount s"
  "emitted (base_call.truncate s) = emitted s"
  by (simp_all add: base_call.defs)

lemma started_queues:
  "unary_queue.queued_inv (call_startReader (new_channel_call args)) []"
  "stream_queue.queued_inv (startReader (new_base_call arg)) []"
  "bidirect_queue.queued_inv (bidi_startReader new_stream_bidirect) []"
  using started_call [of args] started_stream [of arg] started_bidi
  by (auto simp: unary_queue.queued_inv_def stream_queue.queued_inv_def bidirect_queue.queued_inv_def count_inv_def)

text \<open>References and tags of an object that its class counts.\<close>

definition object_counted :: "call_object \<Rightarrow> posted \<Rightarrow> bool" where
  "object_counted ob evs \<longleftrightarrow> (let s = object_base ob in
     m_refCount s = of_bool (shared s) + int (length (pending s)) + int (length evs)
     \<and> (deleted s \<longleftrightarrow> \<not> shared s \<and> pending s = [] \<and> evs = []))"

lemma object_life_counted:
  assumes "object_life d ob evs" "\<not> is_local ob \<or> \<not> deleted (object_base ob)"
  shows "object_counted ob evs"
proof (cases ob)
  case (Unary_object s)
  with assms(1) obtain args where "queued d call_handler call_uses (call_startReader (new_channel_call args)) s evs" by auto
  from unary_queue.queued_counted [OF this started_queues(1)] Unary_object show ?thesis
    by (auto simp: object_counted_def unary_queue.queued_inv_def)
next
  case (Local_object s)
  with assms obtain args where "queued d call_handler call_uses (call_startReader (new_channel_call args)) s evs" by auto
  from unary_queue.queued_counted [OF this started_queues(1)] Local_object show ?thesis
    by (auto simp: object_counted_def unary_queue.queued_inv_def)
next
  case (Stream_object s)
  with assms(1) obtain arg where "queued d stream_handler call_uses (startReader (new_base_call arg)) s evs" by auto
  from stream_queue.queued_counted [OF this started_queues(2)] Stream_object show ?thesis
    by (auto simp: object_counted_def stream_queue.queued_inv_def)
next
  case (Bidirect_object s)
  with assms(1) have "queued d bidi_handler bidirect_uses (bidi_startReader new_stream_bidirect) s evs" by simp
  from bidirect_queue.queued_counted [OF this started_queues(3)] Bidirect_object show ?thesis
    by (auto simp: object_counted_def bidirect_queue.queued_inv_def)
qed

lemma object_take_base [simp]:
  "object_base (object_take t buf st ob) = take_tag t buf st (object_base ob)"
  by (cases ob) (simp_all add: base_call.defs take_tag_def)

lemma life_take:
  assumes "object_life d ob evs" "t \<in> set (pending (object_base ob))"
    "d \<longrightarrow> t = FinishRead \<longrightarrow> NewData \<notin> fst ` set evs"
  shows "object_life d (object_take t buf st ob) (evs @ [(t, ok)])"
  using assms by (cases ob) (auto intro: queued.taken)

lemma life_handle:
  assumes "object_life d ob ((t, ok) # evs)" "\<not> deleted (object_base ob)"
  shows "object_life d (object_handler t ok ob) evs"
  using assms by (cases ob) (auto intro: queued.handled)

lemma life_dropped:
  assumes "object_life d ob ((t, ok) # evs)" "deleted (object_base ob)"
  shows "object_life d ob evs"
proof (cases "is_local ob")
  case True
  with assms show ?thesis by (cases ob) auto
next
  case False
  with object_life_counted [OF assms(1)] assms(2) show ?thesis by (simp add: object_counted_def Let_def)
qed

lemma life_uses:
  assumes "object_life d ob evs" "shared (object_base ob)"
  shows "object_life d (object_cancel ob) evs" "object_life d (object_release ob) evs"
    "object_life d (object_write data r ob) evs"
proof -
  have u: "cancel \<in> call_uses" "sharedPtrReleased \<in> call_uses" "cancel \<in> bidirect_uses"
    "sharedPtrReleased \<in> bidirect_uses" "bidirect_write data r \<in> bidirect_uses"
    by (auto simp: call_uses_def bidirect_uses_def)
  show "object_life d (object_cancel ob) evs" "object_life d (object_release ob) evs"
    "object_life d (object_write data r ob) evs"
    using assms u by (cases ob; auto intro: queued.used)+
qed

lemma life_leave: "object_life d ob evs \<Longrightarrow> object_life d (object_leave ob) evs"
  by (cases ob) auto

lemma life_start:
  "object_life d (Unary_object (call_startReader (new_channel_call args))) []"
  "object_life d (Local_object (call_startReader (new_channel_call args))) []"
  "object_life d (Stream_object (startReader (new_base_call args))) []"
  "object_life d (Bidirect_object (bidi_startReader new_stream_bidirect)) []"
  by (auto intro: queued.begins)

definition lives :: "bool \<Rightarrow> channel_private \<Rightarrow> bool" where
  "lives d c \<longleftrightarrow> (\<forall>n < length (objects c). object_life d (objects c ! n) (posted_to n (events c)))
     \<and> (\<forall>n \<ge> length (objects c). posted_to n (events c) = [])"

lemma lives_update:
  assumes "lives d c" "n < length (objects c)" "object_life d (f (objects c ! n)) (posted_to n (events c))"
  shows "lives d (update_object n f c)"
  using assms by (auto simp: lives_def update_object_def nth_list_update)

lemma lives_start: "lives d c \<Longrightarrow> object_life d ob [] \<Longrightarrow> lives d (start_object ob c)"
  by (auto simp: lives_def start_object_def nth_append less_Suc_eq)

lemma lives_turn:
  assumes "lives d c" "allowed a c" "d \<longrightarrow> reads_handled a c" "worker_turn a c = Ret c'"
  shows "lives d c'"
proof (cases a)
  case (Returned n t ok buf st)
  have "object_life d (object_take t buf st (objects c ! n)) (posted_to n (events c) @ [(t, ok)])"
    using assms Returned by (intro life_take) (auto simp: lives_def)
  with assms Returned show ?thesis
    by (auto simp: lives_def callMethod_def nth_list_update split: if_splits)
qed (use assms in \<open>auto simp: lives_def\<close>)

lemma lives_event:
  assumes "lives d c" "process_event c = Ret c'"
  shows "lives d c'"
proof (cases "events c")
  case (Cons e es)
  show ?thesis
  proof (cases e)
    case (CallMethod n t ok)
    have n: "n < length (objects c)" using assms(1) Cons CallMethod by (fastforce simp: lives_def not_less [symmetric])
    then have life: "object_life d (objects c ! n) ((t, ok) # posted_to n es)"
      using assms(1) Cons CallMethod by (auto simp: lives_def)
    show ?thesis
    proof (cases "deleted (object_base (objects c ! n))")
      case True
      with assms Cons CallMethod life_dropped [OF life] show ?thesis
        by (auto simp: process_event_def lives_def Let_def split: if_splits)
    next
      case False
      with n assms Cons CallMethod life_handle [OF life False] show ?thesis
        by (auto simp: process_event_def lives_def Let_def nth_list_update split: if_splits)
    qed
  qed (use assms Cons in \<open>auto simp: process_event_def lives_def\<close>)
qed (use assms in \<open>simp add: process_event_def\<close>)

lemma history_lives: "channel_history d c \<Longrightarrow> lives d c"
proof (induction rule: channel_history.induct)
  case (starts c c' args)
  then show ?case
    using life_start by (auto simp: channel_call_async_def channel_call_sync_def channel_stream_def
        channel_stream_bidirect_def intro!: lives_start)
next
  case (cancels c n)
  then show ?case by (intro lives_update life_uses) (auto simp: owned_def lives_def)
next
  case (releases c n)
  then show ?case by (intro lives_update life_uses) (auto simp: owned_def lives_def)
next
  case (writes c n data r)
  then show ?case by (intro lives_update life_uses) (auto simp: owned_def lives_def)
next
  case (leaves c n)
  then show ?case by (intro lives_update life_leave) (auto simp: lives_def)
next
  case (turns c a c')
  then show ?case by (blast intro: lives_turn)
next
  case (handles c c')
  then show ?case by (blast intro: lives_event)
qed (simp_all add: new_channel_private_def lives_def destroy_end_def)

subsection \<open>The end of the channel\<close>

lemma handler_keeps_ops:
  assumes "object_life d ob ((t, ok) # evs)" "\<not> deleted (object_base ob)"
  shows "\<exists>us. pending (object_base (object_handler t ok ob)) = pending (object_base ob) @ us"
proof (cases ob)
  case (Unary_object s)
  then obtain args where "queued d call_handler call_uses (call_startReader (new_channel_call args)) s ((t, ok) # evs)"
    using assms by auto
  from unary_queue.queued_counted [OF this started_queues(1)] have "t \<in> {NewData, FinishRead}"
    by (simp add: unary_queue.queued_inv_def)
  from unary_queue.appends [OF this, of s ok] Unary_object show ?thesis by (auto simp: appends_ops_def)
next
  case (Local_object s)
  then obtain args where "queued d call_handler call_uses (call_startReader (new_channel_call args)) s ((t, ok) # evs)"
    using assms by auto
  from unary_queue.queued_counted [OF this started_queues(1)] have "t \<in> {NewData, FinishRead}"
    by (simp add: unary_queue.queued_inv_def)
  from unary_queue.appends [OF this, of s ok] Local_object show ?thesis by (auto simp: appends_ops_def)
next
  case (Stream_object s)
  then obtain arg where "queued d stream_handler call_uses (startReader (new_base_call arg)) s ((t, ok) # evs)"
    using assms by auto
  from stream_queue.queued_counted [OF this started_queues(2)] have "t \<in> {NewData, FinishRead}"
    by (simp add: stream_queue.queued_inv_def)
  from stream_queue.appends [OF this, of s ok] Stream_object show ?thesis by (auto simp: appends_ops_def)
next
  case (Bidirect_object s)
  with bidirect_queue.appends [of t s ok] show ?thesis by (auto simp: appends_ops_def)
qed

definition idle :: "channel_private \<Rightarrow> bool" where
  "idle c \<longleftrightarrow> (\<forall>ob \<in> set (objects c). pending (object_base ob) = [])"

definition end_inv :: "channel_private \<Rightarrow> bool" where
  "end_inv c \<longleftrightarrow> (worker_finished c \<longrightarrow> shut_down c \<and> idle c) \<and> (destroyed c \<longrightarrow> worker_finished c)
     \<and> (WorkerFinished \<in> set (events c) \<longrightarrow> worker_finished c \<and> \<not> destroyed c) \<and> finished_signals c = 0"

lemma object_uses_ops [simp]:
  "pending (object_base (object_cancel ob)) = pending (object_base ob)"
  "pending (object_base (object_release ob)) = pending (object_base ob)"
  "pending (object_base (object_leave ob)) = pending (object_base ob)"
  by (cases ob; simp add: cancel_def sharedPtrReleased_def deref_or_delete_def Let_def)+

lemma idle_update:
  assumes "idle c" "pending (object_base (f (objects c ! n))) = pending (object_base (objects c ! n))"
    "n < length (objects c)"
  shows "idle (update_object n f c)"
  using assms by (auto simp: idle_def update_object_def set_conv_nth nth_list_update)

lemma update_flags [simp]:
  "shut_down (update_object n f c) = shut_down c" "worker_finished (update_object n f c) = worker_finished c"
  "destroyed (update_object n f c) = destroyed c" "events (update_object n f c) = events c"
  "finished_signals (update_object n f c) = finished_signals c"
  by (simp_all add: update_object_def)

lemma end_inv_update:
  assumes "end_inv c" "worker_finished c \<Longrightarrow> idle (update_object n f c)"
  shows "end_inv (update_object n f c)"
  using assms by (simp add: end_inv_def)

lemma end_inv_turn:
  assumes "end_inv c" "allowed a c" "\<not> worker_finished c" "worker_turn a c = Ret c'"
  shows "end_inv c'"
  using assms by (cases a) (auto simp: end_inv_def idle_def callMethod_def split: if_splits)

lemma end_inv_event:
  assumes "end_inv c" "lives d c" "client_runs c" "process_event c = Ret c'"
  shows "end_inv c'"
proof (cases "events c")
  case (Cons e es)
  show ?thesis
  proof (cases e)
    case WorkerFinished
    with assms(1,3) Cons show ?thesis by (auto simp: end_inv_def client_runs_def)
  next
    case (CallMethod n t ok)
    let ?ob = "objects c ! n"
    have n: "n < length (objects c)"
      using assms(2) Cons CallMethod by (fastforce simp: lives_def not_less [symmetric])
    then have life: "object_life d ?ob ((t, ok) # posted_to n es)"
      using assms(2) Cons CallMethod by (auto simp: lives_def)
    show ?thesis
    proof (cases "deleted (object_base ?ob)")
      case True
      with assms(1,4) Cons CallMethod show ?thesis by (auto simp: end_inv_def idle_def process_event_def Let_def)
    next
      case False
      obtain us where us: "pending (object_base (object_handler t ok ?ob)) = pending (object_base ?ob) @ us"
        using handler_keeps_ops [OF life False] by blast
      have c': "c' = update_object n (object_handler t ok) (c\<lparr>events := es\<rparr>)" and "shut_down c \<Longrightarrow> us = []"
        using assms(4) Cons CallMethod False us
        by (auto simp: process_event_def update_object_def Let_def split: if_splits)
      then have "idle c \<Longrightarrow> shut_down c \<Longrightarrow> idle c'"
        using us n by (auto intro!: idle_update) (simp add: idle_def)
      with assms(1) Cons c' show ?thesis by (auto simp: end_inv_def)
    qed
  qed
qed (use assms in \<open>simp add: process_event_def\<close>)

lemma history_end_inv: "channel_history d c \<Longrightarrow> end_inv c"
proof (induction rule: channel_history.induct)
  case (starts c c' args)
  then show ?case by (auto simp: end_inv_def channel_call_async_def channel_call_sync_def channel_stream_def
        channel_stream_bidirect_def start_object_def)
next
  case (turns c a c')
  then show ?case by (blast intro: end_inv_turn)
next
  case (handles c c')
  then show ?case by (blast intro: end_inv_event history_lives)
next
  case (cancels c n)
  then show ?case by (intro end_inv_update idle_update) (auto simp: end_inv_def owned_def)
next
  case (releases c n)
  then show ?case by (intro end_inv_update idle_update) (auto simp: end_inv_def owned_def)
next
  case (writes c n data r)
  then show ?case by (auto simp: end_inv_def)
next
  case (leaves c n)
  then show ?case by (intro end_inv_update idle_update) (auto simp: end_inv_def)
qed (auto simp: new_channel_private_def end_inv_def destroy_end_def idle_def)

subsection \<open>Properties\<close>

text \<open>
  C10. However the answers of gRPC, the worker thread and the client interleave, as long as the client does not call
  \<open>writeDone\<close> (which drops a reference nobody took): every call has as many references as its owner, the operations
  the library has and the posted events make up, it is deleted exactly when there is none of these left, and each answer
  of the library finds a call that exists. The exception is a synchronous call that has returned.
\<close>

theorem channel_objects_alive:
  assumes "channel_history d c" and "n < length (objects c)"
  defines "s \<equiv> object_base (objects c ! n)"
  shows "is_local (objects c ! n) \<and> deleted s
    \<or> m_refCount s = of_bool (shared s) + int (length (pending s)) + int (length (posted_to n (events c)))
      \<and> (deleted s \<longleftrightarrow> \<not> shared s \<and> pending s = [] \<and> posted_to n (events c) = [])
      \<and> (\<forall>t ok buf st. allowed (Returned n t ok buf st) c \<longrightarrow> (\<exists>c'. worker_turn (Returned n t ok buf st) c = Ret c'))"
proof (cases "is_local (objects c ! n) \<and> deleted s")
  case False
  have "object_life d (objects c ! n) (posted_to n (events c))"
    using history_lives [OF assms(1)] assms(2) by (simp add: lives_def)
  from object_life_counted [OF this] False have "object_counted (objects c ! n) (posted_to n (events c))"
    by (auto simp: s_def)
  then show ?thesis by (auto simp: object_counted_def s_def Let_def)
qed simp

text \<open>A channel with one stream, and a script of what the two threads do.\<close>

datatype thread_step = Worker next_answer | Client

fun run_threads :: "thread_step list \<Rightarrow> channel_private \<Rightarrow> channel_private outcome" where
  "run_threads [] c = Ret c"
| "run_threads (Worker a # ss) c = and_then (worker_turn a c) (run_threads ss)"
| "run_threads (Client # ss) c = and_then (process_event c) (run_threads ss)"

abbreviation no_data :: byte_buffer where
  "no_data \<equiv> \<lparr>dump_status = ok_status, slices = []\<rparr>"

abbreviation acknowledged :: "thread_step list" where
  "acknowledged \<equiv> [Worker (Returned 0 NewData True no_data ok_status), Client]"

fun script_ok :: "bool \<Rightarrow> thread_step list \<Rightarrow> channel_private \<Rightarrow> bool" where
  "script_ok d [] c \<longleftrightarrow> True"
| "script_ok d (Worker a # ss) c \<longleftrightarrow> \<not> worker_finished c \<and> allowed a c \<and> (d \<longrightarrow> reads_handled a c)
     \<and> (case worker_turn a c of Ret c' \<Rightarrow> script_ok d ss c' | _ \<Rightarrow> False)"
| "script_ok d (Client # ss) c \<longleftrightarrow> client_runs c
     \<and> (case process_event c of Ret c' \<Rightarrow> script_ok d ss c' | _ \<Rightarrow> False)"

lemma run_history:
  "channel_history d c \<Longrightarrow> script_ok d ss c \<Longrightarrow> \<exists>c'. run_threads ss c = Ret c' \<and> channel_history d c'"
proof (induction ss arbitrary: c)
  case (Cons x ss)
  then show ?case
    by (cases x) (auto split: outcome.splits intro: channel_history.turns channel_history.handles)
qed simp

lemma stream_history: "channel_history d (channel_stream arg new_channel_private)"
  by (rule channel_history.starts [OF channel_history.begins]) (auto simp: new_channel_private_def)

lemma sync_history: "channel_history d (channel_call_sync arg new_channel_private)"
  by (rule channel_history.starts [OF channel_history.begins]) (auto simp: new_channel_private_def)

lemmas thread_defs = channel_stream_def channel_call_sync_def start_object_def new_channel_private_def callMethod_def
  process_event_def client_runs_def call_defs startReader_def call_startReader_def new_base_call_def
  new_channel_call_def base_call.defs channel_call.defs take_tag_def deref_or_delete_def parseByteBuffer_def
  ok_status_def status_ok_def status_of_def Let_def

theorem channel_objects_alive_witness:
  "let c = channel_stream [1] new_channel_private; s = object_base (objects c ! 0)
   in m_refCount s = of_bool (shared s) + int (length (pending s)) \<and> \<not> deleted s"
  using channel_objects_alive [OF stream_history [of False "[1]"], of 0]
  by (simp add: thread_defs)

lemma direct_lifetime: "direct H call_uses s0 s \<Longrightarrow> lifetime H s0 s"
  by (induction rule: direct.induct) (auto simp: call_uses_def intro: lifetime.intros)

lemma direct_bidi: "direct bidi_handler bidirect_uses (bidi_startReader new_stream_bidirect) s \<Longrightarrow> bidi_history False s"
  by (induction rule: direct.induct)
    (auto simp: bidirect_uses_def call_uses_def bidirect_write_def intro: bidi_history.intros)

lemma started_one_each:
  "unary_queue.one_each (call_startReader (new_channel_call args))"
  "stream_queue.one_each (startReader (new_base_call args))"
  "bidirect_queue.one_each (bidi_startReader new_stream_bidirect)"
  by (auto simp: unary_queue.one_each_def stream_queue.one_each_def bidirect_queue.one_each_def
      call_startReader_def startReader_def bidi_startReader_def start_op_def new_channel_call_def
      new_stream_bidirect_def new_base_call_def base_call.defs channel_call.defs stream_bidirect.defs Let_def)

text \<open>
  C9. When the end of a call is taken off the queue only after its reads were handled, and the client does not call
  \<open>writeDone\<close>, handling events later makes no difference: every call whose events are all handled is in a state that it
  also reaches when each answer is handled at once, so that what is proved of such histories holds for the threaded
  channel. The exception is a synchronous call that has returned, whose object is gone.
\<close>

theorem threads_refine_calls:
  assumes "channel_history True c" and "n < length (objects c)" and "posted_to n (events c) = []"
  shows "case objects c ! n of
      Unary_object s \<Rightarrow> \<exists>args. lifetime call_handler (call_startReader (new_channel_call args)) s
    | Local_object s \<Rightarrow> deleted s \<or> (\<exists>args. lifetime call_handler (call_startReader (new_channel_call args)) s)
    | Stream_object s \<Rightarrow> \<exists>arg. lifetime stream_handler (startReader (new_base_call arg)) s
    | Bidirect_object s \<Rightarrow> bidi_history False s"
proof -
  have "object_life True (objects c ! n) []"
    using history_lives [OF assms(1)] assms(2,3) by (metis lives_def)
  then show ?thesis
    by (cases "objects c ! n")
      (use started_one_each in \<open>auto intro!: direct_lifetime direct_bidi
         dest!: unary_queue.queued_direct stream_queue.queued_direct bidirect_queue.queued_direct\<close>)
qed

text \<open>A stream that was acknowledged, received a message and was closed, each answer handled at once.\<close>

abbreviation received :: "byte_buffer \<Rightarrow> thread_step" where
  "received b \<equiv> Worker (Returned 0 NewData True b ok_status)"

abbreviation closed :: "library_status \<Rightarrow> thread_step" where
  "closed st \<equiv> Worker (Returned 0 FinishRead True no_data st)"

definition threads_of :: "thread_step list \<Rightarrow> channel_private" where
  "threads_of ss = (case run_threads ss (channel_stream [9] new_channel_private) of Ret c \<Rightarrow> c | _ \<Rightarrow> new_channel_private)"

lemma threads_of_history:
  "script_ok d ss (channel_stream [9] new_channel_private) \<Longrightarrow> channel_history d (threads_of ss)"
  using run_history [OF stream_history] by (fastforce simp: threads_of_def)

definition example_threads :: channel_private where
  "example_threads = threads_of (acknowledged @ [received \<lparr>dump_status = ok_status, slices = [[1]]\<rparr>, Client, closed ok_status, Client])"

theorem threads_refine_calls_witness:
  "case objects example_threads ! 0 of
      Unary_object s \<Rightarrow> \<exists>args. lifetime call_handler (call_startReader (new_channel_call args)) s
    | Local_object s \<Rightarrow> deleted s \<or> (\<exists>args. lifetime call_handler (call_startReader (new_channel_call args)) s)
    | Stream_object s \<Rightarrow> \<exists>arg. lifetime stream_handler (startReader (new_base_call arg)) s
    | Bidirect_object s \<Rightarrow> bidi_history False s"
proof (rule threads_refine_calls)
  show "channel_history True example_threads"
    unfolding example_threads_def by (rule threads_of_history) code_simp
  show "0 < length (objects example_threads)" "posted_to 0 (events example_threads) = []"
    by code_simp+
qed

text \<open>What the client's stream hears of a call that received \<open>data\<close> and has finished.\<close>

definition heard :: "bytes \<Rightarrow> base_call \<Rightarrow> op_signal list" where
  "heard data s = op_signals (ss_stream (stream_step SubFinished (stream_step (SubDataReady data) (new_session s False))))"

text \<open>
  C32. The error of a stream is lost when its last message has not been handled yet as the worker takes the end
  off the queue: handling the message overwrites the status the library has just written, the call ends with the
  status Ok, and the client hears of no error. Handled in between, the same answers report the error.
\<close>

theorem late_message_hides_error:
  fixes b :: byte_buffer and st :: library_status and arg :: bytes
  assumes "status_ok (dump_status b)" and "m_code (status_of st) \<noteq> Ok"
  defines "c \<equiv> channel_stream arg new_channel_private" and "data \<equiv> concat (slices b)"
  shows "\<exists>s s'. and_then (run_threads (acknowledged @ [received b, closed st, Client, Client]) c) (\<lambda>c. Ret (objects c)) = Ret [Stream_object s]
    \<and> and_then (run_threads (acknowledged @ [received b, Client, closed st, Client]) c) (\<lambda>c. Ret (objects c)) = Ret [Stream_object s']
    \<and> emitted s = [DataReady data, SigFinished] \<and> emitted s' = emitted s
    \<and> heard data s = [OpMessage data] \<and> heard data s' = [OpMessage data, OpError (status_of st)]"
proof -
  have heard: "heard d s = OpMessage d # (if m_code (m_status s) \<noteq> Ok then [OpError (m_status s)] else [])" for d s
    by (simp add: heard_def new_session_def ss_disconnect_def ss_release_def stream_data_handler_def setData_def new_op_def
        emitError_def Let_def)
  show ?thesis using assms(1,2) unfolding c_def data_def heard by (simp add: thread_defs)
qed

theorem late_message_hides_error_witness:
  "let b = \<lparr>dump_status = ok_status, slices = [[1]]\<rparr>; st = \<lparr>error_code = 14, error_message = []\<rparr>;
       c = channel_stream [9] new_channel_private
   in \<exists>s s'. and_then (run_threads (acknowledged @ [received b, closed st, Client, Client]) c) (\<lambda>c. Ret (objects c)) = Ret [Stream_object s]
    \<and> and_then (run_threads (acknowledged @ [received b, Client, closed st, Client]) c) (\<lambda>c. Ret (objects c)) = Ret [Stream_object s']
    \<and> emitted s = [DataReady [1], SigFinished] \<and> emitted s' = emitted s
    \<and> heard [1] s = [OpMessage [1]] \<and> heard [1] s' = [OpMessage [1], OpError (status_of st)]"
proof -
  have "status_ok (dump_status \<lparr>dump_status = ok_status, slices = [[1]]\<rparr>)"
    "m_code (status_of \<lparr>error_code = 14, error_message = []\<rparr>) \<noteq> Ok" by code_simp+
  from late_message_hides_error [OF this, of "[9]"] show ?thesis by (simp only: Let_def) simp
qed

fun answers_allowed :: "next_answer list \<Rightarrow> channel_private \<Rightarrow> bool" where
  "answers_allowed [] c \<longleftrightarrow> True"
| "answers_allowed (a # as) c \<longleftrightarrow> allowed a c
     \<and> (case worker_turn a c of Ret c' \<Rightarrow> worker_finished c' \<or> answers_allowed as c' | _ \<Rightarrow> True)"

lemma wait_returns_all:
  assumes "wait_worker as c = Ret c'" "answers_allowed as c" "\<not> worker_finished c" "n < length (objects c)"
    "t \<in> set (pending (object_base (objects c ! n)))"
  shows "\<exists>ok buf st. Returned n t ok buf st \<in> set as"
  using assms
proof (induction as arbitrary: c)
  case (Cons a as)
  show ?case
  proof (cases a)
    case Drained
    with Cons.prems have "pending (object_base (objects c ! n)) = []" by simp
    with Cons.prems(5) show ?thesis by simp
  next
    case Null_tag
    with Cons show ?thesis by auto
  next
    case (Returned m u ok buf st)
    show ?thesis
    proof (cases "m = n \<and> u = t")
      case False
      let ?c = "callMethod m u ok (c\<lparr>objects := (objects c)[m := object_take u buf st (objects c ! m)]\<rparr>)"
      have c: "worker_turn a c = Ret ?c" "wait_worker as ?c = Ret c'" "answers_allowed as ?c" "\<not> worker_finished ?c"
        using Cons.prems Returned by (auto simp: callMethod_def split: if_splits)
      moreover have "n < length (objects ?c)" "t \<in> set (pending (object_base (objects ?c ! n)))"
        using Cons.prems(4,5) False by (cases "m = n"; auto simp: callMethod_def)+
      ultimately show ?thesis using Cons.IH by fastforce
    qed (use Returned in auto)
  qed
qed simp

lemma worker_turn_cancels:
  "worker_turn a c = Ret c' \<Longrightarrow> map (\<lambda>ob. cancelled (object_base ob)) (objects c') = map (\<lambda>ob. cancelled (object_base ob)) (objects c)"
proof (cases a)
  case (Returned n t ok buf st)
  assume "worker_turn a c = Ret c'"
  with Returned show ?thesis
    by (auto simp: callMethod_def map_update take_tag_def list_update_same_conv split: if_splits)
      (metis list_update_id map_update)
qed auto

lemma wait_cancels:
  "wait_worker as c = Ret c' \<Longrightarrow> map (\<lambda>ob. cancelled (object_base ob)) (objects c') = map (\<lambda>ob. cancelled (object_base ob)) (objects c)"
proof (induction as arbitrary: c)
  case (Cons a as)
  then obtain c1 where "worker_turn a c = Ret c1" "c' = c1 \<or> wait_worker as c1 = Ret c'"
    by (auto simp: and_then_Ret_iff split: if_splits)
  with Cons.IH [of c1] worker_turn_cancels [of a c c1] show ?case by auto
qed simp

text \<open>
  C33. The destructor of the channel returns only when the library has given every operation back, of all calls and
  streams, and it cancels none of them: with a stream open that the server does not end, it never returns.
\<close>

theorem destructor_waits_for_calls:
  assumes "channel_history d c" and "\<not> shut_down c" and "answers_allowed as (c\<lparr>shut_down := True\<rparr>)"
    and "destroy_channel as c = Ret c'"
  shows "(\<forall>n < length (objects c). \<forall>t \<in> set (pending (object_base (objects c ! n))). \<exists>ok buf st. Returned n t ok buf st \<in> set as)
    \<and> map (\<lambda>ob. cancelled (object_base ob)) (objects c') = map (\<lambda>ob. cancelled (object_base ob)) (objects c)"
proof -
  obtain c1 where c1: "wait_worker as (c\<lparr>shut_down := True\<rparr>) = Ret c1" "c' = destroy_end c1"
    using assms(4) by (auto simp: destroy_channel_def and_then_Ret_iff)
  have "\<not> worker_finished c" using history_end_inv [OF assms(1)] assms(2) by (auto simp: end_inv_def)
  with wait_returns_all [OF c1(1) assms(3)] wait_cancels [OF c1(1)] c1(2) show ?thesis
    by (simp add: destroy_end_def)
qed

definition open_stream :: channel_private where
  "open_stream = threads_of acknowledged"

definition last_answers :: "next_answer list" where
  "last_answers = [Returned 0 NewData True \<lparr>dump_status = ok_status, slices = [[1]]\<rparr> ok_status,
     Returned 0 FinishRead True no_data ok_status, Drained]"

definition destroyed_channel :: channel_private where
  "destroyed_channel = (case destroy_channel last_answers open_stream of Ret c \<Rightarrow> c | _ \<Rightarrow> open_stream)"

theorem destructor_waits_for_calls_witness:
  "(\<exists>ok buf st. Returned 0 FinishRead ok buf st \<in> set last_answers)
    \<and> map (\<lambda>ob. cancelled (object_base ob)) (objects destroyed_channel) = map (\<lambda>ob. cancelled (object_base ob)) (objects open_stream)"
proof -
  have "channel_history False open_stream" unfolding open_stream_def by (rule threads_of_history) code_simp
  moreover have "\<not> shut_down open_stream" by code_simp
  moreover have "answers_allowed last_answers (open_stream\<lparr>shut_down := True\<rparr>)" by code_simp
  moreover have "destroy_channel last_answers open_stream = Ret destroyed_channel"
    by (simp add: destroyed_channel_def destroy_channel_def last_answers_def open_stream_def threads_of_def thread_defs)
  moreover have "0 < length (objects open_stream)" "FinishRead \<in> set (pending (object_base (objects open_stream ! 0)))"
    by code_simp+
  ultimately show ?thesis using destructor_waits_for_calls [of False open_stream last_answers destroyed_channel] by blast
qed

text \<open>
  C34. In histories without \<open>writeDone\<close> the signal \<open>finished\<close> of the channel is never emitted: the worker thread ends only in the destructor, and its signal
  is posted to a channel that is gone when the client handles events again. The handlers that abort
  calls and streams at the end of their channel never run.
\<close>

theorem channel_finished_never_emitted:
  assumes "channel_history d c"
  shows "finished_signals c = 0"
  using history_end_inv [OF assms] by (simp add: end_inv_def)

theorem channel_finished_never_emitted_witness: "finished_signals open_stream = 0"
proof (rule channel_finished_never_emitted)
  show "channel_history False open_stream" unfolding open_stream_def by (rule threads_of_history) code_simp
qed

text \<open>
  C35. A message that arrives while the channel is destroyed is handled afterwards, and its handler starts the next
  read on the queue that was shut down, which gRPC forbids.
\<close>

theorem message_after_destruction:
  assumes "status_ok (dump_status b)"
  shows "\<exists>c. and_then (run_threads acknowledged (channel_stream arg new_channel_private))
       (destroy_channel [Returned 0 NewData True b ok_status, Returned 0 FinishRead True no_data st, Drained]) = Ret c
    \<and> process_event c = undefined_by Broken_contract"
  using assms by (simp add: destroy_channel_def destroy_end_def thread_defs)

theorem message_after_destruction_witness:
  "\<exists>c. and_then (run_threads acknowledged (channel_stream [9] new_channel_private))
       (destroy_channel [Returned 0 NewData True no_data ok_status, Returned 0 FinishRead True no_data ok_status, Drained]) = Ret c
    \<and> process_event c = undefined_by Broken_contract"
  by (rule message_after_destruction) (simp add: status_ok_def ok_status_def)

text \<open>
  C36. A synchronous call returns when the end of the call is handled, though the read its acknowledgement has started
  may still be with the library: the worker then follows the tag of that read into a stack frame that is gone.
\<close>

theorem sync_call_leaves_read:
  "\<exists>c. channel_history True c \<and> allowed (Returned 0 NewData ok buf st) c
    \<and> worker_turn (Returned 0 NewData ok buf st) c = undefined_by Use_after_free"
proof -
  let ?ss = "acknowledged @ [closed \<lparr>error_code = 14, error_message = []\<rparr>, Client]"
  have "script_ok True ?ss (channel_call_sync [] new_channel_private)" by code_simp
  from run_history [OF sync_history this] obtain c where
    c: "run_threads ?ss (channel_call_sync [] new_channel_private) = Ret c" "channel_history True c" by blast
  then have c': "c = (case run_threads ?ss (channel_call_sync [] new_channel_private) of Ret c \<Rightarrow> c)" by simp
  have "\<not> shut_down c" "0 < length (objects c)" "SigFinished \<in> set (emitted (object_base (objects c ! 0)))"
    unfolding c' by code_simp+
  then have "channel_history True (update_object 0 object_leave c)"
    by (rule channel_history.leaves [OF c(2)])
  moreover have "deleted (object_base (objects (update_object 0 object_leave c) ! 0))"
    "NewData \<in> set (pending (object_base (objects (update_object 0 object_leave c) ! 0)))"
    "0 < length (objects (update_object 0 object_leave c))"
    unfolding c' by code_simp+
  ultimately show ?thesis by (intro exI [of _ "update_object 0 object_leave c"]) simp
qed

end
