(* ===== verification/BlockingWrites.thy ===== *)
theory BlockingWrites
  imports GrpcClient
begin

section \<open>Blocking writes\<close>

text \<open>
  \<open>writeBlocked\<close> (\<open>qgrpcasyncoperationwritebase_p.h\<close>) and \<open>writeDoneBlocked\<close> (\<open>qgrpcasyncoperationwritebase.cpp\<close>) start a
  write and, while its replay is in process, run an event loop that quits when the replay emits \<open>finished\<close>. What the
  loop handles is a list: answers of the library to the stream, and what other handlers do to it. The answers for a stream
  that was deleted left the event queue with it. The list may end before the replay has finished; the function is still waiting then, which is the result \<open>No_fuel\<close>.
\<close>

datatype loop_event = LoopAnswer tag bool byte_buffer library_status | LoopCancel | LoopRelease
  | LoopWrite bytes nat | LoopWriteDone nat

fun loop_step :: "loop_event \<Rightarrow> stream_bidirect \<Rightarrow> stream_bidirect" where
  "loop_step (LoopAnswer t ok buf st) s = (if deleted s then s else bidi_handler t ok (take_tag t buf st s))"
| "loop_step LoopCancel s = GrpcCalls.cancel s"
| "loop_step LoopRelease s = sharedPtrReleased s"
| "loop_step (LoopWrite data r) s = appendToSend data r (setStatus r W_InProcess s)"
| "loop_step (LoopWriteDone r) s = writeDone r (setStatus r W_InProcess s)"

fun loop_allowed :: "loop_event \<Rightarrow> stream_bidirect \<Rightarrow> bool" where
  "loop_allowed (LoopAnswer t ok buf st) s \<longleftrightarrow> t \<in> set (pending s)"
| "loop_allowed _ s \<longleftrightarrow> shared s"

fun events_allowed :: "loop_event list \<Rightarrow> stream_bidirect \<Rightarrow> bool" where
  "events_allowed [] s \<longleftrightarrow> True"
| "events_allowed (e # es) s \<longleftrightarrow> loop_allowed e s \<and> events_allowed es (loop_step e s)"

fun calls_done :: "loop_event \<Rightarrow> bool" where
  "calls_done (LoopWriteDone r) \<longleftrightarrow> True"
| "calls_done _ \<longleftrightarrow> False"

text \<open>The loop is connected when \<open>n\<close> signals have been emitted.\<close>

definition replay_finished :: "nat \<Rightarrow> nat \<Rightarrow> stream_bidirect \<Rightarrow> bool" where
  "replay_finished r n s \<longleftrightarrow> (r, ReplayFinished) \<in> set (drop n (replay_signals s))"

fun event_loop :: "nat \<Rightarrow> nat \<Rightarrow> loop_event list \<Rightarrow> stream_bidirect \<Rightarrow> stream_bidirect outcome" where
  "event_loop r n es s =
     (if replay_finished r n s then Ret s
      else case es of [] \<Rightarrow> No_fuel | e # es \<Rightarrow> event_loop r n es (loop_step e s))"

definition wait_replay :: "nat \<Rightarrow> loop_event list \<Rightarrow> stream_bidirect stream_session \<Rightarrow>
    (WriteStatus \<times> stream_bidirect stream_session) outcome" where
  "wait_replay r es s =
     (if replays (sub s) r = W_InProcess
      then and_then (event_loop r (length (replay_signals (sub s))) es (sub s))
        (\<lambda>sb. Ret (replays sb r, s\<lparr>sub := sb\<rparr>))
      else Ret (replays (sub s) r, s))"

text \<open>Without a client \<open>write\<close> returns a null pointer.\<close>

definition writeBlocked :: "bool \<Rightarrow> bytes outcome \<Rightarrow> nat \<Rightarrow> loop_event list \<Rightarrow> stream_bidirect stream_session \<Rightarrow>
    (WriteStatus \<times> stream_bidirect stream_session) outcome" where
  "writeBlocked has_client serialized r es s =
     (if has_client then and_then (stream_write serialized r s) (wait_replay r es)
      else undefined_by Null_dereference)"

definition writeDoneBlocked :: "nat \<Rightarrow> loop_event list \<Rightarrow> stream_bidirect stream_session \<Rightarrow>
    (WriteStatus \<times> stream_bidirect stream_session) outcome" where
  "writeDoneBlocked r es s = wait_replay r es (stream_writeDone r s)"

declare event_loop.simps [simp del]

subsection \<open>A replay that waits\<close>

text \<open>A write is waited for as long as it is the one under way, or in the queue behind another one.\<close>

definition waits :: "nat \<Rightarrow> stream_bidirect \<Rightarrow> bool" where
  "waits r s \<longleftrightarrow> m_inProcess s
     \<and> (r \<in> wd_replay ` set (m_sendQueue s) \<or> m_currentWriteReplay s = Some r \<and> m_readerState s \<noteq> FIRST_CALL)
     \<and> (\<forall>d \<in> set (m_sendQueue s). \<not> wd_done d)"

definition reported :: "nat \<Rightarrow> nat \<Rightarrow> stream_bidirect \<Rightarrow> bool" where
  "reported r n s \<longleftrightarrow> n \<le> length (replay_signals s) \<and> replay_finished r n s"

lemma fail_replay_signals [simp]:
  "replay_signals (fail_replay r s) = replay_signals s @ [(r, ReplayError), (r, ReplayFinished)]"
  by (simp add: fail_replay_def emit_replay_def setStatus_def)

lemma fail_queue_signals:
  "replay_signals (fail_queue ds s) = replay_signals s @ concat (map (\<lambda>d. [(wd_replay d, ReplayError), (wd_replay d, ReplayFinished)]) ds)"
  by (induction ds s rule: fail_queue.induct) simp_all

lemma fail_current_signals:
  "\<exists>ss. replay_signals (fail_current s) = replay_signals s @ ss
     \<and> (m_inProcess s \<and> m_currentWriteReplay s = Some r \<longrightarrow> (r, ReplayFinished) \<in> set ss)"
  by (auto simp: fail_current_def split: option.splits)

lemma finish_replay_signals:
  "\<exists>ss. replay_signals (finish_replay ok s) = replay_signals s @ ss
     \<and> (m_currentWriteReplay s = Some r \<longrightarrow> (r, ReplayFinished) \<in> set ss)"
  by (auto simp: finish_replay_def emit_replay_def setStatus_def split: option.splits)

text \<open>The end of the stream reports every write that waits.\<close>

lemma finishRead_reports:
  assumes "waits r s" "n \<le> length (replay_signals s)"
  shows "replay_finished r n (bidi_finishRead ok s)"
proof -
  define s1 where "s1 = (if m_code (m_status s) = Ok \<or> \<not> status_ok (m_grpc_status s)
       then s\<lparr>m_status := status_of (m_grpc_status s)\<rparr> else s)"
  have s1: "m_inProcess s1 = m_inProcess s" "m_currentWriteReplay s1 = m_currentWriteReplay s"
    "m_sendQueue s1 = m_sendQueue s" "replay_signals s1 = replay_signals s"
    by (simp_all add: s1_def)
  obtain ss where ss: "replay_signals (fail_current s1) = replay_signals s1 @ ss"
    "m_inProcess s1 \<and> m_currentWriteReplay s1 = Some r \<longrightarrow> (r, ReplayFinished) \<in> set ss"
    using fail_current_signals [of s1 r] by blast
  have "replay_signals (bidi_finishRead ok s) = replay_signals s @ ss @
      concat (map (\<lambda>d. [(wd_replay d, ReplayError), (wd_replay d, ReplayFinished)]) (m_sendQueue s))"
    unfolding bidi_finishRead_def s1_def [symmetric] Let_def
    using ss s1 by (simp add: deref_or_delete_def fail_queue_signals Let_def)
  with assms ss s1 show ?thesis by (auto simp: replay_finished_def waits_def)
qed

lemma dequeue_waits:
  assumes "r \<in> wd_replay ` set (m_sendQueue s)" "\<forall>d \<in> set (m_sendQueue s). \<not> wd_done d"
  shows "m_inProcess (dequeueWrite s) \<and> (\<forall>d \<in> set (m_sendQueue (dequeueWrite s)). \<not> wd_done d)
    \<and> (r \<in> wd_replay ` set (m_sendQueue (dequeueWrite s)) \<or> m_currentWriteReplay (dequeueWrite s) = Some r)"
  using assms by (cases "m_sendQueue s") (auto simp: dequeueWrite_def start_op_def Let_def)

lemma dequeue_signals [simp]: "replay_signals (dequeueWrite s) = replay_signals s"
  by (auto simp: dequeueWrite_def start_op_def Let_def split: list.splits)

lemma take_tag_waits [simp]:
  "m_currentWriteReplay (take_tag t buf st s) = m_currentWriteReplay (s :: stream_bidirect)"
  "replay_signals (take_tag t buf st s) = replay_signals s"
  "waits r (take_tag t buf st s) = waits r s"
  by (simp_all add: take_tag_def waits_def)

lemma newData_waits: "waits r s \<Longrightarrow> waits r (bidi_newData ok s) \<and> replay_signals (bidi_newData ok s) = replay_signals s"
proof (cases "ok \<and> m_readerState s = FIRST_CALL")
  case True
  assume w: "waits r s"
  with True have "r \<in> wd_replay ` set (m_sendQueue s)" "\<forall>d \<in> set (m_sendQueue s). \<not> wd_done d"
    by (auto simp: waits_def)
  from dequeue_waits [OF this] True show ?thesis
    by (auto simp: waits_def bidi_newData_def start_op_def deref_or_delete_def Let_def)
next
  case False
  assume "waits r s"
  with False show ?thesis
    by (auto simp: waits_def bidi_newData_def start_op_def deref_or_delete_def cancel_def Let_def split: count_splits)
qed

lemma finishWrite_waits:
  assumes "waits r s" "n \<le> length (replay_signals s)" "m_readerState s \<noteq> FIRST_CALL"
  shows "waits r (bidi_finishWrite ok s) \<or> replay_finished r n (bidi_finishWrite ok s)"
proof -
  let ?s = "deref_or_delete (finish_replay ok s)"
  obtain ss where ss: "replay_signals (finish_replay ok s) = replay_signals s @ ss"
    "m_currentWriteReplay s = Some r \<longrightarrow> (r, ReplayFinished) \<in> set ss"
    using finish_replay_signals [of ok s r] by blast
  have same: "m_inProcess ?s = m_inProcess s" "m_sendQueue ?s = m_sendQueue s" "m_readerState ?s = m_readerState s"
    "replay_signals ?s = replay_signals s @ ss"
    using ss by (simp_all add: deref_or_delete_def Let_def)
  show ?thesis
  proof (cases "m_currentWriteReplay s = Some r")
    case True
    then have "replay_finished r n (bidi_finishWrite ok s)"
      using same ss assms(2) by (simp add: bidi_finishWrite_def replay_finished_def Let_def)
    then show ?thesis ..
  next
    case False
    then have q: "r \<in> wd_replay ` set (m_sendQueue ?s)" "\<forall>d \<in> set (m_sendQueue ?s). \<not> wd_done d"
      using assms(1) same by (auto simp: waits_def)
    have "waits r (bidi_finishWrite ok s)"
    proof (cases "m_refCount ?s = 0")
      case True
      then show ?thesis using q same assms(1) by (simp add: bidi_finishWrite_def waits_def Let_def)
    next
      case False
      then show ?thesis using dequeue_waits [OF q] same assms(3) by (simp add: bidi_finishWrite_def waits_def Let_def)
    qed
    then show ?thesis ..
  qed
qed

text \<open>What is reported to a replay is its outcome.\<close>

definition reports :: "stream_bidirect \<Rightarrow> stream_bidirect \<Rightarrow> bool" where
  "reports s s' \<longleftrightarrow> (\<exists>ss. replay_signals s' = replay_signals s @ ss
     \<and> (\<forall>x \<in> set ss. replays s' (fst x) \<in> {W_OK, W_Failed}))"

lemma reports_same: "replay_signals s' = replay_signals s \<Longrightarrow> reports s s'"
  by (simp add: reports_def)

lemma fail_queue_replays:
  "replays (fail_queue ds s) r = (if r \<in> wd_replay ` set ds then W_Failed else replays s r)"
  by (induction ds s rule: fail_queue.induct) (auto simp: fail_replay_def emit_replay_def setStatus_def)

lemma fail_current_reports: "reports s (fail_current s)"
  by (auto simp: reports_def fail_current_def fail_replay_def emit_replay_def setStatus_def split: option.splits)

lemma fail_queue_reports: "reports s s' \<Longrightarrow> reports s (fail_queue ds s')"
  by (auto simp: reports_def fail_queue_signals fail_queue_replays)

lemma finish_replay_reports: "reports s (finish_replay ok s)"
  by (auto simp: reports_def finish_replay_def fail_replay_def emit_replay_def setStatus_def split: option.splits)

lemma reports_cong:
  "reports s s' \<Longrightarrow> replay_signals t = replay_signals s \<Longrightarrow> replay_signals t' = replay_signals s' \<Longrightarrow> replays t' = replays s' \<Longrightarrow> reports t t'"
  by (simp add: reports_def)

lemma dequeue_replays [simp]: "replays (dequeueWrite s) = replays s"
  by (auto simp: dequeueWrite_def start_op_def Let_def split: list.splits)

lemma handler_reports: "reports s (bidi_handler t ok s)"
proof (cases t)
  case NewData
  then show ?thesis
    by (intro reports_same)
      (auto simp: bidi_newData_def start_op_def deref_or_delete_def cancel_def Let_def split: count_splits)
next
  case FinishRead
  define s1 where "s1 = (if m_code (m_status s) = Ok \<or> \<not> status_ok (m_grpc_status s)
       then s\<lparr>m_status := status_of (m_grpc_status s)\<rparr> else s)"
  have "replay_signals s = replay_signals s1" by (simp add: s1_def)
  note same = reports_cong [OF fail_queue_reports [OF fail_current_reports] this]
  show ?thesis
    unfolding FinishRead bidi_handler.simps bidi_finishRead_def s1_def [symmetric] Let_def
    by (rule same [of _ "m_sendQueue (fail_current s1)"]) (simp_all add: deref_or_delete_def Let_def)
next
  case FinishWrite
  with reports_cong [OF finish_replay_reports [of s ok]] show ?thesis
    by (simp add: bidi_finishWrite_def deref_or_delete_def Let_def)
qed

lemma step_reports: "reports s (loop_step e s)"
proof (cases e)
  case (LoopAnswer t ok buf st)
  have "replay_signals (take_tag t buf st s) = replay_signals s" by simp
  from reports_cong [OF handler_reports this [symmetric] refl refl] LoopAnswer show ?thesis by (simp add: reports_same)
qed (auto intro!: reports_same simp: cancel_def sharedPtrReleased_def deref_or_delete_def appendToSend_def
    writeDone_def setStatus_def start_op_def Let_def)

lemma step_signals_extend: "\<exists>ss. replay_signals (loop_step e s) = replay_signals s @ ss"
  using step_reports [of s e] by (auto simp: reports_def)

lemma step_status:
  "\<not> replay_finished r n s \<Longrightarrow> n \<le> length (replay_signals s) \<Longrightarrow> replay_finished r n (loop_step e s) \<Longrightarrow>
    replays (loop_step e s) r \<in> {W_OK, W_Failed}"
  using step_reports [of s e] by (fastforce simp: reports_def replay_finished_def)

lemma step_history:
  "bidi_history False s \<Longrightarrow> loop_allowed e s \<Longrightarrow> \<not> calls_done e \<Longrightarrow> bidi_history False (loop_step e s)"
  by (cases e) (auto intro: bidi_history.intros)

lemma answered_alive: "bidi_history False s \<Longrightarrow> t \<in> set (pending s) \<Longrightarrow> \<not> deleted s"
  using bidi_counted [of s] by (auto simp: count_inv_def)

lemma step_waits:
  assumes "bidi_history False s" "loop_allowed e s" "waits r s" "n \<le> length (replay_signals s)" "\<not> calls_done e"
  shows "replay_finished r n (loop_step e s) \<or>
    waits r (loop_step e s) \<and> (\<forall>ok buf st. e \<noteq> LoopAnswer FinishRead ok buf st)"
proof (cases e)
  case (LoopAnswer t ok buf st)
  have "\<not> deleted s" using assms(1,2) LoopAnswer answered_alive by simp
  show ?thesis
  proof (cases t)
    case NewData
    with \<open>\<not> deleted s\<close> LoopAnswer assms newData_waits [of r "take_tag t buf st s" ok] show ?thesis by simp
  next
    case FinishRead
    with \<open>\<not> deleted s\<close> LoopAnswer assms finishRead_reports [of r "take_tag t buf st s" n ok] show ?thesis by simp
  next
    case FinishWrite
    have "m_readerState s \<noteq> FIRST_CALL"
      using bidi_write_inv [OF assms(1)] LoopAnswer assms(2) FinishWrite by (auto simp: write_inv_def)
    with \<open>\<not> deleted s\<close> LoopAnswer assms finishWrite_waits [of r "take_tag t buf st s" n ok] FinishWrite show ?thesis by auto
  qed
qed (use assms in \<open>auto simp: waits_def cancel_def sharedPtrReleased_def deref_or_delete_def appendToSend_def Let_def\<close>,
     auto simp: setStatus_def)

lemma event_loop_reports:
  assumes "bidi_history False s" "events_allowed es s" "waits r s" "n \<le> length (replay_signals s)"
    "LoopAnswer FinishRead ok buf st \<in> set es" "\<not> replay_finished r n s" "\<forall>e \<in> set es. \<not> calls_done e"
  shows "\<exists>s'. event_loop r n es s = Ret s' \<and> replays s' r \<in> {W_OK, W_Failed}"
  using assms
proof (induction es arbitrary: s)
  case (Cons e es)
  let ?s = "loop_step e s"
  have loop: "event_loop r n (e # es) s = event_loop r n es ?s"
    using Cons.prems(6) by (simp add: event_loop.simps)
  show ?case
  proof (cases "replay_finished r n ?s")
    case True
    with step_status [OF Cons.prems(6,4) True] show ?thesis unfolding loop by (simp add: event_loop.simps)
  next
    case False
    with step_waits [OF Cons.prems(1) _ Cons.prems(3,4), of e] Cons.prems(2,7)
    have "waits r ?s" "e \<noteq> LoopAnswer FinishRead ok buf st" by auto
    moreover have "n \<le> length (replay_signals ?s)"
      using step_signals_extend [of e s] Cons.prems(4) by auto
    ultimately show ?thesis
      using False Cons.prems unfolding loop by (intro Cons.IH) (auto intro: step_history)
  qed
qed simp

subsection \<open>Properties\<close>

text \<open>Without \<open>writeDone\<close>, nothing but messages waits in the queue.\<close>

lemma no_done_dequeue: "\<forall>d \<in> set (m_sendQueue s). \<not> wd_done d \<Longrightarrow> \<forall>d \<in> set (m_sendQueue (dequeueWrite s)). \<not> wd_done d"
  by (cases "m_sendQueue s") (auto simp: dequeueWrite_def start_op_def Let_def)

lemma no_done_queued: "bidi_history False s \<Longrightarrow> \<forall>d \<in> set (m_sendQueue s). \<not> wd_done d"
proof (induction rule: bidi_history.induct)
  case (answers s t ok buf st)
  let ?s = "take_tag t buf st s"
  have s: "\<forall>d \<in> set (m_sendQueue ?s). \<not> wd_done d" using answers by simp
  show ?case
  proof (cases t)
    case NewData
    with s no_done_dequeue [OF s] show ?thesis
      by (auto simp: bidi_newData_def start_op_def deref_or_delete_def cancel_def Let_def split: count_splits)
  next
    case FinishRead
    then show ?thesis by (simp add: bidi_finishRead_def deref_or_delete_def Let_def)
  next
    case FinishWrite
    let ?d = "deref_or_delete (finish_replay ok ?s)"
    have d: "\<forall>d \<in> set (m_sendQueue ?d). \<not> wd_done d" using s by (simp add: deref_or_delete_def Let_def)
    with FinishWrite no_done_dequeue [OF d] show ?thesis by (simp add: bidi_finishWrite_def Let_def)
  qed
qed (auto simp: bidi_startReader_def start_op_def cancel_def sharedPtrReleased_def deref_or_delete_def appendToSend_def
    new_stream_bidirect_def base_call.defs stream_bidirect.defs Let_def)

lemma append_waits:
  assumes "bidi_history False s"
  shows "waits r (appendToSend data r (setStatus r w s))"
  using bidi_write_inv [OF assms] no_done_queued [OF assms] history_idle [OF assms]
  by (auto simp: waits_def write_inv_def appendToSend_def setStatus_def start_op_def)

text \<open>
  C11. A blocking write on a connected stream returns at the latest when gRPC reports the end of the stream, and it
  returns the outcome, as long as nothing calls \<open>writeDone\<close>, neither before nor from a handler the event loop runs
  (\<open>writeDone\<close> drops references, so that the stream may be deleted before its end is handled). Whatever else the loop handles, other
  writes, the cancellation and the release of the stream included, does not matter.
\<close>

theorem blocking_write_returns:
  fixes s :: "stream_bidirect stream_session"
  assumes "bidi_history False (sub s)" and "shared (sub s)" and "ss_writeConnection s"
    and "events_allowed es (appendToSend data r (setStatus r W_InProcess (setStatus r W_NotConnected (sub s))))"
    and "LoopAnswer FinishRead ok buf st \<in> set es" and "\<forall>e \<in> set es. \<not> calls_done e"
  shows "\<exists>status s'. writeBlocked True (Ret data) r es s = Ret (status, s') \<and> status \<in> {W_OK, W_Failed}"
proof -
  let ?s = "appendToSend data r (setStatus r W_InProcess (setStatus r W_NotConnected (sub s)))"
  have set2: "setStatus r W_InProcess (setStatus r W_NotConnected (sub s)) = setStatus r W_InProcess (sub s)"
    by (simp add: setStatus_def)
  have status: "replays ?s r = W_InProcess" by (simp add: appendToSend_def setStatus_def start_op_def)
  have w: "stream_write (Ret data) r s = Ret (s\<lparr>sub := ?s\<rparr>)"
    using assms(3) status by (simp add: stream_write_def on_sub_def on_writeReady_def write_failed_def)
  have "bidi_history False ?s"
    unfolding set2 by (rule bidi_history.appends [OF assms(1,2)])
  moreover have "waits r ?s"
    unfolding set2 by (rule append_waits [OF assms(1)])
  ultimately obtain s' where "event_loop r (length (replay_signals ?s)) es ?s = Ret s'" "replays s' r \<in> {W_OK, W_Failed}"
    using event_loop_reports [OF _ assms(4) _ le_refl assms(5)] assms(6) by (fastforce simp: replay_finished_def)
  with w status show ?thesis
    by (simp add: writeBlocked_def wait_replay_def)
qed

text \<open>A stream that was acknowledged and is closed while a write is under way.\<close>

abbreviation empty_buffer :: byte_buffer where
  "empty_buffer \<equiv> \<lparr>dump_status = ok_status, slices = []\<rparr>"

definition closing_events :: "loop_event list" where
  "closing_events = [LoopAnswer NewData True empty_buffer ok_status, LoopWrite [2] 5, LoopAnswer FinishRead True empty_buffer ok_status]"

theorem blocking_write_returns_witness:
  "\<exists>status s'. writeBlocked True (Ret [1]) 7 closing_events (new_session (bidi_startReader new_stream_bidirect) True) = Ret (status, s')
    \<and> status \<in> {W_OK, W_Failed}"
proof (rule blocking_write_returns)
  show "LoopAnswer FinishRead True empty_buffer ok_status \<in> set closing_events" "\<forall>e \<in> set closing_events. \<not> calls_done e"
    by (simp_all add: closing_events_def)
  show "events_allowed closing_events (appendToSend [1] 7 (setStatus 7 W_InProcess
      (setStatus 7 W_NotConnected (sub (new_session (bidi_startReader new_stream_bidirect) True)))))"
    by code_simp
qed (simp_all add: new_session_def bidi_history.begins, simp add: run_defs)

text \<open>A replay that nothing refers to any more is never reported.\<close>

definition lost :: "nat \<Rightarrow> stream_bidirect \<Rightarrow> bool" where
  "lost r s \<longleftrightarrow> m_currentWriteReplay s \<noteq> Some r \<and> r \<notin> wd_replay ` set (m_sendQueue s)"

lemma lost_dequeue: "lost r s \<Longrightarrow> lost r (dequeueWrite s)"
  by (cases "m_sendQueue s") (auto simp: lost_def dequeueWrite_def start_op_def Let_def)

lemma lost_cong: "lost r s \<Longrightarrow> m_currentWriteReplay s' = m_currentWriteReplay s \<Longrightarrow> m_sendQueue s' = m_sendQueue s \<Longrightarrow> lost r s'"
  by (simp add: lost_def)

lemma fail_current_lost: "lost r s \<Longrightarrow> lost r (fail_current s) \<and>
    (\<exists>ss. replay_signals (fail_current s) = replay_signals s @ ss \<and> r \<notin> fst ` set ss)"
  by (auto simp: lost_def fail_current_def fail_replay_def emit_replay_def setStatus_def split: option.splits)

lemma finish_replay_lost: "lost r s \<Longrightarrow> lost r (finish_replay ok s) \<and>
    (\<exists>ss. replay_signals (finish_replay ok s) = replay_signals s @ ss \<and> r \<notin> fst ` set ss)"
  by (auto simp: lost_def finish_replay_def fail_replay_def emit_replay_def setStatus_def split: option.splits)

lemma fail_queue_current [simp]: "m_currentWriteReplay (fail_queue ds s) = m_currentWriteReplay s"
  by (induction ds s rule: fail_queue.induct) (simp_all add: fail_replay_def emit_replay_def setStatus_def)

lemma handler_lost:
  assumes "lost r s"
  shows "lost r (bidi_handler t ok s) \<and> (\<exists>ss. replay_signals (bidi_handler t ok s) = replay_signals s @ ss \<and> r \<notin> fst ` set ss)"
proof (cases t)
  case NewData
  with assms lost_dequeue [OF assms] show ?thesis
    by (auto simp: lost_def bidi_newData_def start_op_def deref_or_delete_def cancel_def Let_def split: count_splits)
next
  case FinishRead
  define s1 where "s1 = (if m_code (m_status s) = Ok \<or> \<not> status_ok (m_grpc_status s)
       then s\<lparr>m_status := status_of (m_grpc_status s)\<rparr> else s)"
  have s1: "lost r s1" "replay_signals s1 = replay_signals s" using assms by (simp_all add: s1_def lost_def)
  from fail_current_lost [OF s1(1)] s1(2) obtain ss where
    "lost r (fail_current s1)" "replay_signals (fail_current s1) = replay_signals s @ ss" "r \<notin> fst ` set ss" by auto
  then show ?thesis
    unfolding FinishRead bidi_handler.simps bidi_finishRead_def s1_def [symmetric] Let_def
    by (auto simp: deref_or_delete_def fail_queue_signals lost_def Let_def)
next
  case FinishWrite
  let ?d = "deref_or_delete (finish_replay ok s)"
  from finish_replay_lost [OF assms, of ok] obtain ss where ss: "lost r (finish_replay ok s)"
    "replay_signals (finish_replay ok s) = replay_signals s @ ss" "r \<notin> fst ` set ss" by auto
  have "lost r ?d" by (rule lost_cong [OF ss(1)]) (simp_all add: deref_or_delete_def Let_def)
  moreover have "replay_signals ?d = replay_signals s @ ss" using ss by (simp add: deref_or_delete_def Let_def)
  ultimately show ?thesis using FinishWrite lost_dequeue [of r ?d] ss(3)
    by (auto simp: bidi_finishWrite_def Let_def)
qed

fun writes_replay :: "nat \<Rightarrow> loop_event \<Rightarrow> bool" where
  "writes_replay r (LoopWrite data r') \<longleftrightarrow> r' = r"
| "writes_replay r (LoopWriteDone r') \<longleftrightarrow> r' = r"
| "writes_replay r _ \<longleftrightarrow> False"

fun write_answered :: "loop_event \<Rightarrow> bool" where
  "write_answered (LoopAnswer t ok buf st) \<longleftrightarrow> t = FinishWrite"
| "write_answered _ \<longleftrightarrow> False"

fun stream_ended :: "loop_event \<Rightarrow> bool" where
  "stream_ended (LoopAnswer t ok buf st) \<longleftrightarrow> t = FinishRead"
| "stream_ended _ \<longleftrightarrow> False"

text \<open>What other events do to a queue and to the signals.\<close>

definition silent :: "nat \<Rightarrow> stream_bidirect \<Rightarrow> stream_bidirect \<Rightarrow> bool" where
  "silent r s s' \<longleftrightarrow> (\<exists>ss. replay_signals s' = replay_signals s @ ss \<and> r \<notin> fst ` set ss)"

lemma silent_same [simp]: "replay_signals s' = replay_signals s \<Longrightarrow> silent r s s'"
  by (simp add: silent_def)

lemma step_lost:
  assumes "lost r s" "\<not> writes_replay r e"
  shows "lost r (loop_step e s) \<and> silent r s (loop_step e s)"
proof (cases e)
  case (LoopAnswer t ok buf st)
  have "lost r (take_tag t buf st s)" using assms(1) by (simp add: lost_def)
  from handler_lost [OF this, of t ok] LoopAnswer assms(1) show ?thesis by (auto simp: silent_def)
qed (use assms in \<open>auto simp: lost_def cancel_def sharedPtrReleased_def deref_or_delete_def
    appendToSend_def writeDone_def setStatus_def start_op_def Let_def\<close>)

text \<open>The queued \<open>writeDone\<close> with the replay \<open>r\<close>, and fewer than \<open>k\<close> entries in front of it.\<close>

definition done_queued :: "nat \<Rightarrow> nat \<Rightarrow> stream_bidirect \<Rightarrow> bool" where
  "done_queued k r s \<longleftrightarrow> m_inProcess s \<and> m_currentWriteReplay s \<noteq> Some r
     \<and> (\<exists>qs rest. m_sendQueue s = qs @ \<lparr>wd_data = [], wd_replay = r, wd_done = True\<rparr> # rest \<and> length qs < k
          \<and> r \<notin> wd_replay ` set (qs @ rest))"

lemma done_queued_mono: "done_queued k r s \<Longrightarrow> k \<le> k' \<Longrightarrow> done_queued k' r s"
  unfolding done_queued_def by (meson order_less_le_trans)

lemma done_queued_cong:
  "m_inProcess s' = m_inProcess s \<Longrightarrow> m_currentWriteReplay s' = m_currentWriteReplay s \<Longrightarrow> m_sendQueue s' = m_sendQueue s \<Longrightarrow>
    done_queued k r s' = done_queued k r s"
  by (simp add: done_queued_def)

lemma done_queued_append:
  assumes "done_queued k r s" "m_inProcess s'" "m_currentWriteReplay s' = m_currentWriteReplay s"
    "m_sendQueue s' = m_sendQueue s @ [d]" "wd_replay d \<noteq> r"
  shows "done_queued k r s'"
proof -
  obtain qs rest where "m_sendQueue s = qs @ \<lparr>wd_data = [], wd_replay = r, wd_done = True\<rparr> # rest" "length qs < k"
    "r \<notin> wd_replay ` set (qs @ rest)"
    using assms(1) unfolding done_queued_def by blast
  then have "m_sendQueue s' = qs @ \<lparr>wd_data = [], wd_replay = r, wd_done = True\<rparr> # (rest @ [d]) \<and> length qs < k
      \<and> r \<notin> wd_replay ` set (qs @ (rest @ [d]))"
    using assms(4,5) by auto
  moreover have "m_inProcess s' \<and> m_currentWriteReplay s' \<noteq> Some r" using assms(1-3) by (simp add: done_queued_def)
  ultimately show ?thesis unfolding done_queued_def by blast
qed

lemma done_queued_dequeue:
  assumes "done_queued (Suc k) r s"
  shows "lost r (dequeueWrite s) \<or> done_queued k r (dequeueWrite s)"
proof -
  obtain qs rest where q: "m_sendQueue s = qs @ \<lparr>wd_data = [], wd_replay = r, wd_done = True\<rparr> # rest" "length qs < Suc k"
    "r \<notin> wd_replay ` set (qs @ rest)" "m_currentWriteReplay s \<noteq> Some r"
    using assms unfolding done_queued_def by blast
  show ?thesis
  proof (cases qs)
    case Nil
    with q show ?thesis by (simp add: lost_def dequeueWrite_def start_op_def Let_def)
  next
    case (Cons d ds)
    with q have "done_queued k r (dequeueWrite s)"
      unfolding done_queued_def by (auto simp: dequeueWrite_def start_op_def Let_def)
    then show ?thesis ..
  qed
qed

text \<open>A replay that is not reported any more, after \<open>k\<close> answers to writes at the latest.\<close>

definition doomed :: "nat \<Rightarrow> nat \<Rightarrow> stream_bidirect \<Rightarrow> bool" where
  "doomed k r s \<longleftrightarrow> deleted s \<or> lost r s \<or> done_queued k r s"

lemma answer_done_queued:
  assumes "done_queued (Suc k) r s"
  shows "doomed k r (bidi_finishWrite ok s) \<and> silent r s (bidi_finishWrite ok s)"
proof -
  let ?s = "deref_or_delete (finish_replay ok s)"
  have cur: "m_currentWriteReplay s \<noteq> Some r" using assms by (simp add: done_queued_def)
  have same: "m_inProcess ?s = m_inProcess s" "m_currentWriteReplay ?s = m_currentWriteReplay s" "m_sendQueue ?s = m_sendQueue s"
    by (simp_all add: deref_or_delete_def finish_replay_def fail_replay_def emit_replay_def setStatus_def Let_def split: option.splits)
  have sig: "silent r s ?s"
    using cur by (auto simp: silent_def deref_or_delete_def finish_replay_def fail_replay_def emit_replay_def setStatus_def
        Let_def split: option.splits)
  show ?thesis
  proof (cases "m_refCount ?s = 0")
    case True
    then have "deleted ?s" by (simp add: deref_or_delete_def Let_def)
    with True sig show ?thesis by (simp add: bidi_finishWrite_def doomed_def Let_def)
  next
    case False
    have "done_queued (Suc k) r ?s" using assms by (simp only: done_queued_cong [OF same])
    from done_queued_dequeue [OF this] False sig show ?thesis
      by (auto simp: bidi_finishWrite_def doomed_def silent_def Let_def)
  qed
qed

lemma data_done_queued:
  assumes "done_queued k r s"
  shows "doomed k r (bidi_newData ok s) \<and> silent r s (bidi_newData ok s)"
proof (cases "ok \<and> m_readerState s = FIRST_CALL")
  case True
  obtain k' where k: "k = Suc k'" using assms by (cases k) (auto simp: done_queued_def)
  from done_queued_dequeue [OF assms [unfolded k]] have "lost r (dequeueWrite s) \<or> done_queued k r (dequeueWrite s)"
    using done_queued_mono [of k' r _ k] k by auto
  with True show ?thesis
    by (auto simp: doomed_def bidi_newData_def start_op_def deref_or_delete_def lost_def done_queued_def Let_def)
next
  case False
  have same: "m_inProcess (bidi_newData ok s) = m_inProcess s" "m_currentWriteReplay (bidi_newData ok s) = m_currentWriteReplay s"
    "m_sendQueue (bidi_newData ok s) = m_sendQueue s" "replay_signals (bidi_newData ok s) = replay_signals s"
    using False by (auto simp: bidi_newData_def start_op_def cancel_def deref_or_delete_def Let_def split: count_splits)
  then show ?thesis using assms done_queued_cong [OF same(1-3)] by (simp add: doomed_def)
qed

lemma step_done_queued:
  assumes "done_queued k r s" "\<not> writes_replay r e" "\<not> stream_ended e"
  shows "doomed (k - of_bool (write_answered e)) r (loop_step e s) \<and> silent r s (loop_step e s)"
proof (cases e)
  case (LoopAnswer t ok buf st)
  obtain k' where k: "k = Suc k'" using assms(1) by (cases k) (auto simp: done_queued_def)
  have q: "done_queued k r (take_tag t buf st s)" using assms(1) by (simp add: done_queued_def)
  show ?thesis
  proof (cases t)
    case NewData
    with LoopAnswer data_done_queued [OF q, of ok] show ?thesis
      by (auto simp: doomed_def silent_def)
  next
    case FinishWrite
    with LoopAnswer answer_done_queued [OF q [unfolded k], of ok] k show ?thesis
      by (auto simp: doomed_def silent_def)
  qed (use assms(3) LoopAnswer in simp)
next
  case (LoopWrite data r')
  with assms have "done_queued k r (loop_step e s)"
    by (intro done_queued_append [OF assms(1), of _ "\<lparr>wd_data = data, wd_replay = r', wd_done = False\<rparr>"])
      (auto simp: done_queued_def appendToSend_def setStatus_def)
  moreover have "replay_signals (loop_step e s) = replay_signals s"
    using LoopWrite by (simp add: appendToSend_def setStatus_def start_op_def)
  ultimately show ?thesis using LoopWrite by (simp add: doomed_def)
next
  case (LoopWriteDone r')
  with assms have "done_queued k r (loop_step e s)"
    by (intro done_queued_append [OF assms(1), of _ "\<lparr>wd_data = [], wd_replay = r', wd_done = True\<rparr>"])
      (auto simp: done_queued_def writeDone_def setStatus_def deref_or_delete_def Let_def)
  moreover have "replay_signals (loop_step e s) = replay_signals s"
    using LoopWriteDone by (simp add: writeDone_def setStatus_def start_op_def deref_or_delete_def Let_def)
  ultimately show ?thesis using LoopWriteDone by (simp add: doomed_def)
qed (use assms in \<open>auto simp: doomed_def done_queued_def cancel_def sharedPtrReleased_def deref_or_delete_def Let_def\<close>)

lemma step_doomed:
  assumes "doomed k r s" "\<not> writes_replay r e" "k = 0 \<or> \<not> stream_ended e"
  shows "doomed (k - of_bool (write_answered e)) r (loop_step e s) \<and> silent r s (loop_step e s)"
proof -
  consider "deleted s" | "lost r s" | "done_queued k r s" using assms(1) by (auto simp: doomed_def)
  then show ?thesis
  proof cases
    case 1
    then have "deleted (loop_step e s) \<and> replay_signals (loop_step e s) = replay_signals s"
      by (cases e) (auto simp: cancel_def sharedPtrReleased_def deref_or_delete_def appendToSend_def writeDone_def
          setStatus_def start_op_def Let_def)
    then show ?thesis by (simp add: doomed_def)
  next
    case 2
    with step_lost [OF this assms(2)] show ?thesis by (simp add: doomed_def)
  next
    case 3
    then have "0 < k" by (auto simp: done_queued_def)
    with 3 assms(2,3) show ?thesis by (intro step_done_queued) simp_all
  qed
qed

lemma event_loop_silent:
  assumes "silent r s s'" "\<not> replay_finished r n s" "n \<le> length (replay_signals s)"
  shows "\<not> replay_finished r n s' \<and> n \<le> length (replay_signals s')"
  using assms by (force simp: silent_def replay_finished_def)

text \<open>The stream may end once the answers to the writes in front have come.\<close>

fun answers_first :: "nat \<Rightarrow> loop_event list \<Rightarrow> bool" where
  "answers_first 0 es \<longleftrightarrow> True"
| "answers_first (Suc k) [] \<longleftrightarrow> True"
| "answers_first (Suc k) (e # es) \<longleftrightarrow> \<not> stream_ended e \<and> answers_first (if write_answered e then k else Suc k) es"

lemma event_loop_doomed:
  "doomed k r s \<Longrightarrow> \<forall>e \<in> set es. \<not> writes_replay r e \<Longrightarrow> answers_first k es \<Longrightarrow> \<not> replay_finished r n s \<Longrightarrow>
    n \<le> length (replay_signals s) \<Longrightarrow> event_loop r n es s = No_fuel"
proof (induction es arbitrary: s k)
  case (Cons e es)
  let ?s = "loop_step e s" and ?k = "k - of_bool (write_answered e)"
  have e: "k = 0 \<or> \<not> stream_ended e" "answers_first ?k es" using Cons.prems(3) by (cases k; auto)+
  from step_doomed [OF Cons.prems(1) _ e(1)] Cons.prems(2) have "doomed ?k r ?s" "silent r s ?s" by auto
  moreover from event_loop_silent [OF this(2) Cons.prems(4,5)]
  have "\<not> replay_finished r n ?s" "n \<le> length (replay_signals ?s)" by auto
  ultimately have "event_loop r n es ?s = No_fuel" using Cons.prems(2) e(2) by (intro Cons.IH [of ?k]) auto
  with Cons.prems(4) show ?case by (simp add: event_loop.simps [of r n "e # es"])
qed (simp add: event_loop.simps)

text \<open>
  C37. \<open>writeDoneBlocked\<close> called while a write is under way never returns, unless the stream ends before that write and
  all that wait behind it have been answered: the replay of the queued \<open>writeDone\<close> is dropped when the queue reaches it, and
  nothing reports it afterwards, whatever the event loop handles, the end of the stream included. (The replay is
  new: nothing else uses it.)
\<close>

theorem writeDoneBlocked_never_returns:
  fixes s :: "stream_bidirect stream_session"
  assumes "ss_writeDoneConnection s" and "m_inProcess (sub s)" and "m_currentWriteReplay (sub s) = Some r"
    and "r' \<noteq> r" "r' \<notin> wd_replay ` set (m_sendQueue (sub s))" "\<forall>e \<in> set es. \<not> writes_replay r' e"
    and "answers_first (Suc (length (m_sendQueue (sub s)))) es"
  shows "writeDoneBlocked r' es s = No_fuel"
proof -
  let ?s = "writeDone r' (setStatus r' W_InProcess (setStatus r' W_NotConnected (sub s)))"
  have sub: "sub (stream_writeDone r' s) = ?s"
    using assms(1) by (simp add: stream_writeDone_def on_writeDoneReady_def on_sub_def)
  have "replays ?s r' = W_InProcess" using assms(2) by (simp add: writeDone_def deref_or_delete_def setStatus_def Let_def)
  moreover have "done_queued (Suc (length (m_sendQueue (sub s)))) r' ?s"
    unfolding done_queued_def using assms(2-5)
    by (intro conjI exI [of _ "m_sendQueue (sub s)"] exI [of _ "[]"])
      (auto simp: writeDone_def deref_or_delete_def setStatus_def Let_def)
  then have "event_loop r' (length (replay_signals ?s)) es ?s = No_fuel"
    using assms(6,7) by (intro event_loop_doomed [of "Suc (length (m_sendQueue (sub s)))"])
      (simp_all add: doomed_def replay_finished_def)
  ultimately show ?thesis using sub by (simp add: writeDoneBlocked_def wait_replay_def)
qed

definition writing_session :: "stream_bidirect stream_session" where
  "writing_session = new_session (appendToSend [2] 3 (setStatus 3 W_InProcess (appendToSend [1] 1 (setStatus 1 W_InProcess
     (answer NewData (bidi_startReader new_stream_bidirect)))))) True"

theorem writeDoneBlocked_never_returns_witness:
  "writeDoneBlocked 2 [LoopAnswer NewData True empty_buffer ok_status, LoopAnswer FinishWrite True empty_buffer ok_status,
     LoopAnswer FinishWrite True empty_buffer ok_status, LoopAnswer FinishRead True empty_buffer ok_status] writing_session = No_fuel"
proof (rule writeDoneBlocked_never_returns)
  show "m_currentWriteReplay (sub writing_session) = Some 1" by code_simp
  have "length (m_sendQueue (sub writing_session)) = 1" by code_simp
  then show "answers_first (Suc (length (m_sendQueue (sub writing_session)))) [LoopAnswer NewData True empty_buffer ok_status,
      LoopAnswer FinishWrite True empty_buffer ok_status, LoopAnswer FinishWrite True empty_buffer ok_status,
      LoopAnswer FinishRead True empty_buffer ok_status]" by simp
qed (code_simp | simp)+

end
