(* ===== verification/ServerPrinter.thy ===== *)
theory ServerPrinter
  imports GeneratorProperties
begin

section \<open>The printer of servers\<close>

text \<open>
  \<open>ServerDeclarationPrinter\<close> (\<open>serverdeclarationprinter.h\<close>, \<open>serverdeclarationprinter.cpp\<close>) prints the abstract class
  of a server on top of \<open>ServiceDeclarationPrinterBase\<close>; no generator creates one yet.
\<close>

definition ServerMethodDeclarationTemplate :: string where
  "ServerMethodDeclarationTemplate =
     ''Q_INVOKABLE virtual $return_type$ $method_name$(const $param_type$ &$param_name$) = 0;\<newline>''"

lemma ServerMethodDeclarationTemplate_facts [template_facts]:
  "template_vars ServerMethodDeclarationTemplate = Some [''return_type'', ''method_name'', ''param_type'', ''param_name'']"
  "template_braces ServerMethodDeclarationTemplate = 0" "text_kind ServerMethodDeclarationTemplate = OtherText"
  by (code_simp, code_simp, code_simp)

definition serverName :: "ServiceDescriptor \<Rightarrow> string" where
  "serverName service = upperCaseName (s_name service) @ ''Server''"

text \<open>\<open>printClassName\<close> and \<open>printMethodsDeclaration\<close> of the base class; the templates of the asynchronous methods are empty by default.\<close>

definition printClassName :: "string \<Rightarrow> print_call list" where
  "printClassName mName = print [''classname'' \<mapsto> mName] ClassDeclarationTemplate"

definition printMethodsDeclaration :: "pool \<Rightarrow> string \<Rightarrow> ServiceDescriptor \<Rightarrow> string \<Rightarrow> string \<Rightarrow> string \<Rightarrow> print_call list" where
  "printMethodsDeclaration P mName service methodTemplate methodAsyncTemplate methodAsync2Template =
     Indent
     @ concat (map (\<lambda>method.
         let parameters = produceMethodMap P method mName
         in print parameters methodTemplate @ print parameters methodAsyncTemplate
            @ print parameters methodAsync2Template) (s_methods service))
     @ Outdent"

definition ServerDeclarationPrinter_run :: "pool \<Rightarrow> generator_options \<Rightarrow> (string set \<Rightarrow> string list) \<Rightarrow>
    ServiceDescriptor \<Rightarrow> print_call list" where
  "ServerDeclarationPrinter_run P g order service =
     printIncludes P order service
     @ printNamespaces g (s_full_name service)
     @ printClassName (serverName service)
     @ printPublicBlock
     @ printMethodsDeclaration P (serverName service) service ServerMethodDeclarationTemplate [] []
     @ encloseClass
     @ encloseNamespaces g (s_full_name service)"

lemma no_template [simp]: "template_vars [] = Some []" "template_braces [] = 0" "text_kind [] = OtherText"
  by (code_simp, code_simp, code_simp)

lemma server_methods_ok [simp]:
  "neutral (printMethodsDeclaration P n s ServerMethodDeclarationTemplate [] [])"
  "closed_calls (printMethodsDeclaration P n s ServerMethodDeclarationTemplate [] [])"
  by (rule neutralI, simp add: printMethodsDeclaration_def printer_run template_facts Let_def)
    (simp add: printMethodsDeclaration_def template_facts Let_def)

text \<open>
  What the printer writes for a service is accepted by the library: every variable has a value, the blocks and
  the indentation are closed again.
\<close>

theorem server_printer_accepted:
  "neutral (ServerDeclarationPrinter_run P g order service)
    \<and> closed_calls (ServerDeclarationPrinter_run P g order service)"
proof
  show "neutral (ServerDeclarationPrinter_run P g order service)"
    by (rule neutralI)
      (simp add: ServerDeclarationPrinter_run_def printIncludes_def printClassName_def printer_run template_facts
        printNamespaces_run encloseNamespaces_run Let_def)
  show "closed_calls (ServerDeclarationPrinter_run P g order service)"
    by (simp add: ServerDeclarationPrinter_run_def printIncludes_def printClassName_def printPublicBlock_def
        encloseClass_def printNamespaces_def encloseNamespaces_def template_facts Let_def)
qed

end
