(* ===== verification/ListModel.thy ===== *)
theory ListModel
  imports QtPrelude
begin

section \<open>The list model of the examples and its users\<close>

text \<open>
  \<open>UniversalListModel\<close> (\<open>examples_common/universallistmodel.h\<close>) shows a list of shared objects to the views of QML. Objects are
  numbers, a null pointer is \<open>None\<close>. A view learns of changes from the signals of the model only; \<open>mirror\<close> is what it
  holds after them, as Qt documents: rows are read when they were announced, all of them after a reset. The
  assertions are those of a debug build of the model itself; the ones of Qt are preconditions of its documentation.
  How many shared pointers own an object is not part of the model.
\<close>

type_synonym item = "nat option"

datatype model_signal = RowsInserted nat nat | RowsRemoved nat nat | ModelReset | CountChanged

record list_model =
  m_container :: "item list"
  model_signals :: "model_signal list"
  mirror :: "item list"

text \<open>What the view does when it hears that rows were inserted, removed or reset.\<close>

fun view_hears :: "model_signal \<Rightarrow> item list \<Rightarrow> item list \<Rightarrow> item list" where
  "view_hears (RowsInserted a b) rows v = take a v @ map (\<lambda>i. if i < length rows then rows ! i else None) [a..<Suc b] @ drop a v"
| "view_hears (RowsRemoved a b) rows v = take a v @ drop (Suc b) v"
| "view_hears ModelReset rows v = rows"
| "view_hears CountChanged rows v = v"

definition emit_signal :: "model_signal \<Rightarrow> list_model \<Rightarrow> list_model" where
  "emit_signal sig m = m\<lparr>model_signals := model_signals m @ [sig], mirror := view_hears sig (m_container m) (mirror m)\<rparr>"

definition count :: "list_model \<Rightarrow> nat" where
  "count m = length (m_container m)"

definition clear :: "list_model \<Rightarrow> list_model" where
  "clear m = emit_signal CountChanged (m\<lparr>m_container := []\<rparr>)"

text \<open>\<open>beginResetModel\<close> and the other \<open>begin\<close> functions only announce; the view acts on the \<open>end\<close> function.\<close>

definition reset :: "item list \<Rightarrow> list_model \<Rightarrow> list_model" where
  "reset container m = emit_signal ModelReset (emit_signal CountChanged ((clear m)\<lparr>m_container := container\<rparr>))"

definition new_model :: "item list \<Rightarrow> list_model" where
  "new_model container = reset container \<lparr>m_container = [], model_signals = [], mirror = []\<rparr>"

definition append_item :: "item \<Rightarrow> list_model \<Rightarrow> int \<times> list_model" where
  "append_item value m =
     (if value \<in> set (m_container m) then (- 1, m)
      else let n = count m;
               m = emit_signal (RowsInserted n n) (emit_signal CountChanged (m\<lparr>m_container := m_container m @ [value]\<rparr>))
           in (int (count m) - 1, m))"

definition prepend_item :: "item \<Rightarrow> list_model \<Rightarrow> int \<times> list_model" where
  "prepend_item value m =
     (if value \<in> set (m_container m) then (- 1, m)
      else (0, emit_signal (RowsInserted 0 0) (emit_signal CountChanged (m\<lparr>m_container := value # m_container m\<rparr>))))"

definition remove_item :: "item \<Rightarrow> list_model \<Rightarrow> list_model" where
  "remove_item value m = m\<lparr>m_container := remove1 value (m_container m)\<rparr>"

definition remove_at :: "int \<Rightarrow> list_model \<Rightarrow> list_model outcome" where
  "remove_at valueIndex m =
     (if valueIndex \<ge> 0 then
        let i = nat valueIndex
        in if i < count m
           then Ret (emit_signal (RowsRemoved i i)
                  (emit_signal CountChanged (m\<lparr>m_container := take i (m_container m) @ drop (Suc i) (m_container m)\<rparr>)))
           else undefined_by Broken_contract
      else Ret m)"

subsection \<open>Roles and data\<close>

text \<open>\<open>properties\<close> are the names of the properties of the class; \<open>property\<close> reads one of an object by its name.\<close>

definition UserRole :: nat where "UserRole = 256"

definition roleNames :: "string list \<Rightarrow> nat \<Rightarrow> string option" where
  "roleNames properties =
     (map_of (map (\<lambda>i. (UserRole + i, properties ! i)) [1..<length properties]))(length properties \<mapsto> ''modelData'')"

datatype 'v role_data = InvalidData | ObjectData nat | PropertyData 'v

definition model_data :: "string list \<Rightarrow> (nat \<Rightarrow> string \<Rightarrow> 'v) \<Rightarrow> int \<Rightarrow> nat \<Rightarrow> list_model \<Rightarrow> 'v role_data" where
  "model_data properties property row role m =
     (if row < 0 \<or> row \<ge> int (count m) then InvalidData
      else case m_container m ! nat row of
          None \<Rightarrow> InvalidData
        | Some dataPtr \<Rightarrow>
            let name = (case roleNames properties role of None \<Rightarrow> '''' | Some n \<Rightarrow> n)
            in if name = ''modelData'' then ObjectData dataPtr else PropertyData (property dataPtr name))"

text \<open>The objects are not null; \<open>None\<close> is the empty pointer for none found.\<close>

definition findByProperty :: "(nat \<Rightarrow> string \<Rightarrow> 'v) \<Rightarrow> string \<Rightarrow> 'v \<Rightarrow> list_model \<Rightarrow> nat option outcome" where
  "findByProperty property name value m =
     (case dropWhile (\<lambda>x. x \<noteq> None \<and> property (the x) name \<noteq> value) (m_container m) of
        [] \<Rightarrow> Ret None
      | None # _ \<Rightarrow> undefined_by Null_dereference
      | Some x # _ \<Rightarrow> Ret (Some x))"

subsection \<open>SimpleChatEngine and AddressBookEngine\<close>

text \<open>
  The state of the chat engine (\<open>simplechat/simplechatengine.cpp\<close>): the user name, the model of messages and the signals. The lambda that
  \<open>login\<close> connects to the stream of messages; the address book only resets its model.
\<close>

datatype engine_signal = UserNameChanged | LoggedIn

record chat_engine =
  m_userName :: string
  m_messages :: list_model
  engine_signals :: "engine_signal list"

definition on_messageReceived :: "string \<Rightarrow> item list \<Rightarrow> chat_engine \<Rightarrow> chat_engine" where
  "on_messageReceived name messages e =
     (let e = (if m_userName e \<noteq> name
               then e\<lparr>m_userName := name, engine_signals := engine_signals e @ [UserNameChanged, LoggedIn]\<rparr> else e)
      in e\<lparr>m_messages := reset messages (m_messages e)\<rparr>)"

text \<open>The clipboard: a picture, the URLs and a text; \<open>'url\<close> and \<open>'image\<close> belong to Qt.\<close>

record ('url, 'image) mime_data =
  imageData :: "'image option"
  urls :: "'url list"
  hasText :: bool

record ('url, 'image) image_api =
  isLocalFile :: "'url \<Rightarrow> bool"
  load_image :: "'url \<Rightarrow> 'image option"
  save_png :: "'image \<Rightarrow> bytes"

datatype ContentType = Unknown | Text | Image

definition clipBoardContentType :: "('url, 'image) mime_data option option \<Rightarrow> ContentType" where
  "clipBoardContentType clipBoard =
     (case clipBoard of
        Some (Some mime) \<Rightarrow>
          if imageData mime \<noteq> None \<or> urls mime \<noteq> [] then Image else if hasText mime then Text else Unknown
      | _ \<Rightarrow> Unknown)"

text \<open>The content that is sent, if any; an image that \<open>load_image\<close> gives is not null.\<close>

definition sendImageFromClipboard :: "('url, 'image) image_api \<Rightarrow> ('url, 'image) mime_data option option \<Rightarrow> bytes option" where
  "sendImageFromClipboard A clipBoard =
     (case clipBoard of
        None \<Rightarrow> None
      | Some mime \<Rightarrow>
          let imgData = (case mime of
                None \<Rightarrow> Some []
              | Some mime \<Rightarrow>
                  (case imageData mime of
                     Some img \<Rightarrow> Some (save_png A img)
                   | None \<Rightarrow>
                       (case urls mime of
                          imgUrl # _ \<Rightarrow>
                            if \<not> isLocalFile A imgUrl then None
                            else (case load_image A imgUrl of None \<Rightarrow> None | Some img \<Rightarrow> Some (save_png A img))
                        | [] \<Rightarrow> Some [])))
          in case imgData of None \<Rightarrow> None | Some d \<Rightarrow> if d = [] then None else Some d)"

subsection \<open>Properties\<close>

datatype model_op = Append item | Prepend item | RemoveAt int | RemoveItem item | Reset "item list"

fun model_step :: "model_op \<Rightarrow> list_model \<Rightarrow> list_model outcome" where
  "model_step (Append v) m = Ret (snd (append_item v m))"
| "model_step (Prepend v) m = Ret (snd (prepend_item v m))"
| "model_step (RemoveAt i) m = remove_at i m"
| "model_step (RemoveItem v) m = Ret (remove_item v m)"
| "model_step (Reset c) m = Ret (reset c m)"

fun model_run :: "model_op list \<Rightarrow> list_model \<Rightarrow> list_model outcome" where
  "model_run [] m = Ret m"
| "model_run (op # ops) m = and_then (model_step op m) (model_run ops)"

lemmas model_defs = emit_signal_def clear_def reset_def append_item_def prepend_item_def remove_at_def remove_item_def
  count_def Let_def

lemma step_mirrors:
  assumes "model_step op m = Ret m'" "mirror m = m_container m" "\<forall>v. op \<noteq> RemoveItem v"
  shows "mirror m' = m_container m'"
  using assms by (cases op) (auto simp: model_defs split: if_splits)

lemma run_mirrors:
  "model_run ops m = Ret m' \<Longrightarrow> mirror m = m_container m \<Longrightarrow> \<forall>v. RemoveItem v \<notin> set ops \<Longrightarrow> mirror m' = m_container m'"
proof (induction ops arbitrary: m)
  case (Cons op ops)
  then obtain m1 where m1: "model_step op m = Ret m1" "model_run ops m1 = Ret m'" by (auto simp: and_then_Ret_iff)
  with Cons step_mirrors [OF m1(1)] show ?case by auto
qed simp

text \<open>
  C38. A view that follows the signals of the list model shows the rows of the model after every sequence of
  \<open>append\<close>, \<open>prepend\<close>, \<open>reset\<close> and removals by index; an index behind the end breaks the contract of Qt. Removing an
  object by its pointer tells the view nothing: the row stays in it.
\<close>

theorem view_mirrors_model:
  assumes "\<forall>v. RemoveItem v \<notin> set ops"
  shows "(\<forall>m. model_run ops (new_model c) = Ret m \<longrightarrow> mirror m = m_container m
       \<and> (\<forall>i. int (count m) \<le> i \<longrightarrow> remove_at i m = undefined_by Broken_contract)
       \<and> (\<forall>v \<in> set (m_container m). mirror (remove_item v m) \<noteq> m_container (remove_item v m)))"
proof (intro allI impI conjI ballI)
  fix m assume m: "model_run ops (new_model c) = Ret m"
  have "mirror (new_model c) = m_container (new_model c)" by (simp add: new_model_def model_defs)
  then show mir: "mirror m = m_container m" by (rule run_mirrors [OF m _ assms])
  show "remove_at i m = undefined_by Broken_contract" if "int (count m) \<le> i" for i
    using that by (auto simp: remove_at_def count_def Let_def)
  show "mirror (remove_item v m) \<noteq> m_container (remove_item v m)" if "v \<in> set (m_container m)" for v
  proof
    assume "mirror (remove_item v m) = m_container (remove_item v m)"
    then have "m_container m = remove1 v (m_container m)" using mir by (simp add: remove_item_def)
    then have "length (m_container m) = length (m_container m) - 1" using that by (metis length_remove1)
    with that show False by (cases "m_container m") auto
  qed
qed

theorem view_mirrors_model_witness:
  "\<exists>m. model_run [Append (Some 3), Prepend (Some 4), RemoveAt 1, Reset [Some 1, Some 2], Append (Some 2)] (new_model [Some 9]) = Ret m
     \<and> mirror m = m_container m \<and> m_container m = [Some 1, Some 2]"
proof -
  let ?ops = "[Append (Some 3), Prepend (Some 4), RemoveAt 1, Reset [Some 1, Some 2], Append (Some 2)]"
  obtain m where m: "model_run ?ops (new_model [Some 9]) = Ret m" "m_container m = [Some 1, Some 2]"
    by (simp add: new_model_def model_defs)
  moreover have "\<forall>v. RemoveItem v \<notin> set ?ops" by simp
  ultimately show ?thesis using view_mirrors_model [of ?ops "[Some 9]"] by blast
qed

text \<open>The roles of a class with less than 257 properties: one for each property but the first, and the object.\<close>

lemma role_names:
  assumes "length properties \<le> UserRole" "0 < i" "i < length properties"
  shows "roleNames properties (UserRole + i) = Some (properties ! i)"
    "roleNames properties (length properties) = Some ''modelData''"
proof -
  have "map_of (map (\<lambda>i. (UserRole + i, properties ! i)) is) (UserRole + i) = Some (properties ! i)" if "i \<in> set is" for "is"
    using that by (induction "is") auto
  with assms show "roleNames properties (UserRole + i) = Some (properties ! i)"
    by (simp add: roleNames_def)
qed (simp add: roleNames_def)

lemma image_sent_is_offered:
  "sendImageFromClipboard A clipBoard = Some d \<Longrightarrow> clipBoardContentType clipBoard = Image"
  by (auto simp: sendImageFromClipboard_def clipBoardContentType_def Let_def split: option.splits list.splits if_splits)

lemma logged_in_once:
  "engine_signals (fold (on_messageReceived name) mss (e\<lparr>m_userName := name\<rparr>)) = engine_signals e"
proof -
  have "m_userName (fold (on_messageReceived name) mss e) = name
      \<and> engine_signals (fold (on_messageReceived name) mss e) = engine_signals e" if "m_userName e = name" for e
    using that by (induction mss arbitrary: e) (simp_all add: on_messageReceived_def Let_def)
  from this [of "e\<lparr>m_userName := name\<rparr>"] show ?thesis by simp
qed

end
