(* ===== verification/ExampleServers.thy ===== *)
theory ExampleServers
  imports QtPrelude
begin

section \<open>The servers of the examples\<close>

text \<open>
  The address book server (\<open>addressbookserver/main.cpp\<close>) and the chat server (\<open>simplechatserver/main.cpp\<close>): a service
  whose unary methods gRPC calls, and a main loop that takes the tags of the streams off a completion queue. Every stream belongs to a handler that is made
  before its client arrives. A \<open>ServerAsyncWriter\<close> must have a client, one write at a time and none
  after \<open>Finish\<close>; anything else breaks the contract of gRPC. The methods run one at a time here; that gRPC calls them
  on threads of its own is not modelled. \<open>std::string\<close> is \<open>string\<close>.
\<close>

record 'm writer =
  w_started :: bool
  w_writing :: bool
  w_finished :: bool
  w_sent :: "'m list"

definition new_writer :: "'m writer" where
  "new_writer = \<lparr>w_started = False, w_writing = False, w_finished = False, w_sent = []\<rparr>"

definition ready :: "'m writer \<Rightarrow> bool" where
  "ready w \<longleftrightarrow> w_started w \<and> \<not> w_writing w \<and> \<not> w_finished w"

definition write_message :: "'m \<Rightarrow> 'm writer \<Rightarrow> 'm writer outcome" where
  "write_message m w =
     (if ready w then Ret (w\<lparr>w_writing := True, w_sent := w_sent w @ [m]\<rparr>) else undefined_by Broken_contract)"

definition finish_writer :: "'m writer \<Rightarrow> 'm writer outcome" where
  "finish_writer w = (if ready w then Ret (w\<lparr>w_writing := True, w_finished := True\<rparr>) else undefined_by Broken_contract)"

text \<open>
  The loops \<open>for (i = 0; i < clients.size() - 1; i++)\<close>: all but the last. \<open>size()\<close> is unsigned, so that for no client at
  all the bound is the largest number and the first access is out of range.
\<close>

fun write_all :: "'m \<Rightarrow> 'm writer list \<Rightarrow> 'm writer list outcome" where
  "write_all m [] = undefined_by Overread"
| "write_all m [w] = Ret [w]"
| "write_all m (w # ws) = and_then (write_message m w) (\<lambda>w. and_then (write_all m ws) (\<lambda>ws. Ret (w # ws)))"

definition on_writer :: "nat \<Rightarrow> ('m writer \<Rightarrow> 'm writer outcome) \<Rightarrow> 'm writer list \<Rightarrow> 'm writer list outcome" where
  "on_writer i f ws = (if i < length ws then and_then (f (ws ! i)) (\<lambda>w. Ret (ws[i := w])) else undefined_by Overread)"

datatype grpc_code = GrpcOk | UNAUTHENTICATED | UNIMPLEMENTED

subsection \<open>The address book\<close>

record PhoneNumber =
  countryCode :: "32 word"
  number :: "64 word"

record Contact =
  firstName :: string
  lastName :: string
  jobTitle :: "string option"
  phones :: "PhoneNumber list"

datatype CallState = Invalid | Inactive | Active | Ended

record CallStatus =
  status :: CallState
  phoneNumber :: "PhoneNumber option"

record address_book =
  m_lastPhone :: PhoneNumber
  m_lastCallStatus :: CallStatus
  m_contacts :: "Contact list"
  m_clients :: "Contact list writer list"
  m_callClients :: "CallStatus writer list"
  last_contacts :: nat
  last_call :: nat

definition new_contact :: "string \<Rightarrow> string \<Rightarrow> Contact" where
  "new_contact first surname = \<lparr>firstName = first, lastName = surname, jobTitle = None, phones = []\<rparr>"

definition new_address_book :: address_book where
  "new_address_book =
     \<lparr>m_lastPhone = \<lparr>countryCode = 0, number = 0\<rparr>,
      m_lastCallStatus = \<lparr>status = Inactive, phoneNumber = Some \<lparr>countryCode = 0, number = 0\<rparr>\<rparr>,
      m_contacts = [new_contact ''John'' ''Doe'', new_contact ''Jane'' ''Doe'', new_contact ''John'' ''McClane'',
        new_contact ''Alexey'' ''Edelev'',
        (new_contact ''Ebenezer'' ''Scrooge'')
          \<lparr>jobTitle := Some ''Job title'', phones := [\<lparr>countryCode = 49, number = 12324534679\<rparr>]\<rparr>],
      m_clients = [], m_callClients = [], last_contacts = 0, last_call = 0\<rparr>"

text \<open>The constructors of the handlers, whose writers are registered before their clients arrive.\<close>

definition registerWriter :: "address_book \<Rightarrow> address_book" where
  "registerWriter s = s\<lparr>m_clients := m_clients s @ [new_writer]\<rparr>"

definition registerCallStatusHandler :: "address_book \<Rightarrow> address_book" where
  "registerCallStatusHandler s = s\<lparr>m_callClients := m_callClients s @ [new_writer]\<rparr>"

definition new_ContactsHandler :: "address_book \<Rightarrow> address_book" where
  "new_ContactsHandler s = (registerWriter s)\<lparr>last_contacts := length (m_clients s)\<rparr>"

definition new_CallHandler :: "address_book \<Rightarrow> address_book" where
  "new_CallHandler s = (registerCallStatusHandler s)\<lparr>last_call := length (m_callClients s)\<rparr>"

lemmas register_defs = new_ContactsHandler_def new_CallHandler_def registerWriter_def registerCallStatusHandler_def

definition address_main_begin :: address_book where
  "address_main_begin = new_CallHandler (new_ContactsHandler new_address_book)"

definition updateContacts :: "address_book \<Rightarrow> address_book outcome" where
  "updateContacts s = and_then (write_all (m_contacts s) (m_clients s)) (\<lambda>ws. Ret (s\<lparr>m_clients := ws\<rparr>))"

text \<open>The metadata of a request, in its order.\<close>

definition addContact :: "(string \<times> string) list \<Rightarrow> Contact \<Rightarrow> address_book \<Rightarrow> (grpc_code \<times> Contact list \<times> address_book) outcome" where
  "addContact metadata request s =
     (let isUserOk = (\<exists>p \<in> set metadata. p = (''user-name'', ''authorizedUser''));
          isPasswordOk = (\<exists>p \<in> set metadata. p = (''user-password'', ''098f6bcd4621d373cade4e832627b4f6''))
      in if \<not> isUserOk \<or> \<not> isPasswordOk then Ret (UNAUTHENTICATED, [], s)
         else let s = s\<lparr>m_contacts := m_contacts s @ [request]\<rparr>
              in and_then (updateContacts s) (\<lambda>s. Ret (GrpcOk, m_contacts s, s)))"

definition write_call_status :: "CallStatus \<Rightarrow> address_book \<Rightarrow> address_book outcome" where
  "write_call_status st s = and_then (write_all st (m_callClients s)) (\<lambda>ws. Ret (s\<lparr>m_callClients := ws\<rparr>))"

text \<open>The status is set in the loop, that is only when there is a client.\<close>

definition makeCall :: "PhoneNumber \<Rightarrow> address_book \<Rightarrow> (grpc_code \<times> CallStatus \<times> address_book) outcome" where
  "makeCall request s =
     (let s = s\<lparr>m_lastPhone := request\<rparr>; response = \<lparr>status = Active, phoneNumber = Some request\<rparr>
      in and_then (write_call_status response s) (\<lambda>s.
        if length (m_callClients s) = 1 then Ret (GrpcOk, \<lparr>status = Invalid, phoneNumber = None\<rparr>, s)
        else Ret (GrpcOk, response, s\<lparr>m_lastCallStatus := response\<rparr>)))"

text \<open>\<open>endCall\<close> writes twice, a second apart; the result of the first part says whether the second follows.\<close>

definition endCall_first :: "address_book \<Rightarrow> (bool \<times> address_book) outcome" where
  "endCall_first s =
     (if status (m_lastCallStatus s) \<noteq> Active then Ret (False, s)
      else let s = s\<lparr>m_lastCallStatus := (m_lastCallStatus s)\<lparr>status := Ended\<rparr>\<rparr>
           in and_then (write_call_status (m_lastCallStatus s) s) (\<lambda>s. Ret (True, s)))"

definition endCall_second :: "address_book \<Rightarrow> (grpc_code \<times> address_book) outcome" where
  "endCall_second s =
     (let s = s\<lparr>m_lastCallStatus := (m_lastCallStatus s)\<lparr>status := Inactive\<rparr>\<rparr>
      in and_then (write_call_status (m_lastCallStatus s) s) (\<lambda>s. Ret (GrpcOk, s)))"

definition removeContact :: "address_book \<Rightarrow> (grpc_code \<times> address_book) outcome" where
  "removeContact s = and_then (updateContacts s) (\<lambda>s. Ret (UNIMPLEMENTED, s))"

definition navigateTo :: "address_book \<Rightarrow> (grpc_code \<times> address_book) outcome" where
  "navigateTo s = Ret (UNIMPLEMENTED, s)"

text \<open>
  One turn of the main loop. A tag says that the client of the last handler has arrived; the null tag that
  a write is complete.
\<close>

datatype server_tag = NullTag | ContactsTag | CallTag

fun address_turn :: "server_tag \<Rightarrow> address_book \<Rightarrow> address_book outcome" where
  "address_turn NullTag s = Ret s"
| "address_turn ContactsTag s =
     and_then (on_writer (last_contacts s) (write_message (m_contacts s)) (m_clients s))
       (\<lambda>ws. Ret (new_ContactsHandler (s\<lparr>m_clients := ws\<rparr>)))"
| "address_turn CallTag s =
     and_then (on_writer (last_call s) (write_message (m_lastCallStatus s)) (m_callClients s))
       (\<lambda>ws. Ret (new_CallHandler (s\<lparr>m_callClients := ws\<rparr>)))"

text \<open>What gRPC does before the loop sees a tag: it has let the client in, or completed a write.\<close>

fun address_arrival :: "server_tag \<Rightarrow> address_book \<Rightarrow> address_book" where
  "address_arrival NullTag s = s"
| "address_arrival ContactsTag s =
     s\<lparr>m_clients := (m_clients s)[last_contacts s := (m_clients s ! last_contacts s)\<lparr>w_started := True\<rparr>]\<rparr>"
| "address_arrival CallTag s =
     s\<lparr>m_callClients := (m_callClients s)[last_call s := (m_callClients s ! last_call s)\<lparr>w_started := True\<rparr>]\<rparr>"

definition written :: "nat \<Rightarrow> 'm writer list \<Rightarrow> 'm writer list" where
  "written i ws = ws[i := (ws ! i)\<lparr>w_writing := False\<rparr>]"

text \<open>All histories of the address book once its main loop runs.\<close>

inductive address_history :: "address_book \<Rightarrow> bool" where
  begins: "address_history address_main_begin"
| turns: "address_history s \<Longrightarrow> address_turn t (address_arrival t s) = Ret s' \<Longrightarrow> address_history s'"
| contacts_written: "address_history s \<Longrightarrow> address_history (s\<lparr>m_clients := written i (m_clients s)\<rparr>)"
| calls_written: "address_history s \<Longrightarrow> address_history (s\<lparr>m_callClients := written i (m_callClients s)\<rparr>)"
| adds: "address_history s \<Longrightarrow> addContact md c s = Ret (code, cs, s') \<Longrightarrow> address_history s'"
| removes: "address_history s \<Longrightarrow> removeContact s = Ret (code, s') \<Longrightarrow> address_history s'"
| calls: "address_history s \<Longrightarrow> makeCall p s = Ret (code, st, s') \<Longrightarrow> address_history s'"
| ends: "address_history s \<Longrightarrow> endCall_first s = Ret (again, s') \<or> endCall_second s = Ret (code, s') \<Longrightarrow> address_history s'"

subsection \<open>Clients\<close>

text \<open>Every writer but the last has a client, none was finished, and the last one waits.\<close>

definition clients_inv :: "'m writer list \<Rightarrow> nat \<Rightarrow> bool" where
  "clients_inv ws n \<longleftrightarrow> length ws = Suc n \<and> (\<forall>i < n. w_started (ws ! i) \<and> \<not> w_finished (ws ! i)) \<and> ws ! n = new_writer"

definition idle_clients :: "'m writer list \<Rightarrow> bool" where
  "idle_clients ws \<longleftrightarrow> (\<forall>w \<in> set (butlast ws). \<not> w_writing w)"

lemma write_all_spec:
  assumes "ws \<noteq> []" "\<forall>w \<in> set (butlast ws). ready w"
  shows "write_all m ws = Ret (map (\<lambda>w. w\<lparr>w_writing := True, w_sent := w_sent w @ [m]\<rparr>) (butlast ws) @ [last ws])"
  using assms by (induction m ws rule: write_all.induct) (auto simp: write_message_def)

lemma write_all_fails:
  assumes "w \<in> set (butlast ws)" "\<not> ready w"
  shows "write_all m ws = undefined_by Broken_contract"
  using assms
proof (induction m ws rule: write_all.induct)
  case (3 m v w' ws)
  then show ?case by (cases "ready v") (auto simp: write_message_def)
qed auto

lemma write_all_Ret:
  assumes "write_all m ws = Ret ws'"
  shows "ws \<noteq> [] \<and> (\<forall>w \<in> set (butlast ws). ready w)"
  using assms write_all_fails [of _ ws m] by (cases ws) fastforce+

lemma write_all_length: "write_all m ws = Ret ws' \<Longrightarrow> length ws' = length ws"
proof -
  assume r: "write_all m ws = Ret ws'"
  from write_all_Ret [OF r] write_all_spec [of ws m] r show ?thesis by auto
qed

lemma butlast_inv: "clients_inv ws n \<Longrightarrow> w \<in> set (butlast ws) \<Longrightarrow> w_started w \<and> \<not> w_finished w"
  by (auto simp: clients_inv_def in_set_conv_nth nth_butlast)

lemma clients_ready: "clients_inv ws n \<Longrightarrow> idle_clients ws \<longleftrightarrow> (\<forall>w \<in> set (butlast ws). ready w)"
  using butlast_inv [of ws n] by (auto simp: idle_clients_def ready_def)

lemma clients_inv_snoc: "clients_inv ws n \<longleftrightarrow>
    (\<exists>vs. ws = vs @ [new_writer] \<and> length vs = n \<and> (\<forall>w \<in> set vs. w_started w \<and> \<not> w_finished w))"
proof
  assume inv: "clients_inv ws n"
  then have "ws = butlast ws @ [new_writer]" "length (butlast ws) = n"
    by (auto simp: clients_inv_def append_butlast_last_id [symmetric] last_conv_nth simp del: append_butlast_last_id)
      (metis append_butlast_last_id diff_Suc_1 last_conv_nth length_0_conv nat.distinct(1))
  with butlast_inv [OF inv] show "\<exists>vs. ws = vs @ [new_writer] \<and> length vs = n \<and> (\<forall>w \<in> set vs. w_started w \<and> \<not> w_finished w)"
    by blast
next
  assume "\<exists>vs. ws = vs @ [new_writer] \<and> length vs = n \<and> (\<forall>w \<in> set vs. w_started w \<and> \<not> w_finished w)"
  then show "clients_inv ws n" by (auto simp: clients_inv_def nth_append)
qed

lemma write_all_inv: "clients_inv ws n \<Longrightarrow> write_all m ws = Ret ws' \<Longrightarrow> clients_inv ws' n"
  using write_all_spec [of ws m] write_all_Ret [of m ws ws']
  by (auto simp: clients_inv_snoc)

lemma written_inv: "clients_inv ws n \<Longrightarrow> clients_inv (written i ws) n"
proof -
  assume "clients_inv ws n"
  then show ?thesis
    by (cases "i < n"; cases "i = n")
      (auto simp: clients_inv_def written_def new_writer_def nth_list_update list_update_beyond)
qed

lemma arrival_inv:
  assumes "clients_inv ws n"
    and "on_writer n (write_message m) (ws[n := (ws ! n)\<lparr>w_started := True\<rparr>]) = Ret ws'"
  shows "clients_inv (ws' @ [new_writer]) (length ws')"
  using assms
  by (auto simp: clients_inv_snoc on_writer_def write_message_def and_then_Ret_iff new_writer_def nth_append split: if_splits)

definition address_inv :: "address_book \<Rightarrow> bool" where
  "address_inv s \<longleftrightarrow> clients_inv (m_clients s) (last_contacts s) \<and> clients_inv (m_callClients s) (last_call s)"

lemma address_history_inv: "address_history s \<Longrightarrow> address_inv s"
proof (induction rule: address_history.induct)
  case begins
  show ?case
    by (simp add: address_inv_def address_main_begin_def register_defs new_address_book_def clients_inv_def)
next
  case (turns s t s')
  then show ?case
    by (cases t) (auto simp: address_inv_def and_then_Ret_iff register_defs dest: arrival_inv)
next
  case (adds s md c code cs s')
  then show ?case
    by (auto simp: address_inv_def addContact_def updateContacts_def and_then_Ret_iff Let_def dest: write_all_inv split: if_splits)
next
  case (calls s p code st s')
  then show ?case
    by (auto simp: address_inv_def makeCall_def write_call_status_def and_then_Ret_iff Let_def dest: write_all_inv split: if_splits)
next
  case (ends s again s' code)
  then show ?case
    by (auto simp: address_inv_def endCall_first_def endCall_second_def write_call_status_def and_then_Ret_iff Let_def
        dest: write_all_inv split: if_splits)
qed (auto simp: address_inv_def written_inv removeContact_def updateContacts_def and_then_Ret_iff dest: write_all_inv)

subsection \<open>The chat\<close>

record User =
  name :: string
  password :: string

record ChatMessage =
  timestamp :: "64 word"
  content :: bytes
  msg_type :: nat
  msg_from :: string

record chat_service =
  m_usersDatabase :: "User list"
  chat_messages :: "ChatMessage list"
  m_activeClients :: "ChatMessage list writer list"
  last_handler :: nat

definition chat_users :: "User list" where
  "chat_users = map (\<lambda>n. \<lparr>name = n, password = ''d8578edf8458ce06fbc5bb76a58c5ca4''\<rparr>)
     [''user1'', ''user2'', ''user3'', ''user4'', ''user5'']"

definition new_chat_service :: chat_service where
  "new_chat_service = \<lparr>m_usersDatabase = chat_users, chat_messages = [], m_activeClients = [], last_handler = 0\<rparr>"

definition loginUser :: "chat_service \<Rightarrow> chat_service" where
  "loginUser s = s\<lparr>m_activeClients := m_activeClients s @ [new_writer]\<rparr>"

definition new_MessageListHandler :: "chat_service \<Rightarrow> chat_service" where
  "new_MessageListHandler s = (loginUser s)\<lparr>last_handler := length (m_activeClients s)\<rparr>"

definition updateMessages :: "chat_service \<Rightarrow> chat_service outcome" where
  "updateMessages s = and_then (write_all (chat_messages s) (m_activeClients s)) (\<lambda>ws. Ret (s\<lparr>m_activeClients := ws\<rparr>))"

definition checkUserCredentials :: "User list \<Rightarrow> string \<Rightarrow> string \<Rightarrow> bool" where
  "checkUserCredentials users n pw \<longleftrightarrow> (\<exists>u \<in> set users. name u = n \<and> password u = pw)"

text \<open>
  A value of the metadata is not terminated: as a C string it goes on with what the memory behind it holds up to the next zero,
  the third component. \<open>resize\<close> cuts a string off or pads it with zeros.
\<close>

type_synonym metadata = "(string \<times> string \<times> string) list"

definition resize :: "nat \<Rightarrow> string \<Rightarrow> string" where
  "resize n s = take n s @ replicate (n - length s) (CHR 0x00)"

definition as_c_string :: "string \<Rightarrow> string \<Rightarrow> string" where
  "as_c_string val behind = takeWhile (\<lambda>c. c \<noteq> CHR 0x00) (val @ behind)"

fun extractCredentials :: "metadata \<Rightarrow> string \<times> string \<Rightarrow> string \<times> string" where
  "extractCredentials [] (n, pw) = (n, pw)"
| "extractCredentials ((key, val, behind) # md) (n, pw) =
     extractCredentials md
       (if key = ''user-name'' then resize 5 (as_c_string val behind) else n,
        if key = ''user-password'' then resize 32 (as_c_string val behind) else pw)"

abbreviation credentials_of :: "metadata \<Rightarrow> string \<times> string" where
  "credentials_of md \<equiv> extractCredentials md ([], [])"

definition accepts :: "User list \<Rightarrow> metadata \<Rightarrow> bool" where
  "accepts users md \<longleftrightarrow> (case credentials_of md of (n, pw) \<Rightarrow> checkUserCredentials users n pw)"

definition sendMessage :: "metadata \<Rightarrow> ChatMessage \<Rightarrow> chat_service \<Rightarrow> (grpc_code \<times> chat_service) outcome" where
  "sendMessage md request s =
     (if \<not> accepts (m_usersDatabase s) md then Ret (UNAUTHENTICATED, s)
      else let s = s\<lparr>chat_messages := chat_messages s @ [request\<lparr>msg_from := fst (credentials_of md)\<rparr>]\<rparr>
           in and_then (updateMessages s) (\<lambda>s. Ret (GrpcOk, s)))"

text \<open>One turn of the main loop, for a null tag or the arrival of a client with its metadata.\<close>

fun chat_turn :: "metadata option \<Rightarrow> chat_service \<Rightarrow> chat_service outcome" where
  "chat_turn None s = Ret s"
| "chat_turn (Some md) s =
     (if \<not> accepts (m_usersDatabase s) md
      then and_then (on_writer (last_handler s) finish_writer (m_activeClients s))
        (\<lambda>ws. Ret (new_MessageListHandler (s\<lparr>m_activeClients := ws\<rparr>)))
      else and_then (on_writer (last_handler s) (write_message (chat_messages s)) (m_activeClients s))
        (\<lambda>ws. Ret (new_MessageListHandler (s\<lparr>m_activeClients := ws\<rparr>))))"

definition chat_arrival :: "chat_service \<Rightarrow> chat_service" where
  "chat_arrival s = s\<lparr>m_activeClients :=
     (m_activeClients s)[last_handler s := (m_activeClients s ! last_handler s)\<lparr>w_started := True\<rparr>]\<rparr>"

text \<open>The histories of the chat server; its service does nothing before the first handler exists.\<close>

inductive chat_history :: "chat_service \<Rightarrow> bool" where
  begins: "chat_history (new_MessageListHandler new_chat_service)"
| turns: "chat_history s \<Longrightarrow> chat_turn (Some md) (chat_arrival s) = Ret s' \<Longrightarrow> chat_history s'"
| completes: "chat_history s \<Longrightarrow> chat_history (s\<lparr>m_activeClients := written i (m_activeClients s)\<rparr>)"
| sends: "chat_history s \<Longrightarrow> sendMessage md request s = Ret (code, s') \<Longrightarrow> chat_history s'"

definition chat_inv :: "chat_service \<Rightarrow> bool" where
  "chat_inv s \<longleftrightarrow> length (m_activeClients s) = Suc (last_handler s) \<and> m_usersDatabase s = chat_users"

lemma chat_history_inv: "chat_history s \<Longrightarrow> chat_inv s"
proof (induction rule: chat_history.induct)
  case (sends s md request code s')
  then show ?case
    by (auto simp: chat_inv_def sendMessage_def updateMessages_def and_then_Ret_iff Let_def dest!: write_all_length split: if_splits)
qed (auto simp: chat_inv_def new_MessageListHandler_def loginUser_def new_chat_service_def written_def chat_arrival_def
    on_writer_def and_then_Ret_iff split: if_splits)

subsection \<open>Properties\<close>

text \<open>
  C39. A contact that is added with the right credentials reaches every client of the address book: the call succeeds exactly when
  each client has received the list before, and then writes the new list to each of them, and to no
  handler that still waits for its client; otherwise it starts a second write on a stream, which gRPC forbids.
\<close>

theorem addContact_reaches_clients:
  assumes "address_history s"
    and "(''user-name'', ''authorizedUser'') \<in> set md" and "(''user-password'', ''098f6bcd4621d373cade4e832627b4f6'') \<in> set md"
  shows "addContact md c s =
    (if idle_clients (m_clients s)
     then Ret (GrpcOk, m_contacts s @ [c], s\<lparr>m_contacts := m_contacts s @ [c],
       m_clients := map (\<lambda>w. w\<lparr>w_writing := True, w_sent := w_sent w @ [m_contacts s @ [c]]\<rparr>) (butlast (m_clients s)) @ [new_writer]\<rparr>)
     else undefined_by Broken_contract)"
proof -
  have inv: "clients_inv (m_clients s) (last_contacts s)"
    using address_history_inv [OF assms(1)] by (simp add: address_inv_def)
  then have ne: "m_clients s \<noteq> []" and l: "last (m_clients s) = new_writer"
    by (auto simp: clients_inv_snoc)
  have auth: "(\<exists>p \<in> set md. p = (''user-name'', ''authorizedUser''))
      \<and> (\<exists>p \<in> set md. p = (''user-password'', ''098f6bcd4621d373cade4e832627b4f6''))"
    using assms(2,3) by blast
  show ?thesis
  proof (cases "idle_clients (m_clients s)")
    case True
    then have "\<forall>w \<in> set (butlast (m_clients s)). ready w" using clients_ready [OF inv] by simp
    from write_all_spec [OF ne this, of "m_contacts s @ [c]"] True auth l show ?thesis
      by (simp only: addContact_def updateContacts_def Let_def) simp
  next
    case False
    then obtain w where "w \<in> set (butlast (m_clients s))" "\<not> ready w" using clients_ready [OF inv] by auto
    from write_all_fails [OF this, of "m_contacts s @ [c]"] False auth show ?thesis
      by (simp only: addContact_def updateContacts_def Let_def) simp
  qed
qed

theorem addContact_reaches_clients_witness:
  "let md = [(''user-name'', ''authorizedUser''), (''user-password'', ''098f6bcd4621d373cade4e832627b4f6'')];
       c = new_contact ''A'' ''B''; s = address_main_begin
   in addContact md c s = (if idle_clients (m_clients s)
     then Ret (GrpcOk, m_contacts s @ [c], s\<lparr>m_contacts := m_contacts s @ [c],
       m_clients := map (\<lambda>w. w\<lparr>w_writing := True, w_sent := w_sent w @ [m_contacts s @ [c]]\<rparr>) (butlast (m_clients s)) @ [new_writer]\<rparr>)
     else undefined_by Broken_contract)"
  unfolding Let_def by (rule addContact_reaches_clients [OF address_history.begins]) simp_all

lemma resize_c_string: "CHR 0x00 \<notin> set v \<Longrightarrow> resize (length v) (as_c_string (v @ x) t) = v"
proof -
  assume "CHR 0x00 \<notin> set v"
  then have "takeWhile (\<lambda>c. c \<noteq> CHR 0x00) (v @ x @ t) = v @ takeWhile (\<lambda>c. c \<noteq> CHR 0x00) (x @ t)"
    by (intro takeWhile_append2) auto
  then show ?thesis by (simp add: as_c_string_def resize_def)
qed

text \<open>
  C40. The chat server accepts every user name and password that begin with those of a user: it compares the first five
  and thirty two characters only.
\<close>

theorem chat_accepts_prefixes:
  assumes "u \<in> set users" and "length (name u) = 5" and "length (password u) = 32"
    and "CHR 0x00 \<notin> set (name u)" and "CHR 0x00 \<notin> set (password u)"
  shows "accepts users [(''user-name'', name u @ x, t), (''user-password'', password u @ y, t')]"
  using resize_c_string [OF assms(4), of x t] resize_c_string [OF assms(5), of y t'] assms(1,2,3)
  by (auto simp: checkUserCredentials_def accepts_def)

theorem chat_accepts_prefixes_witness:
  "accepts chat_users [(''user-name'', ''user1, or anyone'', []), (''user-password'', ''d8578edf8458ce06fbc5bb76a58c5ca4'', [])]"
  using chat_accepts_prefixes [of "chat_users ! 0" chat_users "'', or anyone''" "[]" "[]" "[]"]
  by (simp add: chat_users_def)

text \<open>
  A login that fails stops the chat for everyone: the stream that was refused stays among the clients, so that the next message of
  an accepted user writes to a stream that was finished, which gRPC forbids.
\<close>

theorem failed_login_breaks_chat:
  assumes "chat_history s" and "chat_turn (Some bad) (chat_arrival s) = Ret s'"
    and "\<not> accepts chat_users bad" and "accepts chat_users good"
  shows "sendMessage good request s' = undefined_by Broken_contract"
proof -
  let ?n = "last_handler s" and ?ws = "m_activeClients (chat_arrival s)"
  have n: "?n < length ?ws" "last_handler (chat_arrival s) = ?n" "m_usersDatabase (chat_arrival s) = chat_users"
    using chat_history_inv [OF assms(1)] by (simp_all add: chat_arrival_def chat_inv_def)
  obtain w where w: "finish_writer (?ws ! ?n) = Ret w"
    and s': "s' = new_MessageListHandler ((chat_arrival s)\<lparr>m_activeClients := ?ws[?n := w]\<rparr>)"
    using assms(2,3) n by (auto simp: on_writer_def and_then_Ret_iff)
  have clients: "m_activeClients s' = ?ws[?n := w] @ [new_writer]" "m_usersDatabase s' = chat_users"
    using n by (simp_all add: s' new_MessageListHandler_def loginUser_def)
  have "w \<in> set (butlast (m_activeClients s'))" using n(1) by (simp add: clients set_update_memI)
  moreover have "\<not> ready w" using w by (auto simp: finish_writer_def ready_def split: if_splits)
  ultimately show ?thesis
    using write_all_fails [of w "m_activeClients s'"] assms(4) clients(2)
    by (auto simp: sendMessage_def updateMessages_def Let_def)
qed

definition chat_begin :: chat_service where
  "chat_begin = new_MessageListHandler new_chat_service"

definition refused_chat :: chat_service where
  "refused_chat = (case chat_turn (Some []) (chat_arrival chat_begin) of Ret s \<Rightarrow> s | _ \<Rightarrow> chat_begin)"

theorem failed_login_breaks_chat_witness:
  "sendMessage [(''user-name'', ''user1'', []), (''user-password'', ''d8578edf8458ce06fbc5bb76a58c5ca4'', [])]
     \<lparr>timestamp = 0, content = [], msg_type = 1, msg_from = []\<rparr> refused_chat = undefined_by Broken_contract"
proof (rule failed_login_breaks_chat [where s = chat_begin and bad = "[]"])
  show "chat_history chat_begin" unfolding chat_begin_def by (rule chat_history.begins)
  show "chat_turn (Some []) (chat_arrival chat_begin) = Ret refused_chat"
    by (simp add: refused_chat_def chat_begin_def new_MessageListHandler_def loginUser_def new_chat_service_def accepts_def
        chat_arrival_def new_writer_def on_writer_def finish_writer_def ready_def checkUserCredentials_def chat_users_def)
qed (code_simp)+

end
