(* ===== verification/Spec2Isabelle.thy ===== *)
theory Spec2Isabelle
  imports WireProperties HandlersRegistry JsonRoundTrip GrpcClient GeneratorResults GeneratedClasses MessagePointers
    SerializerRegistry QmlStream QtTypes GrpcCredentials TypeRegistration ChannelThread BlockingWrites ServerPrinter
    ListModel ExampleServers
begin

text \<open>
  QtProtobuf: Protocol Buffers and gRPC for Qt. The program has three parts, all under \<open>src/src\<close>.

  \<^item> \<open>generator\<close>, a plugin of the protobuf compiler: it turns the messages, enumerations and services of a proto
    file into C++ classes. A message becomes a class with one Qt property for each field and a table that maps field
    numbers to properties, a service becomes a client with one method for each call.
  \<^item> \<open>protobuf\<close>, the runtime of the generated classes: the binary and the JSON serializer walk over that table and the
    meta object of the class; handlers for messages, lists, maps and enumerations are looked up in a registry. Message
    fields are lazy pointers that share their objects with QML. \<open>qttypes\<close> adds handlers for classes of Qt.
  \<^item> \<open>grpc\<close>, the client side of gRPC: a client serializes an argument, hands it to a channel and deserializes the
    answer. One channel wraps the gRPC library and its completion queue, the other speaks HTTP/2 over \<open>QNetworkAccessManager\<close>.
    \<open>grpc/quick\<close> has the item that streams into QML.

  The model is a shallow embedding: data are records and datatypes with the names of the sources, every function of
  the sources is a HOL function of its arguments and the state it changes. A call has an \<open>outcome\<close> (theory
  QtPrelude): a value, a C++ exception, undefined behaviour, or no result because the fuel of a loop or a recursion was
  used up. Theorems that promise a result therefore exclude exceptions, bad accesses and endless loops at once.

  Theories, in the order they build on each other, with the sources they model:

  \<^item> QtPrelude: outcomes, the 32 bit \<open>int\<close>, lemmas on words and lists.
  \<^item> SelfcheckIterator: \<open>qprotobufselfcheckiterator.h\<close>, the iterator that counts the bytes left.
  \<^item> Varint, BasicCodec: \<open>qprotobufserializer_p.h\<close>, varints, headers, length prefixes, skipping of fields; scalars of
    the fifteen types and their lists.
  \<^item> ProtobufSerializer: \<open>qprotobufserializer.cpp\<close> and \<open>qabstractprotobufserializer_p.h\<close>, messages with nested messages,
    lists, maps and enumerations. MessageRoundTrip proves that a well typed message is serialized and read back,
    WireProperties states this and what happens to unknown, invalid and oversized fields.
  \<^item> HandlersRegistry: the registry of \<open>qabstractprotobufserializer.cpp\<close> as a step relation of threads: readers
    and writers exclude each other, somebody can always go on, a registered handler is found.
  \<^item> JsonSerializer, JsonTexts, JsonRoundTrip: \<open>qprotobufjsonserializer.cpp\<close>; its output against the grammar of JSON, decimal
    numbers and Base64 as Qt writes them, the round trip of scalar messages.
  \<^item> MessagePointers: \<open>qprotobuflazymessagepointer.h\<close>, \<open>qqmllistpropertyconstructor.h\<close> and the comparisons of \<open>qtprotobuftypes.h\<close>
    over a store of objects with two kinds of owners.
  \<^item> SerializerRegistry, TypeRegistration: \<open>qprotobufserializerregistry.cpp\<close> with its plugins, and \<open>qtprotobuf.cpp\<close>.
  \<^item> QtTypes: \<open>qtprotobufqttypes.cpp\<close>, the conversions and handlers of 22 classes of Qt.
  \<^item> GrpcStatus, GrpcCalls, GrpcBidirect: \<open>qgrpcstatus.h\<close> and the call objects of \<open>qgrpcchannel.cpp\<close> with their reference
    counts, as histories of answers of the gRPC library in any order. GrpcSessions: what the channel reports to its
    client. In these theories an answer and its handler are one step.
  \<^item> CompletionQueue, ChannelThread: the worker thread of \<open>QGrpcChannelPrivate\<close> that takes answers off the completion queue and
    posts them to the thread of the client, with the constructor and the destructor of the channel. The threaded channel refines the one step
    histories when reads are handled before the end of a call is taken and the client does not call \<open>writeDone\<close>, which drops a reference
    nobody took (GrpcBidirect); what goes wrong otherwise, and when the channel or a synchronous call ends too early, is stated
    beside it.
  \<^item> BlockingWrites: \<open>writeBlocked\<close> and \<open>writeDoneBlocked\<close> of \<open>qgrpcasyncoperationwritebase\<close> with their event loop.
  \<^item> Http2Channel, GrpcCredentials: \<open>qgrpchttp2channel.cpp\<close> and the credentials. Requests, replies, and the reassembly
    of messages from chunks, which refines the list of messages the server sent.
  \<^item> GrpcClient: \<open>qabstractgrpcclient.h\<close>, \<open>qabstractgrpcclient.cpp\<close> and the operation objects; typed calls over either channel,
    the streams a client keeps open.
  \<^item> QmlStream: \<open>qquickgrpcstream.cpp\<close>, the stream item of QML.
  \<^item> GeneratorUtils, GeneratorTemplates, GeneratorCommon: helpers, options, the templates, descriptors and the maps of
    template variables (\<open>utils.h\<close>, \<open>generatoroptions.cpp\<close>, \<open>templates.cpp\<close>, \<open>generatorcommon.cpp\<close>). GeneratorPrinters,
    MessagePrinters: the printers, as the sequence of their calls of \<open>io::Printer\<close>. FileGenerators: the single-file
    and the multi-file generator and \<open>main.cpp\<close>. GeneratorProperties, GeneratorResults: all calls are accepted by the
    library (every variable has a value, blocks are closed), tables, declarations and definitions agree. ServerPrinter: the
    printer of servers, which no generator creates yet.
  \<^item> GeneratedClasses joins the generator and the serializer: the printed table makes every message of a generated class
    round trip.
  \<^item> ListModel, ExampleServers: of the examples under \<open>src/examples\<close>, the list model that shows messages to QML
    (\<open>universallistmodel.h\<close>) with the chat engine, and the two servers with their streams.

  Interfaces. Locales state what one component relies on: \<open>counted_call\<close> for the call objects of the native channel,
  interpreted for each of its three classes, and \<open>queued_call\<close> which extends it by what makes the order of its answers and handlers
  irrelevant; \<open>call_property\<close> for what holds of every printer if it holds of every
  single call; \<open>object_conversion\<close> and \<open>qt_classes\<close> for the handlers of Qt types; \<open>element_codec\<close> for the
  element of a packed list, interpreted for the scalars and for \<open>int64\<close>; \<open>unary_channel\<close> for what the client relies
  on, interpreted for the native and for the HTTP/2 transport, the latter with a \<open>size()\<close> of 32 bits. They are interpreted on the
  definitions of the model, and the properties rest on these interpretations.

  Bounds and fuel. Sizes are those of a Qt 6 build on a 64 bit little endian machine: \<open>int\<close> has 32 bits, \<open>qsizetype\<close> 64.
  Only the length field of an HTTP/2 request depends on the latter (the type argument of \<open>frame\<close>): with 64 bits it is zero, and what
  is proved of calls over HTTP/2 up to the server is about a build with 32 bits.
  Round trips are stated for byte arrays of less than 2147483600 bytes, since the serializer computes lengths in \<open>int\<close>.
  \<open>serializeMessage\<close> takes the depth of nested messages as its fuel, which \<open>fits_message\<close> and \<open>typed_message\<close> bound; one unit
  for each byte and one more is enough for \<open>deserializeMessage\<close>, whose loop reads at least the byte of a header in
  each turn. The loop of \<open>readyRead\<close> takes a message of at least five bytes off its container in each turn. The updates of
  \<open>QmlStream\<close> nest two deep. A function that waits, for the worker thread or in an event loop, takes the list of what happens meanwhile,
  and has no result when the list is used up. Where the code does not end, the theorem says so for every fuel.

  Parameters. Code outside the repository is an argument: UTF-8 and the hash order of Qt, the QML engine as a source
  of events, \<open>QPluginLoader\<close>, the metatype system, the inner structure of classes such as \<open>QUrl\<close>; the answers of the gRPC library and
  of the network, in any order; the JSON parser that the serializer includes, as a function that cuts an object into its
  properties; the descriptors of the protobuf compiler, as records. Their documented behaviour is the hypothesis
  of a property where it needs any, and a witness shows that it can hold.

  Not modelled: the QML plugins and the library of well-known types, which
  only register types or consist of generated code; logging, export macros and the build files; the locks
  inside \<open>QGrpcStatus\<close>; the move operations of lazy pointers and other code no generated class uses; tests; of the examples
  the tutorial, the address book client and reading certificates, which call the library or Qt only. The methods of the example servers run one
  at a time in the model; gRPC calls them on several threads, without a lock in the sources.
\<close>

end
